(* ===== verification/Base.thy ===== *)
theory Base
  imports Main "HOL-Library.Multiset"
begin

text \<open>
  Shared vocabulary of the development.

  Collections of facts (\<open>named_theorems\<close>), the error type a rejected promise or a
  thrown exception carries, and generic facts on lists, maps and sums that several
  components use.  A computation of the program that may throw has the type
  \<open>'e + 'a\<close>: \<open>Inl e\<close> is the thrown value, \<open>Inr x\<close> the returned one.
\<close>

named_theorems model_defs "definitions of the model that proofs unfold"
named_theorems path_simps "rewriting of slash-separated paths"
named_theorems batch_simps "facts about the batch loops (bulk delete, upload)"

subsection \<open>Sequencing of fallible computations\<close>

fun and_then :: "'e + 'a \<Rightarrow> ('a \<Rightarrow> 'e + 'b) \<Rightarrow> 'e + 'b" where
  "and_then (Inl e) f = Inl e"
| "and_then (Inr x) f = f x"

lemma and_then_assoc: "and_then (and_then r f) g = and_then r (\<lambda>x. and_then (f x) g)"
  by (cases r) auto

lemma and_then_Inr_iff:
  "and_then r f = Inr y \<longleftrightarrow> (\<exists>x. r = Inr x \<and> f x = Inr y)"
  by (cases r) auto

lemma and_then_Inl_iff:
  "and_then r f = Inl e \<longleftrightarrow> r = Inl e \<or> (\<exists>x. r = Inr x \<and> f x = Inl e)"
  by (cases r) auto

text \<open>Mapping a fallible function over an array: the first failure is the outcome.\<close>

fun map_sum_list :: "('a \<Rightarrow> 'e + 'b) \<Rightarrow> 'a list \<Rightarrow> 'e + 'b list" where
  "map_sum_list f [] = Inr []"
| "map_sum_list f (x # xs) =
     and_then (f x) (\<lambda>y. and_then (map_sum_list f xs) (\<lambda>ys. Inr (y # ys)))"

lemma map_sum_list_Inr:
  assumes "\<And>x. x \<in> set xs \<Longrightarrow> f x = Inr (g x)"
  shows "map_sum_list f xs = Inr (map g xs)"
  using assms by (induction xs) auto

lemma map_sum_list_inverse:
  "(\<And>x. x \<in> set xs \<Longrightarrow> f (g x) = Inr x) \<Longrightarrow> map_sum_list f (map g xs) = Inr xs"
  by (induction xs) auto

lemma map_sum_list_Inr_length:
  "map_sum_list f xs = Inr ys \<Longrightarrow> length ys = length xs"
  by (induction xs arbitrary: ys) (auto simp: and_then_Inr_iff)

lemma map_sum_list_Inr_nth:
  "map_sum_list f xs = Inr ys \<Longrightarrow> i < length xs \<Longrightarrow> f (xs ! i) = Inr (ys ! i)"
  by (induction xs arbitrary: ys i) (auto simp: and_then_Inr_iff nth_Cons split: nat.splits)

lemma map_sum_list_Inl:
  "map_sum_list f xs = Inl e \<longleftrightarrow>
    (\<exists>us x vs. xs = us @ x # vs \<and> f x = Inl e \<and> (\<forall>u\<in>set us. \<exists>y. f u = Inr y))"
proof (induction xs)
  case Nil
  then show ?case by simp
next
  case (Cons a xs)
  show ?case
  proof (cases "f a")
    case (Inl e')
    show ?thesis
    proof
      assume "map_sum_list f (a # xs) = Inl e"
      with Inl have "f a = Inl e" by simp
      then show "\<exists>us x vs. a # xs = us @ x # vs \<and> f x = Inl e
          \<and> (\<forall>u\<in>set us. \<exists>y. f u = Inr y)"
        by (intro exI [of _ "[]"]) auto
    next
      assume "\<exists>us x vs. a # xs = us @ x # vs \<and> f x = Inl e
          \<and> (\<forall>u\<in>set us. \<exists>y. f u = Inr y)"
      then obtain us x vs where d: "a # xs = us @ x # vs" "f x = Inl e"
        "\<forall>u\<in>set us. \<exists>y. f u = Inr y" by blast
      then have "us = []" using Inl by (cases us) auto
      with d Inl show "map_sum_list f (a # xs) = Inl e" by simp
    qed
  next
    case (Inr y)
    then have "map_sum_list f (a # xs) = Inl e \<longleftrightarrow> map_sum_list f xs = Inl e"
      by (auto simp: and_then_Inl_iff)
    also have "\<dots> \<longleftrightarrow> (\<exists>us x vs. a # xs = us @ x # vs \<and> f x = Inl e
          \<and> (\<forall>u\<in>set us. \<exists>y. f u = Inr y))"
    proof
      assume "map_sum_list f xs = Inl e"
      with Cons.IH obtain us x vs where "xs = us @ x # vs" "f x = Inl e"
        "\<forall>u\<in>set us. \<exists>y. f u = Inr y" by auto
      with Inr show "\<exists>us x vs. a # xs = us @ x # vs \<and> f x = Inl e
          \<and> (\<forall>u\<in>set us. \<exists>y. f u = Inr y)"
        by (intro exI [of _ "a # us"]) auto
    next
      assume "\<exists>us x vs. a # xs = us @ x # vs \<and> f x = Inl e
          \<and> (\<forall>u\<in>set us. \<exists>y. f u = Inr y)"
      then obtain us x vs where d: "a # xs = us @ x # vs" "f x = Inl e"
        "\<forall>u\<in>set us. \<exists>y. f u = Inr y" by blast
      with Inr obtain us' where "us = a # us'" by (cases us) auto
      with d show "map_sum_list f xs = Inl e" using Cons.IH by auto
    qed
    finally show ?thesis .
  qed
qed

subsection \<open>Lists\<close>

text \<open>Array.prototype.find: the first element that satisfies the predicate, or undefined.\<close>

lemma find_Some_in_set: "find P xs = Some x \<Longrightarrow> x \<in> set xs \<and> P x"
  by (auto simp: find_Some_iff)

lemma find_append: "find P (xs @ ys) = (case find P xs of None \<Rightarrow> find P ys | Some x \<Rightarrow> Some x)"
  by (induction xs) auto

text \<open>Array.prototype.indexOf: the least index, none where the source has -1.\<close>

fun index_of :: "'a list \<Rightarrow> 'a \<Rightarrow> nat option" where
  "index_of [] x = None"
| "index_of (y # ys) x = (if y = x then Some 0 else map_option Suc (index_of ys x))"

lemma index_of_None: "index_of xs x = None \<longleftrightarrow> x \<notin> set xs"
  by (induction xs) auto

lemma index_of_Some:
  "index_of xs x = Some i \<Longrightarrow> i < length xs \<and> xs ! i = x \<and> (\<forall>j<i. xs ! j \<noteq> x)"
proof (induction xs arbitrary: i)
  case Nil
  then show ?case by simp
next
  case (Cons y ys)
  show ?case
  proof (cases "y = x")
    case True
    with Cons.prems show ?thesis by simp
  next
    case False
    with Cons.prems obtain k where k: "index_of ys x = Some k" "i = Suc k" by auto
    from Cons.IH [OF k(1)] False k(2) show ?thesis
      by (auto simp: nth_Cons split: nat.splits)
  qed
qed

lemma index_of_distinct: "distinct xs \<Longrightarrow> i < length xs \<Longrightarrow> index_of xs (xs ! i) = Some i"
proof (induction xs arbitrary: i)
  case Nil
  then show ?case by simp
next
  case (Cons y ys)
  then show ?case by (cases i) auto
qed

lemma length_filter_partition:
  "length xs = length (filter P xs) + length (filter (\<lambda>x. \<not> P x) xs)"
  by (induction xs) auto

text \<open>Keeping the first occurrence of every key, in order (a Set of seen keys).\<close>

fun dedup_by :: "('a \<Rightarrow> 'k) \<Rightarrow> 'k set \<Rightarrow> 'a list \<Rightarrow> 'a list" where
  "dedup_by f seen [] = []"
| "dedup_by f seen (x # xs) =
     (if f x \<in> seen then dedup_by f seen xs else x # dedup_by f (insert (f x) seen) xs)"

lemma dedup_by_keys: "f ` set (dedup_by f seen xs) = f ` set xs - seen"
  by (induction xs arbitrary: seen) auto

lemma dedup_by_subset: "set (dedup_by f seen xs) \<subseteq> set xs"
  by (induction xs arbitrary: seen) auto

lemma dedup_by_distinct: "distinct (map f (dedup_by f seen xs))"
proof (induction xs arbitrary: seen)
  case Nil
  then show ?case by simp
next
  case (Cons x xs)
  have "f x \<notin> f ` set (dedup_by f (insert (f x) seen) xs)"
    by (simp add: dedup_by_keys)
  with Cons show ?case by simp
qed

lemma dedup_by_append:
  "dedup_by f seen (xs @ ys) = dedup_by f seen xs @ dedup_by f (seen \<union> f ` set xs) ys"
  by (induction xs arbitrary: seen) (auto simp: insert_absorb)

lemma dedup_by_id:
  "distinct (map f xs) \<Longrightarrow> f ` set xs \<inter> seen = {} \<Longrightarrow> dedup_by f seen xs = xs"
  by (induction xs arbitrary: seen) auto

end
