(* ===== verification/Js_Text.thy ===== *)
theory Js_Text
  imports Base
begin

text \<open>
  The operations of JavaScript's standard library on strings that the frontend uses.

  A JavaScript string is represented by its UTF-8 encoding, a \<open>string\<close> (list of
  8-bit \<open>char\<close>s).  Concatenation, equality, \<open>split\<close>, \<open>join\<close>,
  \<open>startsWith\<close>, \<open>includes\<close> and searches for an ASCII character commute with
  that encoding (UTF-8 is a prefix code), \<open>encodeURIComponent\<close> works on it byte by
  byte, and \<open>length\<close> (UTF-16 code units) is counted by \<open>js_length\<close>.  Strings
  with unpaired surrogates have no UTF-8 encoding and are outside the model (S3 keys are
  UTF-8 by definition); \<open>utf8_valid\<close> marks the byte lists that are encodings.
\<close>

subsection \<open>split, join and the searches\<close>

fun split_on :: "char \<Rightarrow> string \<Rightarrow> string list" where
  "split_on c [] = [[]]"
| "split_on c (x # xs) =
     (if x = c then [] # split_on c xs
      else (x # hd (split_on c xs)) # tl (split_on c xs))"

fun join_with :: "string \<Rightarrow> string list \<Rightarrow> string" where
  "join_with d [] = []"
| "join_with d [s] = s"
| "join_with d (s # t # ts) = s @ d @ join_with d (t # ts)"

definition starts_with :: "string \<Rightarrow> string \<Rightarrow> bool" where
  "starts_with s p \<longleftrightarrow> take (length p) s = p"

fun js_includes :: "string \<Rightarrow> string \<Rightarrow> bool" where
  "js_includes [] p \<longleftrightarrow> p = []"
| "js_includes (x # xs) p \<longleftrightarrow> starts_with (x # xs) p \<or> js_includes xs p"

lemma split_on_nonempty [simp]: "split_on c s \<noteq> []"
  by (cases s) auto

lemma split_on_Cons_hd_tl: "split_on c s = hd (split_on c s) # tl (split_on c s)"
  by simp

lemma join_split [simp]: "join_with [c] (split_on c s) = s"
proof (induction s)
  case Nil
  then show ?case by simp
next
  case (Cons x xs)
  obtain h t where ht: "split_on c xs = h # t"
    using split_on_nonempty by (metis neq_Nil_conv)
  with Cons show ?case by (cases t) auto
qed

lemma split_on_pieces: "p \<in> set (split_on c s) \<Longrightarrow> c \<notin> set p"
proof (induction s arbitrary: p)
  case Nil
  then show ?case by simp
next
  case (Cons x xs)
  obtain h t where ht: "split_on c xs = h # t"
    using split_on_nonempty by (metis neq_Nil_conv)
  with Cons show ?case by (auto split: if_splits)
qed

lemma split_on_no_sep: "c \<notin> set s \<Longrightarrow> split_on c s = [s]"
  by (induction s) auto

lemma split_on_append_sep: "c \<notin> set s \<Longrightarrow> split_on c (s @ c # t) = s # split_on c t"
  by (induction s) auto

lemma split_join:
  "ss \<noteq> [] \<Longrightarrow> (\<And>s. s \<in> set ss \<Longrightarrow> c \<notin> set s) \<Longrightarrow> split_on c (join_with [c] ss) = ss"
proof (induction "[c]" ss rule: join_with.induct)
  case (3 s t ts)
  have "split_on c (s @ c # join_with [c] (t # ts)) = s # split_on c (join_with [c] (t # ts))"
    by (rule split_on_append_sep) (use 3 in auto)
  with 3 show ?case by simp
qed (auto simp: split_on_no_sep)

lemma set_split_on: "p \<in> set (split_on c s) \<Longrightarrow> set p \<subseteq> set s"
proof (induction s arbitrary: p)
  case Nil
  then show ?case by simp
next
  case (Cons x xs)
  obtain h t where "split_on c xs = h # t"
    using split_on_nonempty by (metis neq_Nil_conv)
  with Cons show ?case by (fastforce split: if_splits)
qed

lemma set_join_with:
  "set (join_with d ss) \<subseteq> set d \<union> (\<Union>s\<in>set ss. set s)"
  by (induction d ss rule: join_with.induct) auto

lemma join_with_append:
  "xs \<noteq> [] \<Longrightarrow> ys \<noteq> [] \<Longrightarrow> join_with d (xs @ ys) = join_with d xs @ d @ join_with d ys"
proof (induction d xs rule: join_with.induct)
  case (2 d s)
  then show ?case by (cases ys) auto
qed auto

lemma join_with_snoc: "xs \<noteq> [] \<Longrightarrow> join_with d (xs @ [y]) = join_with d xs @ d @ y"
  by (simp add: join_with_append)

lemma starts_with_iff: "starts_with s p \<longleftrightarrow> (\<exists>r. s = p @ r)"
  unfolding starts_with_def by (metis append_eq_conv_conj append_take_drop_id)

lemma starts_with_refl [simp]: "starts_with s s"
  by (simp add: starts_with_def)

lemma starts_with_append [simp]: "starts_with (p @ r) p"
  by (simp add: starts_with_def)

lemma starts_with_trans: "starts_with a b \<Longrightarrow> starts_with b c \<Longrightarrow> starts_with a c"
  by (auto simp: starts_with_iff)

lemma js_includes_iff: "js_includes s p \<longleftrightarrow> (\<exists>u v. s = u @ p @ v)"
proof (induction s)
  case Nil
  then show ?case by simp
next
  case (Cons x xs)
  show ?case
  proof
    assume "js_includes (x # xs) p"
    then consider "starts_with (x # xs) p" | "js_includes xs p" by auto
    then show "\<exists>u v. x # xs = u @ p @ v"
    proof cases
      case 1
      then show ?thesis by (auto simp: starts_with_iff intro: exI [of _ "[]"])
    next
      case 2
      with Cons obtain u v where "xs = u @ p @ v" by blast
      then show ?thesis by (metis append_Cons)
    qed
  next
    assume "\<exists>u v. x # xs = u @ p @ v"
    then obtain u v where uv: "x # xs = u @ p @ v" by blast
    then show "js_includes (x # xs) p"
    proof (cases u)
      case Nil
      with uv have "starts_with (x # xs) p" by (simp add: starts_with_iff)
      then show ?thesis by simp
    next
      case (Cons y us)
      with uv have "xs = us @ p @ v" by simp
      with Cons.IH show ?thesis by auto
    qed
  qed
qed

subsection \<open>Stripping a character from both ends\<close>

text \<open>\<open>s.replace(/^c+|c+$/g, "")\<close> and \<open>s.replace(/c+$/, "")\<close>.\<close>

definition strip_front :: "char \<Rightarrow> string \<Rightarrow> string" where
  "strip_front c s = dropWhile (\<lambda>x. x = c) s"

definition strip_back :: "char \<Rightarrow> string \<Rightarrow> string" where
  "strip_back c s = rev (dropWhile (\<lambda>x. x = c) (rev s))"

definition strip_both :: "char \<Rightarrow> string \<Rightarrow> string" where
  "strip_both c s = strip_back c (strip_front c s)"

lemma strip_back_snoc: "strip_back c (s @ [x]) = (if x = c then strip_back c s else s @ [x])"
  by (simp add: strip_back_def)

lemma strip_back_Nil [simp]: "strip_back c [] = []"
  by (simp add: strip_back_def)

lemma strip_back_last: "strip_back c s \<noteq> [] \<Longrightarrow> last (strip_back c s) \<noteq> c"
  by (induction s rule: rev_induct) (auto simp: strip_back_snoc)

lemma strip_back_id: "s = [] \<or> last s \<noteq> c \<Longrightarrow> strip_back c s = s"
  by (induction s rule: rev_induct) (auto simp: strip_back_snoc)

lemma strip_back_prefix: "\<exists>n. s = strip_back c s @ replicate n c"
proof (induction s rule: rev_induct)
  case Nil
  then show ?case by simp
next
  case (snoc x xs)
  show ?case
  proof (cases "x = c")
    case True
    from snoc obtain n where n: "xs = strip_back c xs @ replicate n c" by blast
    have "xs @ [c] = (strip_back c xs @ replicate n c) @ [c]" using n by simp
    also have "\<dots> = strip_back c xs @ replicate (Suc n) c"
      by (simp add: replicate_append_same)
    finally show ?thesis using True strip_back_snoc by metis
  next
    case False
    then show ?thesis by (intro exI [of _ 0]) (simp add: strip_back_snoc)
  qed
qed

lemma strip_front_id: "s = [] \<or> hd s \<noteq> c \<Longrightarrow> strip_front c s = s"
  by (cases s) (auto simp: strip_front_def)

lemma strip_front_hd: "strip_front c s \<noteq> [] \<Longrightarrow> hd (strip_front c s) \<noteq> c"
  by (induction s) (auto simp: strip_front_def)

lemma strip_both_id:
  "s = [] \<or> (hd s \<noteq> c \<and> last s \<noteq> c) \<Longrightarrow> strip_both c s = s"
  unfolding strip_both_def using strip_front_id [of s c] strip_back_id [of s c] by auto

lemma strip_both_ends:
  assumes "strip_both c s \<noteq> []"
  shows "hd (strip_both c s) \<noteq> c \<and> last (strip_both c s) \<noteq> c"
proof
  show "last (strip_both c s) \<noteq> c"
    using assms unfolding strip_both_def by (rule strip_back_last)
  obtain n where n: "strip_front c s = strip_both c s @ replicate n c"
    using strip_back_prefix unfolding strip_both_def by blast
  have "strip_front c s \<noteq> []" using n assms by auto
  then have "hd (strip_front c s) \<noteq> c" by (rule strip_front_hd)
  with n assms show "hd (strip_both c s) \<noteq> c" by (metis hd_append2)
qed

lemma strip_both_idem [simp]: "strip_both c (strip_both c s) = strip_both c s"
  using strip_both_ends strip_both_id by metis

lemma set_strip_both: "set (strip_both c s) \<subseteq> set s"
  unfolding strip_both_def strip_back_def strip_front_def
  by (auto dest!: set_dropWhileD)

subsection \<open>Decimal numerals (String(n) for a non-negative integer)\<close>

definition digit_char :: "nat \<Rightarrow> char" where
  "digit_char d = char_of (48 + d)"

lemma digit_char_simps [simp]:
  "digit_char 0 = CHR ''0''" "digit_char (Suc 0) = CHR ''1''" "digit_char 1 = CHR ''1''"
  "digit_char 2 = CHR ''2''" "digit_char 3 = CHR ''3''" "digit_char 4 = CHR ''4''"
  "digit_char 5 = CHR ''5''" "digit_char 6 = CHR ''6''" "digit_char 7 = CHR ''7''"
  "digit_char 8 = CHR ''8''" "digit_char 9 = CHR ''9''"
  by code_simp+

fun nat_str :: "nat \<Rightarrow> string" where
  "nat_str n = (if n < 10 then [digit_char n] else nat_str (n div 10) @ [digit_char (n mod 10)])"

declare nat_str.simps [simp del]

definition int_str :: "int \<Rightarrow> string" where
  "int_str i = (if i < 0 then CHR ''-'' # nat_str (nat (- i)) else nat_str (nat i))"

lemma nat_str_nonempty [simp]: "nat_str n \<noteq> []"
  by (subst nat_str.simps) simp

text \<open>\<open>Number(s)\<close> of a string of decimal digits (the empty string is 0), None for
  anything else.\<close>

definition is_digit :: "char \<Rightarrow> bool" where
  "is_digit c \<longleftrightarrow> 48 \<le> (of_char c :: nat) \<and> (of_char c :: nat) \<le> 57"

definition js_Number :: "string \<Rightarrow> nat option" where
  "js_Number s = (if list_all is_digit s
     then Some (foldl (\<lambda>n c. 10 * n + (of_char c - 48)) 0 s) else None)"

lemma digit_of: "d < 10 \<Longrightarrow> (of_char (digit_char d) :: nat) = 48 + d"
  by (simp add: digit_char_def)

lemma is_digit_digit_char: "d < 10 \<Longrightarrow> is_digit (digit_char d)"
  by (simp add: is_digit_def digit_of)

lemma nat_str_digits: "list_all is_digit (nat_str n)"
proof (induction n rule: nat_str.induct)
  case (1 n)
  then show ?case
    by (subst nat_str.simps) (simp add: is_digit_digit_char)
qed

lemma foldl_nat_str: "foldl (\<lambda>n c. 10 * n + (of_char c - 48)) 0 (nat_str n) = n"
proof (induction n rule: nat_str.induct)
  case (1 n)
  then show ?case
    by (subst nat_str.simps) (simp add: digit_of)
qed

lemma js_Number_nat_str [simp]: "js_Number (nat_str n) = Some n"
  by (simp add: js_Number_def nat_str_digits foldl_nat_str)

lemma nat_str_inject [simp]: "nat_str m = nat_str n \<longleftrightarrow> m = n"
  by (metis js_Number_nat_str option.inject)

end
