(* ===== verification/Uri_Codec.thy ===== *)
theory Uri_Codec
  imports Js_Text
begin

text \<open>
  \<open>encodeURIComponent\<close> and \<open>decodeURIComponent\<close> of the standard library, on the
  UTF-8 representation of \<open>Js_Text\<close>.  Encoding writes every byte outside the
  unreserved set as \<open>%XX\<close>.  Decoding reads the percent sequences, checks that every
  byte above 127 they produce starts a complete UTF-8 sequence that is itself written in
  percent form, and throws a URIError otherwise.
\<close>

subsection \<open>UTF-8\<close>

definition is_cont :: "nat \<Rightarrow> bool" where
  "is_cont b \<longleftrightarrow> 128 \<le> b \<and> b < 192"

definition lead2 :: "nat \<Rightarrow> bool" where
  "lead2 b \<longleftrightarrow> 194 \<le> b \<and> b < 224"

text \<open>Three bytes: no overlong form (E0) and no surrogate (ED).\<close>

definition lead3 :: "nat \<Rightarrow> nat \<Rightarrow> bool" where
  "lead3 b c1 \<longleftrightarrow> 224 \<le> b \<and> b < 240 \<and> is_cont c1
     \<and> (b = 224 \<longrightarrow> 160 \<le> c1) \<and> (b = 237 \<longrightarrow> c1 < 160)"

text \<open>Four bytes: no overlong form (F0) and nothing above U+10FFFF (F4).\<close>

definition lead4 :: "nat \<Rightarrow> nat \<Rightarrow> bool" where
  "lead4 b c1 \<longleftrightarrow> 240 \<le> b \<and> b < 245 \<and> is_cont c1
     \<and> (b = 240 \<longrightarrow> 144 \<le> c1) \<and> (b = 244 \<longrightarrow> c1 < 144)"

fun utf8_bytes_valid :: "nat list \<Rightarrow> bool" where
  "utf8_bytes_valid [] \<longleftrightarrow> True"
| "utf8_bytes_valid (b # bs) \<longleftrightarrow>
     (if b < 128 then utf8_bytes_valid bs
      else (case bs of
          [] \<Rightarrow> False
        | c1 # r1 \<Rightarrow>
            if lead2 b then is_cont c1 \<and> utf8_bytes_valid r1
            else (case r1 of
                [] \<Rightarrow> False
              | c2 # r2 \<Rightarrow>
                  if lead3 b c1 then is_cont c2 \<and> utf8_bytes_valid r2
                  else (case r2 of
                      [] \<Rightarrow> False
                    | c3 # r3 \<Rightarrow> lead4 b c1 \<and> is_cont c2 \<and> is_cont c3 \<and> utf8_bytes_valid r3))))"

definition utf8_valid :: "string \<Rightarrow> bool" where
  "utf8_valid s \<longleftrightarrow> utf8_bytes_valid (map of_char s)"

text \<open>The number of UTF-16 code units (\<open>s.length\<close>) of an encoded string.\<close>

definition units_of_byte :: "nat \<Rightarrow> nat" where
  "units_of_byte b = (if b < 128 then 1 else if b < 192 then 0 else if b < 240 then 1 else 2)"

definition js_length :: "string \<Rightarrow> nat" where
  "js_length s = sum_list (map (\<lambda>c. units_of_byte (of_char c)) s)"

text \<open>The code points of an encoded string, the elements a \<open>/u\<close> regular expression
  matches one at a time.\<close>

fun code_points_of :: "nat list \<Rightarrow> nat list" where
  "code_points_of [] = []"
| "code_points_of (b # bs) =
     (if b < 128 then b # code_points_of bs
      else (case bs of
          [] \<Rightarrow> []
        | c1 # r1 \<Rightarrow>
            if lead2 b then ((b - 192) * 64 + (c1 - 128)) # code_points_of r1
            else (case r1 of
                [] \<Rightarrow> []
              | c2 # r2 \<Rightarrow>
                  if lead3 b c1 then
                    ((b - 224) * 4096 + (c1 - 128) * 64 + (c2 - 128)) # code_points_of r2
                  else (case r2 of
                      [] \<Rightarrow> []
                    | c3 # r3 \<Rightarrow>
                        ((b - 240) * 262144 + (c1 - 128) * 4096 + (c2 - 128) * 64 + (c3 - 128))
                          # code_points_of r3))))"

definition code_points :: "string \<Rightarrow> nat list" where
  "code_points s = code_points_of (map of_char s)"

lemma code_points_ascii:
  "\<forall>c\<in>set s. (of_char c :: nat) < 128 \<Longrightarrow> code_points s = map of_char s"
  unfolding code_points_def by (induction s) auto

lemma utf8_valid_ascii: "\<forall>c\<in>set s. (of_char c :: nat) < 128 \<Longrightarrow> utf8_valid s"
  unfolding utf8_valid_def by (induction s) auto

lemma js_length_ascii: "\<forall>c\<in>set s. (of_char c :: nat) < 128 \<Longrightarrow> js_length s = length s"
  unfolding js_length_def by (induction s) (auto simp: units_of_byte_def)

subsection \<open>Percent encoding\<close>

datatype uri_error = URIError

lemma uri_error_eq: "e = URIError"
  by (cases e) simp

definition hex_digit :: "nat \<Rightarrow> char" where
  "hex_digit n = (if n < 10 then char_of (48 + n) else char_of (55 + n))"

definition hex_value :: "char \<Rightarrow> nat option" where
  "hex_value c = (let n = of_char c in
     if 48 \<le> n \<and> n \<le> 57 then Some (n - 48)
     else if 65 \<le> n \<and> n \<le> 70 then Some (n - 55)
     else if 97 \<le> n \<and> n \<le> 102 then Some (n - 87)
     else None)"

text \<open>A-Z a-z 0-9 and \<open>- _ . ! ~ * ' ( )\<close>.\<close>

definition uri_unreserved :: "char \<Rightarrow> bool" where
  "uri_unreserved c = (let n = (of_char c :: nat) in
     (65 \<le> n \<and> n \<le> 90) \<or> (97 \<le> n \<and> n \<le> 122) \<or> (48 \<le> n \<and> n \<le> 57)
     \<or> n \<in> {45, 95, 46, 33, 126, 42, 39, 40, 41})"

definition pct_encode_char :: "char \<Rightarrow> string" where
  "pct_encode_char c =
     (if uri_unreserved c then [c]
      else [CHR ''%'', hex_digit (of_char c div 16), hex_digit (of_char c mod 16)])"

definition encodeURIComponent :: "string \<Rightarrow> string" where
  "encodeURIComponent s = concat (map pct_encode_char s)"

text \<open>Decoding first splits the text into plain characters and percent bytes.\<close>

datatype uri_token = Raw char | Pct nat

fun uri_tokens :: "string \<Rightarrow> uri_token list option" where
  "uri_tokens [] = Some []"
| "uri_tokens (c # cs) =
     (if c = CHR ''%'' then
        (case cs of
           h # l # r \<Rightarrow>
             (case (hex_value h, hex_value l) of
                (Some a, Some b) \<Rightarrow> map_option ((#) (Pct (16 * a + b))) (uri_tokens r)
              | _ \<Rightarrow> None)
         | _ \<Rightarrow> None)
      else map_option ((#) (Raw c)) (uri_tokens cs))"

text \<open>Then the percent bytes are put together.\<close>

fun assemble :: "uri_token list \<Rightarrow> string option" where
  "assemble [] = Some []"
| "assemble (Raw c # ts) = map_option ((#) c) (assemble ts)"
| "assemble (Pct b # ts) =
     (if b < 128 then map_option ((#) (char_of b)) (assemble ts)
      else (case ts of
          Pct c1 # r1 \<Rightarrow>
            if lead2 b then
              (if is_cont c1 then map_option (\<lambda>s. char_of b # char_of c1 # s) (assemble r1)
               else None)
            else (case r1 of
                Pct c2 # r2 \<Rightarrow>
                  if lead3 b c1 then
                    (if is_cont c2 then
                       map_option (\<lambda>s. char_of b # char_of c1 # char_of c2 # s) (assemble r2)
                     else None)
                  else (case r2 of
                      Pct c3 # r3 \<Rightarrow>
                        (if lead4 b c1 \<and> is_cont c2 \<and> is_cont c3 then
                           map_option (\<lambda>s. char_of b # char_of c1 # char_of c2 # char_of c3 # s)
                             (assemble r3)
                         else None)
                    | _ \<Rightarrow> None)
              | _ \<Rightarrow> None)
        | _ \<Rightarrow> None))"

definition decodeURIComponent :: "string \<Rightarrow> uri_error + string" where
  "decodeURIComponent s =
     (case Option.bind (uri_tokens s) assemble of None \<Rightarrow> Inl URIError | Some t \<Rightarrow> Inr t)"

subsection \<open>Decoding undoes encoding\<close>

lemma of_char_256 [simp]: "(of_char c :: nat) < 256"
  using of_char_mod_256 [of c, where ?'a = nat] by (metis mod_less_divisor zero_less_numeral)

lemma hex_value_digit: "n < 16 \<Longrightarrow> hex_value (hex_digit n) = Some n"
  by (auto simp: hex_value_def hex_digit_def Let_def)

lemma unreserved_not_pct: "uri_unreserved c \<Longrightarrow> c \<noteq> CHR ''%''"
  by (auto simp: uri_unreserved_def)

lemma unreserved_ascii: "uri_unreserved c \<Longrightarrow> (of_char c :: nat) < 128"
  by (auto simp: uri_unreserved_def Let_def)

text \<open>An encoder that leaves the ASCII characters of \<open>P\<close> as they are.\<close>

definition token_by :: "(char \<Rightarrow> bool) \<Rightarrow> char \<Rightarrow> uri_token" where
  "token_by P c = (if P c then Raw c else Pct (of_char c))"

abbreviation token_of :: "char \<Rightarrow> uri_token" where
  "token_of \<equiv> token_by uri_unreserved"

lemma uri_tokens_encode: "uri_tokens (encodeURIComponent s) = Some (map token_of s)"
proof (induction s)
  case Nil
  then show ?case by (simp add: encodeURIComponent_def)
next
  case (Cons c s)
  have "(of_char c :: nat) div 16 < 16"
    using of_char_256 [of c] by (simp add: less_mult_imp_div_less)
  with Cons show ?case
    by (auto simp: encodeURIComponent_def pct_encode_char_def token_by_def hex_value_digit
        unreserved_not_pct)
qed

lemma token_of_cont:
  "(\<And>c. P c \<Longrightarrow> (of_char c :: nat) < 128) \<Longrightarrow> is_cont (of_char c) \<Longrightarrow> token_by P c = Pct (of_char c)"
  by (fastforce simp: token_by_def is_cont_def)

lemma lead_cont: "lead3 b c \<Longrightarrow> is_cont c" "lead4 b c \<Longrightarrow> is_cont c"
  by (auto simp: lead3_def lead4_def)

lemma assemble_tokens:
  assumes P: "\<And>c. P c \<Longrightarrow> (of_char c :: nat) < 128"
  shows "utf8_bytes_valid bs \<Longrightarrow> bs = map of_char s \<Longrightarrow> assemble (map (token_by P) s) = Some s"
proof (induction bs arbitrary: s rule: utf8_bytes_valid.induct)
  case 1
  then show ?case by simp
next
  case (2 b bs)
  then obtain c cs where s: "s = c # cs" "b = of_char c" "bs = map of_char cs"
    by (cases s) auto
  show ?case
  proof (cases "b < 128")
    case True
    with 2 s have "assemble (map (token_by P) cs) = Some cs" by simp
    with True s show ?thesis by (auto simp: token_by_def [of P c])
  next
    case False
    then have tok: "token_by P c = Pct b" using P [of c] s by (auto simp: token_by_def)
    from False 2(5) s obtain d ds where cs: "cs = d # ds" by (cases cs) auto
    show ?thesis
    proof (cases "lead2 b")
      case True
      with False 2(5) s cs have d: "is_cont (of_char d)" and "utf8_bytes_valid (map of_char ds)"
        by auto
      with 2(2) False True s cs have "assemble (map (token_by P) ds) = Some ds" by simp
      with False True s cs tok d show ?thesis by (simp add: token_of_cont [OF P])
    next
      case not2: False
      from False not2 2(5) s cs obtain e es where ds: "ds = e # es" by (cases ds) auto
      show ?thesis
      proof (cases "lead3 b (of_char d)")
        case True
        with False not2 2(5) s cs ds
        have e: "is_cont (of_char e)" and "utf8_bytes_valid (map of_char es)" by auto
        with 2(3) False not2 True s cs ds have "assemble (map (token_by P) es) = Some es" by simp
        with False not2 True s cs ds tok e lead_cont(1) [OF True] show ?thesis
          by (simp add: token_of_cont [OF P])
      next
        case not3: False
        from False not2 not3 2(5) s cs ds obtain f fs where es: "es = f # fs" by (cases es) auto
        with False not2 not3 2(5) s cs ds
        have l4: "lead4 b (of_char d)" and ef: "is_cont (of_char e)" "is_cont (of_char f)"
          and "utf8_bytes_valid (map of_char fs)" by auto
        with 2(4) False not2 not3 s cs ds es have "assemble (map (token_by P) fs) = Some fs" by simp
        with False not2 not3 s cs ds es tok ef l4 lead_cont(2) [OF l4] show ?thesis
          by (simp add: token_of_cont [OF P])
      qed
    qed
  qed
qed

lemma decode_encode: "utf8_valid s \<Longrightarrow> decodeURIComponent (encodeURIComponent s) = Inr s"
  by (simp add: decodeURIComponent_def uri_tokens_encode utf8_valid_def
      assemble_tokens [OF unreserved_ascii])

text \<open>Text in which every byte is written as a percent escape (the RFC 5987 form a server may
  send) decodes too.\<close>

definition pct_encode_all :: "string \<Rightarrow> string" where
  "pct_encode_all s =
     concat (map (\<lambda>c. [CHR ''%'', hex_digit (of_char c div 16), hex_digit (of_char c mod 16)]) s)"

lemma uri_tokens_all: "uri_tokens (pct_encode_all s) = Some (map (token_by (\<lambda>_. False)) s)"
proof (induction s)
  case (Cons c s)
  have "(of_char c :: nat) div 16 < 16"
    using of_char_256 [of c] by (simp add: less_mult_imp_div_less)
  with Cons show ?case by (simp add: pct_encode_all_def hex_value_digit token_by_def)
qed (simp add: pct_encode_all_def)

lemma decode_all: "utf8_valid s \<Longrightarrow> decodeURIComponent (pct_encode_all s) = Inr s"
  using assemble_tokens [of "\<lambda>_. False" "map of_char s" s]
  by (simp add: decodeURIComponent_def uri_tokens_all utf8_valid_def)

text \<open>Decoding leaves text without percent signs alone.\<close>

lemma uri_tokens_plain: "CHR ''%'' \<notin> set s \<Longrightarrow> uri_tokens s = Some (map Raw s)"
  by (induction s) auto

lemma assemble_raw: "assemble (map Raw s) = Some s"
  by (induction s) auto

lemma decode_plain: "CHR ''%'' \<notin> set s \<Longrightarrow> decodeURIComponent s = Inr s"
  by (simp add: decodeURIComponent_def uri_tokens_plain assemble_raw)

text \<open>Text that ends in a bare percent sign never decodes.\<close>

lemma hex_value_pct [simp]: "hex_value CHR ''%'' = None"
  by (simp add: hex_value_def)

lemma uri_tokens_trailing_pct: "uri_tokens (s @ ''%'') = None"
proof (induction s rule: uri_tokens.induct)
  case 1
  then show ?case by simp
next
  case (2 c cs)
  show ?case
  proof (cases "c = CHR ''%''")
    case False
    with 2 show ?thesis by simp
  next
    case True
    consider "cs = []" | x where "cs = [x]" | h l r where "cs = h # l # r"
      by (metis neq_Nil_conv)
    then show ?thesis
    proof cases
      case 3
      with True 2(1) show ?thesis
        by (cases "hex_value h"; cases "hex_value l") auto
    qed (use True in \<open>auto split: option.splits\<close>)
  qed
qed

lemma decode_trailing_pct: "decodeURIComponent (s @ ''%'') = Inl URIError"
  by (simp add: decodeURIComponent_def uri_tokens_trailing_pct)

subsection \<open>The alphabet of encoded text\<close>

definition uri_safe_char :: "char \<Rightarrow> bool" where
  "uri_safe_char c \<longleftrightarrow> uri_unreserved c \<or> c = CHR ''%''"

lemma hex_digit_unreserved: "n < 16 \<Longrightarrow> uri_unreserved (hex_digit n)"
  by (auto simp: hex_digit_def uri_unreserved_def Let_def)

lemma encode_safe: "c \<in> set (encodeURIComponent s) \<Longrightarrow> uri_safe_char c"
  using hex_digit_unreserved of_char_256
  by (auto simp: encodeURIComponent_def pct_encode_char_def uri_safe_char_def
      less_mult_imp_div_less split: if_splits)

lemma encode_no_slash: "CHR ''/'' \<notin> set (encodeURIComponent s)"
proof
  assume "CHR ''/'' \<in> set (encodeURIComponent s)"
  from encode_safe [OF this] show False
    by (simp add: uri_safe_char_def uri_unreserved_def)
qed

lemma encode_empty [simp]: "encodeURIComponent s = [] \<longleftrightarrow> s = []"
  by (cases s) (auto simp: encodeURIComponent_def pct_encode_char_def)

lemma encode_Nil [simp]: "encodeURIComponent [] = []"
  by simp

lemma utf8_bytes_valid_append_ascii:
  "b < 128 \<Longrightarrow> utf8_bytes_valid (xs @ b # ys) \<longleftrightarrow> utf8_bytes_valid xs \<and> utf8_bytes_valid ys"
proof (induction xs rule: utf8_bytes_valid.induct)
  case 1
  then show ?case by simp
next
  case (2 x xs)
  have nl: "\<not> is_cont b" "\<not> lead3 x b" "\<not> lead4 x b"
    using 2(5) by (auto simp: is_cont_def lead3_def lead4_def)
  show ?case
  proof (cases "x < 128")
    case True
    with 2 show ?thesis by simp
  next
    case F: False
    show ?thesis
    proof (cases xs)
      case Nil
      with F nl show ?thesis by (auto split: list.splits)
    next
      case x1: (Cons c1 r1)
      show ?thesis
      proof (cases "lead2 x")
        case True
        with F x1 2(2) 2(5) show ?thesis by simp
      next
        case n2: False
        show ?thesis
        proof (cases r1)
          case Nil
          with F x1 n2 nl show ?thesis by (auto split: list.splits)
        next
          case x2: (Cons c2 r2)
          show ?thesis
          proof (cases "lead3 x c1")
            case True
            with F x1 n2 x2 2(3) 2(5) show ?thesis by simp
          next
            case n3: False
            with F x1 n2 x2 nl 2(4) 2(5) show ?thesis by (cases r2) auto
          qed
        qed
      qed
    qed
  qed
qed

lemma utf8_valid_split_slash:
  "utf8_valid s \<Longrightarrow> p \<in> set (split_on CHR ''/'' s) \<Longrightarrow> utf8_valid p"
proof (induction "length s" arbitrary: s rule: less_induct)
  case less
  show ?case
  proof (cases "CHR ''/'' \<in> set s")
    case False
    with less.prems show ?thesis by (simp add: split_on_no_sep)
  next
    case True
    then obtain u v where s: "s = u @ CHR ''/'' # v" "CHR ''/'' \<notin> set u"
      by (metis split_list_first)
    then have uv: "utf8_valid u" "utf8_valid v"
      using less.prems(1) utf8_bytes_valid_append_ascii [of 47 "map of_char u" "map of_char v"]
      by (auto simp: utf8_valid_def)
    from s less.prems(2) have "p = u \<or> p \<in> set (split_on CHR ''/'' v)"
      by (auto simp: split_on_append_sep)
    with uv less.hyps [of v] s show ?thesis by auto
  qed
qed

end
