(* ===== verification/Path_Utils.thy ===== *)
theory Path_Utils
  imports Uri_Codec
begin

text \<open>
  \<open>frontend/src/utils/pathUtils.ts\<close> and the crumb logic of
  \<open>components/FileBrowser/FileBreadcrumbs.tsx\<close>: URL coding of S3 keys, joining and
  splitting of slash-separated paths, and the clamp that keeps breadcrumb navigation
  inside the single allowed prefix of a role.
\<close>

abbreviation slash :: char where "slash \<equiv> CHR ''/''"

definition encodePath :: "string \<Rightarrow> string" where
  "encodePath path =
     (if path = [] then [] else join_with ''/'' (map encodeURIComponent (split_on slash path)))"

definition decodePath :: "string \<Rightarrow> uri_error + string" where
  "decodePath path =
     (if path = [] then Inr []
      else and_then (map_sum_list decodeURIComponent (split_on slash path))
             (\<lambda>segs. Inr (join_with ''/'' segs)))"

definition joinPath :: "string list \<Rightarrow> string" where
  "joinPath segments =
     join_with ''/'' (filter (\<lambda>s. s \<noteq> []) (map (strip_both slash) segments))"

text \<open>\<open>lastIndexOf\<close> is -1 exactly when the text has no slash; otherwise the slice ends
  before the last one.\<close>

definition parentPath :: "string \<Rightarrow> string" where
  "parentPath path =
     (let trimmed = strip_back slash path
      in if slash \<notin> set trimmed then []
         else rev (tl (dropWhile (\<lambda>c. c \<noteq> slash) (rev trimmed))))"

record crumb =
  crumb_name :: string
  crumb_path :: string

definition splitCrumbs :: "string \<Rightarrow> crumb list" where
  "splitCrumbs path =
     (if path = [] then []
      else let segments = filter (\<lambda>s. s \<noteq> []) (split_on slash path)
           in map (\<lambda>i. \<lparr>crumb_name = segments ! i,
                         crumb_path = join_with ''/'' (take (Suc i) segments)\<rparr>)
                [0..<length segments])"

definition prefixToPath :: "string \<Rightarrow> string" where
  "prefixToPath prefix = strip_both slash prefix"

definition roleEntryPath :: "string list option \<Rightarrow> string" where
  "roleEntryPath allowedPrefixes =
     (case allowedPrefixes of
        Some [p] \<Rightarrow> prefixToPath p
      | _ \<Rightarrow> [])"

definition clampPathToEntry :: "string \<Rightarrow> string \<Rightarrow> string" where
  "clampPathToEntry path entryPath =
     (if entryPath = [] then path
      else if path = [] then entryPath
      else if path = entryPath \<or> starts_with path (entryPath @ ''/'') then path
      else entryPath)"

subsection \<open>FileBreadcrumbs\<close>

text \<open>The links of the breadcrumb bar: the home link first, then one per visible crumb;
  \<open>link_to\<close> is None for the last crumb, which is plain text.\<close>

record crumb_link =
  link_label :: string
  link_to :: "string option"

definition role_base_url :: "string \<Rightarrow> string \<Rightarrow> string" where
  "role_base_url roleId bucket =
     ''/r/'' @ encodeURIComponent roleId @ ''/b/'' @ encodeURIComponent bucket"

definition visible_crumbs :: "string \<Rightarrow> string \<Rightarrow> crumb list" where
  "visible_crumbs entryPath path =
     filter (\<lambda>c. \<not> (entryPath \<noteq> [] \<and> crumb_path c = entryPath))
       (filter (\<lambda>c. entryPath = [] \<or> crumb_path c = entryPath
                   \<or> starts_with (crumb_path c) (entryPath @ ''/''))
         (splitCrumbs path))"

definition home_url :: "string \<Rightarrow> string \<Rightarrow> string \<Rightarrow> string" where
  "home_url roleId bucket entryPath =
     (let homePath = clampPathToEntry [] entryPath
      in if homePath \<noteq> [] then role_base_url roleId bucket @ ''/p/'' @ encodePath homePath
         else role_base_url roleId bucket)"

definition fileBreadcrumbs ::
  "string \<Rightarrow> string \<Rightarrow> string \<Rightarrow> string list option \<Rightarrow> crumb_link list" where
  "fileBreadcrumbs bucket roleId path allowedPrefixes =
     (let entryPath = roleEntryPath allowedPrefixes;
          visible = visible_crumbs entryPath path
      in \<lparr>link_label = (if entryPath \<noteq> [] then entryPath else bucket),
          link_to = Some (home_url roleId bucket entryPath)\<rparr>
         # map (\<lambda>i. let c = visible ! i in
                 \<lparr>link_label = crumb_name c,
                  link_to = (if Suc i = length visible then None
                             else Some (role_base_url roleId bucket @ ''/p/''
                                    @ join_with ''/'' (map encodeURIComponent
                                        (split_on slash (crumb_path c)))))\<rparr>)
             [0..<length visible])"

subsection \<open>Lemmas on joining\<close>

text \<open>A clean segment list is what \<open>joinPath\<close> and \<open>splitCrumbs\<close> work with: no
  empty segment and no slash inside one.\<close>

definition clean_segs :: "string list \<Rightarrow> bool" where
  "clean_segs ss \<longleftrightarrow> (\<forall>s\<in>set ss. s \<noteq> [] \<and> slash \<notin> set s)"

definition segs :: "string \<Rightarrow> string list" where
  "segs path = filter (\<lambda>s. s \<noteq> []) (split_on slash path)"

lemma clean_segs_segs [simp]: "clean_segs (segs path)"
  by (auto simp: clean_segs_def segs_def dest: split_on_pieces)

lemma segs_Nil [simp]: "segs [] = []"
  by (simp add: segs_def)

lemma segs_join: "clean_segs ss \<Longrightarrow> segs (join_with ''/'' ss) = ss"
proof (cases "ss = []")
  case False
  assume c: "clean_segs ss"
  with False have "split_on slash (join_with ''/'' ss) = ss"
    by (intro split_join) (auto simp: clean_segs_def)
  with c show ?thesis by (simp add: segs_def clean_segs_def)
qed simp

lemma segs_append_slash: "segs (u @ slash # v) = segs u @ segs v"
proof (induction u)
  case Nil
  then show ?case by (simp add: segs_def)
next
  case (Cons x u)
  obtain h t where "split_on slash u = h # t"
    using split_on_nonempty by (metis neq_Nil_conv)
  moreover have "split_on slash (u @ slash # v) = split_on slash u @ split_on slash v"
    by (induction u) (auto simp: hd_append tl_append split: list.splits)
  ultimately show ?case using Cons by (auto simp: segs_def)
qed

lemma segs_strip_back: "segs (strip_back slash s) = segs s"
proof -
  obtain n where n: "s = strip_back slash s @ replicate n slash"
    using strip_back_prefix by blast
  have "segs (u @ replicate n slash) = segs u" for u
  proof (induction n arbitrary: u)
    case (Suc n)
    have "segs (u @ replicate (Suc n) slash) = segs u @ segs ([] @ replicate n slash)"
      by (simp add: segs_append_slash)
    also have "\<dots> = segs u" by (simp only: Suc) simp
    finally show ?case .
  qed simp
  with n show ?thesis by metis
qed

lemma segs_strip_front: "segs (strip_front slash s) = segs s"
proof (induction s)
  case Nil
  then show ?case by (simp add: strip_front_def)
next
  case (Cons x xs)
  then show ?case
    using segs_append_slash [of "[]" xs] by (auto simp: strip_front_def)
qed

lemma segs_strip_both [simp]: "segs (strip_both slash s) = segs s"
  by (simp add: strip_both_def segs_strip_back segs_strip_front)

lemma segs_joinPath: "segs (joinPath ss) = concat (map segs ss)"
proof -
  have A: "segs (join_with ''/'' ts) = concat (map segs ts)" for ts
  proof (induction "''/''" ts rule: join_with.induct)
    case (3 s t ts)
    then show ?case by (simp add: segs_append_slash)
  qed auto
  have B: "concat (map segs (filter (\<lambda>s. s \<noteq> []) us)) = concat (map segs us)" for us
    by (induction us) auto
  show ?thesis by (simp add: joinPath_def A B comp_def)
qed

lemma joinPath_segs: "clean_segs ss \<Longrightarrow> joinPath ss = join_with ''/'' ss"
proof -
  assume c: "clean_segs ss"
  have "map (strip_both slash) ss = ss"
    using c by (intro map_idI strip_both_id) (metis clean_segs_def hd_in_set last_in_set)
  moreover have "filter (\<lambda>s. s \<noteq> []) ss = ss" using c by (auto simp: clean_segs_def)
  ultimately show ?thesis by (simp add: joinPath_def)
qed

subsection \<open>URL coding of paths\<close>

lemma encodePath_split:
  "path \<noteq> [] \<Longrightarrow> split_on slash (encodePath path) = map encodeURIComponent (split_on slash path)"
  unfolding encodePath_def
  by (simp, rule split_join) (auto simp: encode_no_slash)

lemma encodePath_empty_iff: "encodePath path = [] \<longleftrightarrow> path = []"
proof
  assume e: "encodePath path = []"
  show "path = []"
  proof (rule ccontr)
    assume "path \<noteq> []"
    from encodePath_split [OF this] e have "map encodeURIComponent (split_on slash path) = [[]]"
      by simp
    then have "split_on slash path = [[]]" by auto
    then have "path = []" by (metis join_split join_with.simps(2))
    with \<open>path \<noteq> []\<close> show False by simp
  qed
qed (simp add: encodePath_def)

lemma decodePath_encodePath_key:
  assumes "utf8_valid path"
  shows "decodePath (encodePath path) = Inr path"
proof (cases "path = []")
  case True
  then show ?thesis by (simp add: encodePath_def decodePath_def)
next
  case False
  then have ne: "encodePath path \<noteq> []" by (simp add: encodePath_empty_iff)
  have "map_sum_list decodeURIComponent (map encodeURIComponent (split_on slash path))
      = Inr (split_on slash path)"
  proof (rule map_sum_list_inverse)
    fix x assume "x \<in> set (split_on slash path)"
    with assms have "utf8_valid x" by (rule utf8_valid_split_slash)
    then show "decodeURIComponent (encodeURIComponent x) = Inr x" by (rule decode_encode)
  qed
  with False ne show ?thesis
    by (simp add: decodePath_def encodePath_split)
qed

text \<open>C14: encodePath and decodePath are inverse on every well-formed key: each path
  segment may hold reserved characters, percent signs, blanks and non-ASCII text.\<close>

theorem decodePath_encodePath:
  assumes "utf8_valid path"
  shows "decodePath (encodePath path) = Inr path"
  using assms by (rule decodePath_encodePath_key)

theorem decodePath_encodePath_witness:
  "decodePath (encodePath ''logs/50% off/a&b=c?#'') = Inr ''logs/50% off/a&b=c?#''"
proof -
  have "utf8_valid ''logs/50% off/a&b=c?#''" by (rule utf8_valid_ascii) simp
  then show ?thesis by (rule decodePath_encodePath)
qed

text \<open>the encoded form has the same segments as the key (only the segment separators
  stay slashes) and otherwise holds unreserved characters and percent signs, so no
  character of a key can end the path part of a URL.\<close>

theorem encodePath_shape:
  "length (split_on slash (encodePath path)) = length (split_on slash path)
   \<and> (\<forall>c. c \<in> set (encodePath path) \<longrightarrow> c = slash \<or> uri_unreserved c \<or> c = CHR ''%'')"
proof (cases "path = []")
  case True
  then show ?thesis by (simp add: encodePath_def)
next
  case False
  have "c = slash \<or> uri_unreserved c \<or> c = CHR ''%''" if "c \<in> set (encodePath path)" for c
  proof -
    from that False have "c \<in> set (join_with ''/'' (map encodeURIComponent (split_on slash path)))"
      by (simp add: encodePath_def)
    then have "c = slash \<or> (\<exists>s. c \<in> set (encodeURIComponent s))"
      using set_join_with by fastforce
    then show ?thesis using encode_safe unfolding uri_safe_char_def by blast
  qed
  with False show ?thesis by (simp add: encodePath_split)
qed

theorem encodePath_shape_witness:
  "length (split_on slash (encodePath ''a b/c'')) = 2
   \<and> CHR ''%'' \<in> set (encodePath ''a b/c'')"
  using encodePath_shape [of "''a b/c''"]
  by (simp add: encodePath_def encodeURIComponent_def pct_encode_char_def uri_unreserved_def)

text \<open>Decoding is applied to text the router may already have decoded.\<close>

lemma decodePath_plain: "CHR ''%'' \<notin> set path \<Longrightarrow> decodePath path = Inr path"
proof -
  assume "CHR ''%'' \<notin> set path"
  then have "\<And>x. x \<in> set (split_on slash path) \<Longrightarrow> decodeURIComponent (id x) = Inr x"
    using set_split_on by (fastforce intro: decode_plain)
  then have "map_sum_list decodeURIComponent (map id (split_on slash path))
      = Inr (split_on slash path)"
    by (rule map_sum_list_inverse)
  then show ?thesis by (simp add: decodePath_def)
qed

text \<open>decoding an already decoded key is not harmless: a key that ends in a percent
  sign throws a URIError, and one that holds a percent triple changes into another key.\<close>

theorem decodePath_of_decoded_key:
  "decodePath (path @ ''%'') = Inl URIError \<and> decodePath ''report%41'' = Inr ''reportA''"
proof
  have split_snoc: "\<exists>us u. split_on slash (s @ ''%'') = us @ [u @ ''%'']" for s
  proof (induction s)
    case Nil
    have "split_on slash ([] @ ''%'') = [] @ [[] @ ''%'']" by simp
    then show ?case by blast
  next
    case (Cons x s)
    then obtain us u where "split_on slash (s @ ''%'') = us @ [u @ ''%'']" by blast
    then have eq: "split_on slash (x # s @ ''%'') =
      (if x = slash then [] # us @ [u @ ''%'']
       else (x # hd (us @ [u @ ''%''])) # tl (us @ [u @ ''%'']))" by simp
    show ?case
    proof (cases us)
      case Nil
      with eq have "split_on slash ((x # s) @ ''%'') =
        (if x = slash then [[]] @ [u @ ''%''] else [] @ [(x # u) @ ''%''])" by simp
      then show ?thesis by metis
    next
      case (Cons v vs)
      with eq have "split_on slash ((x # s) @ ''%'') =
        (if x = slash then ([] # us) @ [u @ ''%''] else ((x # v) # vs) @ [u @ ''%''])" by simp
      then show ?thesis by metis
    qed
  qed
  then obtain us u where us: "split_on slash (path @ ''%'') = us @ [u @ ''%'']" by blast
  have "map_sum_list decodeURIComponent (us @ [u @ ''%'']) = Inl URIError"
  proof (induction us)
    case (Cons a us)
    then show ?case
      by (cases "decodeURIComponent a") (auto intro: uri_error_eq)
  qed (simp add: decode_trailing_pct)
  with us show "decodePath (path @ ''%'') = Inl URIError" by (simp add: decodePath_def)
  show "decodePath ''report%41'' = Inr ''reportA''" by code_simp
qed

subsection \<open>Breadcrumbs and the allowed prefix\<close>

lemma clampPathToEntry_within:
  "entry \<noteq> [] \<Longrightarrow> clampPathToEntry path entry = entry
     \<or> starts_with (clampPathToEntry path entry) (entry @ ''/'')"
  by (auto simp: clampPathToEntry_def)

text \<open>clamping a navigation target lands at the entry or below it, keeps every target
  that is already there, and clamping twice is clamping once.\<close>

theorem clampPathToEntry_spec:
  "(entry \<noteq> [] \<longrightarrow> clampPathToEntry path entry = entry
       \<or> starts_with (clampPathToEntry path entry) (entry @ ''/''))
   \<and> (entry = [] \<or> path = entry \<or> starts_with path (entry @ ''/'')
       \<longrightarrow> clampPathToEntry path entry = path)
   \<and> clampPathToEntry (clampPathToEntry path entry) entry = clampPathToEntry path entry"
  using starts_with_iff by (auto simp: clampPathToEntry_def)

theorem clampPathToEntry_spec_witness:
  "clampPathToEntry ''other/x'' ''team/a'' = ''team/a''
   \<and> clampPathToEntry ''team/a/x'' ''team/a'' = ''team/a/x''
   \<and> clampPathToEntry ''team/abc'' ''team/a'' = ''team/a''"
proof -
  have "clampPathToEntry ''team/a/x'' ''team/a'' = ''team/a/x''"
    using clampPathToEntry_spec [of "''team/a''" "''team/a/x''"] by (simp add: starts_with_def)
  then show ?thesis by (simp add: clampPathToEntry_def starts_with_def)
qed

lemma visible_crumbs_within:
  "entry \<noteq> [] \<Longrightarrow> c \<in> set (visible_crumbs entry path)
     \<Longrightarrow> starts_with (crumb_path c) (entry @ ''/'')"
  by (auto simp: visible_crumbs_def)

text \<open>for a role with a single allowed prefix, every link of the breadcrumb bar leads
  to that prefix or below it, whatever path the browser shows.\<close>

theorem breadcrumbs_confined:
  assumes "roleEntryPath prefixes = entry" and "entry \<noteq> []"
    and "l \<in> set (fileBreadcrumbs bucket roleId path prefixes)" and "link_to l = Some url"
  shows "\<exists>p. url = role_base_url roleId bucket @ ''/p/'' @ encodePath p
            \<and> (p = entry \<or> starts_with p (entry @ ''/''))"
proof -
  let ?v = "visible_crumbs entry path"
  from assms(1,3) consider
      "l = \<lparr>link_label = (if entry \<noteq> [] then entry else bucket),
            link_to = Some (home_url roleId bucket entry)\<rparr>"
    | i where "i < length ?v" and "l = \<lparr>link_label = crumb_name (?v ! i),
            link_to = (if Suc i = length ?v then None
                       else Some (role_base_url roleId bucket @ ''/p/''
                         @ join_with ''/'' (map encodeURIComponent
                             (split_on slash (crumb_path (?v ! i))))))\<rparr>"
    by (auto simp: fileBreadcrumbs_def Let_def)
  then show ?thesis
  proof cases
    case 1
    with assms(2,4) show ?thesis
      by (auto simp: home_url_def clampPathToEntry_def)
  next
    case 2
    from 2(1) have w: "starts_with (crumb_path (?v ! i)) (entry @ ''/'')"
      using visible_crumbs_within [OF assms(2)] nth_mem by blast
    then have "crumb_path (?v ! i) \<noteq> []" by (auto simp: starts_with_iff)
    with 2(2) assms(4) have "url = role_base_url roleId bucket @ ''/p/'' @ encodePath (crumb_path (?v ! i))"
      by (auto simp: encodePath_def split: if_splits)
    with w show ?thesis by blast
  qed
qed

theorem breadcrumbs_confined_witness:
  "\<exists>p. ''/r/dev/b/data/p/team/a'' = role_base_url ''dev'' ''data'' @ ''/p/'' @ encodePath p
     \<and> (p = ''team/a'' \<or> starts_with p (''team/a'' @ ''/''))"
proof (rule breadcrumbs_confined)
  show "roleEntryPath (Some [''/team/a/'']) = ''team/a''" by code_simp
  show "\<lparr>link_label = ''team/a'', link_to = Some ''/r/dev/b/data/p/team/a''\<rparr>
      \<in> set (fileBreadcrumbs ''data'' ''dev'' ''team/a/x'' (Some [''/team/a/'']))" by code_simp
qed simp_all

lemma splitCrumbs_nth:
  assumes "path \<noteq> []"
  shows "length (splitCrumbs path) = length (segs path)"
    and "i < length (segs path) \<Longrightarrow> splitCrumbs path ! i =
      \<lparr>crumb_name = segs path ! i, crumb_path = join_with ''/'' (take (Suc i) (segs path))\<rparr>"
  using assms by (auto simp: splitCrumbs_def segs_def Let_def)

lemma starts_with_join:
  assumes "clean_segs xs" and "clean_segs e"
    and "starts_with (join_with ''/'' xs) (join_with ''/'' e @ ''/'')"
  shows "length e < length xs \<and> take (length e) xs = e"
proof -
  obtain r where r: "join_with ''/'' xs = join_with ''/'' e @ slash # r"
    using assms(3) by (auto simp: starts_with_iff)
  then have "xs = e @ segs r"
    using assms(1,2) segs_append_slash segs_join by metis
  moreover have "segs r \<noteq> []"
  proof
    assume "segs r = []"
    with \<open>xs = e @ segs r\<close> have "xs = e" by simp
    with r show False by simp
  qed
  ultimately show ?thesis by auto
qed

lemma join_starts_with:
  assumes "e \<noteq> []" and "ys \<noteq> []"
  shows "starts_with (join_with ''/'' (e @ ys)) (join_with ''/'' e @ ''/'')"
  using assms by (simp add: join_with_append starts_with_iff)

text \<open>below the entry prefix the bar shows one crumb per remaining path segment, in
  order, and hides the segments of the prefix itself.\<close>

theorem breadcrumbs_labels:
  assumes "clean_segs e" and "clean_segs rest" and "e \<noteq> []"
    and "roleEntryPath prefixes = join_with ''/'' e"
  shows "map link_label (fileBreadcrumbs bucket roleId (join_with ''/'' (e @ rest)) prefixes)
    = join_with ''/'' e # rest"
proof -
  let ?E = "join_with ''/'' e" and ?path = "join_with ''/'' (e @ rest)"
  have cl: "clean_segs (e @ rest)" using assms(1,2) by (auto simp: clean_segs_def)
  have segsp: "segs ?path = e @ rest" using cl by (rule segs_join)
  then have ne: "?path \<noteq> []" using assms(3) by auto
  have Ene: "?E \<noteq> []" using assms(1,3) segs_join by fastforce
  define keep where "keep = (\<lambda>c::crumb. \<not> (?E \<noteq> [] \<and> crumb_path c = ?E)
     \<and> (?E = [] \<or> crumb_path c = ?E \<or> starts_with (crumb_path c) (?E @ ''/'')))"
  have vis: "visible_crumbs ?E ?path = filter keep (splitCrumbs ?path)"
    unfolding visible_crumbs_def filter_filter keep_def by (rule filter_cong) auto
  have keep_nth: "keep (splitCrumbs ?path ! i) \<longleftrightarrow> length e \<le> i" if "i < length (e @ rest)" for i
  proof -
    have pth: "crumb_path (splitCrumbs ?path ! i) = join_with ''/'' (take (Suc i) (e @ rest))"
      using splitCrumbs_nth(2) [OF ne, of i] that segsp by simp
    have ct: "clean_segs (take (Suc i) (e @ rest))"
      using cl by (auto simp: clean_segs_def dest: in_set_takeD)
    show ?thesis
    proof
      assume "keep (splitCrumbs ?path ! i)"
      then have "starts_with (join_with ''/'' (take (Suc i) (e @ rest))) (?E @ ''/'')"
        using Ene pth by (auto simp: keep_def)
      from starts_with_join [OF ct assms(1) this]
      have "length e < length (take (Suc i) (e @ rest))" by (rule conjunct1)
      then show "length e \<le> i" by simp
    next
      assume le: "length e \<le> i"
      then have tk: "take (Suc i) (e @ rest) = e @ take (Suc i - length e) rest" by simp
      have ne2: "take (Suc i - length e) rest \<noteq> []" using le that by auto
      have "starts_with (crumb_path (splitCrumbs ?path ! i)) (?E @ ''/'')"
        unfolding pth tk by (rule join_starts_with [OF assms(3) ne2])
      moreover from this have "crumb_path (splitCrumbs ?path ! i) \<noteq> ?E"
        by (auto simp: starts_with_iff)
      ultimately show "keep (splitCrumbs ?path ! i)" by (simp add: keep_def)
    qed
  qed
  have len: "length (splitCrumbs ?path) = length e + length rest"
    using splitCrumbs_nth(1) [OF ne] segsp by simp
  have split: "splitCrumbs ?path
      = take (length e) (splitCrumbs ?path) @ drop (length e) (splitCrumbs ?path)" by simp
  have "filter keep (take (length e) (splitCrumbs ?path)) = []"
    using keep_nth len by (auto simp: filter_empty_conv in_set_conv_nth)
  moreover have "filter keep (drop (length e) (splitCrumbs ?path)) = drop (length e) (splitCrumbs ?path)"
    using keep_nth len by (auto simp: filter_id_conv in_set_conv_nth)
  ultimately have "visible_crumbs ?E ?path = drop (length e) (splitCrumbs ?path)"
    unfolding vis by (metis append_Nil filter_append split)
  moreover have "map crumb_name (drop (length e) (splitCrumbs ?path)) = rest"
  proof (rule nth_equalityI)
    fix i assume "i < length (map crumb_name (drop (length e) (splitCrumbs ?path)))"
    then show "map crumb_name (drop (length e) (splitCrumbs ?path)) ! i = rest ! i"
      using splitCrumbs_nth(2) [OF ne, of "length e + i"] segsp len by (simp add: nth_append)
  qed (simp add: len)
  ultimately have "map crumb_name (visible_crumbs ?E ?path) = rest" by simp
  moreover have "map link_label (fileBreadcrumbs bucket roleId ?path prefixes)
      = ?E # map crumb_name (visible_crumbs ?E ?path)"
    using assms(4) Ene by (intro nth_equalityI) (auto simp: fileBreadcrumbs_def Let_def nth_Cons
        split: nat.splits)
  ultimately show ?thesis by simp
qed

theorem breadcrumbs_labels_witness:
  "map link_label (fileBreadcrumbs ''data'' ''dev'' (join_with ''/'' ([''team'', ''a''] @ [''x'', ''y'']))
     (Some [''/team/a/''])) = join_with ''/'' [''team'', ''a''] # [''x'', ''y'']"
proof (rule breadcrumbs_labels)
  show "roleEntryPath (Some [''/team/a/'']) = join_with ''/'' [''team'', ''a'']" by code_simp
qed (simp_all add: clean_segs_def)

text \<open>Entering a folder appends its segment, whatever slashes the current path carries.\<close>

lemma segs_single: "clean_segs [name] \<Longrightarrow> segs name = [name]"
  by (simp add: clean_segs_def segs_def split_on_no_sep)

lemma joinPath_folder: "clean_segs [name] \<Longrightarrow> segs (joinPath [path, name]) = segs path @ [name]"
  by (simp add: segs_joinPath segs_single)

lemma strip_both_seg: "clean_segs [name] \<Longrightarrow> strip_both slash name = name"
  by (rule strip_both_id) (metis clean_segs_def hd_in_set last_in_set list.set_intros(1))

lemma joinPath_root: "clean_segs [name] \<Longrightarrow> joinPath [[], name] = name"
  by (simp add: joinPath_def strip_both_seg) (simp add: clean_segs_def strip_both_def strip_front_def)

end
