(* ===== verification/Api_Types.thy ===== *)
theory Api_Types
  imports Base Complex_Main
begin

text \<open>
  The data of \<open>frontend/src/types/api.ts\<close>: one record per interface, one datatype per
  string union.  An optional field (\<open>f?: t\<close>) and a nullable one are \<open>t option\<close>.
  Counts, sizes, limits and identifiers are non-negative integers.
\<close>

datatype theme = Light | Dark | Auto

record user =
  user_username :: string
  user_is_admin :: bool

record me_response =
  me_username :: string
  me_is_admin :: bool
  me_csrf_token :: string
  me_theme :: theme
  me_app_name :: string
  me_app_version :: string
  me_allowed_roles :: "string list"
  me_default_role :: "string option"
  me_must_change_password :: bool
  me_disable_deletion :: bool
  me_max_file_size :: nat

record file_entry =
  fe_name :: string
  fe_is_directory :: bool
  fe_size :: nat
  fe_last_modified :: "string option"

record client_load_page =
  pg_directories :: "file_entry list"
  pg_files :: "file_entry list"
  pg_truncated :: bool
  pg_next_token :: "string option"
  pg_path :: "string option"

record ban =
  ban_username :: string
  ban_banned_until :: nat
  ban_banned_at :: nat
  ban_reason :: string

record admin_user =
  au_id :: nat
  au_username :: string
  au_is_admin :: bool
  au_allowed_roles :: "string list"

record create_user_payload =
  cu_username :: string
  cu_password :: string
  cu_is_admin :: bool
  cu_allowed_roles :: "string list"
  cu_must_change_password :: "bool option"

record update_user_payload =
  uu_is_admin :: "bool option"
  uu_allowed_roles :: "string list option"

datatype role_type = RT_default | RT_profile | RT_assume_role | RT_credentials | RT_s3_compatible

datatype addressing_style = AS_auto | AS_virtual | AS_path

record app_role =
  r_name :: string
  r_type :: role_type
  r_description :: "string option"
  r_profile_name :: "string option"
  r_role_arn :: "string option"
  r_access_key_id :: "string option"
  r_secret_access_key :: "string option"
  r_region :: "string option"
  r_endpoint_url :: "string option"
  r_use_ssl :: "bool option"
  r_verify_ssl :: "bool option"
  r_addressing_style :: "addressing_style option"
  r_allowed_buckets :: "string list option"
  r_allowed_prefixes :: "string list option"

record password_policy =
  password_min_length :: nat
  password_min_uppercase :: nat
  password_min_lowercase :: nat
  password_min_digits :: nat
  password_min_special :: nat

record app_config =
  c_roles :: "app_role list"
  c_default_role :: "string option"
  c_enable_lazy_loading :: bool
  c_max_file_size :: rat
  c_max_client_load :: nat
  c_presigned_url_default_ttl :: nat
  c_presigned_url_max_ttl :: nat
  c_disable_deletion :: bool
  c_preview_text_extensions :: "string list option"
  c_upload_inline_extensions :: "string list option"
  c_data_dir :: "string option"
  c_is_read_only :: "bool option"
  c_current_role :: "string option"
  c_password_min_length :: nat
  c_password_min_uppercase :: nat
  c_password_min_lowercase :: nat
  c_password_min_digits :: nat
  c_password_min_special :: nat
  c_mcp_enabled :: bool
  c_mcp_disable_writes :: bool
  c_mcp_text_extensions :: "string list"
  c_mcp_global_max_read_bytes :: nat
  c_mcp_summary_max_keys :: nat
  c_mcp_summary_prefix_scan_pages :: nat
  c_mcp_list_page_size :: nat
  c_mcp_list_max_page_size :: nat

record change_my_password_payload =
  cp_current_password :: string
  cp_new_password :: string

record api_token =
  tok_id :: nat
  tok_name :: string
  tok_is_read_only :: bool
  tok_max_read_bytes :: nat
  tok_created_at :: string
  tok_last_used_at :: "string option"
  tok_revoked_at :: "string option"

record api_token_with_owner = api_token +
  tok_owner_username :: string

record api_token_with_plaintext = api_token +
  tok_token_plaintext :: string

record create_token_payload =
  ct_name :: string
  ct_is_read_only :: bool
  ct_max_read_bytes :: nat

record admin_create_token_payload = create_token_payload +
  ct_user_id :: nat

record update_token_payload =
  ut_name :: "string option"
  ut_is_read_only :: "bool option"
  ut_max_read_bytes :: "nat option"

text \<open>The string literal each union member stands for.\<close>

fun role_type_str :: "role_type \<Rightarrow> string" where
  "role_type_str RT_default = ''default''"
| "role_type_str RT_profile = ''profile''"
| "role_type_str RT_assume_role = ''assume_role''"
| "role_type_str RT_credentials = ''credentials''"
| "role_type_str RT_s3_compatible = ''s3_compatible''"

lemma role_type_str_inj: "role_type_str a = role_type_str b \<Longrightarrow> a = b"
  by (cases a; cases b) auto

subsection \<open>Library classes for the model's types\<close>

text \<open>The union types are finite and ordered as they are listed in the source.\<close>

instantiation role_type :: linorder
begin

fun role_type_rank :: "role_type \<Rightarrow> nat" where
  "role_type_rank RT_default = 0"
| "role_type_rank RT_profile = 1"
| "role_type_rank RT_assume_role = 2"
| "role_type_rank RT_credentials = 3"
| "role_type_rank RT_s3_compatible = 4"

definition less_eq_role_type :: "role_type \<Rightarrow> role_type \<Rightarrow> bool" where
  "less_eq_role_type a b \<longleftrightarrow> role_type_rank a \<le> role_type_rank b"

definition less_role_type :: "role_type \<Rightarrow> role_type \<Rightarrow> bool" where
  "less_role_type a b \<longleftrightarrow> role_type_rank a < role_type_rank b"

instance
proof
  fix a b :: role_type
  assume "a \<le> b" and "b \<le> a"
  then show "a = b"
    by (cases a; cases b) (simp_all add: less_eq_role_type_def)
qed (auto simp: less_eq_role_type_def less_role_type_def)

end

end
