(* ===== verification/Api_Client.thy ===== *)
theory Api_Client
  imports Uri_Codec Api_Types
begin

text \<open>
  The HTTP layer: \<open>utils/apiError.ts\<close>, \<open>utils/csrf.ts\<close>,
  \<open>hooks/useApiClient.ts\<close> and the retry rule of \<open>app/queryClient.ts\<close>.

  The browser's \<open>fetch\<close> is a parameter of \<open>apiRequest\<close>: a function from the
  request to its outcome.  The Web Storage behind the CSRF token is an interface (locale
  \<open>web_storage\<close>), implemented by a map from keys to strings.
\<close>

subsection \<open>JSON values and thrown values\<close>

datatype json = JNull | JBool bool | JNum int | JStr string
  | JArr "json list" | JObj "(string \<times> json) list"

fun json_field :: "string \<Rightarrow> json \<Rightarrow> json option" where
  "json_field k (JObj kvs) = map_of kvs k"
| "json_field k _ = None"

text \<open>A thrown value.  \<open>ApiError status message body\<close> is the class of apiError.ts, its
  body None where it is undefined; \<open>Thrown\<close> is a value that is no Error at all.\<close>

datatype js_error =
    ApiError nat string "json option"
  | TypeErr string
  | DomException string string
  | PlainError string
  | Thrown

fun isAuthError :: "js_error \<Rightarrow> bool" where
  "isAuthError (ApiError status msg body) \<longleftrightarrow> status = 401"
| "isAuthError _ \<longleftrightarrow> False"

text \<open>\<open>err.body?.detail\<close>.\<close>

fun readDetail :: "json option \<Rightarrow> json option" where
  "readDetail None = None"
| "readDetail (Some body) = json_field ''detail'' body"

definition network_error_message :: string where
  "network_error_message = ''The app isn't responding right now. Try refreshing the page, or contact your admin if this keeps happening.''"

definition error_fallback :: "nat \<Rightarrow> string \<Rightarrow> json option \<Rightarrow> string" where
  "error_fallback status msg body =
     (if body \<noteq> None then (if msg \<noteq> [] then msg else ''HTTP '' @ nat_str status)
      else if msg \<noteq> [] then nat_str status @ '' '' @ msg
      else ''HTTP '' @ nat_str status)"

fun getErrorMessage :: "js_error \<Rightarrow> string" where
  "getErrorMessage (ApiError status msg body) =
     (case readDetail body of
        Some (JStr d) \<Rightarrow> if d \<noteq> [] then d else error_fallback status msg body
      | Some d \<Rightarrow>
          (case json_field ''message'' d of
             Some (JStr t) \<Rightarrow> t
           | _ \<Rightarrow> error_fallback status msg body)
      | None \<Rightarrow> error_fallback status msg body)"
| "getErrorMessage (TypeErr m) = network_error_message"
| "getErrorMessage (DomException nm m) = m"
| "getErrorMessage (PlainError m) = m"
| "getErrorMessage Thrown = ''Unknown error''"

fun getErrorCode :: "js_error \<Rightarrow> string option" where
  "getErrorCode (ApiError status msg body) =
     (case readDetail body of
        Some d \<Rightarrow> (case json_field ''code'' d of Some (JStr c) \<Rightarrow> Some c | _ \<Rightarrow> None)
      | None \<Rightarrow> None)"
| "getErrorCode _ = None"

text \<open>\<open>e instanceof Error ? e.message : "unknown error"\<close>, the wording of the bulk
  operations.\<close>

fun error_message_of :: "js_error \<Rightarrow> string" where
  "error_message_of (ApiError status msg body) = msg"
| "error_message_of (TypeErr m) = m"
| "error_message_of (DomException nm m) = m"
| "error_message_of (PlainError m) = m"
| "error_message_of Thrown = ''unknown error''"

subsection \<open>Web Storage\<close>

type_synonym storage = "string \<rightharpoonup> string"

definition getItem :: "storage \<Rightarrow> string \<Rightarrow> string option" where
  "getItem st k = st k"

definition setItem :: "string \<Rightarrow> string \<Rightarrow> storage \<Rightarrow> storage" where
  "setItem k v st = st(k \<mapsto> v)"

definition removeItem :: "string \<Rightarrow> storage \<Rightarrow> storage" where
  "removeItem k st = st(k := None)"

locale web_storage =
  fixes get :: "'s \<Rightarrow> string \<Rightarrow> string option"
    and put :: "string \<Rightarrow> string \<Rightarrow> 's \<Rightarrow> 's"
    and remove :: "string \<Rightarrow> 's \<Rightarrow> 's"
  assumes get_put: "get (put k v s) k' = (if k' = k then Some v else get s k')"
    and get_remove: "get (remove k s) k' = (if k' = k then None else get s k')"
begin

lemma get_put_same: "get (put k v s) k = Some v"
  by (simp add: get_put)

lemma get_put_other: "k' \<noteq> k \<Longrightarrow> get (put k v s) k' = get s k'"
  by (simp add: get_put)

lemma get_remove_put: "get (remove k (put k v s)) k = None"
  by (simp add: get_remove)

lemma get_two_puts:
  "j \<noteq> k \<Longrightarrow> get (put k v (put j w s)) j = Some w \<and> get (put k v (put j w s)) k = Some v"
  by (simp add: get_put)

end

interpretation store: web_storage getItem setItem removeItem
  by unfold_locales (auto simp: getItem_def setItem_def removeItem_def)

subsection \<open>The CSRF token (sessionStorage)\<close>

definition getCsrfToken :: "storage \<Rightarrow> string option" where
  "getCsrfToken session = getItem session ''csrf_token''"

definition setCsrfToken :: "string \<Rightarrow> storage \<Rightarrow> storage" where
  "setCsrfToken token session = setItem ''csrf_token'' token session"

definition clearCsrfToken :: "storage \<Rightarrow> storage" where
  "clearCsrfToken session = removeItem ''csrf_token'' session"

lemma csrf_set_get: "getCsrfToken (setCsrfToken t s) = Some t"
  by (simp add: getCsrfToken_def setCsrfToken_def store.get_put_same)

lemma csrf_clear_get: "getCsrfToken (clearCsrfToken s) = None"
  by (simp add: getCsrfToken_def clearCsrfToken_def store.get_remove)

subsection \<open>apiRequest\<close>

datatype http_method = GET | POST | PUT | PATCH | DELETE

definition MUTATING :: "http_method set" where
  "MUTATING = {POST, PUT, PATCH, DELETE}"

text \<open>Headers are an object: a later assignment to a name replaces the earlier value.\<close>

type_synonym headers = "string \<rightharpoonup> string"

record 'b request_options =
  opt_method :: "http_method option"
  opt_body :: "'b option"
  opt_headers :: headers

definition no_options :: "'b request_options" where
  "no_options = \<lparr>opt_method = None, opt_body = None, opt_headers = Map.empty\<rparr>"

record 'b http_request =
  req_url :: string
  req_method :: http_method
  req_credentials_include :: bool
  req_headers :: headers
  req_body :: "'b option"

text \<open>A response; \<open>resp_json\<close> is the outcome of parsing its body (the call rejects when
  the body is not JSON).\<close>

record http_response =
  resp_status :: nat
  resp_status_text :: string
  resp_content_type :: "string option"
  resp_json :: "js_error + json"

definition resp_ok :: "http_response \<Rightarrow> bool" where
  "resp_ok r \<longleftrightarrow> 200 \<le> resp_status r \<and> resp_status r < 300"

definition build_request :: "storage \<Rightarrow> string \<Rightarrow> 'b request_options \<Rightarrow> 'b http_request" where
  "build_request session url options =
     (let method = (case opt_method options of None \<Rightarrow> GET | Some m \<Rightarrow> m);
          headers = [''Accept'' \<mapsto> ''application/json''] ++ opt_headers options;
          headers' = (if method \<in> MUTATING
                      then (case getCsrfToken session of
                              Some csrf \<Rightarrow> if csrf \<noteq> [] then headers(''X-CSRF-Token'' \<mapsto> csrf)
                                          else headers
                            | None \<Rightarrow> headers)
                      else headers)
      in \<lparr>req_url = url, req_method = method, req_credentials_include = True,
          req_headers = headers', req_body = opt_body options\<rparr>)"

text \<open>The value of a successful call is None where the source returns undefined.  A
  successful response that announces JSON and does not parse rejects with the parse error.\<close>

definition apiRequest ::
  "('b http_request \<Rightarrow> js_error + http_response) \<Rightarrow> storage \<Rightarrow> string \<Rightarrow> 'b request_options
     \<Rightarrow> js_error + json option" where
  "apiRequest fetch session url options =
     and_then (fetch (build_request session url options))
       (\<lambda>response.
         if \<not> resp_ok response then
           Inl (ApiError (resp_status response)
                 (if resp_status_text response \<noteq> [] then resp_status_text response
                  else ''HTTP '' @ nat_str (resp_status response))
                 (Some (case resp_json response of Inl e \<Rightarrow> JNull | Inr b \<Rightarrow> b)))
         else if resp_status response = 204 then Inr None
         else (let contentType = (case resp_content_type response of None \<Rightarrow> [] | Some t \<Rightarrow> t)
               in if js_includes contentType ''application/json''
                  then and_then (resp_json response) (\<lambda>j. Inr (Some j))
                  else Inr None))"

text \<open>The retry rule of the query client: none on an authentication or permission error,
  otherwise one.\<close>

fun query_retry :: "nat \<Rightarrow> js_error \<Rightarrow> bool" where
  "query_retry failureCount (ApiError status msg body) \<longleftrightarrow>
     (if status = 401 \<or> status = 403 then False else failureCount < 1)"
| "query_retry failureCount _ \<longleftrightarrow> failureCount < 1"

subsection \<open>Properties\<close>

text \<open>the CSRF token is attached exactly to mutating requests of a session that has a
  non-empty token, and a header of the caller cannot replace it.\<close>

theorem csrf_header_iff:
  assumes "opt_headers options ''X-CSRF-Token'' = None"
  shows "req_headers (build_request session url options) ''X-CSRF-Token'' = Some t \<longleftrightarrow>
    (\<exists>mt. opt_method options = Some mt \<and> mt \<noteq> GET) \<and> getCsrfToken session = Some t \<and> t \<noteq> []"
proof -
  have "mt \<in> MUTATING \<longleftrightarrow> mt \<noteq> GET" for mt by (cases mt) (auto simp: MUTATING_def)
  with assms show ?thesis
    by (auto simp: build_request_def Let_def map_add_def split: option.splits if_splits)
qed

theorem csrf_header_iff_witness:
  "req_headers (build_request (setCsrfToken ''tok'' Map.empty) ''/api/config''
     (no_options\<lparr>opt_method := Some POST\<rparr> :: string request_options)) ''X-CSRF-Token'' = Some ''tok''"
  using csrf_header_iff [of "no_options\<lparr>opt_method := Some POST\<rparr> :: string request_options"
      "setCsrfToken ''tok'' Map.empty" "''/api/config''" "''tok''"]
  by (simp add: no_options_def csrf_set_get)

lemma csrf_overrides_caller:
  "opt_method options = Some mt \<Longrightarrow> mt \<noteq> GET \<Longrightarrow> getCsrfToken session = Some t \<Longrightarrow> t \<noteq> []
   \<Longrightarrow> req_headers (build_request session url options) ''X-CSRF-Token'' = Some t"
  by (cases mt) (auto simp: build_request_def Let_def MUTATING_def)

lemma error_fallback_nonempty: "error_fallback status msg body \<noteq> []"
  by (auto simp: error_fallback_def)

text \<open>a response outside 200..299 always surfaces as an ApiError that carries its status
  and a message that is not empty, whatever its body, and the call never returns a value.\<close>

theorem apiRequest_error_response:
  assumes "fetch (build_request session url options) = Inr response" and "\<not> resp_ok response"
  shows "\<exists>msg body. apiRequest fetch session url options
           = Inl (ApiError (resp_status response) msg (Some body)) \<and> msg \<noteq> []"
  using assms by (auto simp: apiRequest_def)

theorem apiRequest_error_response_witness:
  "\<exists>msg body. apiRequest (\<lambda>_ :: string http_request. Inr \<lparr>resp_status = 502, resp_status_text = [],
        resp_content_type = None, resp_json = Inl (PlainError ''Unexpected token'')\<rparr>) Map.empty ''/api/me'' no_options
      = Inl (ApiError 502 msg (Some body)) \<and> msg \<noteq> []"
  using apiRequest_error_response [of "\<lambda>_ :: string http_request. Inr \<lparr>resp_status = 502,
      resp_status_text = [], resp_content_type = None, resp_json = Inl (PlainError ''Unexpected token'')\<rparr>" Map.empty "''/api/me''"
      no_options "\<lparr>resp_status = 502, resp_status_text = [], resp_content_type = None,
      resp_json = Inl (PlainError ''Unexpected token'')\<rparr>"]
  by (simp add: resp_ok_def)

text \<open>The order in which a message is looked for.\<close>

lemma getErrorMessage_structured:
  "readDetail body = Some (JObj kvs) \<Longrightarrow> map_of kvs ''message'' = Some (JStr t)
     \<Longrightarrow> getErrorMessage (ApiError st msg body) = t"
  by simp

lemma getErrorMessage_text:
  "readDetail body = Some (JStr d) \<Longrightarrow> d \<noteq> [] \<Longrightarrow> getErrorMessage (ApiError st msg body) = d"
  by simp

lemma getErrorMessage_empty:
  assumes "getErrorMessage (ApiError st msg body) = []"
  shows "\<exists>kvs. readDetail body = Some (JObj kvs) \<and> map_of kvs ''message'' = Some (JStr [])"
proof -
  from assms obtain d where d: "readDetail body = Some d"
    by (auto simp: error_fallback_nonempty split: option.splits)
  with assms show ?thesis
    by (cases d) (auto simp: error_fallback_nonempty split: option.splits json.splits if_splits)
qed

text \<open>the toast for a failed request is never blank: whatever the server answers outside
  200..299, the message shown has text, unless the body itself is a structured error whose
  message is the empty string.\<close>

theorem failed_request_message:
  assumes "fetch (build_request session url options) = Inr response" and "\<not> resp_ok response"
    and "apiRequest fetch session url options = Inl err"
  shows "getErrorMessage err \<noteq> []
    \<or> (\<exists>body kvs. resp_json response = Inr body \<and> json_field ''detail'' body = Some (JObj kvs)
          \<and> map_of kvs ''message'' = Some (JStr []))"
proof (cases "getErrorMessage err = []")
  case True
  from apiRequest_error_response [where fetch = fetch, OF assms(1,2)] assms(3)
  obtain msg where err: "err = ApiError (resp_status response) msg
      (Some (case resp_json response of Inl e \<Rightarrow> JNull | Inr b \<Rightarrow> b))"
    using assms(1,2) by (auto simp: apiRequest_def)
  from getErrorMessage_empty [OF True [unfolded err]] show ?thesis
    by (auto split: sum.splits)
qed simp

theorem failed_request_message_witness:
  "getErrorMessage (ApiError 404 ''Not Found'' (Some (JObj [(''detail'', JStr ''no such key'')]))) \<noteq> []"
proof -
  let ?r = "\<lparr>resp_status = 404, resp_status_text = ''Not Found'', resp_content_type = None,
      resp_json = Inr (JObj [(''detail'', JStr ''no such key'')])\<rparr>"
  have "getErrorMessage (ApiError 404 ''Not Found'' (Some (JObj [(''detail'', JStr ''no such key'')]))) \<noteq> []
    \<or> (\<exists>body kvs. resp_json ?r = Inr body \<and> json_field ''detail'' body = Some (JObj kvs)
          \<and> map_of kvs ''message'' = Some (JStr []))"
    by (rule failed_request_message [of "\<lambda>_ :: string http_request. Inr ?r" Map.empty "''/api/x''"
          no_options ?r]) (simp_all add: resp_ok_def apiRequest_def)
  then show ?thesis by auto
qed

end
