(* ===== verification/Js_Sort.thy ===== *)
theory Js_Sort
  imports Base
begin

text \<open>
  \<open>Array.prototype.sort\<close> with a comparator: a stable sort (ES2019).  A comparator gives
  a number whose sign decides; the standard fixes the result only for a consistent
  comparator, which is the interface (locale) \<open>comparison\<close>: the result is then the
  unique stable ascending arrangement, whatever algorithm the engine uses.
\<close>

fun insert_by :: "('a \<Rightarrow> 'a \<Rightarrow> int) \<Rightarrow> 'a \<Rightarrow> 'a list \<Rightarrow> 'a list" where
  "insert_by cmp x [] = [x]"
| "insert_by cmp x (y # ys) =
     (if cmp x y \<le> 0 then x # y # ys else y # insert_by cmp x ys)"

fun js_sort :: "('a \<Rightarrow> 'a \<Rightarrow> int) \<Rightarrow> 'a list \<Rightarrow> 'a list" where
  "js_sort cmp [] = []"
| "js_sort cmp (x # xs) = insert_by cmp x (js_sort cmp xs)"

lemma mset_insert_by [simp]: "mset (insert_by cmp x ys) = add_mset x (mset ys)"
  by (induction ys) auto

lemma mset_js_sort [simp]: "mset (js_sort cmp xs) = mset xs"
  by (induction xs) auto

lemma set_js_sort [simp]: "set (js_sort cmp xs) = set xs"
  by (metis mset_js_sort set_mset_mset)

lemma set_insert_by [simp]: "set (insert_by cmp x ys) = insert x (set ys)"
  by (induction ys) auto

lemma length_js_sort [simp]: "length (js_sort cmp xs) = length xs"
  by (metis mset_js_sort size_mset)

lemma insert_by_cong:
  "(\<And>y. y \<in> set ys \<Longrightarrow> (cmp x y \<le> 0) = (cmp' x y \<le> 0)) \<Longrightarrow> insert_by cmp x ys = insert_by cmp' x ys"
  by (induction ys) auto

text \<open>The sort reads its comparator on the elements of the array only.\<close>

lemma js_sort_cong:
  "(\<And>x y. x \<in> set xs \<Longrightarrow> y \<in> set xs \<Longrightarrow> (cmp x y \<le> 0) = (cmp' x y \<le> 0))
     \<Longrightarrow> js_sort cmp xs = js_sort cmp' xs"
proof (induction xs)
  case Nil
  then show ?case by simp
next
  case (Cons x xs)
  then have "js_sort cmp xs = js_sort cmp' xs" by simp
  moreover have "insert_by cmp x ys = insert_by cmp' x ys" if "set ys \<subseteq> set xs" for ys
    by (rule insert_by_cong) (use that Cons.prems in auto)
  ultimately show ?case by simp
qed

locale comparison =
  fixes cmp :: "'a \<Rightarrow> 'a \<Rightarrow> int"
  assumes antisym: "sgn (cmp x y) = - sgn (cmp y x)"
    and trans: "cmp x y \<le> 0 \<Longrightarrow> cmp y z \<le> 0 \<Longrightarrow> cmp x z \<le> 0"
begin

lemma refl: "cmp x x = 0"
  using antisym [of x x] by (simp add: sgn_if split: if_splits)

lemma not_le: "\<not> cmp x y \<le> 0 \<longleftrightarrow> cmp y x < 0"
  using antisym [of x y] by (auto simp: sgn_if split: if_splits)

lemma eq_sym: "cmp x y = 0 \<longleftrightarrow> cmp y x = 0"
  using antisym [of x y] by (auto simp: sgn_if split: if_splits)

lemma eq_iff: "cmp x y = 0 \<longleftrightarrow> cmp x y \<le> 0 \<and> cmp y x \<le> 0"
  using antisym [of x y] by (auto simp: sgn_if split: if_splits)

lemma eq_trans: "cmp x y = 0 \<Longrightarrow> cmp y z = 0 \<Longrightarrow> cmp x z = 0"
  unfolding eq_iff using trans by blast

lemma sorted_insert_by:
  "sorted_wrt (\<lambda>x y. cmp x y \<le> 0) ys \<Longrightarrow> sorted_wrt (\<lambda>x y. cmp x y \<le> 0) (insert_by cmp x ys)"
proof (induction ys)
  case Nil
  then show ?case by simp
next
  case (Cons y ys)
  show ?case
  proof (cases "cmp x y \<le> 0")
    case True
    with Cons.prems show ?thesis using trans by auto
  next
    case False
    then have "cmp y x \<le> 0" using not_le by fastforce
    with False Cons show ?thesis by auto
  qed
qed

lemma sorted_js_sort: "sorted_wrt (\<lambda>x y. cmp x y \<le> 0) (js_sort cmp xs)"
  by (induction xs) (auto intro: sorted_insert_by)

lemma stable_insert_by:
  "filter (\<lambda>y. cmp z y = 0) (insert_by cmp x ys) = filter (\<lambda>y. cmp z y = 0) (x # ys)"
proof (induction ys)
  case Nil
  then show ?case by simp
next
  case (Cons y ys)
  show ?case
  proof (cases "cmp x y \<le> 0")
    case False
    then have "\<not> (cmp z x = 0 \<and> cmp z y = 0)" using eq_sym eq_trans by force
    with False Cons show ?thesis by auto
  qed simp
qed

lemma stable_js_sort:
  "filter (\<lambda>y. cmp z y = 0) (js_sort cmp xs) = filter (\<lambda>y. cmp z y = 0) xs"
  by (induction xs) (auto simp: stable_insert_by)

text \<open>The sorted arrangement that keeps equal elements in order is unique.\<close>

lemma stable_sorted_unique:
  assumes "sorted_wrt (\<lambda>x y. cmp x y \<le> 0) us" and "sorted_wrt (\<lambda>x y. cmp x y \<le> 0) vs"
    and "mset us = mset vs"
    and "\<And>z. filter (\<lambda>y. cmp z y = 0) us = filter (\<lambda>y. cmp z y = 0) vs"
  shows "us = vs"
  using assms
proof (induction us arbitrary: vs)
  case Nil
  then show ?case by simp
next
  case (Cons u us)
  from Cons.prems(3) obtain v vs' where vs: "vs = v # vs'" by (cases vs) auto
  have "v \<in> set (u # us)" using Cons.prems(3) vs by (metis list.set_intros(1) set_mset_mset)
  then have "cmp u v \<le> 0" using Cons.prems(1) refl by fastforce
  moreover have "u \<in> set (v # vs')" using Cons.prems(3) vs by (metis list.set_intros(1) set_mset_mset)
  then have "cmp v u \<le> 0" using Cons.prems(2) vs refl by fastforce
  ultimately have uv: "cmp u v = 0" using eq_iff by blast
  with Cons.prems(4) [of u] vs refl have "u = v" by simp
  have "us = vs'"
  proof (rule Cons.IH)
    show "sorted_wrt (\<lambda>x y. cmp x y \<le> 0) us" using Cons.prems(1) by simp
    show "sorted_wrt (\<lambda>x y. cmp x y \<le> 0) vs'" using Cons.prems(2) vs by simp
    show "mset us = mset vs'" using Cons.prems(3) vs \<open>u = v\<close> by simp
    show "filter (\<lambda>y. cmp z y = 0) us = filter (\<lambda>y. cmp z y = 0) vs'" for z
      using Cons.prems(4) [of z] vs \<open>u = v\<close> by (simp split: if_splits)
  qed
  with \<open>u = v\<close> vs show ?case by simp
qed

lemma js_sort_id: "sorted_wrt (\<lambda>x y. cmp x y \<le> 0) xs \<Longrightarrow> js_sort cmp xs = xs"
  using stable_sorted_unique [OF sorted_js_sort] stable_js_sort by simp

text \<open>Two arrays with the same elements sort alike exactly when elements that compare equal come in
  the same order in both.\<close>

lemma js_sort_eq_iff:
  assumes "mset us = mset vs"
  shows "js_sort cmp us = js_sort cmp vs \<longleftrightarrow>
    (\<forall>z\<in>set us. filter (\<lambda>y. cmp z y = 0) us = filter (\<lambda>y. cmp z y = 0) vs)"
proof
  assume "js_sort cmp us = js_sort cmp vs"
  then show "\<forall>z\<in>set us. filter (\<lambda>y. cmp z y = 0) us = filter (\<lambda>y. cmp z y = 0) vs"
    using stable_js_sort by metis
next
  assume groups: "\<forall>z\<in>set us. filter (\<lambda>y. cmp z y = 0) us = filter (\<lambda>y. cmp z y = 0) vs"
  have "filter (\<lambda>y. cmp z y = 0) us = filter (\<lambda>y. cmp z y = 0) vs" for z
  proof (cases "\<exists>y\<in>set us. cmp z y = 0")
    case True
    then obtain y where y: "y \<in> set us" "cmp z y = 0" by blast
    then have "cmp z x = 0 \<longleftrightarrow> cmp y x = 0" for x using eq_sym eq_trans by blast
    with groups y(1) show ?thesis by simp
  next
    case False
    moreover have "set us = set vs" using assms by (metis set_mset_mset)
    ultimately show ?thesis by (metis (mono_tags, lifting) filter_False)
  qed
  with stable_sorted_unique[OF sorted_js_sort sorted_js_sort, of us vs]
  show "js_sort cmp us = js_sort cmp vs" using assms by (simp add: stable_js_sort)
qed

lemma js_sort_hd_least: "xs \<noteq> [] \<Longrightarrow> y \<in> set xs \<Longrightarrow> cmp (hd (js_sort cmp xs)) y \<le> 0"
proof -
  assume "xs \<noteq> []" and "y \<in> set xs"
  then obtain s ss where s: "js_sort cmp xs = s # ss"
    by (metis list.exhaust list.size(3) length_js_sort length_0_conv)
  with \<open>y \<in> set xs\<close> have "y \<in> set (s # ss)" by (metis set_js_sort)
  with sorted_js_sort [of xs] s refl show ?thesis by fastforce
qed

end

text \<open>Consistent comparators are closed under reading a key, reversing, and breaking ties
  with a second one.\<close>

lemma comparison_key: "comparison cmp \<Longrightarrow> comparison (\<lambda>x y. cmp (f x) (f y))"
  unfolding comparison_def by blast

lemma comparison_reverse: "comparison cmp \<Longrightarrow> comparison (\<lambda>x y. cmp x y * (-1))"
proof -
  assume c: "comparison cmp"
  show ?thesis
  proof
    fix x y z
    show "sgn (cmp x y * (-1)) = - sgn (cmp y x * (-1))"
      using comparison.antisym [OF c, of x y] by (simp add: sgn_minus)
    show "cmp x z * (-1) \<le> 0" if "cmp x y * (-1) \<le> 0" "cmp y z * (-1) \<le> 0"
      using that comparison.trans [OF c, of z y x] comparison.not_le [OF c]
      by (metis (no_types, opaque_lifting) comparison.antisym [OF c] linorder_not_le mult_minus1_right
          neg_le_0_iff_le neg_less_0_iff_less sgn_less)
  qed
qed

lemma comparison_lex:
  assumes "comparison p" and "comparison q"
  shows "comparison (\<lambda>x y. if p x y \<noteq> 0 then p x y else q x y)"
proof
  fix x y z
  show "sgn (if p x y \<noteq> 0 then p x y else q x y) = - sgn (if p y x \<noteq> 0 then p y x else q y x)"
    using comparison.eq_sym [OF assms(1), of x y] comparison.antisym [OF assms(1), of x y]
      comparison.antisym [OF assms(2), of x y] by auto
  assume xy: "(if p x y \<noteq> 0 then p x y else q x y) \<le> 0"
    and yz: "(if p y z \<noteq> 0 then p y z else q y z) \<le> 0"
  from xy yz have le: "p x y \<le> 0" "p y z \<le> 0" by (auto split: if_splits)
  then have xz: "p x z \<le> 0" using comparison.trans [OF assms(1)] by blast
  show "(if p x z \<noteq> 0 then p x z else q x z) \<le> 0"
  proof (cases "p x z = 0")
    case True
    then have "p z x = 0" using comparison.eq_sym [OF assms(1), of x z] by simp
    then have "p z x \<le> 0" by simp
    then have "p y x \<le> 0" "p z y \<le> 0" using le comparison.trans [OF assms(1)] by blast+
    then have "p x y = 0" "p y z = 0" using le comparison.eq_iff [OF assms(1)] by blast+
    with True xy yz comparison.trans [OF assms(2)] show ?thesis by auto
  qed (use xz in simp)
qed

lemma comparison_int: "comparison (\<lambda>x y. f x - f y :: int)"
  by unfold_locales (auto simp: sgn_if)

end
