(* ===== verification/Sort_Entries.thy ===== *)
theory Sort_Entries
  imports Js_Sort Api_Types
begin

text \<open>
  The order of a listing: \<open>utils/sortEntries.ts\<close>.  The collator
  (\<open>Intl.Collator\<close>, sensitivity accent) is the parameter \<open>coll\<close>, of which the code
  uses that it is a consistent comparison; \<open>parse\<close> is \<open>Date.parse\<close>, None where it is
  NaN.  A comparator value of NaN counts as 0.
\<close>

datatype sort_column = SortName | SortSize | SortModified
datatype sort_direction = Asc | Desc

record sort_state =
  sort_col :: sort_column
  sort_dir :: sort_direction

definition DEFAULT_SORT :: sort_state where
  "DEFAULT_SORT = \<lparr>sort_col = SortName, sort_dir = Asc\<rparr>"

definition isDefaultSort :: "sort_state \<Rightarrow> bool" where
  "isDefaultSort s \<longleftrightarrow> sort_col s = SortName \<and> sort_dir s = Asc"

definition nextSortForColumn :: "sort_state \<Rightarrow> sort_column \<Rightarrow> sort_state" where
  "nextSortForColumn current column =
     (if sort_col current = column
      then \<lparr>sort_col = column, sort_dir = (if sort_dir current = Asc then Desc else Asc)\<rparr>
      else \<lparr>sort_col = column, sort_dir = Asc\<rparr>)"

definition factor_of :: "sort_direction \<Rightarrow> int" where
  "factor_of d = (if d = Asc then 1 else -1)"

definition compareName :: "(string \<Rightarrow> string \<Rightarrow> int) \<Rightarrow> file_entry \<Rightarrow> file_entry \<Rightarrow> int" where
  "compareName coll a b = coll (fe_name a) (fe_name b)"

definition dirDir :: "sort_state \<Rightarrow> sort_direction" where
  "dirDir srt = (if sort_col srt = SortName then sort_dir srt else Asc)"

definition dir_compare ::
  "(string \<Rightarrow> string \<Rightarrow> int) \<Rightarrow> sort_state \<Rightarrow> file_entry \<Rightarrow> file_entry \<Rightarrow> int" where
  "dir_compare coll srt a b = compareName coll a b * (if dirDir srt = Asc then 1 else -1)"

definition modified_ms :: "(string \<Rightarrow> int option) \<Rightarrow> file_entry \<Rightarrow> int option" where
  "modified_ms parse a =
     (case fe_last_modified a of None \<Rightarrow> Some 0 | Some s \<Rightarrow> if s = [] then Some 0 else parse s)"

definition file_primary ::
  "(string \<Rightarrow> string \<Rightarrow> int) \<Rightarrow> (string \<Rightarrow> int option) \<Rightarrow> sort_state \<Rightarrow> file_entry \<Rightarrow> file_entry
     \<Rightarrow> int option" where
  "file_primary coll parse srt a b =
     (if sort_col srt = SortSize then Some (int (fe_size a) - int (fe_size b))
      else if sort_col srt = SortModified
      then (case (modified_ms parse a, modified_ms parse b) of
              (Some ta, Some tb) \<Rightarrow> Some (ta - tb)
            | _ \<Rightarrow> None)
      else Some (compareName coll a b))"

definition file_compare ::
  "(string \<Rightarrow> string \<Rightarrow> int) \<Rightarrow> (string \<Rightarrow> int option) \<Rightarrow> sort_state \<Rightarrow> file_entry \<Rightarrow> file_entry
     \<Rightarrow> int" where
  "file_compare coll parse srt a b =
     (case file_primary coll parse srt a b of
        None \<Rightarrow> 0
      | Some primary \<Rightarrow>
          if primary \<noteq> 0 then primary * factor_of (sort_dir srt) else compareName coll a b)"

definition sortEntries ::
  "(string \<Rightarrow> string \<Rightarrow> int) \<Rightarrow> (string \<Rightarrow> int option) \<Rightarrow> file_entry list \<Rightarrow> file_entry list
     \<Rightarrow> sort_state \<Rightarrow> file_entry list" where
  "sortEntries coll parse directories files srt =
     js_sort (dir_compare coll srt) directories @ js_sort (file_compare coll parse srt) files"

subsection \<open>The comparators are consistent\<close>

lemma comparison_factor:
  "comparison cmp \<Longrightarrow> comparison (\<lambda>x y. cmp x y * (if d = Asc then 1 else - 1))"
  using comparison_reverse [of cmp] by (cases d) simp_all

lemma dir_comparison: "comparison coll \<Longrightarrow> comparison (dir_compare coll srt)"
  unfolding dir_compare_def compareName_def
  by (rule comparison_factor, rule comparison_key)

text \<open>The key of a date, for the entries whose date can be read.\<close>

definition date_key :: "(string \<Rightarrow> int option) \<Rightarrow> file_entry \<Rightarrow> int" where
  "date_key parse a = (case modified_ms parse a of None \<Rightarrow> 0 | Some t \<Rightarrow> t)"

definition total_primary ::
  "(string \<Rightarrow> string \<Rightarrow> int) \<Rightarrow> (string \<Rightarrow> int option) \<Rightarrow> sort_state \<Rightarrow> file_entry \<Rightarrow> file_entry \<Rightarrow> int"
where
  "total_primary coll parse srt a b =
     (case sort_col srt of
        SortSize \<Rightarrow> int (fe_size a) - int (fe_size b)
      | SortModified \<Rightarrow> date_key parse a - date_key parse b
      | SortName \<Rightarrow> compareName coll a b)"

definition total_compare ::
  "(string \<Rightarrow> string \<Rightarrow> int) \<Rightarrow> (string \<Rightarrow> int option) \<Rightarrow> sort_state \<Rightarrow> file_entry \<Rightarrow> file_entry \<Rightarrow> int"
where
  "total_compare coll parse srt a b =
     (if total_primary coll parse srt a b * (if sort_dir srt = Asc then 1 else - 1) \<noteq> 0
      then total_primary coll parse srt a b * (if sort_dir srt = Asc then 1 else - 1)
      else compareName coll a b)"

lemma primary_comparison: "comparison coll \<Longrightarrow> comparison (total_primary coll parse srt)"
  unfolding total_primary_def compareName_def
  by (cases "sort_col srt") (simp_all add: comparison_int comparison_key)

lemma total_comparison:
  assumes "comparison coll"
  shows "comparison (total_compare coll parse srt)"
proof -
  have "comparison (\<lambda>a b. total_primary coll parse srt a b * (if sort_dir srt = Asc then 1 else - 1))"
    by (rule comparison_factor) (rule primary_comparison [OF assms])
  moreover have "comparison (compareName coll)"
    unfolding compareName_def by (rule comparison_key [OF assms])
  ultimately have "comparison (\<lambda>a b.
      if total_primary coll parse srt a b * (if sort_dir srt = Asc then 1 else - 1) \<noteq> 0
      then total_primary coll parse srt a b * (if sort_dir srt = Asc then 1 else - 1)
      else compareName coll a b)"
    by (rule comparison_lex)
  then show ?thesis by (simp only: total_compare_def [abs_def])
qed

definition dates_parse :: "(string \<Rightarrow> int option) \<Rightarrow> file_entry list \<Rightarrow> bool" where
  "dates_parse parse files \<longleftrightarrow> list_all (\<lambda>f. modified_ms parse f \<noteq> None) files"

lemma file_compare_total:
  assumes "modified_ms parse a \<noteq> None" and "modified_ms parse b \<noteq> None"
  shows "file_compare coll parse srt a b = total_compare coll parse srt a b"
  using assms
  by (cases "sort_col srt")
    (auto simp: file_compare_def file_primary_def total_compare_def total_primary_def factor_of_def
      date_key_def)

lemma sort_files_total:
  assumes "sort_col srt = SortModified \<longrightarrow> dates_parse parse files"
  shows "js_sort (file_compare coll parse srt) files = js_sort (total_compare coll parse srt) files"
proof (rule js_sort_cong)
  fix a b
  assume ab: "a \<in> set files" "b \<in> set files"
  have "file_compare coll parse srt a b = total_compare coll parse srt a b"
  proof (cases "sort_col srt = SortModified")
    case True
    with assms ab have "modified_ms parse a \<noteq> None" "modified_ms parse b \<noteq> None"
      by (auto simp: dates_parse_def list_all_iff)
    then show ?thesis by (rule file_compare_total)
  next
    case False
    then show ?thesis
      by (cases "sort_col srt")
        (auto simp: file_compare_def file_primary_def total_compare_def total_primary_def factor_of_def)
  qed
  then show "(file_compare coll parse srt a b \<le> 0) = (total_compare coll parse srt a b \<le> 0)"
    by simp
qed

subsection \<open>Properties\<close>

lemma sortEntries_mset:
  "mset (sortEntries coll parse directories files srt) = mset directories + mset files"
  by (simp add: sortEntries_def)

text \<open>sorting neither loses, duplicates nor invents an entry, and every folder precedes
  every file, whatever the collator and the dates are.\<close>

theorem sortEntries_perm:
  "mset (sortEntries coll parse directories files srt) = mset directories + mset files
   \<and> mset (take (length directories) (sortEntries coll parse directories files srt)) = mset directories"
  by (simp add: sortEntries_def)

text \<open>The key column decides: ascending or descending, ties by ascending name.\<close>

definition in_order ::
  "(string \<Rightarrow> string \<Rightarrow> int) \<Rightarrow> (string \<Rightarrow> int option) \<Rightarrow> sort_state \<Rightarrow> file_entry \<Rightarrow> file_entry \<Rightarrow> bool"
where
  "in_order coll parse srt a b \<longleftrightarrow>
     (let p = total_primary coll parse srt a b
      in (if sort_dir srt = Asc then p < 0 else 0 < p) \<or> p = 0 \<and> compareName coll a b \<le> 0)"

lemma total_compare_in_order: "total_compare coll parse srt a b \<le> 0 \<Longrightarrow> in_order coll parse srt a b"
  by (auto simp: total_compare_def in_order_def Let_def split: if_splits)

text \<open>C15: with a consistent collator and readable dates the files of a sorted listing are in
  the order of the chosen column and direction with ties by ascending name, the folders are in
  name order, descending only when the name column is sorted descending, and entries that
  compare equal keep the order in which they were loaded.\<close>

theorem sortEntries_sorted:
  assumes "comparison coll" and "sort_col srt = SortModified \<longrightarrow> dates_parse parse files"
  shows "\<exists>ds fs. sortEntries coll parse directories files srt = ds @ fs
    \<and> mset ds = mset directories \<and> mset fs = mset files
    \<and> sorted_wrt (\<lambda>a b. if sort_col srt = SortName \<and> sort_dir srt = Desc
          then coll (fe_name b) (fe_name a) \<le> 0 else coll (fe_name a) (fe_name b) \<le> 0) ds
    \<and> sorted_wrt (in_order coll parse srt) fs
    \<and> (\<forall>z. filter (\<lambda>y. total_compare coll parse srt z y = 0) fs
          = filter (\<lambda>y. total_compare coll parse srt z y = 0) files)"
proof (intro exI conjI allI)
  let ?ds = "js_sort (dir_compare coll srt) directories"
  let ?fs = "js_sort (total_compare coll parse srt) files"
  show "sortEntries coll parse directories files srt = ?ds @ ?fs"
    unfolding sortEntries_def sort_files_total [OF assms(2)] ..
  show "mset ?ds = mset directories" "mset ?fs = mset files" by simp_all
  have flip: "coll y x \<le> 0" if "0 \<le> coll x y" for x y
    using comparison.antisym [OF assms(1), of y x] that by (auto simp: sgn_if split: if_splits)
  show "sorted_wrt (\<lambda>a b. if sort_col srt = SortName \<and> sort_dir srt = Desc
      then coll (fe_name b) (fe_name a) \<le> 0 else coll (fe_name a) (fe_name b) \<le> 0) ?ds"
    by (rule sorted_wrt_mono_rel [OF _ comparison.sorted_js_sort [OF dir_comparison [OF assms(1)]]])
      (cases "sort_dir srt", auto simp: dir_compare_def dirDir_def compareName_def intro: flip
        split: if_splits)
  show "sorted_wrt (in_order coll parse srt) ?fs"
    by (rule sorted_wrt_mono_rel [OF _ comparison.sorted_js_sort [OF total_comparison [OF assms(1)]]])
      (rule total_compare_in_order)
  show "filter (\<lambda>y. total_compare coll parse srt z y = 0) ?fs
      = filter (\<lambda>y. total_compare coll parse srt z y = 0) files" for z
    by (rule comparison.stable_js_sort [OF total_comparison [OF assms(1)]])
qed

text \<open>The order by code units, a collator that tells every two names apart.\<close>

fun ordinal :: "string \<Rightarrow> string \<Rightarrow> int" where
  "ordinal [] [] = 0"
| "ordinal [] (y # ys) = -1"
| "ordinal (x # xs) [] = 1"
| "ordinal (x # xs) (y # ys) =
     (if x = y then ordinal xs ys else if (of_char x :: nat) < of_char y then -1 else 1)"

lemma ordinal_antisym: "ordinal x y = - ordinal y x"
  by (induction x y rule: ordinal.induct) (auto simp: not_less_iff_gr_or_eq)

lemma ordinal_0: "ordinal x y = 0 \<Longrightarrow> x = y"
  by (induction x y rule: ordinal.induct) (auto split: if_splits)

lemma ordinal_trans: "ordinal x y \<le> 0 \<Longrightarrow> ordinal y z \<le> 0 \<Longrightarrow> ordinal x z \<le> 0"
proof (induction x z arbitrary: y rule: ordinal.induct)
  case (3 x xs)
  then show ?case by (cases y) auto
next
  case (4 x xs z zs)
  then obtain c cs where "y = c # cs" by (cases y) auto
  with 4 show ?case by (auto split: if_splits)
qed auto

interpretation by_ordinal: comparison ordinal
proof
  show "sgn (ordinal x y) = - sgn (ordinal y x)" for x y
    by (subst ordinal_antisym) (simp add: sgn_if)
qed (rule ordinal_trans)

definition sample_file :: "string \<Rightarrow> nat \<Rightarrow> file_entry" where
  "sample_file nm sz = \<lparr>fe_name = nm, fe_is_directory = False, fe_size = sz,
     fe_last_modified = None\<rparr>"

theorem sortEntries_sorted_witness:
  "\<exists>ds fs. sortEntries ordinal (\<lambda>_. None) [] [sample_file ''a'' 1, sample_file ''bb'' 7]
       \<lparr>sort_col = SortSize, sort_dir = Desc\<rparr> = ds @ fs
    \<and> sorted_wrt (in_order ordinal (\<lambda>_. None) \<lparr>sort_col = SortSize, sort_dir = Desc\<rparr>) fs"
  using sortEntries_sorted [OF by_ordinal.comparison_axioms,
      of "\<lparr>sort_col = SortSize, sort_dir = Desc\<rparr>" "\<lambda>_. None"
        "[sample_file ''a'' 1, sample_file ''bb'' 7]" "[]"]
  by (simp, blast)

lemma dir_compare_0: "dir_compare coll srt z y = 0 \<longleftrightarrow> coll (fe_name z) (fe_name y) = 0"
  by (simp add: dir_compare_def compareName_def)

lemma total_compare_0:
  "total_compare coll parse srt z y = 0 \<longleftrightarrow> coll (fe_name z) (fe_name y) = 0 \<and> total_primary coll parse srt z y = 0"
  by (cases "sort_dir srt"; cases "sort_col srt") (auto simp: total_compare_def total_primary_def compareName_def)

text \<open>C28: how much of a sorted listing depends on the order in which the chunks of the level were
  loaded.  The code's collator is no total order on names: it identifies names that differ only in
  case.  Loaded in another order the same entries give the same listing exactly when, among folders
  whose names the collator identifies, and among files whose names it identifies and whose keys are
  equal, the load order is the same; nothing else of the load order shows.\<close>

theorem sortEntries_load_order:
  assumes "comparison coll" and "sort_col srt = SortModified \<longrightarrow> dates_parse parse files"
    and "mset directories' = mset directories" and "mset files' = mset files"
  shows "sortEntries coll parse directories' files' srt = sortEntries coll parse directories files srt \<longleftrightarrow>
    (\<forall>z\<in>set directories. filter (\<lambda>y. coll (fe_name z) (fe_name y) = 0) directories'
       = filter (\<lambda>y. coll (fe_name z) (fe_name y) = 0) directories)
    \<and> (\<forall>z\<in>set files. filter (\<lambda>y. coll (fe_name z) (fe_name y) = 0 \<and> total_primary coll parse srt z y = 0) files'
       = filter (\<lambda>y. coll (fe_name z) (fe_name y) = 0 \<and> total_primary coll parse srt z y = 0) files)"
proof -
  have sets: "set directories' = set directories" "set files' = set files"
    using assms(3,4) by (metis set_mset_mset)+
  then have dates: "sort_col srt = SortModified \<longrightarrow> dates_parse parse files'"
    using assms(2) by (simp add: dates_parse_def list_all_iff)
  have len: "length (js_sort (dir_compare coll srt) directories') = length (js_sort (dir_compare coll srt) directories)"
    using assms(3) by (metis length_js_sort size_mset)
  have "sortEntries coll parse directories' files' srt = sortEntries coll parse directories files srt \<longleftrightarrow>
      js_sort (dir_compare coll srt) directories' = js_sort (dir_compare coll srt) directories
      \<and> js_sort (total_compare coll parse srt) files' = js_sort (total_compare coll parse srt) files"
    unfolding sortEntries_def sort_files_total[OF assms(2)] sort_files_total[OF dates]
    using len by (simp add: append_eq_append_conv)
  then show ?thesis
    unfolding comparison.js_sort_eq_iff[OF dir_comparison[OF assms(1)] assms(3)]
      comparison.js_sort_eq_iff[OF total_comparison[OF assms(1)] assms(4)] sets dir_compare_0 total_compare_0 .
qed

text \<open>A collator that ignores the case of ASCII letters.\<close>

definition fold_letter :: "char \<Rightarrow> char" where
  "fold_letter c = (let n = of_char c :: nat in if 65 \<le> n \<and> n \<le> 90 then char_of (n + 32) else c)"

definition caseless :: "string \<Rightarrow> string \<Rightarrow> int" where
  "caseless x y = ordinal (map fold_letter x) (map fold_letter y)"

lemma lower_codes: "char_of (97::nat) = CHR ''a''" "char_of (98::nat) = CHR ''b''"
  by (simp_all add: char_of_eq_iff)

lemma caseless_comparison: "comparison caseless"
  unfolding caseless_def[abs_def] by (rule comparison_key[OF by_ordinal.comparison_axioms])

text \<open>Chunks may arrive in either order when the names differ, but not when only their case does.\<close>

theorem sortEntries_load_order_witness:
  "sortEntries caseless (\<lambda>_. None) [] [sample_file ''B'' 1, sample_file ''a'' 7] DEFAULT_SORT
     = sortEntries caseless (\<lambda>_. None) [] [sample_file ''a'' 7, sample_file ''B'' 1] DEFAULT_SORT
   \<and> sortEntries caseless (\<lambda>_. None) [] [sample_file ''A'' 1, sample_file ''a'' 7] DEFAULT_SORT
     \<noteq> sortEntries caseless (\<lambda>_. None) [] [sample_file ''a'' 7, sample_file ''A'' 1] DEFAULT_SORT"
proof -
  have ab: "caseless ''a'' ''B'' \<noteq> 0" "caseless ''B'' ''a'' \<noteq> 0" "caseless ''a'' ''a'' = 0" "caseless ''B'' ''B'' = 0"
    "caseless ''A'' ''a'' = 0" "caseless ''a'' ''A'' = 0" "caseless ''A'' ''A'' = 0"
    by (simp_all add: caseless_def fold_letter_def lower_codes)
  have col: "sort_col DEFAULT_SORT = SortName" by (simp add: DEFAULT_SORT_def)
  have iff: "sortEntries caseless (\<lambda>_. None) [] [g, f] DEFAULT_SORT = sortEntries caseless (\<lambda>_. None) [] [f, g] DEFAULT_SORT
      \<longleftrightarrow> (\<forall>z\<in>set [f, g]. filter (\<lambda>y. caseless (fe_name z) (fe_name y) = 0) [g, f]
            = filter (\<lambda>y. caseless (fe_name z) (fe_name y) = 0) [f, g])" for f g
    using sortEntries_load_order[OF caseless_comparison, of DEFAULT_SORT "\<lambda>_. None" "[f, g]" "[]" "[]" "[g, f]"] col
    by (simp add: total_primary_def compareName_def)
  show ?thesis unfolding iff by (simp add: sample_file_def ab)
qed

end
