(* ===== verification/Format.thy ===== *)
theory Format
  imports Js_Text
begin

text \<open>
  The formatters of \<open>frontend/src/utils\<close> (formatBytes, formatDate, formatDuration) and
  the cache lifetime of a presigned URL (\<open>features/files/hooks/usePresignedUrl.ts\<close>).

  Byte counts, seconds and milliseconds are integers.  Dividing by 1024 is exact on doubles
  below 2^53, so \<open>toFixed(1)\<close> of bytes / 1024^k is the nearest multiple of a tenth,
  the larger one in a tie.  \<open>Math.round\<close> rounds halves up.  \<open>Date.parse\<close>, the
  clock and the calendar of the locale are parameters.
\<close>

subsection \<open>formatBytes\<close>

definition UNITS :: "string list" where
  "UNITS = [''B'', ''KB'', ''MB'', ''GB'', ''TB'']"

text \<open>\<open>toFixed1 n d\<close> is n / d printed with one decimal; \<open>tenths\<close> counts its tenths.\<close>

definition tenths :: "nat \<Rightarrow> nat \<Rightarrow> nat" where
  "tenths n d = (20 * n + d) div (2 * d)"

definition toFixed1 :: "nat \<Rightarrow> nat \<Rightarrow> string" where
  "toFixed1 n d = nat_str (tenths n d div 10) @ ''.'' @ nat_str (tenths n d mod 10)"

text \<open>The loop: \<open>value = bytes / den\<close>, one step multiplies the denominator by 1024.\<close>

function unit_loop :: "nat \<Rightarrow> nat \<Rightarrow> nat \<Rightarrow> nat \<times> nat" where
  "unit_loop bytes den i =
     (if 1024 * den \<le> bytes \<and> i < length UNITS - 1 then unit_loop bytes (den * 1024) (i + 1)
      else (den, i))"
  by auto
termination by (relation "measure (\<lambda>(bytes, den, i). length UNITS - i)") auto

declare unit_loop.simps [simp del]

definition formatBytes :: "nat \<Rightarrow> string" where
  "formatBytes bytes =
     (if bytes = 0 then ''0 B''
      else if bytes < 1024 then nat_str bytes @ '' B''
      else (case unit_loop bytes 1 0 of
              (den, unitIndex) \<Rightarrow> toFixed1 bytes den @ '' '' @ UNITS ! unitIndex))"

lemma length_UNITS [simp]: "length UNITS = 5"
  by (simp add: UNITS_def)

lemma unit_loop_result:
  assumes "unit_loop bytes den i = (den', i')" and "den = 1024 ^ i" and "i \<le> 4"
    and "i = 0 \<or> den \<le> bytes"
  shows "den' = 1024 ^ i' \<and> i' \<le> 4 \<and> i \<le> i' \<and> (i' = 0 \<or> den' \<le> bytes)
       \<and> (i' < 4 \<longrightarrow> bytes < 1024 * den')"
  using assms
proof (induction bytes den i rule: unit_loop.induct)
  case (1 bytes den i)
  show ?case
  proof (cases "1024 * den \<le> bytes \<and> i < length UNITS - 1")
    case True
    with "1.prems"(1) have "unit_loop bytes (den * 1024) (i + 1) = (den', i')"
      by (simp add: unit_loop.simps [of bytes den i])
    from "1.IH" [OF True this] "1.prems"(2,3) True show ?thesis by auto
  next
    case False
    with "1.prems"(1) have "den' = den" "i' = i"
      by (auto simp: unit_loop.simps [of bytes den i] simp del: One_nat_def)
    with "1.prems"(2-4) False show ?thesis by (auto simp: not_le)
  qed
qed

lemma tenths_error:
  assumes "0 < d"
  shows "2 * d * tenths n d \<le> 20 * n + d \<and> 20 * n < 2 * d * tenths n d + d"
proof -
  let ?m = "20 * n + d" and ?k = "2 * d"
  have "?k * (?m div ?k) + ?m mod ?k = ?m" by (simp only: mult_div_mod_eq)
  moreover have "?m mod ?k < ?k" using assms by simp
  ultimately show ?thesis unfolding tenths_def by linarith
qed

text \<open>the size shown is within half a tenth of a unit of the true size, and the unit is
  the largest one that the size reaches (terabytes have no upper end).\<close>

theorem formatBytes_accuracy:
  assumes "1024 \<le> bytes"
  shows "\<exists>k t. 1 \<le> k \<and> k \<le> 4
    \<and> formatBytes bytes = nat_str (t div 10) @ ''.'' @ nat_str (t mod 10) @ '' '' @ UNITS ! k
    \<and> 1024 ^ k \<le> bytes \<and> (k < 4 \<longrightarrow> bytes < 1024 ^ (k + 1))
    \<and> 20 * bytes < (2 * t + 1) * 1024 ^ k \<and> (2 * t - 1) * 1024 ^ k \<le> 20 * bytes"
proof -
  obtain den k where r: "unit_loop bytes 1 0 = (den, k)" by (cases "unit_loop bytes 1 0")
  from unit_loop_result [OF r] have d: "den = 1024 ^ k" "k \<le> 4" "k = 0 \<or> den \<le> bytes"
    "k < 4 \<longrightarrow> bytes < 1024 * den" by auto
  have "k \<noteq> 0" using d assms by (cases k) auto
  have e: "2 * den * tenths bytes den \<le> 20 * bytes + den \<and> 20 * bytes < 2 * den * tenths bytes den + den"
    by (rule tenths_error) (simp add: d)
  have "(2 * tenths bytes den - 1) * den \<le> 20 * bytes"
    using e unfolding diff_mult_distrib by (simp add: algebra_simps) linarith
  moreover have "20 * bytes < (2 * tenths bytes den + 1) * den"
    using e by (simp add: algebra_simps)
  moreover have "formatBytes bytes = nat_str (tenths bytes den div 10) @ ''.''
      @ nat_str (tenths bytes den mod 10) @ '' '' @ UNITS ! k"
    using assms r by (simp add: formatBytes_def toFixed1_def)
  ultimately show ?thesis using d \<open>k \<noteq> 0\<close> by (intro exI [of _ k] exI [of _ "tenths bytes den"]) auto
qed

theorem formatBytes_accuracy_witness:
  "\<exists>k t. 1 \<le> k \<and> k \<le> 4
    \<and> formatBytes 1536 = nat_str (t div 10) @ ''.'' @ nat_str (t mod 10) @ '' '' @ UNITS ! k
    \<and> 1024 ^ k \<le> (1536 :: nat) \<and> (k < 4 \<longrightarrow> (1536 :: nat) < 1024 ^ (k + 1))
    \<and> 20 * (1536 :: nat) < (2 * t + 1) * 1024 ^ k \<and> (2 * t - 1) * 1024 ^ k \<le> 20 * (1536 :: nat)"
  by (rule formatBytes_accuracy) simp

text \<open>The rounding happens after the choice of the unit, so a size just below a megabyte is
  printed as 1024 kilobytes.\<close>

lemma formatBytes_below_MB: "formatBytes 1048575 = ''1024.0 KB''"
  by (simp add: formatBytes_def unit_loop.simps toFixed1_def tenths_def nat_str.simps
      UNITS_def)

subsection \<open>formatDuration\<close>

text \<open>\<open>Math.round(n / d)\<close>.\<close>

definition math_round_div :: "nat \<Rightarrow> nat \<Rightarrow> nat" where
  "math_round_div n d = (2 * n + d) div (2 * d)"

definition plural :: "nat \<Rightarrow> string \<Rightarrow> string" where
  "plural n unit = nat_str n @ '' '' @ unit @ (if n = 1 then [] else ''s'')"

definition formatDuration :: "nat \<Rightarrow> string" where
  "formatDuration seconds =
     (if 86400 \<le> seconds then plural (math_round_div seconds 86400) ''day''
      else if 3600 \<le> seconds then plural (math_round_div seconds 3600) ''hour''
      else plural (math_round_div seconds 60) ''minute'')"

lemma formatDuration_exact:
  "0 < d \<Longrightarrow> formatDuration (d * 86400) = plural d ''day''"
  "0 < h \<Longrightarrow> h < 24 \<Longrightarrow> formatDuration (h * 3600) = plural h ''hour''"
  "mn < 60 \<Longrightarrow> formatDuration (mn * 60) = plural mn ''minute''"
  by (auto simp: formatDuration_def math_round_div_def)

subsection \<open>formatDate, formatRelative, formatAbsolute\<close>

definition ms_MINUTE :: int where "ms_MINUTE = 60 * 1000"
definition ms_HOUR :: int where "ms_HOUR = 60 * ms_MINUTE"
definition ms_DAY :: int where "ms_DAY = 24 * ms_HOUR"
definition ms_WEEK :: int where "ms_WEEK = 7 * ms_DAY"

lemmas ms_defs = ms_MINUTE_def ms_HOUR_def ms_DAY_def ms_WEEK_def

definition ago :: "bool \<Rightarrow> int \<Rightarrow> string \<Rightarrow> string" where
  "ago future n unit =
     (let word = (if n = 1 then unit else unit @ ''s'')
      in if future then ''in '' @ int_str n @ '' '' @ word else int_str n @ '' '' @ word @ '' ago'')"

text \<open>\<open>parse dstr\<close> is the time of the date (None where it is NaN, which makes every
  comparison false), \<open>locale_date\<close> the calendar date in the format of the source.\<close>

definition formatDate :: "(string \<Rightarrow> int option) \<Rightarrow> (string \<Rightarrow> string) \<Rightarrow> int \<Rightarrow> string \<Rightarrow> string" where
  "formatDate parse locale_date now dstr =
     (case parse dstr of
        None \<Rightarrow> locale_date dstr
      | Some then_ms \<Rightarrow>
          (let diffMs = now - then_ms;
               future = (diffMs < 0);
               diff = abs diffMs
           in if diff < ms_MINUTE then (if future then ''in less than a minute'' else ''just now'')
              else if diff < ms_HOUR then ago future (diff div ms_MINUTE) ''minute''
              else if diff < ms_DAY then ago future (diff div ms_HOUR) ''hour''
              else if diff < ms_WEEK then ago future (diff div ms_DAY) ''day''
              else locale_date dstr))"

text \<open>null, undefined and the empty string are falsy.\<close>

definition formatRelative ::
  "(string \<Rightarrow> int option) \<Rightarrow> (string \<Rightarrow> string) \<Rightarrow> int \<Rightarrow> string option \<Rightarrow> string" where
  "formatRelative parse locale_date now dstr =
     (case dstr of None \<Rightarrow> ''never''
      | Some s \<Rightarrow> if s = [] then ''never'' else formatDate parse locale_date now s)"

text \<open>The local calendar fields of a date; \<open>date_month\<close> counts from 0.\<close>

record date_fields =
  date_year :: nat
  date_month :: nat
  date_day :: nat
  date_hours :: nat
  date_minutes :: nat

definition pad2 :: "nat \<Rightarrow> string" where
  "pad2 n = (let s = nat_str n in replicate (2 - length s) (CHR ''0'') @ s)"

definition em_dash :: string where
  "em_dash = [CHR 0xE2, CHR 0x80, CHR 0x94]"

definition formatAbsolute :: "(string \<Rightarrow> date_fields) \<Rightarrow> string option \<Rightarrow> string" where
  "formatAbsolute calendar dstr =
     (case dstr of None \<Rightarrow> em_dash
      | Some s \<Rightarrow>
          if s = [] then em_dash
          else (let d = calendar s
                in nat_str (date_year d) @ ''-'' @ pad2 (date_month d + 1) @ ''-'' @ pad2 (date_day d)
                   @ '' '' @ pad2 (date_hours d) @ '':'' @ pad2 (date_minutes d)))"

text \<open>The unit of a relative date: the number printed is at least one and smaller than the
  number of units in the next larger one, and the label says on which side of now it is.\<close>

lemma formatDate_range:
  assumes "parse dstr = Some t" and "abs (now - t) < ms_WEEK"
  shows "formatDate parse locale_date now dstr \<in> {''just now'', ''in less than a minute''}
      \<and> abs (now - t) < ms_MINUTE
    \<or> (\<exists>n u bound size. (u, size, bound) \<in> {(''minute'', ms_MINUTE, 60), (''hour'', ms_HOUR, 24), (''day'', ms_DAY, 7)}
        \<and> 1 \<le> n \<and> n < bound \<and> n * size \<le> abs (now - t) \<and> abs (now - t) < (n + 1) * size
        \<and> formatDate parse locale_date now dstr = ago (now < t) n u)"
proof -
  let ?d = "abs (now - t)"
  have div_bounds: "(?d div s) * s \<le> ?d \<and> ?d < (?d div s + 1) * s" if "0 < s" for s :: int
    using div_mult_mod_eq [of ?d s] pos_mod_bound [OF that, of ?d] pos_mod_sign [OF that, of ?d]
    unfolding distrib_right by linarith
  have unit: "1 \<le> ?d div s \<and> ?d div s < b" if "0 < s" "s \<le> ?d" "?d < b * s" for s b :: int
  proof
    show "1 \<le> ?d div s" using that by (simp add: pos_imp_zdiv_pos_iff int_one_le_iff_zero_less)
    have "(?d div s) * s < b * s" using div_bounds [OF that(1)] that(3) by linarith
    with that(1) show "?d div s < b" by simp
  qed
  consider "?d < ms_MINUTE" | "ms_MINUTE \<le> ?d" "?d < ms_HOUR" | "ms_HOUR \<le> ?d" "?d < ms_DAY"
    | "ms_DAY \<le> ?d" "?d < ms_WEEK" using assms(2) by linarith
  then show ?thesis
  proof cases
    case 1
    with assms(1) show ?thesis by (auto simp: formatDate_def Let_def)
  next
    case 2
    with assms(1) have "formatDate parse locale_date now dstr = ago (now < t) (?d div ms_MINUTE) ''minute''"
      by (simp add: formatDate_def Let_def)
    with div_bounds [of ms_MINUTE] unit [of ms_MINUTE 60] 2 show ?thesis
      by (intro disjI2 exI [of _ "?d div ms_MINUTE"] exI [of _ "''minute''"] exI [of _ 60] exI [of _ ms_MINUTE])
        (auto simp: ms_defs)
  next
    case 3
    with assms(1) have "formatDate parse locale_date now dstr = ago (now < t) (?d div ms_HOUR) ''hour''"
      by (simp add: formatDate_def Let_def ms_defs)
    with div_bounds [of ms_HOUR] unit [of ms_HOUR 24] 3 show ?thesis
      by (intro disjI2 exI [of _ "?d div ms_HOUR"] exI [of _ "''hour''"] exI [of _ 24] exI [of _ ms_HOUR])
        (auto simp: ms_defs)
  next
    case 4
    with assms(1) have "formatDate parse locale_date now dstr = ago (now < t) (?d div ms_DAY) ''day''"
      by (simp add: formatDate_def Let_def ms_defs)
    with div_bounds [of ms_DAY] unit [of ms_DAY 7] 4 show ?thesis
      by (intro disjI2 exI [of _ "?d div ms_DAY"] exI [of _ "''day''"] exI [of _ 7] exI [of _ ms_DAY])
        (auto simp: ms_defs)
  qed
qed

subsection \<open>presignedStaleTime\<close>

text \<open>\<open>Math.floor(remaining * 0.8)\<close>: below 2^50 milliseconds the double nearest to 0.8
  gives the same integer as the exact quotient.\<close>

definition presignedStaleTime :: "(string \<Rightarrow> int option) \<Rightarrow> int \<Rightarrow> string option \<Rightarrow> int" where
  "presignedStaleTime parse now expiresAt =
     (case expiresAt of None \<Rightarrow> 0
      | Some s \<Rightarrow>
          if s = [] then 0
          else (case parse s of None \<Rightarrow> 0
                | Some expiryMs \<Rightarrow>
                    (let remaining = expiryMs - now
                     in if remaining \<le> 0 then 0 else (4 * remaining) div 5)))"

text \<open>a cached presigned URL is never treated as fresh at or after its expiry, and at least
  a fifth of the remaining lifetime is left as margin.\<close>

theorem presignedStaleTime_before_expiry:
  assumes "0 < presignedStaleTime parse now expiresAt"
  shows "\<exists>s e. expiresAt = Some s \<and> parse s = Some e
    \<and> now + presignedStaleTime parse now expiresAt < e
    \<and> e - now \<le> 5 * (e - (now + presignedStaleTime parse now expiresAt))"
proof -
  from assms obtain s e where e: "expiresAt = Some s" "s \<noteq> []" "parse s = Some e" "0 < e - now"
    by (auto simp: presignedStaleTime_def Let_def split: option.splits if_splits)
  then have "presignedStaleTime parse now expiresAt = (4 * (e - now)) div 5"
    by (simp add: presignedStaleTime_def Let_def)
  with e show ?thesis by (intro exI [of _ s] exI [of _ e]) auto
qed

theorem presignedStaleTime_before_expiry_witness:
  "\<exists>s e. Some ''t'' = Some s \<and> (\<lambda>_. Some 1001) s = Some e
    \<and> 1 + presignedStaleTime (\<lambda>_. Some 1001) 1 (Some ''t'') < e
    \<and> e - 1 \<le> 5 * (e - (1 + presignedStaleTime (\<lambda>_. Some 1001) 1 (Some ''t'')))"
  by (rule presignedStaleTime_before_expiry) (simp add: presignedStaleTime_def)

end
