(* ===== verification/Ttl_Presets.thy ===== *)
theory Ttl_Presets
  imports Format Js_Sort
begin

text \<open>
  The validity presets of a presigned URL: \<open>utils/ttlPresets.ts\<close>.  An option of a
  select field is a record of two strings; its value is the decimal numeral of the seconds.
\<close>

record ttl_preset =
  preset_value :: nat
  preset_label :: string

record select_option =
  opt_value :: string
  opt_label :: string

definition preset :: "nat \<Rightarrow> ttl_preset" where
  "preset v = \<lparr>preset_value = v, preset_label = formatDuration v\<rparr>"

definition TTL_PRESETS :: "ttl_preset list" where
  "TTL_PRESETS = [preset 300, preset 900, preset 3600, preset 21600, preset 43200, preset 86400,
     preset 259200, preset 604800]"

definition ttlOptionsUpTo :: "nat \<Rightarrow> ttl_preset list" where
  "ttlOptionsUpTo maxTtl = filter (\<lambda>p. preset_value p \<le> maxTtl) TTL_PRESETS"

definition ttlSelectDataUpTo :: "nat \<Rightarrow> select_option list" where
  "ttlSelectDataUpTo maxTtl =
     map (\<lambda>p. \<lparr>opt_value = nat_str (preset_value p), opt_label = preset_label p\<rparr>)
       (ttlOptionsUpTo maxTtl)"

text \<open>\<open>Number(a.value) - Number(b.value)\<close>; a NaN difference counts as 0.\<close>

definition ttl_compare :: "select_option \<Rightarrow> select_option \<Rightarrow> int" where
  "ttl_compare a b =
     (case (js_Number (opt_value a), js_Number (opt_value b)) of
        (Some x, Some y) \<Rightarrow> int x - int y
      | _ \<Rightarrow> 0)"

definition withConfiguredValue :: "select_option list \<Rightarrow> nat \<Rightarrow> select_option list" where
  "withConfiguredValue data value =
     (if \<exists>d\<in>set data. opt_value d = nat_str value then data
      else js_sort ttl_compare
             (data @ [\<lparr>opt_value = nat_str value,
                       opt_label = ''Custom ('' @ formatDuration value @ '')''\<rparr>]))"

subsection \<open>The order of the options\<close>

definition option_seconds :: "select_option \<Rightarrow> nat" where
  "option_seconds d = the (js_Number (opt_value d))"

definition by_seconds :: "select_option \<Rightarrow> select_option \<Rightarrow> int" where
  "by_seconds a b = int (option_seconds a) - int (option_seconds b)"

text \<open>On numerals the comparator of the source is the difference of the seconds, which is a
  consistent comparison.\<close>

interpretation by_ttl: comparison by_seconds
  unfolding by_seconds_def by (rule comparison_int)

definition numeral_option :: "select_option \<Rightarrow> bool" where
  "numeral_option d \<longleftrightarrow> (\<exists>n. opt_value d = nat_str n)"

lemma option_seconds_str [simp]: "opt_value d = nat_str n \<Longrightarrow> option_seconds d = n"
  by (simp add: option_seconds_def)

lemma js_sort_ttl:
  "(\<And>d. d \<in> set xs \<Longrightarrow> numeral_option d) \<Longrightarrow> js_sort ttl_compare xs = js_sort by_seconds xs"
proof (rule js_sort_cong)
  fix x y
  assume "\<And>d. d \<in> set xs \<Longrightarrow> numeral_option d" and "x \<in> set xs" and "y \<in> set xs"
  then obtain m n where "opt_value x = nat_str m" "opt_value y = nat_str n"
    unfolding numeral_option_def by blast
  then show "(ttl_compare x y \<le> 0) = (by_seconds x y \<le> 0)"
    by (simp add: ttl_compare_def by_seconds_def)
qed

lemma strictly_ascending:
  assumes "sorted_wrt (\<lambda>x y. by_seconds x y \<le> 0) xs" and "distinct (map option_seconds xs)"
  shows "sorted_wrt (<) (map option_seconds xs)"
proof -
  have "sorted (map option_seconds xs)"
    using assms(1) by (simp add: sorted_map by_seconds_def)
  with assms(2) show ?thesis by (simp add: strict_sorted_iff)
qed

lemma withConfiguredValue_seconds:
  assumes num: "\<And>d. d \<in> set data \<Longrightarrow> numeral_option d"
    and asc: "sorted_wrt (<) (map option_seconds data)"
  shows "sorted_wrt (<) (map option_seconds (withConfiguredValue data v))"
    and "option_seconds ` set (withConfiguredValue data v) = insert v (option_seconds ` set data)"
    and "set data \<subseteq> set (withConfiguredValue data v)"
proof -
  have key: "opt_value d = nat_str v \<longleftrightarrow> option_seconds d = v" if "d \<in> set data" for d
    using num [OF that] by (auto simp: numeral_option_def)
  let ?new = "\<lparr>opt_value = nat_str v, opt_label = ''Custom ('' @ formatDuration v @ '')''\<rparr>"
  have new: "option_seconds ?new = v" by simp
  show "sorted_wrt (<) (map option_seconds (withConfiguredValue data v))"
  proof (cases "\<exists>d\<in>set data. opt_value d = nat_str v")
    case True
    with asc show ?thesis by (simp add: withConfiguredValue_def)
  next
    case False
    then have fresh: "v \<notin> option_seconds ` set data" using key by auto
    have nums: "numeral_option d" if "d \<in> set (data @ [?new])" for d
      using that num by (auto simp: numeral_option_def)
    have "mset (map option_seconds (js_sort by_seconds (data @ [?new])))
        = mset (map option_seconds (data @ [?new]))"
      by (simp only: mset_map mset_js_sort)
    moreover have "distinct (map option_seconds (data @ [?new]))"
      using asc fresh by (simp add: strict_sorted_iff)
    ultimately have "distinct (map option_seconds (js_sort by_seconds (data @ [?new])))"
      by (metis mset_eq_imp_distinct_iff)
    then have "sorted_wrt (<) (map option_seconds (js_sort by_seconds (data @ [?new])))"
      by (intro strictly_ascending by_ttl.sorted_js_sort)
    moreover have "withConfiguredValue data v = js_sort by_seconds (data @ [?new])"
    proof -
      have "js_sort ttl_compare (data @ [?new]) = js_sort by_seconds (data @ [?new])"
        by (rule js_sort_ttl) (rule nums)
      with False show ?thesis by (simp add: withConfiguredValue_def)
    qed
    ultimately show ?thesis by simp
  qed
  show "option_seconds ` set (withConfiguredValue data v) = insert v (option_seconds ` set data)"
    using key new by (auto simp: withConfiguredValue_def)
  show "set data \<subseteq> set (withConfiguredValue data v)"
    by (auto simp: withConfiguredValue_def)
qed

lemma presets_sorted: "sorted_wrt (<) (map preset_value TTL_PRESETS)"
  by (simp add: TTL_PRESETS_def preset_def)

lemma select_data:
  "d \<in> set (ttlSelectDataUpTo mx) \<Longrightarrow> numeral_option d"
  "map option_seconds (ttlSelectDataUpTo mx) = filter (\<lambda>v. v \<le> mx) (map preset_value TTL_PRESETS)"
  by (auto simp: ttlSelectDataUpTo_def ttlOptionsUpTo_def numeral_option_def filter_map o_def)

text \<open>a select of validity presets always offers the configured value, keeps every preset
  up to the server's maximum, adds nothing else, and lists the options in strictly ascending
  order of their seconds.\<close>

theorem ttl_select_offers_configured:
  "sorted_wrt (<) (map option_seconds (withConfiguredValue (ttlSelectDataUpTo maxTtl) v))
   \<and> set (map option_seconds (withConfiguredValue (ttlSelectDataUpTo maxTtl) v))
       = insert v {t \<in> {300, 900, 3600, 21600, 43200, 86400, 259200, 604800}. t \<le> maxTtl}
   \<and> set (ttlSelectDataUpTo maxTtl) \<subseteq> set (withConfiguredValue (ttlSelectDataUpTo maxTtl) v)"
proof -
  have num: "\<And>d. d \<in> set (ttlSelectDataUpTo maxTtl) \<Longrightarrow> numeral_option d"
    by (rule select_data(1))
  have asc: "sorted_wrt (<) (map option_seconds (ttlSelectDataUpTo maxTtl))"
    unfolding select_data by (rule sorted_wrt_filter) (rule presets_sorted)
  have "option_seconds ` set (ttlSelectDataUpTo maxTtl)
      = set (filter (\<lambda>v. v \<le> maxTtl) (map preset_value TTL_PRESETS))"
    using arg_cong [OF select_data(2) [of maxTtl], of set] by (simp only: set_map)
  also have "\<dots> = {t \<in> {300, 900, 3600, 21600, 43200, 86400, 259200, 604800}. t \<le> maxTtl}"
    by (auto simp: TTL_PRESETS_def preset_def)
  finally have
    "option_seconds ` set (ttlSelectDataUpTo maxTtl)
       = {t \<in> {300, 900, 3600, 21600, 43200, 86400, 259200, 604800}. t \<le> maxTtl}" .
  with withConfiguredValue_seconds [OF num asc, of v] show ?thesis by simp
qed

end
