(* ===== verification/Shift_Select.thy ===== *)
theory Shift_Select
  imports Base
begin

text \<open>
  The selection of the file browser: \<open>components/FileBrowser/useShiftSelect.ts\<close>.  A
  JavaScript Set iterates in insertion order, which the bulk operations follow, so a set is a
  list of its elements in that order (\<open>distinct\<close> is its invariant).  The hook's state is
  the selected set and the anchor of the ref.
\<close>

subsection \<open>Sets in insertion order\<close>

definition set_add :: "'a \<Rightarrow> 'a list \<Rightarrow> 'a list" where
  "set_add x s = (if x \<in> set s then s else s @ [x])"

definition set_delete :: "'a \<Rightarrow> 'a list \<Rightarrow> 'a list" where
  "set_delete x s = filter (\<lambda>y. y \<noteq> x) s"

definition new_Set :: "'a list \<Rightarrow> 'a list" where
  "new_Set xs = foldl (\<lambda>s x. set_add x s) [] xs"

lemma set_set_add [simp]: "set (set_add x s) = insert x (set s)"
  by (auto simp: set_add_def)

lemma set_set_delete [simp]: "set (set_delete x s) = set s - {x}"
  by (auto simp: set_delete_def)

lemma distinct_set_add [simp]: "distinct (set_add x s) \<longleftrightarrow> distinct s"
  by (auto simp: set_add_def)

lemma distinct_set_delete [simp]: "distinct s \<Longrightarrow> distinct (set_delete x s)"
  by (simp add: set_delete_def)

lemma foldl_set_add:
  "set (foldl (\<lambda>s x. set_add x s) s xs) = set s \<union> set xs"
  "distinct s \<Longrightarrow> distinct (foldl (\<lambda>s x. set_add x s) s xs)"
  by (induction xs arbitrary: s) auto

lemma foldl_set_delete:
  "set (foldl (\<lambda>s x. set_delete x s) s xs) = set s - set xs"
  "distinct s \<Longrightarrow> distinct (foldl (\<lambda>s x. set_delete x s) s xs)"
  by (induction xs arbitrary: s) auto

lemma foldl_set_add_fresh:
  "distinct (s @ xs) \<Longrightarrow> foldl (\<lambda>s x. set_add x s) s xs = s @ xs"
  by (induction xs arbitrary: s) (auto simp: set_add_def)

lemma set_new_Set [simp]: "set (new_Set xs) = set xs"
  by (simp add: new_Set_def foldl_set_add)

lemma distinct_new_Set [simp]: "distinct (new_Set xs)"
  by (simp add: new_Set_def foldl_set_add)

lemma new_Set_id: "distinct xs \<Longrightarrow> new_Set xs = xs"
  by (simp add: new_Set_def foldl_set_add_fresh)

subsection \<open>The hook\<close>

record selection =
  selected :: "string list"
  anchorRef :: "string option"

definition empty_selection :: selection where
  "empty_selection = \<lparr>selected = [], anchorRef = None\<rparr>"

text \<open>The range loop, \<open>i = from .. to\<close>.\<close>

definition apply_range :: "bool \<Rightarrow> string list \<Rightarrow> nat \<Rightarrow> nat \<Rightarrow> string list \<Rightarrow> string list" where
  "apply_range anchorIsSelected orderedNames lo hi next_set =
     foldl (\<lambda>s i. if anchorIsSelected then set_add (orderedNames ! i) s
                  else set_delete (orderedNames ! i) s) next_set [lo..<hi + 1]"

text \<open>An empty anchor is falsy, like a missing one.\<close>

definition anchor_index :: "selection \<Rightarrow> string list \<Rightarrow> (string \<times> nat) option" where
  "anchor_index st orderedNames =
     (case anchorRef st of None \<Rightarrow> None
      | Some anchor \<Rightarrow>
          if anchor = [] then None
          else map_option (\<lambda>i. (anchor, i)) (index_of orderedNames anchor))"

definition handleToggle :: "string \<Rightarrow> bool \<Rightarrow> string list \<Rightarrow> selection \<Rightarrow> selection" where
  "handleToggle name shiftKey orderedNames st =
     (case (if shiftKey then anchor_index st orderedNames else None, index_of orderedNames name) of
        (Some (anchor, anchorIdx), Some targetIdx) \<Rightarrow>
          (let (lo, hi) = (if anchorIdx \<le> targetIdx then (anchorIdx, targetIdx)
                           else (targetIdx, anchorIdx))
           in st\<lparr>selected := apply_range (anchor \<in> set (selected st)) orderedNames lo hi (selected st)\<rparr>)
      | _ \<Rightarrow>
          st\<lparr>selected := (if name \<in> set (selected st) then set_delete name (selected st)
                          else set_add name (selected st)),
             anchorRef := Some name\<rparr>)"

definition toggleAll :: "string list \<Rightarrow> selection \<Rightarrow> selection" where
  "toggleAll orderedNames st =
     (let allSelected = (orderedNames \<noteq> [] \<and> list_all (\<lambda>n. n \<in> set (selected st)) orderedNames)
      in \<lparr>selected = (if allSelected then [] else new_Set orderedNames), anchorRef = None\<rparr>)"

definition clear_selection :: "selection \<Rightarrow> selection" where
  "clear_selection st = \<lparr>selected = [], anchorRef = None\<rparr>"

subsection \<open>Sequences of operations\<close>

datatype select_op = Toggle string bool "string list" | ToggleAll "string list" | Clear

fun select_step :: "selection \<Rightarrow> select_op \<Rightarrow> selection" where
  "select_step st (Toggle name shiftKey orderedNames) = handleToggle name shiftKey orderedNames st"
| "select_step st (ToggleAll orderedNames) = toggleAll orderedNames st"
| "select_step st Clear = clear_selection st"

fun op_names :: "select_op \<Rightarrow> string set" where
  "op_names (Toggle name shiftKey orderedNames) = insert name (set orderedNames)"
| "op_names (ToggleAll orderedNames) = set orderedNames"
| "op_names Clear = {}"

subsection \<open>Properties\<close>

lemma apply_range_set:
  "set (apply_range b orderedNames lo hi s)
     = (if b then set s \<union> (!) orderedNames ` {lo..hi} else set s - (!) orderedNames ` {lo..hi})"
proof -
  have m: "foldl (\<lambda>s i. f (g i) s) t is = foldl (\<lambda>s x. f x s) t (map g is)"
    for f :: "string \<Rightarrow> string list \<Rightarrow> string list" and g and t and "is" :: "nat list"
    by (induction "is" arbitrary: t) auto
  have "set [lo..<hi + 1] = {lo..hi}" by auto
  then show ?thesis
    by (simp add: apply_range_def m [of set_add] m [of set_delete] foldl_set_add foldl_set_delete
        del: upt_Suc)
qed

lemma apply_range_distinct: "distinct s \<Longrightarrow> distinct (apply_range b orderedNames lo hi s)"
proof -
  have "distinct (foldl (\<lambda>s i. if b then set_add (orderedNames ! i) s
      else set_delete (orderedNames ! i) s) s is)" if "distinct s" for "is" and s :: "string list"
    using that by (induction "is" arbitrary: s) auto
  then show "distinct s \<Longrightarrow> ?thesis" by (simp add: apply_range_def)
qed

lemma handleToggle_plain:
  "\<not> shiftKey \<Longrightarrow> handleToggle name shiftKey orderedNames st =
     st\<lparr>selected := (if name \<in> set (selected st) then set_delete name (selected st)
                     else set_add name (selected st)), anchorRef := Some name\<rparr>"
  by (simp add: handleToggle_def)

lemma select_step_distinct: "distinct (selected st) \<Longrightarrow> distinct (selected (select_step st opn))"
  by (cases opn)
    (auto simp: handleToggle_def toggleAll_def clear_selection_def Let_def apply_range_distinct
      split: option.split)

lemma select_step_names:
  "set (selected (select_step st opn)) \<subseteq> set (selected st) \<union> op_names opn"
proof (cases opn)
  case (Toggle name shiftKey orderedNames)
  have "(!) orderedNames ` {lo..hi} \<subseteq> set orderedNames" if "hi < length orderedNames" for lo hi
    using that by auto
  with Toggle show ?thesis
    by (auto simp: handleToggle_def Let_def apply_range_set anchor_index_def
        dest!: index_of_Some split: option.splits if_splits)
qed (auto simp: toggleAll_def clear_selection_def Let_def)

text \<open>whatever the user clicks, the selection never lists a name twice and only holds names
  that were shown or clicked, so the number on the action bar is the number of objects.\<close>

theorem selection_invariant:
  "distinct (selected (foldl select_step empty_selection ops))
   \<and> set (selected (foldl select_step empty_selection ops)) \<subseteq> (\<Union>opn\<in>set ops. op_names opn)"
proof -
  have "distinct (selected (foldl select_step st ops))
      \<and> set (selected (foldl select_step st ops)) \<subseteq> set (selected st) \<union> (\<Union>opn\<in>set ops. op_names opn)"
    if "distinct (selected st)" for st
    using that
  proof (induction ops arbitrary: st)
    case (Cons opn ops)
    from Cons.IH [OF select_step_distinct [OF Cons.prems, of opn]] select_step_names [of st opn]
    show ?case by auto
  qed simp
  from this [of empty_selection] show ?thesis by (simp add: empty_selection_def)
qed

text \<open>C29: a shift-click gives every row between the last plainly clicked one and the target,
  both included, the state of that anchor row, leaves every other row as it was and keeps the
  anchor, so the range can be extended again.\<close>

theorem shift_click_range:
  assumes "anchorRef st = Some a" and "a \<noteq> []" and "distinct orderedNames"
    and "i < length orderedNames" and "orderedNames ! i = a" and "j < length orderedNames"
  shows "anchorRef (handleToggle (orderedNames ! j) True orderedNames st) = Some a
    \<and> (\<forall>k<length orderedNames. orderedNames ! k \<in> set (selected (handleToggle (orderedNames ! j) True orderedNames st))
        \<longleftrightarrow> (if min i j \<le> k \<and> k \<le> max i j then a \<in> set (selected st)
             else orderedNames ! k \<in> set (selected st)))
    \<and> (\<forall>x. x \<notin> set orderedNames \<longrightarrow>
         (x \<in> set (selected (handleToggle (orderedNames ! j) True orderedNames st)) \<longleftrightarrow> x \<in> set (selected st)))"
proof -
  have "index_of orderedNames a = Some i" "index_of orderedNames (orderedNames ! j) = Some j"
    using assms index_of_distinct by metis+
  then have st': "handleToggle (orderedNames ! j) True orderedNames st
      = st\<lparr>selected := apply_range (a \<in> set (selected st)) orderedNames (min i j) (max i j) (selected st)\<rparr>"
    using assms(1,2) by (auto simp: handleToggle_def anchor_index_def min_def max_def)
  have k: "orderedNames ! k \<in> (!) orderedNames ` {min i j..max i j} \<longleftrightarrow> min i j \<le> k \<and> k \<le> max i j"
    if "k < length orderedNames" for k
    using that assms(3,4,6) by (auto simp: nth_eq_iff_index_eq)
  have out: "(!) orderedNames ` {min i j..max i j} \<subseteq> set orderedNames"
    using assms(4,6) by auto
  show ?thesis
    using k out assms(1) by (auto simp: st' apply_range_set)
qed

theorem shift_click_range_witness:
  "anchorRef (handleToggle ''c'' True [''a'', ''b'', ''c''] \<lparr>selected = [''a''], anchorRef = Some ''a''\<rparr>) = Some ''a''"
  using shift_click_range [of "\<lparr>selected = [''a''], anchorRef = Some ''a''\<rparr>" "''a''"
      "[''a'', ''b'', ''c'']" 0 2] by simp

lemma toggle_twice:
  "set (selected (handleToggle name False ns (handleToggle name False ns st))) = set (selected st)"
  by (auto simp: handleToggle_plain)

lemma toggleAll_twice:
  "ns \<noteq> [] \<Longrightarrow> \<not> set ns \<subseteq> set (selected st) \<Longrightarrow>
     set (selected (toggleAll ns st)) = set ns \<and> selected (toggleAll ns (toggleAll ns st)) = []"
  by (auto simp: toggleAll_def Let_def list_all_iff)

end
