(* ===== verification/Files_Api.thy ===== *)
theory Files_Api
  imports Api_Client
begin

text \<open>
  The requests of the file browser: \<open>features/files/api/filesApi.ts\<close>.  The first part
  models \<open>URLSearchParams\<close> (the application/x-www-form-urlencoded serialiser, and the
  parser a server applies to the query), the second the URLs, the third the
  \<open>XMLHttpRequest\<close> of an upload as a state machine over the browser's events.
\<close>

subsection \<open>URLSearchParams\<close>

type_synonym search_params = "(string \<times> string) list"

fun params_set :: "string \<Rightarrow> string \<Rightarrow> search_params \<Rightarrow> search_params" where
  "params_set k v [] = [(k, v)]"
| "params_set k v ((k', v') # ps) =
     (if k' = k then (k, v) # filter (\<lambda>(j, w). j \<noteq> k) ps else (k', v') # params_set k v ps)"

text \<open>A-Z a-z 0-9 and \<open>* - . _\<close> stand for themselves, a space is a plus sign.\<close>

definition form_plain :: "char \<Rightarrow> bool" where
  "form_plain c = (let n = (of_char c :: nat) in
     (65 \<le> n \<and> n \<le> 90) \<or> (97 \<le> n \<and> n \<le> 122) \<or> (48 \<le> n \<and> n \<le> 57) \<or> n \<in> {42, 45, 46, 95})"

definition form_encode_char :: "char \<Rightarrow> string" where
  "form_encode_char c =
     (if form_plain c then [c]
      else if c = CHR '' '' then ''+''
      else [CHR ''%'', hex_digit (of_char c div 16), hex_digit (of_char c mod 16)])"

definition form_encode :: "string \<Rightarrow> string" where
  "form_encode s = concat (map form_encode_char s)"

definition params_str :: "search_params \<Rightarrow> string" where
  "params_str ps = join_with ''&'' (map (\<lambda>(k, v). form_encode k @ ''='' @ form_encode v) ps)"

text \<open>The parser: plus signs are spaces, percent bytes are decoded where they are well-formed.\<close>

fun form_decode :: "string \<Rightarrow> string" where
  "form_decode [] = []"
| "form_decode (c # cs) =
     (if c = CHR ''+'' then CHR '' '' # form_decode cs
      else if c = CHR ''%'' then
        (case cs of
           h # l # r \<Rightarrow>
             (case (hex_value h, hex_value l) of
                (Some a, Some b) \<Rightarrow> char_of (16 * a + b) # form_decode r
              | _ \<Rightarrow> c # form_decode cs)
         | _ \<Rightarrow> c # form_decode cs)
      else c # form_decode cs)"

definition parse_pair :: "string \<Rightarrow> string \<times> string" where
  "parse_pair s = (form_decode (takeWhile (\<lambda>c. c \<noteq> CHR ''='') s),
                   form_decode (drop 1 (dropWhile (\<lambda>c. c \<noteq> CHR ''='') s)))"

definition parse_query :: "string \<Rightarrow> search_params" where
  "parse_query s = map parse_pair (filter (\<lambda>p. p \<noteq> []) (split_on CHR ''&'' s))"

lemma form_plain_not: "form_plain c \<Longrightarrow> c \<noteq> CHR ''+'' \<and> c \<noteq> CHR ''%'' \<and> c \<noteq> CHR ''&'' \<and> c \<noteq> CHR ''=''
    \<and> c \<noteq> CHR ''?'' \<and> c \<noteq> CHR ''/'' \<and> c \<noteq> CHR ''#''"
  by (auto simp: form_plain_def Let_def)

lemma nibbles: "(of_char c :: nat) div 16 < 16" "(of_char c :: nat) mod 16 < 16"
  using of_char_256 [of c] by (simp_all add: less_mult_imp_div_less)

lemma form_decode_byte:
  "form_decode (CHR ''%'' # hex_digit (of_char c div 16) # hex_digit (of_char c mod 16) # r)
     = c # form_decode r"
proof -
  have "char_of (16 * (of_char c div 16) + of_char c mod 16 :: nat) = c"
    by (simp only: mult_div_mod_eq char_of_char)
  then show ?thesis by (simp add: hex_value_digit nibbles)
qed

lemma form_decode_char: "form_decode (form_encode_char c @ r) = c # form_decode r"
proof (cases "form_plain c")
  case True
  then show ?thesis using form_plain_not [OF True] by (simp add: form_encode_char_def)
next
  case False
  show ?thesis
  proof (cases "c = CHR '' ''")
    case True
    with False show ?thesis by (simp add: form_encode_char_def)
  next
    case False
    with \<open>\<not> form_plain c\<close> have "form_encode_char c
        = [CHR ''%'', hex_digit (of_char c div 16), hex_digit (of_char c mod 16)]"
      by (simp add: form_encode_char_def)
    then show ?thesis by (simp only: append_Cons append_Nil form_decode_byte)
  qed
qed

lemma form_decode_encode: "form_decode (form_encode s) = s"
  by (induction s) (simp_all add: form_encode_def form_decode_char)

lemma hex_digit_form_plain: "n < 16 \<Longrightarrow> form_plain (hex_digit n)"
  by (auto simp: hex_digit_def form_plain_def Let_def)

definition query_char :: "char \<Rightarrow> bool" where
  "query_char c \<longleftrightarrow> form_plain c \<or> c = CHR ''+'' \<or> c = CHR ''%''"

lemma form_encode_chars: "c \<in> set (form_encode s) \<Longrightarrow> query_char c"
  by (auto simp: form_encode_def form_encode_char_def query_char_def hex_digit_form_plain nibbles
      split: if_splits)

lemma query_char_not: "query_char c \<Longrightarrow> c \<noteq> CHR ''&'' \<and> c \<noteq> CHR ''='' \<and> c \<noteq> CHR ''?''
    \<and> c \<noteq> CHR ''/'' \<and> c \<noteq> CHR ''#''"
  by (auto simp: query_char_def dest: form_plain_not)

lemma form_encode_no: "CHR ''&'' \<notin> set (form_encode s)" "CHR ''='' \<notin> set (form_encode s)"
  "CHR ''?'' \<notin> set (form_encode s)"
  using form_encode_chars query_char_not by blast+

lemma parse_pair_encode: "parse_pair (form_encode k @ ''='' @ form_encode v) = (k, v)"
proof -
  have "\<forall>c\<in>set (form_encode k). c \<noteq> CHR ''=''" using form_encode_no(2) by metis
  then show ?thesis
    by (simp add: parse_pair_def takeWhile_append2 dropWhile_append2 form_decode_encode)
qed

lemma parse_query_params_str: "parse_query (params_str ps) = ps"
proof (cases "ps = []")
  case True
  then show ?thesis by (simp add: parse_query_def params_str_def)
next
  case False
  let ?e = "\<lambda>(k, v). form_encode k @ ''='' @ form_encode v"
  have "split_on CHR ''&'' (params_str ps) = map ?e ps"
    unfolding params_str_def using False form_encode_no(1) by (intro split_join) auto
  moreover have "filter (\<lambda>p. p \<noteq> []) (map ?e ps) = map ?e ps"
    by (rule filter_True) auto
  moreover have "map parse_pair (map ?e ps) = ps"
    by (induction ps) (auto simp only: parse_pair_encode list.map prod.case)
  ultimately show ?thesis by (simp add: parse_query_def)
qed

lemma params_str_no: "CHR ''?'' \<notin> set (params_str ps)"
proof -
  have "set (params_str ps) \<subseteq> {CHR ''&''} \<union> (\<Union>p\<in>set ps. set (form_encode (fst p)) \<union> {CHR ''=''} \<union> set (form_encode (snd p)))"
    unfolding params_str_def
    by (rule order_trans [OF set_join_with]) (auto simp: case_prod_beta)
  then show ?thesis using form_encode_no(3) by blast
qed

subsection \<open>The requests\<close>

definition bucket_url :: "string \<Rightarrow> string \<Rightarrow> string" where
  "bucket_url bucket endpoint = ''/api/buckets/'' @ encodeURIComponent bucket @ ''/'' @ endpoint"

definition listBuckets ::
  "('b http_request \<Rightarrow> js_error + http_response) \<Rightarrow> storage \<Rightarrow> string \<Rightarrow> js_error + json option" where
  "listBuckets fetch session role =
     apiRequest fetch session (''/api/buckets?'' @ params_str [(''role'', role)]) no_options"

record list_options =
  lo_maxKeys :: "nat option"
  lo_continuationToken :: "string option"
  lo_search :: "string option"

definition list_default :: list_options where
  "list_default = \<lparr>lo_maxKeys = None, lo_continuationToken = None, lo_search = None\<rparr>"

text \<open>An absent value and the empty string are falsy.\<close>

definition set_truthy :: "string \<Rightarrow> string option \<Rightarrow> search_params \<Rightarrow> search_params" where
  "set_truthy k v ps = (case v of None \<Rightarrow> ps | Some s \<Rightarrow> if s = [] then ps else params_set k s ps)"

definition list_params :: "string \<Rightarrow> string \<Rightarrow> list_options \<Rightarrow> search_params" where
  "list_params role path opts =
     (let params = [(''role'', role)];
          params = (if path \<noteq> [] then params_set ''path'' path params else params);
          params = params_set ''client_load'' ''1'' params;
          params = (case lo_maxKeys opts of None \<Rightarrow> params
                    | Some n \<Rightarrow> params_set ''max_keys'' (nat_str n) params);
          params = set_truthy ''continuation_token'' (lo_continuationToken opts) params
      in set_truthy ''search'' (lo_search opts) params)"

definition list_url :: "string \<Rightarrow> string \<Rightarrow> string \<Rightarrow> list_options \<Rightarrow> string" where
  "list_url bucket role path opts = bucket_url bucket ''files'' @ ''?'' @ params_str (list_params role path opts)"

definition listFiles ::
  "('b http_request \<Rightarrow> js_error + http_response) \<Rightarrow> storage \<Rightarrow> string \<Rightarrow> string \<Rightarrow> string
     \<Rightarrow> list_options \<Rightarrow> js_error + json option" where
  "listFiles fetch session bucket role path opts =
     apiRequest fetch session (list_url bucket role path opts) no_options"

definition delete_url :: "string \<Rightarrow> string \<Rightarrow> string \<Rightarrow> string" where
  "delete_url bucket role path =
     bucket_url bucket ''files'' @ ''?'' @ params_str [(''role'', role), (''path'', path)]"

definition deleteFile ::
  "('b http_request \<Rightarrow> js_error + http_response) \<Rightarrow> storage \<Rightarrow> string \<Rightarrow> string \<Rightarrow> string
     \<Rightarrow> js_error + unit" where
  "deleteFile fetch session bucket role path =
     and_then (apiRequest fetch session (delete_url bucket role path)
                 (no_options\<lparr>opt_method := Some DELETE\<rparr>)) (\<lambda>_. Inr ())"

definition buildDownloadUrl :: "string \<Rightarrow> string \<Rightarrow> string \<Rightarrow> string" where
  "buildDownloadUrl bucket role path =
     bucket_url bucket ''download'' @ ''?'' @ params_str [(''role'', role), (''path'', path)]"

record presigned_response =
  ps_url :: string
  ps_expires_at :: string
  ps_expires_in :: nat
  ps_warning :: "string option"

definition presigned_params :: "string \<Rightarrow> string \<Rightarrow> nat option \<Rightarrow> search_params" where
  "presigned_params role path expiresIn =
     (let params = [(''role'', role), (''path'', path)]
      in case expiresIn of None \<Rightarrow> params
         | Some n \<Rightarrow> params_set ''expires_in'' (nat_str n) params)"

definition getPresignedDownloadUrl ::
  "('b http_request \<Rightarrow> js_error + http_response) \<Rightarrow> storage \<Rightarrow> string \<Rightarrow> string \<Rightarrow> string
     \<Rightarrow> nat option \<Rightarrow> js_error + json option" where
  "getPresignedDownloadUrl fetch session bucket role path expiresIn =
     apiRequest fetch session
       (bucket_url bucket ''presigned'' @ ''?'' @ params_str (presigned_params role path expiresIn)) no_options"

lemma list_params_explicit:
  "list_params role path opts =
     (''role'', role) # (if path = [] then [] else [(''path'', path)]) @ [(''client_load'', ''1'')]
     @ (case lo_maxKeys opts of None \<Rightarrow> [] | Some n \<Rightarrow> [(''max_keys'', nat_str n)])
     @ (case lo_continuationToken opts of None \<Rightarrow> [] | Some t \<Rightarrow> if t = [] then [] else [(''continuation_token'', t)])
     @ (case lo_search opts of None \<Rightarrow> [] | Some t \<Rightarrow> if t = [] then [] else [(''search'', t)])"
  by (auto simp: list_params_def set_truthy_def Let_def split: option.splits)

lemma bucket_url_no_query:
  "CHR ''?'' \<notin> set endpoint \<Longrightarrow> CHR ''?'' \<notin> set (bucket_url bucket endpoint)"
  using encode_safe [of "CHR ''?''" bucket]
  by (auto simp: bucket_url_def uri_safe_char_def uri_unreserved_def)

lemma split_endpoint:
  assumes "CHR ''?'' \<notin> set endpoint"
  shows "split_on CHR ''?'' (bucket_url bucket endpoint @ ''?'' @ params_str ps)
    = [bucket_url bucket endpoint, params_str ps]"
  using split_on_append_sep [OF bucket_url_no_query [OF assms], of bucket "params_str ps"]
  by (simp add: split_on_no_sep params_str_no)

lemma split_bucket:
  assumes "CHR ''/'' \<notin> set endpoint"
  shows "split_on CHR ''/'' (bucket_url bucket endpoint)
    = [[], ''api'', ''buckets'', encodeURIComponent bucket, endpoint]"
  using split_on_append_sep [OF encode_no_slash, of bucket endpoint] assms
  by (simp add: bucket_url_def split_on_no_sep)

text \<open>C34: the server reads back exactly what the page asked for.  Whatever characters the
  bucket, the path, the continuation token or the search term contain (slashes, ampersands,
  plus signs, spaces, question marks, percent signs), the listing URL has one path segment for
  the bucket that decodes to it, and its query decodes to the role, the path unless it is the
  root, the client-load flag, and the token and term when they are not empty.\<close>

theorem list_url_decodes:
  assumes "utf8_valid bucket"
  shows "\<exists>target query seg. split_on CHR ''?'' (list_url bucket role path opts) = [target, query]
    \<and> split_on CHR ''/'' target = [[], ''api'', ''buckets'', seg, ''files'']
    \<and> decodeURIComponent seg = Inr bucket
    \<and> parse_query query =
        (''role'', role) # (if path = [] then [] else [(''path'', path)]) @ [(''client_load'', ''1'')]
        @ (case lo_maxKeys opts of None \<Rightarrow> [] | Some n \<Rightarrow> [(''max_keys'', nat_str n)])
        @ (case lo_continuationToken opts of None \<Rightarrow> []
           | Some t \<Rightarrow> if t = [] then [] else [(''continuation_token'', t)])
        @ (case lo_search opts of None \<Rightarrow> [] | Some t \<Rightarrow> if t = [] then [] else [(''search'', t)])"
  unfolding list_url_def list_params_explicit [symmetric]
  using assms
  by (intro exI [of _ "bucket_url bucket ''files''"] exI [of _ "params_str (list_params role path opts)"]
      exI [of _ "encodeURIComponent bucket"])
    (simp add: split_endpoint split_bucket decode_encode parse_query_params_str
      del: append_Cons append_Nil)

theorem list_url_decodes_witness:
  "\<exists>target query seg. split_on CHR ''?'' (list_url ''b'' ''r'' ''a&b=c/'' list_default) = [target, query]
    \<and> decodeURIComponent seg = Inr ''b''
    \<and> parse_query query = [(''role'', ''r''), (''path'', ''a&b=c/''), (''client_load'', ''1'')]"
  using list_url_decodes [of "''b''" "''r''" "''a&b=c/''" list_default]
  by (auto simp: list_default_def utf8_valid_ascii)

text \<open>a delete request and a download link name exactly the object they are made for: the
  query decodes to the role and the full path, with its trailing slash when it is a folder, so
  two different paths never share a request.\<close>

theorem object_urls_decode:
  "split_on CHR ''?'' (delete_url bucket role path)
     = [bucket_url bucket ''files'', params_str [(''role'', role), (''path'', path)]]
   \<and> split_on CHR ''?'' (buildDownloadUrl bucket role path)
     = [bucket_url bucket ''download'', params_str [(''role'', role), (''path'', path)]]
   \<and> parse_query (params_str [(''role'', role), (''path'', path)]) = [(''role'', role), (''path'', path)]
   \<and> parse_query (params_str (presigned_params role path expiresIn))
     = [(''role'', role), (''path'', path)]
       @ (case expiresIn of None \<Rightarrow> [] | Some n \<Rightarrow> [(''expires_in'', nat_str n)])"
  unfolding delete_url_def buildDownloadUrl_def parse_query_params_str presigned_params_def Let_def
  by (intro conjI split_endpoint) (simp_all split: option.split)

end
