(* ===== verification/Upload_Request.thy ===== *)
theory Upload_Request
  imports Files_Api
begin

text \<open>
  One upload: \<open>uploadFile\<close> of \<open>features/files/api/filesApi.ts\<close>.  The state holds what
  the closure and the browser hold: whether the abort listener is registered on the signal,
  the flag \<open>finalizingNotified\<close>, the promise, the calls made to the caller's callbacks, and
  whether the request has ended.  Every handler is a function on it; \<open>upload_step\<close> lets the
  browser fire any event that XMLHttpRequest allows at that point.

  \<open>pct loaded totalBytes\<close> is \<open>Math.round((loaded / totalBytes) * 100)\<close> in double arithmetic.
\<close>

subsection \<open>State and request\<close>

datatype upload_call = OnProgress nat | OnFinalizing

record upload_options =
  uo_onProgress :: bool
  uo_onFinalizing :: bool
  uo_signal :: "bool option"

text \<open>\<open>uo_signal\<close> is None without a signal, otherwise whether it is already aborted.\<close>

record upload_request =
  ur_url :: string
  ur_fields :: "(string \<times> string) list"
  ur_csrf :: "string option"
  ur_accept :: string
  ur_withCredentials :: bool

record upload_state =
  us_opts :: upload_options
  us_sent :: "upload_request option"
  us_listening :: bool
  us_finalizingNotified :: bool
  us_calls :: "upload_call list"
  us_promise :: "(js_error + unit) option"
  us_settlements :: nat
  us_ended :: bool

definition abort_error :: js_error where
  "abort_error = DomException ''AbortError'' ''Upload aborted''"

text \<open>resolve and reject: the first call decides, later ones have no effect.\<close>

definition settle :: "js_error + unit \<Rightarrow> upload_state \<Rightarrow> upload_state" where
  "settle r st = st\<lparr>us_promise := (case us_promise st of None \<Rightarrow> Some r | Some r' \<Rightarrow> Some r'),
     us_settlements := us_settlements st + 1\<rparr>"

definition upload_request_of :: "storage \<Rightarrow> string \<Rightarrow> string \<Rightarrow> string \<Rightarrow> string \<Rightarrow> upload_request" where
  "upload_request_of session bucket role key file =
     \<lparr>ur_url = bucket_url bucket ''upload'',
      ur_fields = [(''file'', file), (''key'', key), (''role'', role)],
      ur_csrf = (case getCsrfToken session of None \<Rightarrow> None
                 | Some t \<Rightarrow> if t = [] then None else Some t),
      ur_accept = ''application/json'', ur_withCredentials = True\<rparr>"

definition uploadFile ::
  "storage \<Rightarrow> string \<Rightarrow> string \<Rightarrow> string \<Rightarrow> string \<Rightarrow> upload_options \<Rightarrow> upload_state" where
  "uploadFile session bucket role key file options =
     (let st = \<lparr>us_opts = options, us_sent = None, us_listening = False,
                us_finalizingNotified = False, us_calls = [], us_promise = None,
                us_settlements = 0, us_ended = False\<rparr>
      in if uo_signal options = Some True then (settle (Inl abort_error) st)\<lparr>us_ended := True\<rparr>
         else st\<lparr>us_listening := (uo_signal options \<noteq> None),
                 us_sent := Some (upload_request_of session bucket role key file)\<rparr>)"

subsection \<open>The handlers\<close>

definition notifyFinalizing :: "upload_state \<Rightarrow> upload_state" where
  "notifyFinalizing st =
     (if us_finalizingNotified st then st
      else st\<lparr>us_finalizingNotified := True,
              us_calls := us_calls st @ (if uo_onFinalizing (us_opts st) then [OnFinalizing] else [])\<rparr>)"

definition upload_onprogress ::
  "(nat \<Rightarrow> nat \<Rightarrow> nat) \<Rightarrow> bool \<Rightarrow> nat \<Rightarrow> nat \<Rightarrow> upload_state \<Rightarrow> upload_state" where
  "upload_onprogress pct lengthComputable loaded totalBytes st =
     (if lengthComputable \<and> 0 < totalBytes then
        (let st = st\<lparr>us_calls := us_calls st
                      @ (if uo_onProgress (us_opts st) then [OnProgress (pct loaded totalBytes)] else [])\<rparr>
         in if totalBytes \<le> loaded then notifyFinalizing st else st)
      else st)"

definition cleanup :: "upload_state \<Rightarrow> upload_state" where
  "cleanup st = st\<lparr>us_listening := False\<rparr>"

text \<open>\<open>text\<close> is the outcome of \<open>JSON.parse(xhr.responseText)\<close>; None where it throws.\<close>

definition xhr_onload :: "nat \<Rightarrow> string \<Rightarrow> json option \<Rightarrow> upload_state \<Rightarrow> upload_state" where
  "xhr_onload status statusText parsed st =
     (let st = cleanup st
      in if 200 \<le> status \<and> status < 300 then settle (Inr ()) st
         else settle (Inl (ApiError status
                 (if statusText \<noteq> [] then statusText else ''HTTP '' @ nat_str status)
                 (Some (case parsed of None \<Rightarrow> JNull | Some b \<Rightarrow> b)))) st)"

definition xhr_onerror :: "upload_state \<Rightarrow> upload_state" where
  "xhr_onerror st =
     settle (Inl (ApiError 0 ''Network error during upload'' (Some JNull))) (cleanup st)"

definition xhr_onabort :: "upload_state \<Rightarrow> upload_state" where
  "xhr_onabort st = settle (Inl abort_error) (cleanup st)"

text \<open>The listener of the signal calls \<open>xhr.abort()\<close>: the browser then fires abort unless
  the request has already ended.\<close>

definition xhr_abort :: "upload_state \<Rightarrow> upload_state" where
  "xhr_abort st = (if us_ended st then st else xhr_onabort (st\<lparr>us_ended := True\<rparr>))"

datatype xhr_event =
    UploadProgress bool nat nat
  | UploadLoad
  | XhrLoad nat string "json option"
  | XhrError
  | XhrAbort
  | SignalAbort

fun upload_event :: "(nat \<Rightarrow> nat \<Rightarrow> nat) \<Rightarrow> upload_state \<Rightarrow> xhr_event \<Rightarrow> upload_state" where
  "upload_event pct st (UploadProgress lc loaded totalBytes) = upload_onprogress pct lc loaded totalBytes st"
| "upload_event pct st UploadLoad = notifyFinalizing st"
| "upload_event pct st (XhrLoad status statusText parsed) =
     xhr_onload status statusText parsed (st\<lparr>us_ended := True\<rparr>)"
| "upload_event pct st XhrError = xhr_onerror (st\<lparr>us_ended := True\<rparr>)"
| "upload_event pct st XhrAbort = xhr_onabort (st\<lparr>us_ended := True\<rparr>)"
| "upload_event pct st SignalAbort = (if us_listening st then xhr_abort st else st)"

text \<open>The signal may fire at any time; the events of the request fire until it has ended.\<close>

fun event_allowed :: "upload_state \<Rightarrow> xhr_event \<Rightarrow> bool" where
  "event_allowed st SignalAbort \<longleftrightarrow> uo_signal (us_opts st) \<noteq> None"
| "event_allowed st ev \<longleftrightarrow> \<not> us_ended st"

inductive upload_step :: "(nat \<Rightarrow> nat \<Rightarrow> nat) \<Rightarrow> upload_state \<Rightarrow> upload_state \<Rightarrow> bool"
  for pct :: "nat \<Rightarrow> nat \<Rightarrow> nat" where
  fire: "event_allowed st ev \<Longrightarrow> upload_step pct st (upload_event pct st ev)"

inductive_cases upload_stepE: "upload_step pct st st'"

abbreviation upload_steps :: "(nat \<Rightarrow> nat \<Rightarrow> nat) \<Rightarrow> upload_state \<Rightarrow> upload_state \<Rightarrow> bool" where
  "upload_steps pct \<equiv> (upload_step pct)\<^sup>*\<^sup>*"

fun terminal_event :: "xhr_event \<Rightarrow> bool" where
  "terminal_event (XhrLoad status statusText parsed) \<longleftrightarrow> True"
| "terminal_event XhrError \<longleftrightarrow> True"
| "terminal_event XhrAbort \<longleftrightarrow> True"
| "terminal_event _ \<longleftrightarrow> False"

subsection \<open>The invariant of a running upload\<close>

lemmas upload_defs = settle_def notifyFinalizing_def upload_onprogress_def cleanup_def xhr_onload_def
  xhr_onerror_def xhr_onabort_def xhr_abort_def Let_def

definition upload_inv :: "upload_state \<Rightarrow> bool" where
  "upload_inv st \<longleftrightarrow>
     (us_ended st \<longleftrightarrow> us_promise st \<noteq> None)
     \<and> us_settlements st = (if us_ended st then 1 else 0)
     \<and> (us_listening st \<longleftrightarrow> uo_signal (us_opts st) \<noteq> None \<and> \<not> us_ended st)
     \<and> count_list (us_calls st) OnFinalizing \<le> 1
     \<and> (OnFinalizing \<in> set (us_calls st) \<longrightarrow> us_finalizingNotified st)"

lemma upload_inv_init: "upload_inv (uploadFile session bucket role key file options)"
  by (auto simp: upload_inv_def uploadFile_def settle_def Let_def)

lemma upload_inv_notify: "upload_inv st \<Longrightarrow> upload_inv (notifyFinalizing st)"
  by (auto simp: upload_inv_def notifyFinalizing_def count_list_0_iff)

lemma upload_inv_event: "upload_inv st \<Longrightarrow> event_allowed st ev \<Longrightarrow> upload_inv (upload_event pct st ev)"
proof (cases ev)
  case (UploadProgress lc loaded totalBytes)
  assume "upload_inv st"
  then have "upload_inv (st\<lparr>us_calls := us_calls st @ [OnProgress p]\<rparr>)" for p
    by (auto simp: upload_inv_def)
  with \<open>upload_inv st\<close> UploadProgress show ?thesis
    by (auto simp: upload_onprogress_def Let_def intro: upload_inv_notify)
next
  case UploadLoad
  assume "upload_inv st"
  with UploadLoad show ?thesis by (simp add: upload_inv_notify)
qed (auto simp: upload_inv_def upload_defs)

lemma upload_inv_steps: "upload_steps pct st st' \<Longrightarrow> upload_inv st \<Longrightarrow> upload_inv st'"
  by (induction rule: rtranclp_induct) (auto elim!: upload_stepE intro: upload_inv_event)

lemma upload_opts_event: "us_opts (upload_event pct st ev) = us_opts st"
  by (cases ev) (auto simp: upload_defs)

lemma upload_opts_steps: "upload_steps pct st st' \<Longrightarrow> us_opts st' = us_opts st"
  by (induction rule: rtranclp_induct) (auto elim!: upload_stepE simp: upload_opts_event)

lemma promise_stable: "us_promise st = Some r \<Longrightarrow> us_promise (upload_event pct st ev) = Some r"
  by (cases ev) (auto simp: upload_defs)

subsection \<open>Properties\<close>

text \<open>C10: in every state an upload can reach, the promise is settled exactly when the request has
  ended and has been settled at most once, the abort listener stays on the shared signal exactly
  while the request runs (so a batch leaks no listener), and the caller is told about the
  finalizing phase at most once, whichever of the two browser signals arrives first or repeats.\<close>

theorem upload_reachable_invariant:
  assumes "upload_steps pct (uploadFile session bucket role key file options) st"
  shows "(us_ended st \<longleftrightarrow> us_promise st \<noteq> None)
    \<and> us_settlements st \<le> 1
    \<and> (us_listening st \<longleftrightarrow> uo_signal options \<noteq> None \<and> \<not> us_ended st)
    \<and> count_list (us_calls st) OnFinalizing \<le> 1"
proof -
  from upload_inv_steps [OF assms upload_inv_init] have "upload_inv st" .
  moreover from upload_opts_steps [OF assms] have "us_opts st = options"
    by (simp add: uploadFile_def settle_def Let_def)
  ultimately show ?thesis by (auto simp: upload_inv_def)
qed

definition sample_options :: upload_options where
  "sample_options = \<lparr>uo_onProgress = True, uo_onFinalizing = True, uo_signal = Some False\<rparr>"

definition sample_upload :: upload_state where
  "sample_upload = uploadFile Map.empty ''b'' ''r'' ''k'' ''data'' sample_options"

lemma sample_run:
  "upload_steps (\<lambda>l t. 100 * l div t) sample_upload
     (upload_event (\<lambda>l t. 100 * l div t)
        (upload_event (\<lambda>l t. 100 * l div t) sample_upload (UploadProgress True 4 4)) UploadLoad)"
proof (rule rtranclp.rtrancl_into_rtrancl [OF r_into_rtranclp])
  show "upload_step (\<lambda>l t. 100 * l div t) sample_upload
      (upload_event (\<lambda>l t. 100 * l div t) sample_upload (UploadProgress True 4 4))"
    by (rule fire) (simp add: sample_upload_def uploadFile_def sample_options_def Let_def)
  show "upload_step (\<lambda>l t. 100 * l div t)
      (upload_event (\<lambda>l t. 100 * l div t) sample_upload (UploadProgress True 4 4))
      (upload_event (\<lambda>l t. 100 * l div t)
        (upload_event (\<lambda>l t. 100 * l div t) sample_upload (UploadProgress True 4 4)) UploadLoad)"
    by (rule fire) (simp add: sample_upload_def uploadFile_def sample_options_def upload_defs)
qed

theorem upload_reachable_invariant_witness:
  "count_list (us_calls (upload_event (\<lambda>l t. 100 * l div t)
      (upload_event (\<lambda>l t. 100 * l div t) sample_upload (UploadProgress True 4 4)) UploadLoad)) OnFinalizing \<le> 1"
  using upload_reachable_invariant [OF sample_run [unfolded sample_upload_def]]
  by (simp add: sample_upload_def)

text \<open>C26: an upload that has not ended is settled by whatever ends it, with success exactly for a
  2xx response; the signal of the batch rejects it with an AbortError; and once settled, no later
  event changes the outcome.\<close>

theorem upload_settles:
  assumes "upload_steps pct (uploadFile session bucket role key file options) st"
  shows "(\<not> us_ended st \<and> terminal_event ev \<longrightarrow>
      us_promise (upload_event pct st ev) \<noteq> None
      \<and> (us_promise (upload_event pct st ev) = Some (Inr ()) \<longleftrightarrow>
           (\<exists>status statusText parsed. ev = XhrLoad status statusText parsed \<and> 200 \<le> status \<and> status < 300)))
    \<and> (\<not> us_ended st \<and> uo_signal options \<noteq> None \<longrightarrow>
         us_promise (upload_event pct st SignalAbort) = Some (Inl abort_error))
    \<and> (\<forall>st' r. us_promise st = Some r \<and> upload_steps pct st st' \<longrightarrow> us_promise st' = Some r)"
proof (intro conjI allI impI)
  from upload_inv_steps [OF assms upload_inv_init] have inv: "upload_inv st" .
  have opts: "us_opts st = options"
    using upload_opts_steps [OF assms] by (simp add: uploadFile_def settle_def Let_def)
  show "us_promise (upload_event pct st ev) \<noteq> None" if "\<not> us_ended st \<and> terminal_event ev"
    using that by (cases ev) (auto simp: upload_defs split: option.splits)
  show "us_promise (upload_event pct st ev) = Some (Inr ()) \<longleftrightarrow>
      (\<exists>status statusText parsed. ev = XhrLoad status statusText parsed \<and> 200 \<le> status \<and> status < 300)"
    if "\<not> us_ended st \<and> terminal_event ev"
    using that inv by (cases ev) (auto simp: upload_inv_def upload_defs abort_error_def)
  show "us_promise (upload_event pct st SignalAbort) = Some (Inl abort_error)"
    if "\<not> us_ended st \<and> uo_signal options \<noteq> None"
    using that inv opts by (auto simp: upload_inv_def upload_defs)
  show "us_promise st' = Some r" if "us_promise st = Some r \<and> upload_steps pct st st'" for st' r
  proof -
    from that have "upload_steps pct st st'" and "us_promise st = Some r" by auto
    then show ?thesis
      by (induction rule: rtranclp_induct)
        (auto elim!: upload_stepE intro: promise_stable)
  qed
qed

theorem upload_settles_witness:
  "us_promise (upload_event (\<lambda>l t. 100 * l div t) sample_upload (XhrLoad 201 [] None)) = Some (Inr ())"
proof -
  have "\<not> us_ended sample_upload" by (simp add: sample_upload_def uploadFile_def sample_options_def Let_def)
  with upload_settles [of "\<lambda>l t. 100 * l div t" Map.empty "''b''" "''r''" "''k''" "''data''" sample_options
      sample_upload "XhrLoad 201 [] None"]
  show ?thesis by (simp add: sample_upload_def)
qed

text \<open>a signal that was aborted before the upload started rejects it at once and no request
  is sent; otherwise the request carries the key, the role and the file, and the session's CSRF
  token when there is one.\<close>

theorem uploadFile_start:
  "(uo_signal options = Some True \<longrightarrow>
      us_sent (uploadFile session bucket role key file options) = None
      \<and> us_promise (uploadFile session bucket role key file options) = Some (Inl abort_error))
   \<and> (uo_signal options \<noteq> Some True \<longrightarrow>
      (\<exists>req. us_sent (uploadFile session bucket role key file options) = Some req
         \<and> map_of (ur_fields req) ''key'' = Some key \<and> map_of (ur_fields req) ''role'' = Some role
         \<and> map_of (ur_fields req) ''file'' = Some file
         \<and> (\<forall>t. ur_csrf req = Some t \<longleftrightarrow> getCsrfToken session = Some t \<and> t \<noteq> [])))"
  by (auto simp: uploadFile_def settle_def Let_def upload_request_of_def split: option.splits)

theorem uploadFile_start_witness:
  "\<exists>req. us_sent sample_upload = Some req \<and> map_of (ur_fields req) ''key'' = Some ''k''"
  using uploadFile_start [of sample_options Map.empty "''b''" "''r''" "''k''" "''data''"]
  by (auto simp: sample_upload_def sample_options_def)

end
