(* ===== verification/Query_Keys.thy ===== *)
theory Query_Keys
  imports Files_Api Format "HOL-Library.Sublist"
begin

text \<open>
  The cache keys of the listing queries and the mutations that invalidate them:
  \<open>features/files/hooks\<close> (useFiles, useFileSearch, useBuckets, usePresignedUrl, useDelete,
  useUpload).  TanStack Query invalidates every query whose key starts with the given one; an
  invalidation is an effect, the list of the given keys in order.
\<close>

type_synonym query_key = "string list"

definition filesQueryKey :: "string \<Rightarrow> string \<Rightarrow> string \<Rightarrow> query_key" where
  "filesQueryKey bucket role path = [''files'', ''list'', role, bucket, path]"

definition fileSearchFolderKey :: "string \<Rightarrow> string \<Rightarrow> string \<Rightarrow> query_key" where
  "fileSearchFolderKey bucket role path = [''files'', ''search'', role, bucket, path]"

definition fileSearchQueryKey :: "string \<Rightarrow> string \<Rightarrow> string \<Rightarrow> string \<Rightarrow> query_key" where
  "fileSearchQueryKey bucket role path search_term = fileSearchFolderKey bucket role path @ [search_term]"

definition bucketsQueryKey :: "string \<Rightarrow> query_key" where
  "bucketsQueryKey role = [''files'', ''buckets'', role]"

text \<open>\<open>invalidates ks k\<close>: a query with key k is refetched.\<close>

definition invalidates :: "query_key list \<Rightarrow> query_key \<Rightarrow> bool" where
  "invalidates ks k \<longleftrightarrow> list_ex (\<lambda>p. prefix p k) ks"

subsection \<open>Queries\<close>

text \<open>An undefined and an empty route parameter are falsy.\<close>

definition truthy :: "string option \<Rightarrow> bool" where
  "truthy s = (case s of None \<Rightarrow> False | Some t \<Rightarrow> t \<noteq> [])"

definition useBuckets_query :: "string option \<Rightarrow> query_key \<times> bool" where
  "useBuckets_query role =
     (if truthy role then bucketsQueryKey (the role) else [''files'', ''buckets'', ''_disabled''], truthy role)"

definition useFiles_query :: "string option \<Rightarrow> string option \<Rightarrow> string \<Rightarrow> query_key \<times> bool" where
  "useFiles_query bucket role path =
     (if truthy bucket \<and> truthy role then filesQueryKey (the bucket) (the role) path
      else [''files'', ''list'', ''_disabled''], truthy bucket \<and> truthy role)"

definition useFileSearch_query ::
  "string option \<Rightarrow> string option \<Rightarrow> string \<Rightarrow> string \<Rightarrow> query_key \<times> bool" where
  "useFileSearch_query bucket role path search_term =
     (let enabled = truthy bucket \<and> truthy role \<and> 0 < length search_term
      in (if enabled then fileSearchQueryKey (the bucket) (the role) path search_term
          else [''files'', ''search'', ''_disabled''], enabled))"

record presigned_query =
  pq_key :: query_key
  pq_enabled :: bool
  pq_staleTime :: int
  pq_gcTime :: nat
  pq_refetchOnWindowFocus :: bool
  pq_retry :: bool

text \<open>\<open>cached\<close> is the response in the cache, if any.\<close>

definition usePresignedUrl ::
  "(string \<Rightarrow> int option) \<Rightarrow> int \<Rightarrow> presigned_response option \<Rightarrow> string \<Rightarrow> string \<Rightarrow> string \<Rightarrow> bool
     \<Rightarrow> presigned_query" where
  "usePresignedUrl parse now cached bucket role path enabled =
     \<lparr>pq_key = [''presigned'', bucket, role, path], pq_enabled = enabled,
      pq_staleTime = presignedStaleTime parse now (map_option ps_expires_at cached),
      pq_gcTime = 7 * 24 * 60 * 60 * 1000, pq_refetchOnWindowFocus = False, pq_retry = False\<rparr>"

subsection \<open>Mutations\<close>

record delete_variables =
  dv_bucket :: string
  dv_role :: string
  dv_path :: string
  dv_currentPath :: string
  dv_skipInvalidation :: bool

text \<open>A mutation yields its outcome and the keys it invalidates on success.\<close>

definition useDelete ::
  "(string \<Rightarrow> string \<Rightarrow> string \<Rightarrow> js_error + unit) \<Rightarrow> delete_variables \<Rightarrow> (js_error + unit) \<times> query_key list"
where
  "useDelete delete_file v =
     (case delete_file (dv_bucket v) (dv_role v) (dv_path v) of
        Inl e \<Rightarrow> (Inl e, [])
      | Inr _ \<Rightarrow> (Inr (), if dv_skipInvalidation v then []
                         else [filesQueryKey (dv_bucket v) (dv_role v) (dv_currentPath v)]))"

record upload_variables =
  uv_bucket :: string
  uv_role :: string
  uv_key :: string
  uv_currentPath :: string
  uv_skipInvalidation :: bool

definition useUpload ::
  "(string \<Rightarrow> string \<Rightarrow> string \<Rightarrow> js_error + unit) \<Rightarrow> upload_variables \<Rightarrow> (js_error + unit) \<times> query_key list"
where
  "useUpload upload_file v =
     (case upload_file (uv_bucket v) (uv_role v) (uv_key v) of
        Inl e \<Rightarrow> (Inl e, [])
      | Inr _ \<Rightarrow> (Inr (), if uv_skipInvalidation v then []
                         else [filesQueryKey (uv_bucket v) (uv_role v) (uv_currentPath v)]))"

text \<open>The refresh of the browser after a batch: the folder listing and every search in it.\<close>

definition folder_invalidation :: "string \<Rightarrow> string \<Rightarrow> string \<Rightarrow> query_key list" where
  "folder_invalidation bucket role path =
     [filesQueryKey bucket role path, fileSearchFolderKey bucket role path]"

lemma invalidates_Nil [simp]: "invalidates [] k \<longleftrightarrow> False"
  by (simp add: invalidates_def)

lemma failed_mutation_keeps_cache:
  "fst (useDelete d v) = Inl e \<Longrightarrow> snd (useDelete d v) = []"
  "fst (useUpload u w) = Inl e \<Longrightarrow> snd (useUpload u w) = []"
  by (auto simp: useDelete_def useUpload_def split: sum.splits)

text \<open>the refresh after a batch reaches exactly the listing of the folder on screen and the
  searches started in it: no other folder, bucket, role, bucket list or presigned URL is
  refetched.\<close>

theorem folder_invalidation_exact:
  "invalidates (folder_invalidation b r p) (filesQueryKey b' r' p') = (b' = b \<and> r' = r \<and> p' = p)
   \<and> invalidates (folder_invalidation b r p) (fileSearchQueryKey b' r' p' t) = (b' = b \<and> r' = r \<and> p' = p)
   \<and> \<not> invalidates (folder_invalidation b r p) (bucketsQueryKey r')
   \<and> \<not> invalidates (folder_invalidation b r p)
        (pq_key (usePresignedUrl parse now cached b' r' p' enabled))"
  by (auto simp: invalidates_def folder_invalidation_def filesQueryKey_def fileSearchQueryKey_def
      fileSearchFolderKey_def bucketsQueryKey_def usePresignedUrl_def)

end
