(* ===== verification/Client_Load.thy ===== *)
theory Client_Load
  imports Query_Keys
begin

text \<open>
  The chunked listing of a folder: \<open>features/files/hooks/clientLoadInfinite.ts\<close> over the
  infinite queries of \<open>useFiles\<close> and \<open>useFileSearch\<close>.

  The interface between the two is the locale \<open>infinite_query\<close>: the pages, whether more
  exist, and \<open>fetchNextPage\<close>, which resolves (never rejects) with an error or one more page.
  The drain may run for ever against a server that never stops, so it is a
  \<open>partial_function (option)\<close>; theorems below say when it returns.  Whether the cancel flag
  is set when the loop looks at it for the n-th time is the parameter \<open>cancelled n\<close>.
\<close>

subsection \<open>The listing derived from the pages\<close>

record listing =
  ls_directories :: "file_entry list"
  ls_files :: "file_entry list"
  ls_truncated :: bool

definition useClientLoadDerived :: "client_load_page list \<Rightarrow> listing" where
  "useClientLoadDerived pages =
     \<lparr>ls_directories = dedup_by fe_name {} (concat (map pg_directories pages)),
      ls_files = concat (map pg_files pages),
      ls_truncated = (if pages = [] then False else pg_truncated (last pages))\<rparr>"

subsection \<open>loadMore and loadAll\<close>

text \<open>\<open>fetchNext s\<close> is the error of the fetch, if any, and the query after it;
  \<open>hasNextPage\<close> and \<open>isFetchingNextPage\<close> are the values of the render the callback
  belongs to.\<close>

definition loadMore ::
  "('s \<Rightarrow> js_error option \<times> 's) \<Rightarrow> bool \<Rightarrow> bool \<Rightarrow> 's \<Rightarrow> (js_error + unit) \<times> 's" where
  "loadMore fetchNext hasNextPage isFetchingNextPage s =
     (if \<not> hasNextPage \<or> isFetchingNextPage then (Inr (), s)
      else (case fetchNext s of
              (Some e, s') \<Rightarrow> (Inl e, s')
            | (None, s') \<Rightarrow> (Inr (), s')))"

partial_function (option) drain ::
  "('s \<Rightarrow> js_error option \<times> 's) \<Rightarrow> ('s \<Rightarrow> bool) \<Rightarrow> (nat \<Rightarrow> bool) \<Rightarrow> nat \<Rightarrow> 's
     \<Rightarrow> ((js_error + bool) \<times> 's) option" where
  "drain fetchNext hasNext cancelled n s =
     (case fetchNext s of
        (Some e, s') \<Rightarrow> Some (Inl e, s')
      | (None, s') \<Rightarrow>
          if hasNext s' \<and> \<not> cancelled n then drain fetchNext hasNext cancelled (n + 1) s'
          else Some (Inr (\<not> hasNext s'), s'))"

definition loadAll ::
  "('s \<Rightarrow> js_error option \<times> 's) \<Rightarrow> ('s \<Rightarrow> bool) \<Rightarrow> (nat \<Rightarrow> bool) \<Rightarrow> bool \<Rightarrow> bool \<Rightarrow> 's
     \<Rightarrow> ((js_error + bool) \<times> 's) option" where
  "loadAll fetchNext hasNext cancelled hasNextPage isFetchingNextPage s =
     (if \<not> hasNextPage then Some (Inr True, s)
      else if isFetchingNextPage then Some (Inr False, s)
      else drain fetchNext hasNext cancelled 0 s)"

subsection \<open>The interface of an infinite query\<close>

locale infinite_query =
  fixes pages :: "'s \<Rightarrow> client_load_page list"
    and hasNext :: "'s \<Rightarrow> bool"
    and fetchNext :: "'s \<Rightarrow> js_error option \<times> 's"
  assumes fetch_ok: "fetchNext s = (None, s') \<Longrightarrow> \<exists>p. pages s' = pages s @ [p]"
    and fetch_error: "fetchNext s = (Some e, s') \<Longrightarrow> pages s' = pages s \<and> hasNext s' = hasNext s"
begin

lemma loadMore_pages:
  "\<exists>new. pages (snd (loadMore fetchNext h f s)) = pages s @ new \<and> length new \<le> 1
     \<and> (\<forall>e. fst (loadMore fetchNext h f s) = Inl e \<longrightarrow> new = [])"
proof (cases "\<not> h \<or> f")
  case True
  then show ?thesis by (auto simp: loadMore_def)
next
  case False
  obtain r s' where r: "fetchNext s = (r, s')" by (cases "fetchNext s")
  show ?thesis
  proof (cases r)
    case None
    with r fetch_ok [of s s'] False show ?thesis by (auto simp: loadMore_def)
  next
    case (Some e)
    with r fetch_error [of s e s'] False show ?thesis by (auto simp: loadMore_def)
  qed
qed

text \<open>What a drain that returned says about the query it leaves.\<close>

lemma drain_result:
  assumes "drain fetchNext hasNext cancelled n s = Some (r, t)"
  shows "(\<forall>b. r = Inr b \<longrightarrow> b = (\<not> hasNext t))
     \<and> (r = Inr False \<longrightarrow> (\<exists>k\<ge>n. cancelled k))
     \<and> (\<exists>new. pages t = pages s @ new)"
proof -
  define Q where "Q c n s y \<longleftrightarrow> (\<forall>b. fst y = Inr b \<longrightarrow> b = (\<not> hasNext (snd y)))
      \<and> (fst y = Inr False \<longrightarrow> (\<exists>k\<ge>n. c k)) \<and> (\<exists>new. pages (snd y) = pages s @ new)"
    for c :: "nat \<Rightarrow> bool" and n s and y :: "(js_error + bool) \<times> 's"
  have "fetchNext = fetchNext \<and> hasNext = hasNext \<longrightarrow> Q cancelled n s (r, t)"
    using assms
  proof (rule drain.raw_induct [where P = "\<lambda>fetch has c n s y.
      fetch = fetchNext \<and> has = hasNext \<longrightarrow> Q c n s y", rotated])
    fix drain' fetch has c n s y
    assume IH: "\<And>fetch has c n s y. drain' fetch has c n s = Some y \<Longrightarrow>
          fetch = fetchNext \<and> has = hasNext \<longrightarrow> Q c n s y"
      and body: "(case fetch s of
          (None, s') \<Rightarrow>
            if has s' \<and> \<not> c n then drain' fetch has c (n + 1) s' else Some (Inr (\<not> has s'), s')
        | (Some e, s') \<Rightarrow> Some (Inl e, s')) = Some y"
    show "fetch = fetchNext \<and> has = hasNext \<longrightarrow> Q c n s y"
    proof
      assume eqs: "fetch = fetchNext \<and> has = hasNext"
      obtain q s' where q: "fetchNext s = (q, s')" by (cases "fetchNext s")
      show "Q c n s y"
      proof (cases q)
        case (Some e)
        with q body eqs fetch_error [of s e s'] show ?thesis by (auto simp: Q_def)
      next
        case None
        with q fetch_ok obtain p where p: "pages s' = pages s @ [p]" by blast
        show ?thesis
        proof (cases "hasNext s' \<and> \<not> c n")
          case True
          with q None body eqs have "drain' fetchNext hasNext c (n + 1) s' = Some y" by simp
          from IH [OF this] have "Q c (n + 1) s' y" by simp
          moreover have "(\<exists>k\<ge>n + 1. c k) \<longrightarrow> (\<exists>k\<ge>n. c k)" by (meson le_add1 le_trans)
          moreover have "\<exists>more. pages t = pages s @ more" if "\<exists>more. pages t = pages s' @ more" for t
            using that p by (metis append_assoc)
          ultimately show ?thesis unfolding Q_def by blast
        next
          case False
          with q None body eqs have "y = (Inr (\<not> hasNext s'), s')" by simp
          with False p show ?thesis by (auto simp: Q_def)
        qed
      qed
    qed
  qed
  then show ?thesis by (simp add: Q_def)
qed

lemma drain_stops_when_cancelled:
  assumes "c k" and "n \<le> k"
  shows "\<exists>res. drain fetchNext hasNext c n s = Some res"
  using assms
proof (induction "k - n" arbitrary: n s)
  case 0
  then have "c n" by simp
  then show ?case
    by (subst drain.simps) (auto split: prod.splits option.splits)
next
  case (Suc d)
  then have "\<exists>res. drain fetchNext hasNext c (n + 1) s' = Some res" for s' by simp
  then show ?case
    by (subst drain.simps) (auto split: prod.splits option.splits)
qed

end

subsection \<open>The queries of useFiles and useFileSearch\<close>

text \<open>The pages loaded and the number of requests made; the outcome of the n-th request for a
  page parameter is \<open>queryFn n param\<close>, so the folder may change between requests.  The
  next parameter is \<open>lastPage.next_token ?? undefined\<close>.\<close>

record query_state =
  qs_pages :: "client_load_page list"
  qs_requests :: nat

definition next_param :: "client_load_page list \<Rightarrow> string option" where
  "next_param pages = (if pages = [] then None else pg_next_token (last pages))"

definition q_hasNext :: "query_state \<Rightarrow> bool" where
  "q_hasNext q \<longleftrightarrow> qs_pages q \<noteq> [] \<and> next_param (qs_pages q) \<noteq> None"

definition q_fetchNext ::
  "(nat \<Rightarrow> string option \<Rightarrow> js_error + client_load_page) \<Rightarrow> query_state
     \<Rightarrow> js_error option \<times> query_state" where
  "q_fetchNext queryFn q =
     (case queryFn (qs_requests q) (next_param (qs_pages q)) of
        Inl e \<Rightarrow> (Some e, q\<lparr>qs_requests := qs_requests q + 1\<rparr>)
      | Inr p \<Rightarrow> (None, q\<lparr>qs_pages := qs_pages q @ [p], qs_requests := qs_requests q + 1\<rparr>))"

interpretation level: infinite_query qs_pages q_hasNext "q_fetchNext queryFn" for queryFn
  by unfold_locales (auto simp: q_fetchNext_def q_hasNext_def split: sum.splits)

text \<open>The query functions: a falsy page parameter asks for the first chunk.\<close>

definition useFiles_queryFn ::
  "(string \<Rightarrow> string \<Rightarrow> string \<Rightarrow> list_options \<Rightarrow> 'r) \<Rightarrow> string \<Rightarrow> string \<Rightarrow> string \<Rightarrow> string option \<Rightarrow> 'r"
where
  "useFiles_queryFn list_files bucket role path pageParam =
     list_files bucket role path
       (if truthy pageParam then list_default\<lparr>lo_continuationToken := pageParam\<rparr> else list_default)"

definition useFileSearch_queryFn ::
  "(string \<Rightarrow> string \<Rightarrow> string \<Rightarrow> list_options \<Rightarrow> 'r) \<Rightarrow> string \<Rightarrow> string \<Rightarrow> string \<Rightarrow> string
     \<Rightarrow> string option \<Rightarrow> 'r" where
  "useFileSearch_queryFn list_files bucket role path search_term pageParam =
     list_files bucket role path
       (if truthy pageParam
        then list_default\<lparr>lo_search := Some search_term, lo_continuationToken := pageParam\<rparr>
        else list_default\<lparr>lo_search := Some search_term\<rparr>)"

text \<open>A level whose remaining chunks, from the n-th request on, are the given ones.\<close>

fun serves ::
  "(nat \<Rightarrow> string option \<Rightarrow> js_error + client_load_page) \<Rightarrow> nat \<Rightarrow> string option
     \<Rightarrow> client_load_page list \<Rightarrow> bool" where
  "serves queryFn n tok [] \<longleftrightarrow> False"
| "serves queryFn n tok [c] \<longleftrightarrow> queryFn n tok = Inr c \<and> pg_next_token c = None"
| "serves queryFn n tok (c # d # r) \<longleftrightarrow>
     queryFn n tok = Inr c \<and> pg_next_token c \<noteq> None \<and> serves queryFn (Suc n) (pg_next_token c) (d # r)"

lemma drain_serves:
  assumes "serves queryFn (qs_requests q) (next_param (qs_pages q)) chunks"
    and "\<And>i. i + 1 < length chunks \<Longrightarrow> \<not> cancelled (n + i)"
  shows "\<exists>q'. drain (q_fetchNext queryFn) q_hasNext cancelled n q = Some (Inr True, q')
    \<and> qs_pages q' = qs_pages q @ chunks"
  using assms
proof (induction chunks arbitrary: n q)
  case Nil
  then show ?case by simp
next
  case (Cons c r)
  let ?q = "q\<lparr>qs_pages := qs_pages q @ [c], qs_requests := qs_requests q + 1\<rparr>"
  show ?case
  proof (cases r)
    case Nil
    with Cons.prems show ?thesis
      by (subst drain.simps) (simp add: q_fetchNext_def q_hasNext_def next_param_def)
  next
    case (Cons d s)
    with Cons.prems have f: "q_fetchNext queryFn q = (None, ?q)" "q_hasNext ?q" "\<not> cancelled n"
      using Cons.prems(2) [of 0] by (auto simp: q_fetchNext_def q_hasNext_def next_param_def)
    have "\<exists>q'. drain (q_fetchNext queryFn) q_hasNext cancelled (n + 1) ?q = Some (Inr True, q')
        \<and> qs_pages q' = qs_pages ?q @ r"
    proof (rule Cons.IH)
      show "serves queryFn (qs_requests ?q) (next_param (qs_pages ?q)) r"
        using Cons.prems(1) Cons by (simp add: next_param_def)
      show "\<not> cancelled (n + 1 + i)" if "i + 1 < length r" for i
        using Cons.prems(2) [of "i + 1"] that by simp
    qed
    with f show ?thesis by (subst drain.simps) simp
  qed
qed

subsection \<open>Properties\<close>

text \<open>Load all reports true exactly when no chunk of the level is left to load, so a sort that
  waits for true never sees a half-loaded folder; false is only reported after a Stop (or when
  another fetch was running); pages are never dropped.\<close>

theorem loadAll_true_iff_drained:
  assumes "loadAll (q_fetchNext queryFn) q_hasNext cancelled (q_hasNext q) isFetching q = Some (r, q')"
  shows "(r = Inr True \<longrightarrow> \<not> q_hasNext q') \<and> (r = Inr False \<longrightarrow> q_hasNext q' \<and> (isFetching \<or> (\<exists>k. cancelled k)))
    \<and> (\<exists>new. qs_pages q' = qs_pages q @ new)"
proof (cases "q_hasNext q \<and> \<not> isFetching")
  case True
  with assms have "drain (q_fetchNext queryFn) q_hasNext cancelled 0 q = Some (r, q')"
    by (simp add: loadAll_def)
  from level.drain_result [OF this] show ?thesis by auto
next
  case False
  with assms show ?thesis by (auto simp: loadAll_def split: if_splits)
qed

definition chunk :: "string list \<Rightarrow> string option \<Rightarrow> client_load_page" where
  "chunk names next_token = \<lparr>pg_directories = [],
     pg_files = map (\<lambda>n. \<lparr>fe_name = n, fe_is_directory = False, fe_size = 1, fe_last_modified = None\<rparr>) names,
     pg_truncated = (next_token \<noteq> None), pg_next_token = next_token, pg_path = None\<rparr>"

definition two_chunks :: "nat \<Rightarrow> string option \<Rightarrow> js_error + client_load_page" where
  "two_chunks n tok = (if tok = Some ''t1'' then Inr (chunk [''b''] (Some ''t2''))
     else if tok = Some ''t2'' then Inr (chunk [''c''] None) else Inl (PlainError ''?''))"

definition first_chunk :: query_state where
  "first_chunk = \<lparr>qs_pages = [chunk [''a''] (Some ''t1'')], qs_requests = 1\<rparr>"

lemma two_chunks_drained:
  "loadAll (q_fetchNext two_chunks) q_hasNext (\<lambda>_. False) True False first_chunk
     = Some (Inr True, \<lparr>qs_pages = [chunk [''a''] (Some ''t1''), chunk [''b''] (Some ''t2''), chunk [''c''] None],
                        qs_requests = 3\<rparr>)"
  by (simp add: loadAll_def drain.simps q_fetchNext_def q_hasNext_def next_param_def first_chunk_def
      two_chunks_def chunk_def)

theorem loadAll_true_iff_drained_witness:
  "\<not> q_hasNext \<lparr>qs_pages = [chunk [''a''] (Some ''t1''), chunk [''b''] (Some ''t2''), chunk [''c''] None],
      qs_requests = 3\<rparr>"
  using loadAll_true_iff_drained [of two_chunks "\<lambda>_. False" first_chunk False "Inr True"
      "\<lparr>qs_pages = [chunk [''a''] (Some ''t1''), chunk [''b''] (Some ''t2''), chunk [''c''] None],
        qs_requests = 3\<rparr>"] two_chunks_drained
  by (simp add: q_hasNext_def next_param_def first_chunk_def chunk_def)

text \<open>C3: without a Stop, Load all returns and has loaded the whole level: when the server serves
  the remaining chunks one after the other, the listing afterwards is exactly the loaded entries
  followed by theirs, nothing skipped and nothing fetched twice.\<close>

theorem loadAll_complete:
  assumes "qs_pages q \<noteq> []" and "next_param (qs_pages q) \<noteq> None"
    and "serves queryFn (qs_requests q) (next_param (qs_pages q)) chunks"
    and "\<And>i. i + 1 < length chunks \<Longrightarrow> \<not> cancelled i"
  shows "\<exists>q'. loadAll (q_fetchNext queryFn) q_hasNext cancelled (q_hasNext q) False q = Some (Inr True, q')
    \<and> qs_pages q' = qs_pages q @ chunks
    \<and> ls_files (useClientLoadDerived (qs_pages q'))
        = ls_files (useClientLoadDerived (qs_pages q)) @ concat (map pg_files chunks)"
proof -
  from drain_serves [OF assms(3), of cancelled 0] assms(4)
  obtain q' where "drain (q_fetchNext queryFn) q_hasNext cancelled 0 q = Some (Inr True, q')"
    "qs_pages q' = qs_pages q @ chunks" by auto
  with assms(1,2) show ?thesis
    by (auto simp: loadAll_def q_hasNext_def useClientLoadDerived_def)
qed

theorem loadAll_complete_witness:
  "\<exists>q'. loadAll (q_fetchNext two_chunks) q_hasNext (\<lambda>_. False) (q_hasNext first_chunk) False first_chunk
      = Some (Inr True, q')
    \<and> qs_pages q' = qs_pages first_chunk @ [chunk [''b''] (Some ''t2''), chunk [''c''] None]"
  using loadAll_complete [of first_chunk two_chunks "[chunk [''b''] (Some ''t2''), chunk [''c''] None]" "\<lambda>_. False"]
  by (auto simp: first_chunk_def next_param_def two_chunks_def chunk_def)

text \<open>Stop always ends a drain: once the flag is set, the loop returns, whatever the server
  answers, even one that would go on for ever.\<close>

theorem stop_ends_drain:
  assumes "cancelled k"
  shows "\<exists>r q'. loadAll (q_fetchNext queryFn) q_hasNext cancelled hasNextPage isFetching q = Some (r, q')"
proof -
  have "\<exists>res. drain (q_fetchNext queryFn) q_hasNext cancelled 0 q = Some res"
    by (rule level.drain_stops_when_cancelled [where k = k]) (simp_all add: assms)
  then show ?thesis by (auto simp: loadAll_def)
qed

theorem stop_ends_drain_witness:
  "\<exists>r q'. loadAll (q_fetchNext (\<lambda>n t. Inr (chunk [] (Some ''again'')))) q_hasNext (\<lambda>n. n = 5) True False first_chunk
      = Some (r, q')"
  by (rule stop_ends_drain [of "\<lambda>n. n = 5" 5]) simp

text \<open>a failed Load more rejects with the error of the request and leaves the loaded pages on
  screen.\<close>

theorem loadMore_error_keeps_pages:
  assumes "fst (loadMore (q_fetchNext queryFn) hasNextPage isFetching q) = Inl e"
  shows "queryFn (qs_requests q) (next_param (qs_pages q)) = Inl e
    \<and> qs_pages (snd (loadMore (q_fetchNext queryFn) hasNextPage isFetching q)) = qs_pages q"
  using assms by (auto simp: loadMore_def q_fetchNext_def split: if_splits sum.splits)

theorem loadMore_error_keeps_pages_witness:
  "qs_pages (snd (loadMore (q_fetchNext (\<lambda>n t. Inl (PlainError ''x''))) True False first_chunk)) = qs_pages first_chunk"
  using loadMore_error_keeps_pages [of "\<lambda>n t. Inl (PlainError ''x'')" True False first_chunk "PlainError ''x''"]
  by (simp add: loadMore_def q_fetchNext_def)

text \<open>the folders shown are those of all pages, each name once and in the order of first
  appearance; files are the concatenation of the pages.\<close>

theorem derived_listing:
  "distinct (map fe_name (ls_directories (useClientLoadDerived pages)))
   \<and> fe_name ` set (ls_directories (useClientLoadDerived pages))
       = (\<Union>p\<in>set pages. fe_name ` set (pg_directories p))
   \<and> ls_files (useClientLoadDerived pages) = concat (map pg_files pages)
   \<and> (\<exists>new. ls_directories (useClientLoadDerived (pages @ rest))
         = ls_directories (useClientLoadDerived pages) @ new)"
  by (auto simp: useClientLoadDerived_def dedup_by_distinct dedup_by_keys dedup_by_append image_UN)

end
