(* ===== verification/Toast.thy ===== *)
theory Toast
  imports Api_Client
begin

text \<open>
  Notifications: \<open>utils/toast.tsx\<close> and \<open>components/Notifications/MessageWithTimer.tsx\<close>.
  A toast that a handler shows is an effect, a record of the options passed on.
\<close>

datatype toast_color = Red | Yellow | Green | Gray

record toast_options =
  to_color :: toast_color
  to_title :: "string option"
  to_message :: string
  to_autoClose :: "nat option option"

text \<open>\<open>autoClose\<close>: None where it is omitted, \<open>Some None\<close> where it is false.\<close>

record toast =
  toast_color :: toast_color
  toast_title :: "string option"
  toast_message :: string
  toast_autoClose :: "nat option"
  toast_bar :: bool

definition duration_success :: nat where "duration_success = 5000"
definition duration_error :: nat where "duration_error = 10000"
definition duration_infoLong :: nat where "duration_infoLong = 6000"

lemmas TOAST_DURATIONS_defs = duration_success_def duration_error_def duration_infoLong_def

text \<open>The timer bar is drawn for a positive number of milliseconds.\<close>

definition shows_bar :: "nat option \<Rightarrow> bool" where
  "shows_bar autoCloseMs = (case autoCloseMs of None \<Rightarrow> False | Some ms \<Rightarrow> 0 < ms)"

definition showToast :: "toast_options \<Rightarrow> toast" where
  "showToast options =
     (let autoClose = (case to_autoClose options of None \<Rightarrow> Some duration_success | Some a \<Rightarrow> a)
      in \<lparr>toast_color = to_color options, toast_title = to_title options,
          toast_message = to_message options, toast_autoClose = autoClose,
          toast_bar = shows_bar autoClose\<rparr>)"

definition toast_of :: "toast_color \<Rightarrow> string option \<Rightarrow> string \<Rightarrow> nat \<Rightarrow> toast" where
  "toast_of c title msg ms =
     showToast \<lparr>to_color = c, to_title = title, to_message = msg, to_autoClose = Some (Some ms)\<rparr>"

lemma showToast_bar: "toast_bar (showToast options) \<longleftrightarrow> (\<exists>ms>0. toast_autoClose (showToast options) = Some ms)"
  by (auto simp: showToast_def shows_bar_def Let_def split: option.splits)

lemma toast_of_color [simp]: "toast_color (toast_of c t m ms) = c"
  and toast_of_message [simp]: "toast_message (toast_of c t m ms) = m"
  and toast_of_autoClose [simp]: "toast_autoClose (toast_of c t m ms) = Some ms"
  and toast_of_title [simp]: "toast_title (toast_of c t m ms) = t"
  by (simp_all add: toast_of_def showToast_def Let_def)

end
