(* ===== verification/Bulk_Delete.thy ===== *)
theory Bulk_Delete
  imports Path_Utils Query_Keys Toast
begin

text \<open>
  Deleting from the file browser: \<open>confirmDelete\<close> of
  \<open>components/FileBrowser/FileBrowser.tsx\<close> and the progress toast
  \<open>BulkDeleteProgress.tsx\<close>.

  The state of the batch holds the local variables of the handler and, as effects, the
  requests with their outcomes and the progress renders.  The outcome of the i-th request is
  \<open>del i path\<close>; \<open>clicked i\<close> says that the user pressed Cancel since the last look at the
  flag, which is looked at before every request and once after the batch.
\<close>

subsection \<open>What a name stands for\<close>

definition delete_path :: "string \<Rightarrow> file_entry list \<Rightarrow> string \<Rightarrow> string" where
  "delete_path pathFromUrl items name =
     (case find (\<lambda>f. fe_name f = name) items of
        Some fileEntry \<Rightarrow> if fe_is_directory fileEntry then joinPath [pathFromUrl, name] @ ''/''
                          else joinPath [pathFromUrl, name]
      | None \<Rightarrow> joinPath [pathFromUrl, name])"

subsection \<open>The loop\<close>

record batch =
  bd_success :: nat
  bd_failed :: nat
  bd_firstError :: "string option"
  bd_consecutive :: nat
  bd_aborted :: bool
  bd_cancelled :: bool
  bd_counter :: nat
  bd_log :: "(string \<times> bool) list"
  bd_progress :: "(nat \<times> string) list"

definition MAX_CONSECUTIVE_FAILURES :: nat where
  "MAX_CONSECUTIVE_FAILURES = 10"

definition batch0 :: batch where
  "batch0 = \<lparr>bd_success = 0, bd_failed = 0, bd_firstError = None, bd_consecutive = 0,
     bd_aborted = False, bd_cancelled = False, bd_counter = 0, bd_log = [], bd_progress = []\<rparr>"

definition delete_ok :: "string \<Rightarrow> batch \<Rightarrow> batch" where
  "delete_ok fullPath st =
     st\<lparr>bd_success := bd_success st + 1, bd_consecutive := 0,
        bd_counter := (if (bd_success st + 1) mod 50 = 0 then bd_success st + 1 else bd_counter st),
        bd_log := bd_log st @ [(fullPath, True)]\<rparr>"

definition delete_failed :: "string \<Rightarrow> string \<Rightarrow> js_error \<Rightarrow> batch \<Rightarrow> batch" where
  "delete_failed name fullPath e st =
     st\<lparr>bd_failed := bd_failed st + 1, bd_consecutive := bd_consecutive st + 1,
        bd_firstError := (case bd_firstError st of
            None \<Rightarrow> Some (name @ '': '' @ error_message_of e) | Some m \<Rightarrow> Some m),
        bd_aborted := (MAX_CONSECUTIVE_FAILURES \<le> bd_consecutive st + 1),
        bd_log := bd_log st @ [(fullPath, False)]\<rparr>"

definition look_at_flag :: "bool \<Rightarrow> batch \<Rightarrow> batch" where
  "look_at_flag click st = st\<lparr>bd_cancelled := bd_cancelled st \<or> click\<rparr>"

definition renderProgress :: "bool \<Rightarrow> nat \<Rightarrow> string \<Rightarrow> batch \<Rightarrow> batch" where
  "renderProgress showProgress started currentName st =
     (if showProgress then st\<lparr>bd_progress := bd_progress st @ [(started, currentName)]\<rparr> else st)"

fun delete_loop ::
  "(nat \<Rightarrow> string \<Rightarrow> js_error + unit) \<Rightarrow> (nat \<Rightarrow> bool) \<Rightarrow> (string \<Rightarrow> string) \<Rightarrow> bool \<Rightarrow> nat
     \<Rightarrow> string list \<Rightarrow> batch \<Rightarrow> batch" where
  "delete_loop del clicked target showProgress i [] st = look_at_flag (clicked i) st"
| "delete_loop del clicked target showProgress i (name # names) st =
     (if bd_cancelled (look_at_flag (clicked i) st) then look_at_flag (clicked i) st
      else (let st = renderProgress showProgress i name (look_at_flag (clicked i) st)
            in case del i (target name) of
                 Inr _ \<Rightarrow>
                   delete_loop del clicked target showProgress (i + 1) names (delete_ok (target name) st)
               | Inl e \<Rightarrow>
                   (let st = delete_failed name (target name) e st
                    in if bd_aborted st then st
                       else delete_loop del clicked target showProgress (i + 1) names st)))"

subsection \<open>The summary\<close>

definition deleted_items :: "nat \<Rightarrow> string" where
  "deleted_items n = ''Deleted '' @ nat_str n @ '' item'' @ (if n = 1 then [] else ''s'')"

definition first_error :: "batch \<Rightarrow> string" where
  "first_error st = (case bd_firstError st of None \<Rightarrow> ''null'' | Some m \<Rightarrow> m)"

definition delete_toast :: "nat \<Rightarrow> batch \<Rightarrow> toast option" where
  "delete_toast total_names st =
     (let success = bd_success st; failed = bd_failed st;
          remaining = total_names - success - failed
      in if bd_aborted st then
           Some (toast_of Red None
             (''Bulk delete stopped after '' @ nat_str MAX_CONSECUTIVE_FAILURES @ '' consecutive failures (''
              @ first_error st @ ''). Deleted '' @ nat_str success @ '', failed '' @ nat_str failed
              @ '', skipped '' @ nat_str remaining @ ''.'') duration_error)
         else if bd_cancelled st then
           Some (toast_of Yellow None
             (''Bulk delete cancelled. Deleted '' @ nat_str success @ '' of '' @ nat_str total_names
              @ ''; '' @ nat_str remaining @ '' skipped.'') duration_success)
         else if 0 < failed \<and> success = 0 then
           Some (toast_of Red None
             (if failed = 1 \<and> total_names = 1 then ''Failed to delete '' @ first_error st
              else ''Failed to delete '' @ nat_str failed @ '' of '' @ nat_str total_names
                   @ '' (first: '' @ first_error st @ '')'') duration_error)
         else if 0 < failed then
           Some (toast_of Yellow None
             (''Deleted '' @ nat_str success @ '' of '' @ nat_str total_names @ ''; '' @ nat_str failed
              @ '' failed (first: '' @ first_error st @ '')'') duration_error)
         else if 0 < success then Some (toast_of Green None (deleted_items success) duration_success)
         else None)"

record delete_outcome =
  do_batch :: batch
  do_invalidated :: "query_key list"
  do_counter_after :: nat
  do_toast :: "toast option"
  do_clearSelection :: bool

text \<open>An empty list of names only closes the dialog.\<close>

definition confirmDelete ::
  "(nat \<Rightarrow> string \<Rightarrow> js_error + unit) \<Rightarrow> (nat \<Rightarrow> bool) \<Rightarrow> string \<Rightarrow> string \<Rightarrow> string
     \<Rightarrow> file_entry list \<Rightarrow> string list \<Rightarrow> delete_outcome option" where
  "confirmDelete del clicked bucket roleId pathFromUrl items names =
     (if names = [] then None
      else (let showProgress = 1 < length names;
                st = delete_loop del (if showProgress then clicked else (\<lambda>_. False))
                       (delete_path pathFromUrl items) showProgress 0 names
                       (if showProgress then batch0\<lparr>bd_progress := [(0, hd names)]\<rparr> else batch0)
            in Some \<lparr>do_batch = st, do_invalidated = folder_invalidation bucket roleId pathFromUrl,
                     do_counter_after = 0, do_toast = delete_toast (length names) st,
                     do_clearSelection = True\<rparr>))"

text \<open>The progress toast; \<open>Math.round((position / total) * 100)\<close> is the parameter \<open>pct\<close>.\<close>

definition progress_position :: "nat \<Rightarrow> nat \<Rightarrow> nat" where
  "progress_position started total_names = min (started + 1) total_names"

definition bulkDeleteProgress :: "(nat \<Rightarrow> nat \<Rightarrow> nat) \<Rightarrow> nat \<Rightarrow> nat \<Rightarrow> string \<times> nat" where
  "bulkDeleteProgress pct started total_names =
     (''Deleting '' @ nat_str (progress_position started total_names) @ '' of '' @ nat_str total_names,
      if total_names = 0 then 0 else min 100 (pct (progress_position started total_names) total_names))"

subsection \<open>The invariant of the loop\<close>

definition failures_at_end :: "(string \<times> bool) list \<Rightarrow> nat" where
  "failures_at_end xs = length (takeWhile (\<lambda>r. \<not> snd r) (rev xs))"

lemma failures_at_end_snoc [batch_simps]:
  "failures_at_end (xs @ [(p, b)]) = (if b then 0 else Suc (failures_at_end xs))"
  by (simp add: failures_at_end_def)

lemma failures_at_end_Nil [batch_simps]: "failures_at_end [] = 0"
  by (simp add: failures_at_end_def)

definition batch_inv :: "batch \<Rightarrow> bool" where
  "batch_inv st \<longleftrightarrow>
     bd_success st = length (filter snd (bd_log st))
     \<and> bd_failed st = length (filter (\<lambda>r. \<not> snd r) (bd_log st))
     \<and> bd_consecutive st = failures_at_end (bd_log st)
     \<and> bd_aborted st = (MAX_CONSECUTIVE_FAILURES \<le> bd_consecutive st)
     \<and> bd_consecutive st \<le> MAX_CONSECUTIVE_FAILURES
     \<and> (bd_firstError st = None \<longleftrightarrow> bd_failed st = 0)
     \<and> bd_counter st = 50 * (bd_success st div 50)"

lemma batch_inv0: "batch_inv batch0" "batch_inv (batch0\<lparr>bd_progress := ps\<rparr>)"
  by (simp_all add: batch_inv_def batch0_def failures_at_end_Nil MAX_CONSECUTIVE_FAILURES_def)

lemma batch_inv_update [simp]:
  "batch_inv (st\<lparr>bd_cancelled := c\<rparr>) = batch_inv st"
  "batch_inv (st\<lparr>bd_progress := ps\<rparr>) = batch_inv st"
  by (simp_all add: batch_inv_def)

lemma before_request [simp]:
  "batch_inv (look_at_flag c st) = batch_inv st" "bd_aborted (look_at_flag c st) = bd_aborted st"
  "bd_log (look_at_flag c st) = bd_log st"
  "batch_inv (renderProgress b i nm st) = batch_inv st"
  "bd_aborted (renderProgress b i nm st) = bd_aborted st"
  "bd_log (renderProgress b i nm st) = bd_log st"
  by (simp_all add: look_at_flag_def renderProgress_def)

lemma counter_step: "(if (n + 1) mod 50 = 0 then n + 1 else 50 * (n div 50)) = 50 * ((n + 1) div 50)" for n :: nat
proof (cases "(n + 1) mod 50 = 0")
  case True
  then have "50 * ((n + 1) div 50) = n + 1" using mult_div_mod_eq [of 50 "n + 1"] by linarith
  with True show ?thesis by simp
next
  case False
  then show ?thesis by (simp add: div_Suc)
qed

lemma batch_inv_ok:
  assumes "batch_inv st" and "\<not> bd_aborted st"
  shows "batch_inv (delete_ok p st)"
proof -
  have "bd_counter (delete_ok p st) = 50 * (bd_success (delete_ok p st) div 50)"
  proof -
    have "bd_counter (delete_ok p st)
        = (if (bd_success st + 1) mod 50 = 0 then bd_success st + 1 else bd_counter st)"
      by (simp add: delete_ok_def)
    also have "bd_counter st = 50 * (bd_success st div 50)" using assms(1) by (simp only: batch_inv_def)
    also have "(if (bd_success st + 1) mod 50 = 0 then bd_success st + 1 else 50 * (bd_success st div 50))
        = 50 * ((bd_success st + 1) div 50)" by (rule counter_step)
    finally show ?thesis by (simp add: delete_ok_def)
  qed
  moreover have "bd_success (delete_ok p st) = length (filter snd (bd_log (delete_ok p st)))"
    using assms(1) by (simp add: batch_inv_def delete_ok_def)
  ultimately show ?thesis
    using assms unfolding batch_inv_def
    by (simp add: delete_ok_def batch_simps MAX_CONSECUTIVE_FAILURES_def split del: if_split)
qed

lemma batch_inv_failed:
  "batch_inv st \<Longrightarrow> \<not> bd_aborted st \<Longrightarrow> batch_inv (delete_failed nm p e st)"
  by (auto simp: batch_inv_def delete_failed_def batch_simps split: option.splits)

text \<open>What the loop does from any state that satisfies the invariant: it requests a prefix of
  the remaining names in order and stops at the end, on a cancel or on the tenth failure.\<close>

definition loop_post ::
  "(nat \<Rightarrow> string \<Rightarrow> js_error + unit) \<Rightarrow> (string \<Rightarrow> string) \<Rightarrow> nat \<Rightarrow> string list \<Rightarrow> batch \<Rightarrow> batch
     \<Rightarrow> nat \<Rightarrow> bool" where
  "loop_post del target i names st st' k \<longleftrightarrow>
     k \<le> length names \<and> batch_inv st'
     \<and> bd_log st' = bd_log st
         @ map (\<lambda>j. (target (names ! j), \<exists>u. del (i + j) (target (names ! j)) = Inr u)) [0..<k]
     \<and> (k = length names \<or> bd_aborted st' \<or> bd_cancelled st')
     \<and> (\<forall>xs ys. bd_log st' = xs @ ys \<and> length (bd_log st) \<le> length xs \<and> ys \<noteq> []
          \<longrightarrow> failures_at_end xs < MAX_CONSECUTIVE_FAILURES)"

lemma failures_below:
  "batch_inv st \<Longrightarrow> \<not> bd_aborted st \<Longrightarrow> failures_at_end (bd_log st) < MAX_CONSECUTIVE_FAILURES"
  by (simp add: batch_inv_def)

lemma loop_post_now:
  assumes "batch_inv st'" and "bd_log st' = bd_log st"
    and "names = [] \<or> bd_aborted st' \<or> bd_cancelled st'"
  shows "loop_post del target i names st st' 0"
  using assms by (auto simp: loop_post_def)

lemma loop_post_step:
  assumes st: "batch_inv st" "\<not> bd_aborted st"
    and log: "bd_log st1 = bd_log st @ [(target name, \<exists>u. del i (target name) = Inr u)]"
    and rest: "loop_post del target (i + 1) names st1 st' k"
  shows "loop_post del target i (name # names) st st' (Suc k)"
proof -
  have "failures_at_end xs < MAX_CONSECUTIVE_FAILURES"
    if x: "bd_log st' = xs @ ys" "length (bd_log st) \<le> length xs" "ys \<noteq> []" for xs ys
  proof (cases "length xs = length (bd_log st)")
    case True
    obtain zs where "bd_log st' = bd_log st @ zs" using rest log by (auto simp: loop_post_def)
    with True x(1) have "xs = bd_log st" by auto
    then show ?thesis using failures_below [OF st] by simp
  next
    case False
    with x have "length (bd_log st1) \<le> length xs" by (simp add: log)
    with x rest show ?thesis unfolding loop_post_def by blast
  qed
  moreover have "map (\<lambda>j. (target ((name # names) ! j), \<exists>u. del (i + j) (target ((name # names) ! j)) = Inr u)) [0..<Suc k]
      = (target name, \<exists>u. del i (target name) = Inr u)
        # map (\<lambda>j. (target (names ! j), \<exists>u. del (i + 1 + j) (target (names ! j)) = Inr u)) [0..<k]"
    by (simp only: upt_conv_Cons [of 0 "Suc k"] map_Suc_upt [symmetric]) (simp add: comp_def)
  ultimately show ?thesis using rest log by (auto simp: loop_post_def simp del: upt_Suc)
qed

lemma delete_loop_post:
  assumes "batch_inv st" and "\<not> bd_aborted st"
  shows "\<exists>k. loop_post del target i names st (delete_loop del clicked target sp i names st) k"
  using assms
proof (induction names arbitrary: i st)
  case Nil
  then show ?case by (intro exI [of _ 0] loop_post_now) simp_all
next
  case (Cons name names)
  let ?c = "look_at_flag (clicked i) st"
  let ?p = "renderProgress sp i name ?c"
  have p: "batch_inv ?p" "\<not> bd_aborted ?p" "bd_log ?p = bd_log st" using Cons.prems by auto
  show ?case
  proof (cases "bd_cancelled ?c")
    case True
    with Cons.prems show ?thesis by (intro exI [of _ 0] loop_post_now) (auto simp: Let_def)
  next
    case False
    show ?thesis
    proof (cases "del i (target name)")
      case (Inr u)
      let ?s = "delete_ok (target name) ?p"
      have "batch_inv ?s" "\<not> bd_aborted ?s"
        using batch_inv_ok [OF p(1,2)] p(2) by (auto simp: delete_ok_def)
      from Cons.IH [OF this, of "i + 1"] obtain k
        where "loop_post del target (i + 1) names ?s (delete_loop del clicked target sp (i + 1) names ?s) k" ..
      from loop_post_step [OF Cons.prems _ this, of name] Inr False
      show ?thesis by (intro exI [of _ "Suc k"]) (simp add: Let_def delete_ok_def)
    next
      case (Inl e)
      let ?s = "delete_failed name (target name) e ?p"
      have inv: "batch_inv ?s" by (rule batch_inv_failed [OF p(1,2)])
      have log: "bd_log ?s = bd_log st @ [(target name, \<exists>u. del i (target name) = Inr u)]"
        using Inl by (simp add: delete_failed_def)
      show ?thesis
      proof (cases "bd_aborted ?s")
        case True
        have "loop_post del target (i + 1) names ?s ?s 0"
          using inv True by (intro loop_post_now) auto
        from loop_post_step [OF Cons.prems log this] Inl False True
        show ?thesis by (intro exI [of _ "Suc 0"]) (simp add: Let_def)
      next
        case na: False
        from Cons.IH [OF inv na, of "i + 1"] obtain k
          where "loop_post del target (i + 1) names ?s (delete_loop del clicked target sp (i + 1) names ?s) k" ..
        from loop_post_step [OF Cons.prems log this] Inl False na
        show ?thesis by (intro exI [of _ "Suc k"]) (simp add: Let_def)
      qed
    qed
  qed
qed

subsection \<open>Properties\<close>

lemma confirmDelete_post:
  assumes "confirmDelete del clicked bucket roleId pathFromUrl items names = Some r"
  shows "names \<noteq> [] \<and> (\<exists>k. loop_post del (delete_path pathFromUrl items) 0 names batch0 (do_batch r) k)
    \<and> do_toast r = delete_toast (length names) (do_batch r)"
proof -
  let ?sp = "1 < length names"
  let ?st0 = "if ?sp then batch0\<lparr>bd_progress := [(0, hd names)]\<rparr> else batch0"
  have st0: "batch_inv ?st0" "\<not> bd_aborted ?st0" "bd_log ?st0 = bd_log batch0"
    using batch_inv0 by (auto simp: batch0_def)
  have "\<exists>k. loop_post del (delete_path pathFromUrl items) 0 names ?st0 (do_batch r) k"
    using assms delete_loop_post [OF st0(1,2), of del "delete_path pathFromUrl items" 0 names
        "if ?sp then clicked else (\<lambda>_. False)" ?sp]
    by (auto simp: confirmDelete_def Let_def split: if_splits)
  with assms st0(3) show ?thesis
    by (auto simp: loop_post_def confirmDelete_def Let_def split: if_splits)
qed

text \<open>The first failure is the one that is reported, and the flag is what the user clicked.\<close>

lemma loop_body_simps [simp]:
  "bd_cancelled (delete_ok p st) = bd_cancelled st" "bd_cancelled (delete_failed nm p e st) = bd_cancelled st"
  "bd_cancelled (renderProgress b i nm st) = bd_cancelled st"
  "length (bd_log (delete_ok p st)) = Suc (length (bd_log st))"
  "length (bd_log (delete_failed nm p e st)) = Suc (length (bd_log st))"
  "bd_firstError (delete_ok p st) = bd_firstError st" "bd_firstError (look_at_flag c st) = bd_firstError st"
  "bd_firstError (renderProgress b i nm st) = bd_firstError st"
  "bd_firstError (delete_failed nm p e st) =
     (case bd_firstError st of None \<Rightarrow> Some (nm @ '': '' @ error_message_of e) | Some m \<Rightarrow> Some m)"
  by (simp_all add: delete_ok_def delete_failed_def renderProgress_def look_at_flag_def)

lemma delete_loop_keeps_first:
  "bd_firstError st = Some m \<Longrightarrow> bd_firstError (delete_loop del clicked target sp i names st) = Some m"
  by (induction names arbitrary: i st) (auto simp: Let_def split: sum.split)

lemma delete_loop_first:
  "bd_firstError st = None \<Longrightarrow> bd_firstError (delete_loop del clicked target sp i names st) = Some m \<Longrightarrow>
     \<exists>j<length names. \<exists>e. del (i + j) (target (names ! j)) = Inl e
       \<and> m = names ! j @ '': '' @ error_message_of e
       \<and> (\<forall>l<j. \<exists>u. del (i + l) (target (names ! l)) = Inr u)"
proof (induction names arbitrary: i st)
  case (Cons name names)
  show ?case
  proof (cases "del i (target name)")
    case (Inl e)
    with Cons.prems have "m = name @ '': '' @ error_message_of e"
      by (auto simp: Let_def delete_loop_keeps_first split: if_splits)
    with Inl show ?thesis by (intro exI[of _ 0]) simp
  next
    case (Inr u)
    let ?s = "delete_ok (target name) (renderProgress sp i name (look_at_flag (clicked i) st))"
    have "bd_firstError ?s = None" "bd_firstError (delete_loop del clicked target sp (i + 1) names ?s) = Some m"
      using Inr Cons.prems by (auto simp: Let_def split: if_splits)
    from Cons.IH[OF this] obtain j e where "j < length names" "del (i + Suc j) (target (names ! j)) = Inl e"
        "m = names ! j @ '': '' @ error_message_of e" "\<forall>l<j. \<exists>u. del (i + Suc l) (target (names ! l)) = Inr u"
      by auto
    with Inr show ?thesis by (intro exI[of _ "Suc j"]) (auto simp: less_Suc_eq_0_disj)
  qed
qed simp

lemma delete_loop_flag:
  assumes "\<not> bd_cancelled st"
  shows "length (bd_log st) \<le> length (bd_log (delete_loop del clicked target sp i names st))
    \<and> (\<not> bd_aborted (delete_loop del clicked target sp i names st) \<longrightarrow>
       (bd_cancelled (delete_loop del clicked target sp i names st) \<longleftrightarrow>
         (\<exists>j. length (bd_log st) + j \<le> length (bd_log (delete_loop del clicked target sp i names st)) \<and> clicked (i + j))))"
  using assms
proof (induction names arbitrary: i st)
  case Nil
  then show ?case by (simp add: look_at_flag_def)
next
  case (Cons name names)
  show ?case
  proof (cases "clicked i")
    case True
    then show ?thesis by (auto simp: look_at_flag_def intro: exI[of _ 0])
  next
    case False
    let ?p = "renderProgress sp i name (look_at_flag (clicked i) st)"
    have shift: "(\<exists>j. n + j \<le> n' \<and> clicked (i + j)) \<longleftrightarrow> (\<exists>j. Suc n + j \<le> n' \<and> clicked (Suc i + j))" for n n'
      using False by (metis Suc_pred add.commute add_Suc_right add_Suc_shift bot_nat_0.not_eq_extremum plus_nat.add_0)
    have nc: "\<not> bd_cancelled ?p" using False Cons.prems by (simp add: look_at_flag_def)
    show ?thesis
    proof (cases "del i (target name)")
      case (Inr u)
      with Cons.IH[of "delete_ok (target name) ?p" "Suc i"] nc Cons.prems False show ?thesis
        unfolding shift by (simp add: Let_def)
    next
      case (Inl e)
      with Cons.IH[of "delete_failed name (target name) e ?p" "Suc i"] nc Cons.prems False show ?thesis
        unfolding shift by (simp add: Let_def)
    qed
  qed
qed

text \<open>What a batch of \<open>n\<close> names reports after \<open>k\<close> requests, of which \<open>s\<close> succeeded and \<open>f\<close> failed,
  the first failure being \<open>first\<close>.\<close>

definition summary_of :: "bool \<Rightarrow> bool \<Rightarrow> nat \<Rightarrow> nat \<Rightarrow> nat \<Rightarrow> string \<Rightarrow> toast_color \<times> string" where
  "summary_of stopped cancelled n s f first =
     (if stopped then (Red, ''Bulk delete stopped after 10 consecutive failures ('' @ first @ ''). Deleted ''
        @ nat_str s @ '', failed '' @ nat_str f @ '', skipped '' @ nat_str (n - (s + f)) @ ''.'')
      else if cancelled then (Yellow, ''Bulk delete cancelled. Deleted '' @ nat_str s @ '' of '' @ nat_str n
        @ ''; '' @ nat_str (n - (s + f)) @ '' skipped.'')
      else if f = 0 then (Green, ''Deleted '' @ nat_str n @ (if n = 1 then '' item'' else '' items''))
      else if s = 0 \<and> n = 1 then (Red, ''Failed to delete '' @ first)
      else if s = 0 then (Red, ''Failed to delete '' @ nat_str n @ '' of '' @ nat_str n @ '' (first: '' @ first @ '')'')
      else (Yellow, ''Deleted '' @ nat_str s @ '' of '' @ nat_str n @ ''; '' @ nat_str f
        @ '' failed (first: '' @ first @ '')''))"

lemma ten_str: "nat_str 10 = ''10''"
  by code_simp

lemma delete_toast_summary:
  assumes "bd_success st + bd_failed st = n \<or> bd_aborted st \<or> bd_cancelled st" "n \<noteq> 0"
    and "bd_firstError st = Some first \<or> bd_failed st = 0 \<and> \<not> bd_aborted st"
  shows "\<exists>t. delete_toast n st = Some t
    \<and> (toast_color t, toast_message t)
      = summary_of (bd_aborted st) (bd_cancelled st) n (bd_success st) (bd_failed st) first"
  using assms
  by (auto simp: delete_toast_def summary_of_def Let_def first_error_def deleted_items_def ten_str
      MAX_CONSECUTIVE_FAILURES_def diff_diff_left)

lemma confirmDelete_flags:
  assumes "confirmDelete del clicked bucket roleId pathFromUrl items names = Some r" "\<not> bd_aborted (do_batch r)"
  shows "bd_cancelled (do_batch r) \<longleftrightarrow> 1 < length names \<and> (\<exists>j\<le>length (bd_log (do_batch r)). clicked j)"
proof -
  let ?sp = "1 < length names"
  let ?st0 = "if ?sp then batch0\<lparr>bd_progress := [(0, hd names)]\<rparr> else batch0"
  have st0: "\<not> bd_cancelled ?st0" "bd_log ?st0 = []" by (auto simp: batch0_def)
  from delete_loop_flag[OF st0(1), of del "if ?sp then clicked else (\<lambda>_. False)" "delete_path pathFromUrl items"
      ?sp 0 names] assms st0(2)
  show ?thesis by (cases ?sp) (auto simp: confirmDelete_def Let_def split: if_splits)
qed

lemma confirmDelete_first:
  assumes "confirmDelete del clicked bucket roleId pathFromUrl items names = Some r" "bd_firstError (do_batch r) = Some m"
  shows "\<exists>j<length names. \<exists>e. del j (delete_path pathFromUrl items (names ! j)) = Inl e
    \<and> m = names ! j @ '': '' @ error_message_of e
    \<and> (\<forall>l<j. \<exists>u. del l (delete_path pathFromUrl items (names ! l)) = Inr u)"
proof -
  let ?sp = "1 < length names"
  let ?st0 = "if ?sp then batch0\<lparr>bd_progress := [(0, hd names)]\<rparr> else batch0"
  have "bd_firstError ?st0 = None" by (simp add: batch0_def)
  from delete_loop_first[OF this, of del "if ?sp then clicked else (\<lambda>_. False)" "delete_path pathFromUrl items"
      ?sp 0 names m] assms
  show ?thesis by (auto simp: confirmDelete_def Let_def split: if_splits)
qed

lemma failures_at_end_map:
  "n \<le> failures_at_end (map f [0..<k]) \<longleftrightarrow> n \<le> k \<and> (\<forall>j<k. k \<le> j + n \<longrightarrow> \<not> snd (f j))"
proof (induction k arbitrary: n)
  case (Suc k)
  have snoc: "failures_at_end (map f [0..<Suc k]) = (if snd (f k) then 0 else Suc (failures_at_end (map f [0..<k])))"
    using failures_at_end_snoc[of "map f [0..<k]" "fst (f k)" "snd (f k)"] by simp
  show ?case
  proof (cases n)
    case (Suc m)
    then show ?thesis unfolding snoc using Suc.IH[of m] by (auto simp: less_Suc_eq)
  qed simp
qed (simp add: failures_at_end_Nil)

lemma log_counts:
  assumes "batch_inv st" and log: "bd_log st = map (\<lambda>j. (p j, \<exists>u. d j = Inr u)) [0..<k]"
  shows "bd_success st = card {j. j < k \<and> (\<exists>u. d j = Inr u)}"
    and "bd_failed st = card {j. j < k \<and> (\<exists>e. d j = Inl e)}"
    and "bd_success st + bd_failed st = k"
    and "bd_aborted st \<longleftrightarrow> 10 \<le> k \<and> (\<forall>j<k. k \<le> j + 10 \<longrightarrow> (\<exists>e. d j = Inl e))"
    and "bd_firstError st = None \<longleftrightarrow> (\<forall>j<k. \<exists>u. d j = Inr u)"
proof -
  have neg: "\<not> (\<exists>u. d j = Inr u) \<longleftrightarrow> (\<exists>e. d j = Inl e)" for j by (cases "d j") auto
  have "length (filter snd (bd_log st)) = card {j. j < k \<and> (\<exists>u. d j = Inr u)}"
    "length (filter (\<lambda>r. \<not> snd r) (bd_log st)) = card {j. j < k \<and> (\<exists>e. d j = Inl e)}"
    unfolding length_filter_conv_card log by (auto intro!: arg_cong[of _ _ card] simp: neg[simplified])
  then show s: "bd_success st = card {j. j < k \<and> (\<exists>u. d j = Inr u)}"
    and f: "bd_failed st = card {j. j < k \<and> (\<exists>e. d j = Inl e)}" using assms(1) by (auto simp: batch_inv_def)
  show "bd_success st + bd_failed st = k"
    using assms(1) length_filter_partition[of "bd_log st" snd] by (simp add: batch_inv_def log)
  show "bd_aborted st \<longleftrightarrow> 10 \<le> k \<and> (\<forall>j<k. k \<le> j + 10 \<longrightarrow> (\<exists>e. d j = Inl e))"
    using assms(1) failures_at_end_map[of 10 "\<lambda>j. (p j, \<exists>u. d j = Inr u)" k]
    by (simp add: batch_inv_def MAX_CONSECUTIVE_FAILURES_def log neg[simplified])
  show "bd_firstError st = None \<longleftrightarrow> (\<forall>j<k. \<exists>u. d j = Inr u)"
  proof -
    have "bd_failed st = 0 \<longleftrightarrow> (\<forall>j<k. \<not> (\<exists>e. d j = Inl e))" by (simp add: f)
    then have "bd_failed st = 0 \<longleftrightarrow> (\<forall>j<k. \<exists>u. d j = Inr u)" using neg by metis
    with assms(1) show ?thesis unfolding batch_inv_def by metis
  qed
qed

text \<open>C8: a bulk delete accounts for every chosen name by what the server answered.  It requests the
  first \<open>k\<close> names one by one, in their order, each at the path the listing gives it, and records each
  as a success exactly when its own request succeeded; the two counters are the numbers of requests
  that succeeded and failed.  It stops early only because the last ten requests failed or because the
  user cancelled, which shows exactly when a look at the flag found it set.  The one toast has the
  colour and the text of these numbers (stopped, cancelled, all deleted, all failed, some failed) and
  quotes the message of the first request that failed; the folder is refreshed and the selection
  cleared in every case.\<close>

theorem bulk_delete_accounts:
  assumes "confirmDelete del clicked bucket roleId pathFromUrl items names = Some r"
  shows "\<exists>k\<le>length names. \<exists>p first t. p = (\<lambda>j. delete_path pathFromUrl items (names ! j))
    \<and> bd_log (do_batch r) = map (\<lambda>j. (p j, \<exists>u. del j (p j) = Inr u)) [0..<k]
    \<and> bd_success (do_batch r) = card {j. j < k \<and> (\<exists>u. del j (p j) = Inr u)}
    \<and> bd_failed (do_batch r) = card {j. j < k \<and> (\<exists>e. del j (p j) = Inl e)}
    \<and> (bd_aborted (do_batch r) \<longleftrightarrow> 10 \<le> k \<and> (\<forall>j<k. k \<le> j + 10 \<longrightarrow> (\<exists>e. del j (p j) = Inl e)))
    \<and> (\<not> bd_aborted (do_batch r) \<longrightarrow> (bd_cancelled (do_batch r) \<longleftrightarrow> 1 < length names \<and> (\<exists>j\<le>k. clicked j)))
    \<and> (k < length names \<longrightarrow> bd_aborted (do_batch r) \<or> bd_cancelled (do_batch r))
    \<and> ((\<exists>j<k. \<exists>e. del j (p j) = Inl e) \<longrightarrow>
         (\<exists>j<k. \<exists>e. del j (p j) = Inl e \<and> first = names ! j @ '': '' @ error_message_of e
            \<and> (\<forall>l<j. \<exists>u. del l (p l) = Inr u)))
    \<and> do_toast r = Some t
    \<and> (toast_color t, toast_message t) = summary_of (bd_aborted (do_batch r)) (bd_cancelled (do_batch r))
        (length names) (bd_success (do_batch r)) (bd_failed (do_batch r)) first
    \<and> do_invalidated r = folder_invalidation bucket roleId pathFromUrl \<and> do_clearSelection r"
proof -
  let ?b = "do_batch r"
  define p where "p = (\<lambda>j. delete_path pathFromUrl items (names ! j))"
  obtain k where ne: "names \<noteq> []" and toast: "do_toast r = delete_toast (length names) ?b"
    and post: "loop_post del (delete_path pathFromUrl items) 0 names batch0 ?b k"
    using confirmDelete_post[OF assms] by blast
  then have k: "k \<le> length names" and inv: "batch_inv ?b"
    and log: "bd_log ?b = map (\<lambda>j. (p j, \<exists>u. del j (p j) = Inr u)) [0..<k]"
    and early: "k < length names \<longrightarrow> bd_aborted ?b \<or> bd_cancelled ?b"
    by (auto simp: loop_post_def p_def batch0_def)
  note counts = log_counts[OF inv log]
  define first where "first = first_error ?b"
  have quoted: "bd_firstError ?b = Some first \<or> bd_failed ?b = 0 \<and> \<not> bd_aborted ?b"
    using counts(2,4,5) by (cases "bd_firstError ?b") (auto simp: first_def first_error_def intro!: exI[of _ "k - 1"])
  have "bd_success ?b + bd_failed ?b = length names \<or> bd_aborted ?b \<or> bd_cancelled ?b"
    using counts(3) early k by linarith
  then obtain t where t: "do_toast r = Some t" "(toast_color t, toast_message t)
      = summary_of (bd_aborted ?b) (bd_cancelled ?b) (length names) (bd_success ?b) (bd_failed ?b) first"
    using delete_toast_summary[OF _ _ quoted, of "length names"] ne toast by auto
  have "\<exists>j<k. \<exists>e. del j (p j) = Inl e \<and> first = names ! j @ '': '' @ error_message_of e
      \<and> (\<forall>l<j. \<exists>u. del l (p l) = Inr u)" if some: "\<exists>j<k. \<exists>e. del j (p j) = Inl e"
  proof -
    from some obtain j' e' where j': "j' < k" "del j' (p j') = Inl e'" by blast
    with counts(5) have "bd_firstError ?b = Some first"
      by (cases "bd_firstError ?b") (auto simp: first_def first_error_def)
    from confirmDelete_first[OF assms this] obtain j e where j: "del j (p j) = Inl e"
        "first = names ! j @ '': '' @ error_message_of e" "\<forall>l<j. \<exists>u. del l (p l) = Inr u"
      unfolding p_def by blast
    with j' have "j < k" by (metis Inl_Inr_False linorder_neqE_nat order.strict_trans)
    with j show ?thesis by blast
  qed
  moreover have "do_invalidated r = folder_invalidation bucket roleId pathFromUrl" "do_clearSelection r"
    using assms by (auto simp: confirmDelete_def Let_def split: if_splits)
  moreover have "\<not> bd_aborted ?b \<longrightarrow> (bd_cancelled ?b \<longleftrightarrow> 1 < length names \<and> (\<exists>j\<le>k. clicked j))"
    using confirmDelete_flags[OF assms] by (simp add: log)
  ultimately show ?thesis using k log counts(1,2,4) early t p_def by blast
qed

definition fails_on :: "string \<Rightarrow> nat \<Rightarrow> string \<Rightarrow> js_error + unit" where
  "fails_on bad i path = (if path = bad then Inl (PlainError ''denied'') else Inr ())"

lemma short_paths: "delete_path [] [] ''a'' = ''a''" "delete_path [] [] ''b'' = ''b''"
  by (simp_all add: delete_path_def joinPath_def strip_both_def strip_front_def strip_back_def)

lemma sample_summary:
  "summary_of False False 2 1 1 ''a: denied'' = (Yellow, ''Deleted 1 of 2; 1 failed (first: a: denied)'')"
  by code_simp

theorem bulk_delete_accounts_witness:
  "\<exists>r t. confirmDelete (fails_on ''a'') (\<lambda>_. False) ''bk'' ''r'' [] [] [''a'', ''b''] = Some r
    \<and> bd_log (do_batch r) = [(''a'', False), (''b'', True)] \<and> do_toast r = Some t
    \<and> toast_color t = Yellow \<and> toast_message t = ''Deleted 1 of 2; 1 failed (first: a: denied)''"
proof -
  obtain r where r: "confirmDelete (fails_on ''a'') (\<lambda>_. False) ''bk'' ''r'' [] [] [''a'', ''b''] = Some r"
    by (simp add: confirmDelete_def Let_def)
  from bulk_delete_accounts[OF r] show ?thesis
  proof (elim exE conjE, goal_cases)
    case (1 k p first t)
    have d: "p 0 = ''a''" "p (Suc 0) = ''b''" by (simp_all add: 1(2) short_paths)
    have flags: "\<not> bd_aborted (do_batch r)" "\<not> bd_cancelled (do_batch r)" using 1(1,6,7) by auto
    then have k: "k = 2" using 1(1,8) by auto
    have "{j. j < 2 \<and> (\<exists>u. fails_on ''a'' j (p j) = Inr u)} = {1}" "{j. j < 2 \<and> (\<exists>e. fails_on ''a'' j (p j) = Inl e)} = {0}"
      by (auto simp: less_2_cases_iff fails_on_def d)
    then have n: "bd_success (do_batch r) = 1" "bd_failed (do_batch r) = 1" using 1(4,5) k by simp_all
    have "\<exists>j<k. \<exists>e. fails_on ''a'' j (p j) = Inl e" by (rule exI[of _ 0]) (simp add: k fails_on_def d)
    with 1(9) obtain j e where j: "j < 2" "fails_on ''a'' j (p j) = Inl e"
      "first = [''a'', ''b''] ! j @ '': '' @ error_message_of e" unfolding k by blast
    then have "j = 0" by (auto simp: less_2_cases_iff fails_on_def d)
    with j have first: "first = ''a: denied''" by (auto simp: fails_on_def d)
    have log: "bd_log (do_batch r) = [(''a'', False), (''b'', True)]"
      using 1(3) k d by (simp add: fails_on_def upt_rec numeral_2_eq_2)
    have "length [''a'', ''b''] = 2" by simp
    with 1(11) flags n first
    have "(toast_color t, toast_message t) = summary_of False False 2 1 1 ''a: denied''" by (simp only:)
    then have "toast_color t = Yellow \<and> toast_message t = ''Deleted 1 of 2; 1 failed (first: a: denied)''"
      unfolding sample_summary by simp
    with r log 1(10) show ?case by blast
  qed
qed

text \<open>the batch is aborted exactly by the tenth failure in a row: when it is aborted, the last
  ten requests made all failed and no request follows them, and as long as it is not aborted there
  never were ten failures in a row.\<close>

theorem bulk_delete_abort:
  assumes "confirmDelete del clicked bucket roleId pathFromUrl items names = Some r"
  shows "(bd_aborted (do_batch r) \<longleftrightarrow> failures_at_end (bd_log (do_batch r)) = 10)
    \<and> (\<forall>xs ys. bd_log (do_batch r) = xs @ ys \<and> ys \<noteq> [] \<longrightarrow> failures_at_end xs < 10)"
proof -
  from confirmDelete_post [OF assms] obtain k
    where "loop_post del (delete_path pathFromUrl items) 0 names batch0 (do_batch r) k" by blast
  then have "batch_inv (do_batch r)"
    and "\<forall>xs ys. bd_log (do_batch r) = xs @ ys \<and> length (bd_log batch0) \<le> length xs \<and> ys \<noteq> []
          \<longrightarrow> failures_at_end xs < MAX_CONSECUTIVE_FAILURES"
    by (simp_all add: loop_post_def)
  then show ?thesis
    by (auto simp: batch_inv_def MAX_CONSECUTIVE_FAILURES_def batch0_def)
qed

theorem bulk_delete_abort_witness:
  "\<exists>r. confirmDelete (\<lambda>_ _. Inl Thrown) (\<lambda>_. False) ''bk'' ''r'' [] []
        (map nat_str [0..<12]) = Some r
    \<and> (bd_aborted (do_batch r) \<longleftrightarrow> failures_at_end (bd_log (do_batch r)) = 10)"
proof -
  obtain r where r: "confirmDelete (\<lambda>_ _. Inl Thrown) (\<lambda>_. False) ''bk'' ''r'' [] []
      (map nat_str [0..<12]) = Some r"
    by (simp add: confirmDelete_def Let_def)
  from bulk_delete_abort [OF r] r show ?thesis by blast
qed

text \<open>what the summary says is true: without an abort or a cancel a green toast is shown exactly
  when every request succeeded, a red one exactly when every request failed, and a yellow one
  when some of each happened.\<close>

theorem bulk_delete_toast_color:
  assumes "confirmDelete del clicked bucket roleId pathFromUrl items names = Some r"
    and "\<not> bd_aborted (do_batch r)" and "\<not> bd_cancelled (do_batch r)"
  shows "\<exists>t. do_toast r = Some t
    \<and> (toast_color t = Green \<longleftrightarrow> (\<forall>i<length names. \<exists>u. del i (delete_path pathFromUrl items (names ! i)) = Inr u))
    \<and> (toast_color t = Red \<longleftrightarrow> (\<forall>i<length names. \<exists>e. del i (delete_path pathFromUrl items (names ! i)) = Inl e))"
proof -
  from confirmDelete_post [OF assms(1)] obtain k where ne: "names \<noteq> []"
    and post: "loop_post del (delete_path pathFromUrl items) 0 names batch0 (do_batch r) k"
    and toast: "do_toast r = delete_toast (length names) (do_batch r)" by blast
  define ok where "ok i \<longleftrightarrow> (\<exists>u. del i (delete_path pathFromUrl items (names ! i)) = Inr u)" for i
  have not_ok: "\<not> ok i \<longleftrightarrow> (\<exists>e. del i (delete_path pathFromUrl items (names ! i)) = Inl e)" for i
    by (cases "del i (delete_path pathFromUrl items (names ! i))") (auto simp: ok_def)
  from post assms(2,3) have log: "bd_log (do_batch r)
      = map (\<lambda>j. (delete_path pathFromUrl items (names ! j), ok j)) [0..<length names]"
    and inv: "batch_inv (do_batch r)"
    by (auto simp: loop_post_def ok_def batch0_def)
  have s: "bd_success (do_batch r) = 0 \<longleftrightarrow> (\<forall>i<length names. \<not> ok i)"
    and f: "bd_failed (do_batch r) = 0 \<longleftrightarrow> (\<forall>i<length names. ok i)"
    using inv by (auto simp: batch_inv_def log filter_empty_conv)
  have "\<not> (bd_success (do_batch r) = 0 \<and> bd_failed (do_batch r) = 0)"
    using ne s f by auto
  then show ?thesis
    using assms(2,3) s f unfolding toast not_ok [symmetric] ok_def [symmetric]
    by (auto simp: delete_toast_def Let_def)
qed

theorem bulk_delete_toast_color_witness:
  "\<exists>t. delete_toast 2 (delete_loop (fails_on ''a'') (\<lambda>_. False) (delete_path [] []) True 0 [''a'', ''b'']
        (batch0\<lparr>bd_progress := [(0, ''a'')]\<rparr>)) = Some t \<and> toast_color t \<noteq> Green \<and> toast_color t \<noteq> Red"
proof -
  have p: "delete_path [] [] ''a'' = ''a''" "delete_path [] [] ''b'' = ''b''"
    by (simp_all add: delete_path_def joinPath_def strip_both_def strip_front_def strip_back_def)
  let ?b = "delete_loop (fails_on ''a'') (\<lambda>_. False) (delete_path [] []) True 0 [''a'', ''b'']
        (batch0\<lparr>bd_progress := [(0, ''a'')]\<rparr>)"
  have st: "\<not> bd_aborted ?b" "\<not> bd_cancelled ?b"
    by (simp_all add: p fails_on_def look_at_flag_def renderProgress_def delete_failed_def delete_ok_def
        batch0_def MAX_CONSECUTIVE_FAILURES_def Let_def)
  have r: "confirmDelete (fails_on ''a'') (\<lambda>_. False) ''bk'' ''r'' [] [] [''a'', ''b'']
      = Some \<lparr>do_batch = ?b, do_invalidated = folder_invalidation ''bk'' ''r'' [], do_counter_after = 0,
          do_toast = delete_toast (length [''a'', ''b'']) ?b, do_clearSelection = True\<rparr>"
    by (simp add: confirmDelete_def Let_def del: delete_loop.simps)
  from bulk_delete_toast_color [OF r] st
  obtain t where t: "delete_toast (length [''a'', ''b'']) ?b = Some t"
    "toast_color t = Green \<longleftrightarrow> (\<forall>i<length [''a'', ''b'']. \<exists>u. fails_on ''a'' i (delete_path [] [] ([''a'', ''b''] ! i)) = Inr u)"
    "toast_color t = Red \<longleftrightarrow> (\<forall>i<length [''a'', ''b'']. \<exists>e. fails_on ''a'' i (delete_path [] [] ([''a'', ''b''] ! i)) = Inl e)"
    by auto
  have "toast_color t \<noteq> Green"
  proof
    assume "toast_color t = Green"
    from t(2) [THEN iffD1, OF this, rule_format, of 0] show False by (simp add: p fails_on_def)
  qed
  moreover have "toast_color t \<noteq> Red"
  proof
    assume "toast_color t = Red"
    from t(3) [THEN iffD1, OF this, rule_format, of 1] show False by (simp add: p fails_on_def)
  qed
  moreover have two: "length [''a'', ''b''] = 2" by simp
  ultimately show ?thesis using t(1) [unfolded two] by blast
qed

text \<open>when no two entries of the level share a name, the path a delete is sent for is the path of
  the entry clicked, with the trailing slash of a recursive delete exactly when it is a folder.\<close>

theorem delete_path_exact:
  assumes "distinct (map fe_name items)" and "f \<in> set items"
  shows "delete_path pathFromUrl items (fe_name f)
    = joinPath [pathFromUrl, fe_name f] @ (if fe_is_directory f then ''/'' else [])"
proof -
  have "\<exists>g. find (\<lambda>g. fe_name g = fe_name f) items = Some g"
    using assms(2) by (metis (mono_tags, lifting) find_None_iff option.exhaust)
  then obtain g where g: "find (\<lambda>g. fe_name g = fe_name f) items = Some g" ..
  then have "g \<in> set items" "fe_name g = fe_name f" using find_Some_in_set by force+
  with assms have "g = f" by (auto simp: distinct_map dest: inj_onD)
  with g show ?thesis by (simp add: delete_path_def)
qed

definition entry :: "string \<Rightarrow> bool \<Rightarrow> file_entry" where
  "entry nm dir = \<lparr>fe_name = nm, fe_is_directory = dir, fe_size = 0, fe_last_modified = None\<rparr>"

theorem delete_path_exact_witness:
  "delete_path ''p'' [entry ''d'' True, entry ''a'' False] (fe_name (entry ''a'' False))
    = joinPath [''p'', ''a'']"
  using delete_path_exact [of "[entry ''d'' True, entry ''a'' False]" "entry ''a'' False" "''p''"]
  by (simp add: entry_def)

text \<open>C40: folders come first in the list the lookup searches, so deleting a file that has the name of
  a folder of the level (the keys \<open>a\<close> and \<open>a/b\<close>) is sent as the recursive delete of that
  folder, whatever the file is.\<close>

theorem delete_path_collision:
  assumes "d \<in> set directories" and "list_all fe_is_directory directories" and "fe_name f = fe_name d"
  shows "delete_path pathFromUrl (directories @ f # files) (fe_name f)
    = joinPath [pathFromUrl, fe_name d] @ ''/''"
proof -
  have "\<exists>g. find (\<lambda>g. fe_name g = fe_name d) directories = Some g"
    using assms(1) by (metis (mono_tags, lifting) find_None_iff option.exhaust)
  then obtain g where g: "find (\<lambda>g. fe_name g = fe_name d) directories = Some g" ..
  then have "fe_is_directory g" using find_Some_in_set [OF g] assms(2) by (auto simp: list_all_iff)
  with g assms(3) show ?thesis by (simp add: delete_path_def find_append)
qed

theorem delete_path_collision_witness:
  "delete_path [] ([entry ''a'' True] @ entry ''a'' False # []) ''a'' = joinPath [[], ''a''] @ ''/''"
  using delete_path_collision [of "entry ''a'' True" "[entry ''a'' True]" "entry ''a'' False" "[]" "[]"]
  by (simp add: entry_def)

end
