(* ===== verification/Folder_Upload.thy ===== *)
theory Folder_Upload
  imports Api_Client Toast
begin

text \<open>
  Turning a drop or a picked folder into a list of files: \<open>utils/folderUpload.ts\<close> and the
  event handlers of \<open>components/Upload/UploadDropZone.tsx\<close>.

  A file system entry is a tree.  A directory holds the batches its reader will deliver, one per
  call of \<open>readEntries\<close>; after them the reader delivers empty batches.  The reader loop is
  structural in that list: a reader that delivers non-empty batches for ever has no such list.

  The walk is specified against a tree without readers (\<open>disk_tree\<close>) and the contract of a reader
  (\<open>presents\<close>), neither of which mentions the code's own loop.
\<close>

subsection \<open>Files and entries\<close>

record js_file =
  jf_name :: string
  jf_size :: nat
  jf_webkitRelativePath :: string

record file_with_path =
  fp_file :: js_file
  fp_relativePath :: string

datatype fs_entry =
    FileEntry string "js_error + js_file"
  | DirEntry string "(js_error + fs_entry list) list"
  | OtherEntry string

subsection \<open>drainReader and walkEntry\<close>

fun drainReader :: "(js_error + 'e list) list \<Rightarrow> js_error + 'e list" where
  "drainReader [] = Inr []"
| "drainReader (Inl e # bs) = Inl e"
| "drainReader (Inr b # bs) =
     (if b = [] then Inr [] else and_then (drainReader bs) (\<lambda>rest. Inr (b @ rest)))"

definition child_path :: "string \<Rightarrow> string \<Rightarrow> string" where
  "child_path pathPrefix name = (if pathPrefix \<noteq> [] then pathPrefix @ ''/'' @ name else name)"

text \<open>\<open>Promise.all\<close> rejects when one walk rejects; here with the first of the list.\<close>

primrec walkEntry :: "fs_entry \<Rightarrow> string \<Rightarrow> js_error + file_with_path list" where
  "walkEntry (FileEntry name read) = (\<lambda>pathPrefix.
     and_then read (\<lambda>file. Inr [\<lparr>fp_file = file, fp_relativePath = child_path pathPrefix name\<rparr>]))"
| "walkEntry (DirEntry name batches) = (\<lambda>pathPrefix.
     and_then (drainReader (map (map_sum id (map walkEntry)) batches))
       (\<lambda>walks. and_then (map_sum_list (\<lambda>walk. walk (child_path pathPrefix name)) walks)
         (\<lambda>results. Inr (concat results))))"
| "walkEntry (OtherEntry name) = (\<lambda>pathPrefix. Inr [])"

lemma drainReader_map: "drainReader (map (map_sum id (map f)) bs) = map_sum id (map f) (drainReader bs)"
proof (induction bs rule: drainReader.induct)
  case (3 b bs)
  then show ?case by (cases "drainReader bs") auto
qed auto

lemma map_sum_list_map: "map_sum_list f (map g xs) = map_sum_list (\<lambda>x. f (g x)) xs"
  by (induction xs) auto

text \<open>The recursion in the form of the source.\<close>

lemma walkEntry_dir:
  "walkEntry (DirEntry name batches) pathPrefix =
     and_then (drainReader batches)
       (\<lambda>children. and_then (map_sum_list (\<lambda>child. walkEntry child (child_path pathPrefix name)) children)
         (\<lambda>results. Inr (concat results)))"
  by (cases "drainReader batches") (auto simp: drainReader_map map_sum_list_map)

subsection \<open>expandDirectoryEntries\<close>

text \<open>A dragged item.  After the event handler has returned, which is at the first \<open>await\<close>
  of the loop, the drag data store is no longer readable: \<open>kind\<close> is then the empty string.
  \<open>readable n\<close> tells whether it is readable after n awaits.\<close>

record drop_item =
  di_kind :: string
  di_entry :: "fs_entry option"
  di_file :: "js_file option"

definition read_kind :: "bool \<Rightarrow> drop_item \<Rightarrow> string" where
  "read_kind readable item = (if readable then di_kind item else [])"

fun expand_items :: "(nat \<Rightarrow> bool) \<Rightarrow> nat \<Rightarrow> drop_item list \<Rightarrow> js_error + file_with_path list" where
  "expand_items readable n [] = Inr []"
| "expand_items readable n (item # items) =
     (if read_kind (readable n) item \<noteq> ''file'' then expand_items readable n items
      else (case di_entry item of
              Some en \<Rightarrow>
                and_then (walkEntry en [])
                  (\<lambda>branch. and_then (expand_items readable (n + 1) items) (\<lambda>rest. Inr (branch @ rest)))
            | None \<Rightarrow>
                and_then (expand_items readable n items)
                  (\<lambda>rest. Inr ((case di_file item of
                                  None \<Rightarrow> []
                                | Some file \<Rightarrow> [\<lparr>fp_file = file, fp_relativePath = jf_name file\<rparr>]) @ rest))))"

definition expandDirectoryEntries ::
  "(nat \<Rightarrow> bool) \<Rightarrow> drop_item list \<Rightarrow> js_error + file_with_path list" where
  "expandDirectoryEntries readable items = expand_items readable 0 items"

definition filesFromFolderInput :: "js_file list \<Rightarrow> file_with_path list" where
  "filesFromFolderInput files =
     map (\<lambda>file. \<lparr>fp_file = file,
            fp_relativePath = (if jf_webkitRelativePath file \<noteq> [] then jf_webkitRelativePath file
                               else jf_name file)\<rparr>) files"

subsection \<open>The drop zone\<close>

record drop_zone =
  dz_isDragging :: bool
  dz_counter :: nat

definition handleDragEnter :: "bool \<Rightarrow> drop_zone \<Rightarrow> drop_zone" where
  "handleDragEnter hasFiles st =
     (if \<not> hasFiles then st
      else \<lparr>dz_isDragging = (if dz_counter st = 0 then True else dz_isDragging st),
            dz_counter = dz_counter st + 1\<rparr>)"

definition handleDragLeave :: "bool \<Rightarrow> drop_zone \<Rightarrow> drop_zone" where
  "handleDragLeave leftWindow st =
     (if leftWindow then \<lparr>dz_isDragging = False, dz_counter = 0\<rparr>
      else (let next_c = dz_counter st - 1
            in \<lparr>dz_isDragging = (if next_c = 0 then False else dz_isDragging st), dz_counter = next_c\<rparr>))"

datatype drop_effect = DropUpload "file_with_path list" | DropToast toast | DropNothing

text \<open>\<open>hasEntryApi\<close>: some item offers webkitGetAsEntry; \<open>flat\<close> is the file list of the
  event.\<close>

definition handleDrop ::
  "(nat \<Rightarrow> bool) \<Rightarrow> (drop_item list \<times> js_file list) option \<Rightarrow> bool \<Rightarrow> drop_zone \<Rightarrow> drop_zone \<times> drop_effect"
where
  "handleDrop readable dataTransfer hasEntryApi st =
     (\<lparr>dz_isDragging = False, dz_counter = 0\<rparr>,
      case dataTransfer of
        None \<Rightarrow> DropNothing
      | Some (items, flat) \<Rightarrow>
          if hasEntryApi then
            (case expandDirectoryEntries readable items of
               Inr files \<Rightarrow> if files \<noteq> [] then DropUpload files else DropNothing
             | Inl err \<Rightarrow> DropToast (toast_of Red (Some ''Could not read dropped folder'')
                             (getErrorMessage err) 10000))
          else if flat \<noteq> [] then
            DropUpload (map (\<lambda>file. \<lparr>fp_file = file, fp_relativePath = jf_name file\<rparr>) flat)
          else DropNothing)"

datatype drag_event = DragEnter bool | DragLeave bool | DropEvent

fun drag_step :: "drop_zone \<Rightarrow> drag_event \<Rightarrow> drop_zone" where
  "drag_step st (DragEnter hasFiles) = handleDragEnter hasFiles st"
| "drag_step st (DragLeave leftWindow) = handleDragLeave leftWindow st"
| "drag_step st DropEvent = fst (handleDrop (\<lambda>n. n = 0) None False st)"

lemma drop_resets: "fst (handleDrop readable dt api st) = \<lparr>dz_isDragging = False, dz_counter = 0\<rparr>"
  by (simp add: handleDrop_def)

subsection \<open>Specification: what lies on the disk\<close>

text \<open>The folder as the user sees it, without readers and batches, and its files: each with the names
  from the top down to it.\<close>

datatype disk_tree = DiskFile string js_file | DiskFolder string "disk_tree list" | DiskOther string

primrec disk_files :: "disk_tree \<Rightarrow> (string list \<times> js_file) list" where
  "disk_files (DiskFile name f) = [([name], f)]"
| "disk_files (DiskFolder name ts) = map (\<lambda>(p, f). (name # p, f)) (concat (map disk_files ts))"
| "disk_files (DiskOther name) = []"

text \<open>The browser presents a tree: files read as their contents, and the reader of a folder delivers
  the children in order, split into non-empty batches in any way, until it delivers an empty batch or
  has nothing left.  What it would deliver after the empty batch does not matter.\<close>

inductive presents :: "fs_entry \<Rightarrow> disk_tree \<Rightarrow> bool" where
  pr_file: "presents (FileEntry name (Inr f)) (DiskFile name f)"
| pr_folder: "list_all2 presents (concat bs) ts \<Longrightarrow> [] \<notin> set bs \<Longrightarrow> rest = [] \<or> hd rest = Inr []
    \<Longrightarrow> presents (DirEntry name (map Inr bs @ rest)) (DiskFolder name ts)"
| pr_other: "presents (OtherEntry name) (DiskOther name)"

text \<open>The loop of the reader against that contract.\<close>

lemma drainReader_batches:
  "[] \<notin> set bs \<Longrightarrow> rest = [] \<or> hd rest = Inr [] \<Longrightarrow> drainReader (map Inr bs @ rest) = Inr (concat bs)"
proof (induction bs)
  case Nil
  then show ?case by (cases rest) auto
qed auto

lemma drainReader_Inr:
  "drainReader bs = Inr cs \<Longrightarrow>
     \<exists>bs' rest. bs = map Inr bs' @ rest \<and> [] \<notin> set bs' \<and> (rest = [] \<or> hd rest = Inr []) \<and> cs = concat bs'"
proof (induction bs arbitrary: cs rule: drainReader.induct)
  case (3 b bs)
  show ?case
  proof (cases "b = []")
    case True
    with "3.prems" show ?thesis by (intro exI[of _ "[]"] exI[of _ "Inr b # bs"]) simp
  next
    case False
    with "3.prems" obtain tail where "drainReader bs = Inr tail" "cs = b @ tail" by (auto simp: and_then_Inr_iff)
    with "3.IH"[OF False] obtain bs' rest where "bs = map Inr bs' @ rest" "[] \<notin> set bs'"
        "rest = [] \<or> hd rest = Inr []" "cs = b @ concat bs'" by blast
    with False show ?thesis by (intro exI[of _ "b # bs'"] exI[of _ rest]) simp
  qed
qed auto

primrec names_ok :: "fs_entry \<Rightarrow> bool" where
  "names_ok (FileEntry name r) \<longleftrightarrow> name \<noteq> []"
| "names_ok (DirEntry name bs) \<longleftrightarrow>
     name \<noteq> [] \<and> list_all (\<lambda>b. case b of Inl e \<Rightarrow> True | Inr cs \<Rightarrow> list_all id cs)
       (map (map_sum id (map names_ok)) bs)"
| "names_ok (OtherEntry name) \<longleftrightarrow> True"

lemma names_ok_dir: "names_ok (DirEntry name (map Inr bs @ rest)) \<Longrightarrow> name \<noteq> [] \<and> (\<forall>c\<in>set (concat bs). names_ok c)"
  by (simp add: list_all_iff ball_Un)

definition under :: "string \<Rightarrow> string list \<Rightarrow> string" where
  "under pathPrefix p = (if pathPrefix = [] then join_with ''/'' p else pathPrefix @ ''/'' @ join_with ''/'' p)"

lemma under_child: "name \<noteq> [] \<Longrightarrow> p \<noteq> [] \<Longrightarrow> under (child_path q name) p = under q (name # p)"
  by (cases p) (auto simp: under_def child_path_def)

definition located :: "string \<Rightarrow> disk_tree \<Rightarrow> file_with_path list" where
  "located q t = map (\<lambda>(p, f). \<lparr>fp_file = f, fp_relativePath = under q p\<rparr>) (disk_files t)"

lemma disk_path_nonempty: "(p, f) \<in> set (disk_files t) \<Longrightarrow> p \<noteq> []"
  by (cases t) auto

lemma located_folder:
  "name \<noteq> [] \<Longrightarrow> located q (DiskFolder name ts) = concat (map (located (child_path q name)) ts)"
  by (auto simp: located_def map_concat under_child disk_path_nonempty comp_def intro!: arg_cong[of _ _ concat])

lemma walkEntry_presents: "presents en t \<Longrightarrow> names_ok en \<Longrightarrow> walkEntry en q = Inr (located q t)"
proof (induction arbitrary: q rule: presents.induct)
  case (pr_folder bs ts rest name)
  from names_ok_dir[OF pr_folder.prems] have name: "name \<noteq> []" and ok: "\<forall>c\<in>set (concat bs). names_ok c" by auto
  have "list_all2 (\<lambda>c t. walkEntry c (child_path q name) = Inr (located (child_path q name) t)) (concat bs) ts"
    using pr_folder.IH ok by (auto elim!: list.rel_mono_strong)
  then have "map_sum_list (\<lambda>c. walkEntry c (child_path q name)) (concat bs) = Inr (map (located (child_path q name)) ts)"
    by (induction rule: list_all2_induct) auto
  then show ?case
    by (simp add: walkEntry_dir drainReader_batches pr_folder.hyps located_folder name del: walkEntry.simps)
qed (auto simp: located_def under_def child_path_def)

text \<open>Conversely a walk that returns has seen a tree.\<close>

lemma batch_child_size:
  assumes "Inr b \<in> set bs" "c \<in> set b"
  shows "size c < size (DirEntry name bs)"
proof -
  from assms(2) have "size c < Suc (size_list size b)"
    by (metis less_Suc_eq_le order_refl size_list_estimation')
  moreover have "size_sum (\<lambda>_. 0) (size_list size) (Inr b :: js_error + fs_entry list)
      \<le> size_list (size_sum (\<lambda>_. 0) (size_list size)) bs"
    by (rule size_list_estimation' [OF assms(1)]) simp
  ultimately show ?thesis by simp
qed

lemma walkEntry_returns_presents: "walkEntry en q = Inr files \<Longrightarrow> \<exists>t. presents en t"
proof (induction en arbitrary: q files rule: measure_induct_rule [of size])
  case (less en)
  show ?case
  proof (cases en)
    case (FileEntry name read)
    with less.prems show ?thesis by (cases read) (auto intro: presents.pr_file)
  next
    case (DirEntry name bs)
    from less.prems obtain cs results where cs: "drainReader bs = Inr cs"
      and res: "map_sum_list (\<lambda>c. walkEntry c (child_path q name)) cs = Inr results"
      unfolding DirEntry walkEntry_dir by (auto simp: and_then_Inr_iff)
    obtain bs' rest where bs: "bs = map Inr bs' @ rest" "[] \<notin> set bs'" "rest = [] \<or> hd rest = Inr []" "cs = concat bs'"
      using drainReader_Inr[OF cs] by blast
    have "\<exists>t. presents c t" if c: "c \<in> set cs" for c
    proof -
      from c bs obtain b where "Inr b \<in> set bs" "c \<in> set b" by auto
      then have "size c < size en" unfolding DirEntry by (rule batch_child_size)
      moreover from c obtain i where "i < length cs" "c = cs ! i" by (metis in_set_conv_nth)
      ultimately show ?thesis using less.IH map_sum_list_Inr_nth[OF res] by metis
    qed
    then obtain g where "\<forall>c\<in>set cs. presents c (g c)" by metis
    then have "list_all2 presents cs (map g cs)" by (simp add: list_all2_conv_all_nth)
    with bs show ?thesis unfolding DirEntry by (metis presents.pr_folder)
  next
    case (OtherEntry name)
    then show ?thesis by (auto intro: presents.pr_other)
  qed
qed

subsection \<open>Properties\<close>

text \<open>C32: uploading a dropped folder takes every file of the tree on the disk, at any depth and
  however the browser splits a directory into batches, once and nothing else, in order, each with the
  slash-joined path of names from the dropped folder down to the file; and the walk returns a list
  only when the browser presented a whole tree (any reader or file error rejects it).\<close>

theorem walkEntry_exact:
  assumes "names_ok en"
  shows "walkEntry en [] = Inr files \<longleftrightarrow>
    (\<exists>t. presents en t
       \<and> files = map (\<lambda>(p, f). \<lparr>fp_file = f, fp_relativePath = join_with ''/'' p\<rparr>) (disk_files t))"
proof -
  have "located [] t = map (\<lambda>(p, f). \<lparr>fp_file = f, fp_relativePath = join_with ''/'' p\<rparr>) (disk_files t)" for t
    by (simp add: located_def under_def)
  then show ?thesis
    using walkEntry_presents[OF _ assms, of _ "[]"] walkEntry_returns_presents[of en "[]"] by (metis sum.inject(2))
qed

definition text_file :: "string \<Rightarrow> js_file" where
  "text_file nm = \<lparr>jf_name = nm, jf_size = 3, jf_webkitRelativePath = []\<rparr>"

definition sample_folder :: fs_entry where
  "sample_folder = DirEntry ''docs'' [Inr [FileEntry ''a'' (Inr (text_file ''a''))],
     Inr [DirEntry ''sub'' [Inr [FileEntry ''b'' (Inr (text_file ''b''))]]], Inr []]"

definition sample_tree :: disk_tree where
  "sample_tree = DiskFolder ''docs'' [DiskFile ''a'' (text_file ''a''),
     DiskFolder ''sub'' [DiskFile ''b'' (text_file ''b'')]]"

text \<open>The two children of the folder arrive in two batches.\<close>

lemma sample_presents: "presents sample_folder sample_tree"
proof -
  have sub: "presents (DirEntry ''sub'' [Inr [FileEntry ''b'' (Inr (text_file ''b''))]])
      (DiskFolder ''sub'' [DiskFile ''b'' (text_file ''b'')])"
    using presents.pr_folder[of "[[FileEntry ''b'' (Inr (text_file ''b''))]]" _ "[]"] by (simp add: presents.pr_file)
  let ?bs = "[[FileEntry ''a'' (Inr (text_file ''a''))], [DirEntry ''sub'' [Inr [FileEntry ''b'' (Inr (text_file ''b''))]]]]"
  show ?thesis
    using presents.pr_folder[of ?bs _ "[Inr []]" "''docs''"] sub
    by (simp add: sample_folder_def sample_tree_def presents.pr_file)
qed

theorem walkEntry_exact_witness:
  "walkEntry sample_folder [] = Inr [\<lparr>fp_file = text_file ''a'', fp_relativePath = ''docs/a''\<rparr>,
     \<lparr>fp_file = text_file ''b'', fp_relativePath = ''docs/sub/b''\<rparr>]"
proof -
  have "names_ok sample_folder" by (simp add: sample_folder_def)
  from walkEntry_exact[OF this] sample_presents show ?thesis by (force simp: sample_tree_def)
qed

text \<open>While the data store stays readable every dropped item is taken.\<close>

definition item_files :: "drop_item \<Rightarrow> js_error + file_with_path list" where
  "item_files item =
     (if di_kind item \<noteq> ''file'' then Inr []
      else (case di_entry item of
              Some en \<Rightarrow> walkEntry en []
            | None \<Rightarrow> Inr (case di_file item of None \<Rightarrow> []
                           | Some file \<Rightarrow> [\<lparr>fp_file = file, fp_relativePath = jf_name file\<rparr>])))"

lemma expand_items_readable:
  "expand_items (\<lambda>_. True) n items = and_then (map_sum_list item_files items) (\<lambda>rs. Inr (concat rs))"
proof (induction items arbitrary: n)
  case (Cons item items)
  show ?case
    by (cases "map_sum_list item_files items")
      (auto simp: Cons.IH read_kind_def item_files_def [of item] and_then_assoc split: option.splits)
qed simp

lemma expand_items_unreadable:
  "(\<And>m. n \<le> m \<Longrightarrow> \<not> readable m) \<Longrightarrow> expand_items readable n items = Inr []"
  by (induction items) (auto simp: read_kind_def)

text \<open>a drop of several folders loses all but the first.  The loop reads the kind of the next
  item after it has awaited the walk of the first folder; a data store that is readable during the
  event only (the HTML standard's protection of drag data) then hides every later item, and their
  files are left out without an error.\<close>

theorem multi_folder_drop_truncated:
  assumes "di_kind item = ''file''" and "di_entry item = Some en"
    and "readable 0" and "\<And>n. 0 < n \<Longrightarrow> \<not> readable n"
  shows "expandDirectoryEntries readable (item # items) = walkEntry en []"
proof -
  have "expand_items readable (Suc 0) items = Inr []"
    by (rule expand_items_unreadable) (use assms(4) in auto)
  with assms show ?thesis
    by (cases "walkEntry en []") (auto simp: expandDirectoryEntries_def read_kind_def)
qed

definition folder_item :: "fs_entry \<Rightarrow> drop_item" where
  "folder_item en = \<lparr>di_kind = ''file'', di_entry = Some en, di_file = None\<rparr>"

theorem multi_folder_drop_truncated_witness:
  "expandDirectoryEntries (\<lambda>n. n = 0)
     [folder_item sample_folder, folder_item (FileEntry ''c'' (Inr (text_file ''c'')))]
   = walkEntry sample_folder []"
  by (rule multi_folder_drop_truncated) (simp_all add: folder_item_def)

text \<open>The overlay is only shown while the counter of nested elements is positive.\<close>

lemma drag_invariant:
  "dz_isDragging (foldl drag_step \<lparr>dz_isDragging = False, dz_counter = 0\<rparr> evs) \<longleftrightarrow>
     0 < dz_counter (foldl drag_step \<lparr>dz_isDragging = False, dz_counter = 0\<rparr> evs)"
proof -
  have "dz_isDragging (foldl drag_step st evs) \<longleftrightarrow> 0 < dz_counter (foldl drag_step st evs)"
    if "dz_isDragging st \<longleftrightarrow> 0 < dz_counter st" for st
    using that
  proof (induction evs arbitrary: st)
    case (Cons ev evs)
    have "dz_isDragging (drag_step st ev) \<longleftrightarrow> 0 < dz_counter (drag_step st ev)"
      using Cons.prems by (cases ev) (auto simp: handleDragEnter_def handleDragLeave_def drop_resets Let_def)
    from Cons.IH [OF this] show ?case by simp
  qed simp
  then show ?thesis by simp
qed

end
