(* ===== verification/Upload_Batch.thy ===== *)
theory Upload_Batch
  imports Upload_Request Folder_Upload Query_Keys Format
begin

text \<open>
  Uploading a list of files: \<open>handleUpload\<close> of \<open>components/FileBrowser/FileBrowser.tsx\<close>
  with its progress and summary views, \<open>components/Upload/UploadProgress.tsx\<close> and
  \<open>UploadSummary.tsx\<close>.

  The i-th call of \<open>mutateAsync\<close> is the parameter \<open>run i\<close>: the callbacks it makes, in
  order, and its outcome (\<open>Upload_Request\<close> models what one upload can do).  \<open>clicked i\<close>
  says that the user pressed Cancel since the last look at the abort signal.
\<close>

subsection \<open>Items\<close>

datatype upload_status = Pending | Uploading | Finalizing | Done | Errored | Cancelled

record upload_item =
  ui_name :: string
  ui_status :: upload_status
  ui_error :: "string option"
  ui_progress :: "nat option"

record upload_batch =
  ub_items :: "upload_item list"
  ub_aborted :: bool
  ub_requests :: "(string \<times> js_file) list"
  ub_shown :: "upload_item list list"

definition terminal_status :: "upload_status \<Rightarrow> bool" where
  "terminal_status s \<longleftrightarrow> s \<in> {Done, Errored, Cancelled}"

definition active_status :: "upload_status \<Rightarrow> bool" where
  "active_status s \<longleftrightarrow> s = Uploading \<or> s = Finalizing"

definition initial_items :: "file_with_path list \<Rightarrow> upload_item list" where
  "initial_items files =
     map (\<lambda>f. \<lparr>ui_name = jf_name (fp_file f), ui_status = Pending, ui_error = None, ui_progress = None\<rparr>) files"

subsection \<open>The loop\<close>

definition renderToast :: "upload_batch \<Rightarrow> upload_batch" where
  "renderToast st = st\<lparr>ub_shown := ub_shown st @ [ub_items st]\<rparr>"

definition set_item :: "nat \<Rightarrow> (upload_item \<Rightarrow> upload_item) \<Rightarrow> upload_batch \<Rightarrow> upload_batch" where
  "set_item i f st = st\<lparr>ub_items := (ub_items st)[i := f (ub_items st ! i)]\<rparr>"

fun upload_callback :: "nat \<Rightarrow> upload_batch \<Rightarrow> upload_call \<Rightarrow> upload_batch" where
  "upload_callback i st (OnProgress percent) =
     (if ui_progress (ub_items st ! i) = Some percent then st
      else renderToast (set_item i (\<lambda>u. u\<lparr>ui_progress := Some percent\<rparr>) st))"
| "upload_callback i st OnFinalizing =
     renderToast (set_item i (\<lambda>u. u\<lparr>ui_status := Finalizing, ui_progress := Some 100\<rparr>) st)"

fun is_abort_error :: "js_error \<Rightarrow> bool" where
  "is_abort_error (DomException nm m) \<longleftrightarrow> nm = ''AbortError''"
| "is_abort_error _ \<longleftrightarrow> False"

definition upload_finish :: "nat \<Rightarrow> js_error + unit \<Rightarrow> upload_batch \<Rightarrow> upload_batch" where
  "upload_finish i outcome st =
     (case outcome of
        Inr _ \<Rightarrow> set_item i (\<lambda>u. u\<lparr>ui_status := Done, ui_progress := Some 100\<rparr>) st
      | Inl e \<Rightarrow> set_item i (\<lambda>u. u\<lparr>ui_status := (if is_abort_error e then Cancelled else Errored),
                                 ui_error := (if is_abort_error e then None else Some (getErrorMessage e))\<rparr>) st)"

definition upload_key :: "string \<Rightarrow> file_with_path \<Rightarrow> string" where
  "upload_key pathFromUrl f =
     (if pathFromUrl \<noteq> [] then pathFromUrl @ ''/'' @ fp_relativePath f else fp_relativePath f)"

definition oversize_error :: "nat \<Rightarrow> nat \<Rightarrow> string" where
  "oversize_error size_bytes maxFileSize =
     ''File is '' @ formatBytes size_bytes @ '', limit is '' @ formatBytes maxFileSize"

definition upload_oversize :: "nat option \<Rightarrow> file_with_path \<Rightarrow> bool" where
  "upload_oversize maxFileSize f =
     (case maxFileSize of None \<Rightarrow> False | Some mx \<Rightarrow> mx < jf_size (fp_file f))"

definition reject_oversize :: "nat \<Rightarrow> nat \<Rightarrow> nat \<Rightarrow> upload_batch \<Rightarrow> upload_batch" where
  "reject_oversize i size_bytes maxFileSize st =
     renderToast (set_item i (\<lambda>u. u\<lparr>ui_status := Errored,
        ui_error := Some (oversize_error size_bytes maxFileSize)\<rparr>) st)"

definition upload_one ::
  "(nat \<Rightarrow> upload_call list \<times> (js_error + unit)) \<Rightarrow> string \<Rightarrow> nat \<Rightarrow> file_with_path
     \<Rightarrow> upload_batch \<Rightarrow> upload_batch" where
  "upload_one run pathFromUrl i f st =
     (let st = renderToast (set_item i (\<lambda>u. u\<lparr>ui_status := Uploading, ui_progress := Some 0\<rparr>) st);
          st = st\<lparr>ub_requests := ub_requests st @ [(upload_key pathFromUrl f, fp_file f)]\<rparr>;
          st = foldl (upload_callback i) st (fst (run i))
      in renderToast (upload_finish i (snd (run i)) st))"

text \<open>Marking every file from the i-th on as cancelled.\<close>

definition cancel_rest :: "nat \<Rightarrow> upload_batch \<Rightarrow> upload_batch" where
  "cancel_rest i st = st\<lparr>ub_items := take i (ub_items st)
     @ map (\<lambda>u. u\<lparr>ui_status := Cancelled\<rparr>) (drop i (ub_items st))\<rparr>"

definition look_at_signal :: "bool \<Rightarrow> upload_batch \<Rightarrow> upload_batch" where
  "look_at_signal click st = st\<lparr>ub_aborted := ub_aborted st \<or> click\<rparr>"

fun upload_loop ::
  "nat option \<Rightarrow> (nat \<Rightarrow> upload_call list \<times> (js_error + unit)) \<Rightarrow> (nat \<Rightarrow> bool) \<Rightarrow> string \<Rightarrow> nat
     \<Rightarrow> file_with_path list \<Rightarrow> upload_batch \<Rightarrow> upload_batch" where
  "upload_loop maxFileSize run clicked pathFromUrl i [] st = st"
| "upload_loop maxFileSize run clicked pathFromUrl i (f # files) st =
     (if ub_aborted (look_at_signal (clicked i) st) then cancel_rest i (look_at_signal (clicked i) st)
      else upload_loop maxFileSize run clicked pathFromUrl (i + 1) files
        (if upload_oversize maxFileSize f
         then reject_oversize i (jf_size (fp_file f)) (the maxFileSize) (look_at_signal (clicked i) st)
         else upload_one run pathFromUrl i f (look_at_signal (clicked i) st)))"

subsection \<open>The summary\<close>

definition has_status :: "upload_status \<Rightarrow> upload_item list \<Rightarrow> nat" where
  "has_status s items = length (filter (\<lambda>u. ui_status u = s) items)"

definition summary_color :: "upload_item list \<Rightarrow> toast_color" where
  "summary_color items =
     (let allDone = list_all (\<lambda>u. ui_status u = Done) items;
          hasErrors = list_ex (\<lambda>u. ui_status u = Errored) items;
          wasCancelled = list_ex (\<lambda>u. ui_status u = Cancelled) items
      in if allDone then Green else if wasCancelled \<and> \<not> hasErrors then Gray else Yellow)"

definition summary_autoClose :: "upload_item list \<Rightarrow> nat" where
  "summary_autoClose items =
     (if list_all (\<lambda>u. ui_status u = Done) items then duration_success else duration_error)"

record upload_outcome =
  uo_batch :: upload_batch
  uo_invalidated :: "query_key list"
  uo_color :: toast_color
  uo_autoClose :: nat

definition handleUpload ::
  "nat option \<Rightarrow> (nat \<Rightarrow> upload_call list \<times> (js_error + unit)) \<Rightarrow> (nat \<Rightarrow> bool) \<Rightarrow> string \<Rightarrow> string
     \<Rightarrow> string \<Rightarrow> file_with_path list \<Rightarrow> upload_outcome" where
  "handleUpload maxFileSize run clicked bucket roleId pathFromUrl files =
     (let st = upload_loop maxFileSize run clicked pathFromUrl 0 files
                 \<lparr>ub_items = initial_items files, ub_aborted = False, ub_requests = [],
                  ub_shown = [initial_items files]\<rparr>;
          items = ub_items st
      in \<lparr>uo_batch = st,
          uo_invalidated = (if list_ex (\<lambda>u. ui_status u = Done) items
                            then folder_invalidation bucket roleId pathFromUrl else []),
          uo_color = summary_color items, uo_autoClose = summary_autoClose items\<rparr>)"

text \<open>The progress view.  The bar is the exact fraction \<open>num / den\<close> percent.\<close>

record progress_view =
  pv_headline :: string
  pv_counter :: "string option"
  pv_bar_num :: nat
  pv_bar_den :: nat
  pv_dismiss :: bool
  pv_animated :: bool
  pv_caption :: "string option"
  pv_percent :: "nat option"

definition ellipsis :: string where
  "ellipsis = [CHR 0xE2, CHR 0x80, CHR 0xA6]"

definition files_word :: "nat \<Rightarrow> string" where
  "files_word n = (if n = 1 then ''file'' else ''files'')"

definition active_percent :: "upload_item option \<Rightarrow> nat" where
  "active_percent active =
     (case active of None \<Rightarrow> 0
      | Some u \<Rightarrow> if ui_status u = Finalizing then 100
                  else (case ui_progress u of None \<Rightarrow> 0 | Some p \<Rightarrow> p))"

definition uploadProgress :: "upload_item list \<Rightarrow> progress_view" where
  "uploadProgress items =
     (let totalFiles = length items;
          errors = has_status Errored items;
          settled = has_status Done items + errors + has_status Cancelled items;
          active = find (\<lambda>u. ui_status u = Uploading \<or> ui_status u = Finalizing) items;
          isFinalizing = (case active of None \<Rightarrow> False | Some u \<Rightarrow> ui_status u = Finalizing);
          isSingle = (totalFiles = 1)
      in \<lparr>pv_headline = ''Uploading '' @ nat_str totalFiles @ '' '' @ files_word totalFiles,
          pv_counter = (if isSingle then None
             else Some (nat_str settled @ ''/'' @ nat_str totalFiles @ '' ''
                  @ (if 0 < errors then ''('' @ nat_str errors @ '' failed)'' else []))),
          pv_bar_num = (if totalFiles = 0 then 0 else 100 * settled + active_percent active),
          pv_bar_den = (if totalFiles = 0 then 1 else totalFiles),
          pv_dismiss = (isFinalizing \<and> isSingle), pv_animated = isFinalizing,
          pv_caption = (case active of None \<Rightarrow> None
             | Some u \<Rightarrow> Some (if isSingle
                 then (if isFinalizing then ''Finalizing on server'' @ ellipsis else ui_name u)
                 else (if isFinalizing then ''Finalizing '' @ ui_name u @ '' on server'' @ ellipsis else ui_name u))),
          pv_percent = (if active \<noteq> None \<and> isSingle \<and> \<not> isFinalizing
                        then Some (active_percent active) else None)\<rparr>)"

text \<open>The summary view: headline, and the failed files when there are some (listed at once up to
  three, behind a toggle otherwise).\<close>

record summary_view =
  sv_headline :: string
  sv_failed :: "(string \<times> string option) list"
  sv_initially_expanded :: bool

definition em :: string where
  "em = '' '' @ em_dash @ '' ''"

definition uploadSummary :: "upload_item list \<Rightarrow> summary_view" where
  "uploadSummary items =
     (let totalFiles = length items; done_n = has_status Done items;
          failed = filter (\<lambda>u. ui_status u = Errored) items;
          cancelled = has_status Cancelled items
      in if failed = [] \<and> cancelled = 0 then
           \<lparr>sv_headline = ''Uploaded '' @ nat_str totalFiles @ '' '' @ files_word totalFiles,
            sv_failed = [], sv_initially_expanded = True\<rparr>
         else if failed = [] then
           \<lparr>sv_headline = ''Upload cancelled'' @ em @ nat_str done_n @ '' of '' @ nat_str totalFiles
              @ '' files uploaded'', sv_failed = [], sv_initially_expanded = True\<rparr>
         else
           \<lparr>sv_headline = nat_str done_n @ ''/'' @ nat_str totalFiles @ '' files uploaded'' @ em
              @ nat_str (length failed) @ '' failed''
              @ (if 0 < cancelled then '', '' @ nat_str cancelled @ '' cancelled'' else []),
            sv_failed = map (\<lambda>u. (ui_name u, ui_error u)) failed,
            sv_initially_expanded = (length failed \<le> 3)\<rparr>)"

subsection \<open>One iteration\<close>

lemma set_item_other [simp]: "j \<noteq> i \<Longrightarrow> ub_items (set_item i f st) ! j = ub_items st ! j"
  by (simp add: set_item_def)

lemma set_item_same [simp]:
  "i < length (ub_items st) \<Longrightarrow> ub_items (set_item i f st) ! i = f (ub_items st ! i)"
  by (simp add: set_item_def)

lemma set_item_frame [simp]:
  "length (ub_items (set_item i f st)) = length (ub_items st)"
  "ub_aborted (set_item i f st) = ub_aborted st" "ub_requests (set_item i f st) = ub_requests st"
  "ub_shown (set_item i f st) = ub_shown st"
  by (simp_all add: set_item_def)

lemma renderToast_frame [simp]:
  "ub_items (renderToast st) = ub_items st" "ub_aborted (renderToast st) = ub_aborted st"
  "ub_requests (renderToast st) = ub_requests st"
  "ub_shown (renderToast st) = ub_shown st @ [ub_items st]"
  by (simp_all add: renderToast_def)

text \<open>What a step on the i-th file leaves alone.\<close>

definition item_frame :: "nat \<Rightarrow> upload_batch \<Rightarrow> upload_batch \<Rightarrow> bool" where
  "item_frame i st st' \<longleftrightarrow>
     length (ub_items st') = length (ub_items st) \<and> ub_aborted st' = ub_aborted st
     \<and> (\<forall>j. j \<noteq> i \<longrightarrow> ub_items st' ! j = ub_items st ! j)
     \<and> ui_name (ub_items st' ! i) = ui_name (ub_items st ! i)"

lemma item_frame_refl: "item_frame i st st"
  by (simp add: item_frame_def)

lemma item_frame_trans: "item_frame i a b \<Longrightarrow> item_frame i b c \<Longrightarrow> item_frame i a c"
  by (simp add: item_frame_def)

lemma callback_frame:
  "i < length (ub_items st) \<Longrightarrow> item_frame i st (upload_callback i st c)
     \<and> ub_requests (upload_callback i st c) = ub_requests st
     \<and> (active_status (ui_status (ub_items st ! i)) \<longrightarrow>
          active_status (ui_status (ub_items (upload_callback i st c) ! i)))"
  by (cases c) (auto simp: item_frame_def active_status_def)

lemma callbacks_frame:
  "i < length (ub_items st) \<Longrightarrow> item_frame i st (foldl (upload_callback i) st cs)
     \<and> ub_requests (foldl (upload_callback i) st cs) = ub_requests st"
proof (induction cs arbitrary: st)
  case Nil
  then show ?case by (simp add: item_frame_refl)
next
  case (Cons c cs)
  from callback_frame [OF Cons.prems, of c]
  have c: "item_frame i st (upload_callback i st c)" "ub_requests (upload_callback i st c) = ub_requests st"
    by auto
  with Cons.prems have "i < length (ub_items (upload_callback i st c))" by (simp add: item_frame_def)
  from Cons.IH [OF this] c show ?case using item_frame_trans by auto
qed

lemma upload_one_post:
  assumes "i < length (ub_items st)"
  shows "item_frame i st (upload_one run path i f st)
    \<and> ub_requests (upload_one run path i f st) = ub_requests st @ [(upload_key path f, fp_file f)]
    \<and> ui_status (ub_items (upload_one run path i f st) ! i)
        = (case snd (run i) of Inr _ \<Rightarrow> Done | Inl e \<Rightarrow> if is_abort_error e then Cancelled else Errored)
    \<and> (\<forall>e. snd (run i) = Inl e \<and> \<not> is_abort_error e \<longrightarrow>
         ui_error (ub_items (upload_one run path i f st) ! i) = Some (getErrorMessage e))"
proof -
  let ?a = "renderToast (set_item i (\<lambda>u. u\<lparr>ui_status := Uploading, ui_progress := Some 0\<rparr>) st)"
  let ?b = "?a\<lparr>ub_requests := ub_requests ?a @ [(upload_key path f, fp_file f)]\<rparr>"
  let ?c = "foldl (upload_callback i) ?b (fst (run i))"
  have b: "i < length (ub_items ?b)" using assms by simp
  from callbacks_frame [OF b, of "fst (run i)"] assms
  have c: "item_frame i st ?c" "ub_requests ?c = ub_requests st @ [(upload_key path f, fp_file f)]"
    by (auto simp: item_frame_def)
  then have "i < length (ub_items ?c)" using assms by (simp add: item_frame_def)
  then have fin: "item_frame i ?c (renderToast (upload_finish i (snd (run i)) ?c))"
    "ub_requests (renderToast (upload_finish i (snd (run i)) ?c)) = ub_requests ?c"
    "ui_status (ub_items (renderToast (upload_finish i (snd (run i)) ?c)) ! i)
      = (case snd (run i) of Inr _ \<Rightarrow> Done | Inl e \<Rightarrow> if is_abort_error e then Cancelled else Errored)"
    "\<forall>e. snd (run i) = Inl e \<and> \<not> is_abort_error e \<longrightarrow>
         ui_error (ub_items (renderToast (upload_finish i (snd (run i)) ?c)) ! i) = Some (getErrorMessage e)"
    by (auto simp: upload_finish_def item_frame_def split: sum.splits)
  have one: "upload_one run path i f st = renderToast (upload_finish i (snd (run i)) ?c)"
    by (simp add: upload_one_def Let_def)
  show ?thesis unfolding one using c fin item_frame_trans [OF c(1) fin(1)] by simp
qed

lemma reject_oversize_post:
  assumes "i < length (ub_items st)"
  shows "item_frame i st (reject_oversize i sz mx st)
    \<and> ub_requests (reject_oversize i sz mx st) = ub_requests st
    \<and> ui_status (ub_items (reject_oversize i sz mx st) ! i) = Errored
    \<and> ui_error (ub_items (reject_oversize i sz mx st) ! i) = Some (oversize_error sz mx)"
  using assms by (auto simp: reject_oversize_def item_frame_def)

lemma look_frame [simp]:
  "ub_items (look_at_signal c st) = ub_items st" "ub_requests (look_at_signal c st) = ub_requests st"
  by (simp_all add: look_at_signal_def)

subsection \<open>The whole loop\<close>

text \<open>What becomes of the i-th file when the loop reaches it.\<close>

definition file_status ::
  "nat option \<Rightarrow> (nat \<Rightarrow> upload_call list \<times> (js_error + unit)) \<Rightarrow> nat \<Rightarrow> file_with_path \<Rightarrow> upload_status"
where
  "file_status mx run i f =
     (if upload_oversize mx f then Errored
      else case snd (run i) of Inr _ \<Rightarrow> Done | Inl e \<Rightarrow> if is_abort_error e then Cancelled else Errored)"

definition file_error ::
  "nat option \<Rightarrow> (nat \<Rightarrow> upload_call list \<times> (js_error + unit)) \<Rightarrow> nat \<Rightarrow> file_with_path \<Rightarrow> string" where
  "file_error mx run i f =
     (if upload_oversize mx f then oversize_error (jf_size (fp_file f)) (the mx)
      else case snd (run i) of Inr _ \<Rightarrow> [] | Inl e \<Rightarrow> getErrorMessage e)"

definition loop_step ::
  "nat option \<Rightarrow> (nat \<Rightarrow> upload_call list \<times> (js_error + unit)) \<Rightarrow> string \<Rightarrow> nat \<Rightarrow> file_with_path
     \<Rightarrow> upload_batch \<Rightarrow> upload_batch" where
  "loop_step mx run path i f st =
     (if upload_oversize mx f then reject_oversize i (jf_size (fp_file f)) (the mx) st
      else upload_one run path i f st)"

lemma loop_step_post:
  assumes "i < length (ub_items st)"
  shows "item_frame i st (loop_step mx run path i f st)
    \<and> ub_requests (loop_step mx run path i f st) = ub_requests st
        @ (if upload_oversize mx f then [] else [(upload_key path f, fp_file f)])
    \<and> ui_status (ub_items (loop_step mx run path i f st) ! i) = file_status mx run i f
    \<and> (file_status mx run i f = Errored \<longrightarrow>
         ui_error (ub_items (loop_step mx run path i f st) ! i) = Some (file_error mx run i f))"
  using upload_one_post [OF assms, of run path f]
    reject_oversize_post [OF assms, of "jf_size (fp_file f)" "the mx"]
  by (auto simp: loop_step_def file_status_def file_error_def split: sum.splits if_splits)

definition batch_post ::
  "nat option \<Rightarrow> (nat \<Rightarrow> upload_call list \<times> (js_error + unit)) \<Rightarrow> string \<Rightarrow> nat \<Rightarrow> file_with_path list
     \<Rightarrow> upload_batch \<Rightarrow> upload_batch \<Rightarrow> nat \<Rightarrow> bool" where
  "batch_post mx run path i files st st' k \<longleftrightarrow>
     k \<le> length files \<and> length (ub_items st') = length (ub_items st)
     \<and> (\<forall>j<i. ub_items st' ! j = ub_items st ! j)
     \<and> (\<forall>j<length (ub_items st). ui_name (ub_items st' ! j) = ui_name (ub_items st ! j))
     \<and> (\<forall>j<k. ui_status (ub_items st' ! (i + j)) = file_status mx run (i + j) (files ! j)
          \<and> (file_status mx run (i + j) (files ! j) = Errored \<longrightarrow>
               ui_error (ub_items st' ! (i + j)) = Some (file_error mx run (i + j) (files ! j))))
     \<and> (\<forall>j. k \<le> j \<and> j < length files \<longrightarrow> ui_status (ub_items st' ! (i + j)) = Cancelled)
     \<and> ub_requests st' = ub_requests st
          @ map (\<lambda>f. (upload_key path f, fp_file f)) (filter (\<lambda>f. \<not> upload_oversize mx f) (take k files))
     \<and> (k < length files \<longrightarrow> ub_aborted st')"

lemma batch_post_cancel:
  assumes "length (ub_items st) = i + length files" and "ub_aborted st"
  shows "batch_post mx run path i files st (cancel_rest i st) 0"
  using assms by (auto simp: batch_post_def cancel_rest_def nth_append)

lemma batch_post_Cons:
  assumes len: "length (ub_items st) = i + length (f # files)"
    and step: "st1 = loop_step mx run path i f (look_at_signal c st)"
    and rest: "batch_post mx run path (i + 1) files st1 st' k"
  shows "batch_post mx run path i (f # files) st st' (Suc k)"
proof -
  have i: "i < length (ub_items (look_at_signal c st))" using len by simp
  note post = loop_step_post [OF i, of mx run path f, folded step]
  have frame: "length (ub_items st1) = length (ub_items st)" "\<forall>j. j \<noteq> i \<longrightarrow> ub_items st1 ! j = ub_items st ! j"
    "ui_name (ub_items st1 ! i) = ui_name (ub_items st ! i)"
    using post by (auto simp: item_frame_def)
  have at_i: "ub_items st' ! i = ub_items st1 ! i" using rest by (simp add: batch_post_def)
  have names: "ui_name (ub_items st' ! j) = ui_name (ub_items st ! j)" if "j < length (ub_items st)" for j
    using that rest frame by (cases "j = i") (auto simp: batch_post_def)
  have done_items: "ui_status (ub_items st' ! (i + j)) = file_status mx run (i + j) ((f # files) ! j)
      \<and> (file_status mx run (i + j) ((f # files) ! j) = Errored \<longrightarrow>
           ui_error (ub_items st' ! (i + j)) = Some (file_error mx run (i + j) ((f # files) ! j)))"
    if "j < Suc k" for j
  proof (cases j)
    case 0
    with post at_i show ?thesis by simp
  next
    case (Suc j')
    with that have "j' < k" by simp
    with rest have "ui_status (ub_items st' ! (i + 1 + j')) = file_status mx run (i + 1 + j') (files ! j')
        \<and> (file_status mx run (i + 1 + j') (files ! j') = Errored \<longrightarrow>
             ui_error (ub_items st' ! (i + 1 + j')) = Some (file_error mx run (i + 1 + j') (files ! j')))"
      unfolding batch_post_def by blast
    with Suc show ?thesis by simp
  qed
  have cancelled: "ui_status (ub_items st' ! (i + j)) = Cancelled" if "Suc k \<le> j" "j < length (f # files)" for j
  proof -
    from that obtain j' where j': "j = Suc j'" "k \<le> j'" "j' < length files" by (cases j) auto
    with rest have "ui_status (ub_items st' ! (i + 1 + j')) = Cancelled" unfolding batch_post_def by blast
    with j' show ?thesis by simp
  qed
  have "\<forall>j<i. ub_items st' ! j = ub_items st ! j" using rest frame by (auto simp: batch_post_def)
  moreover have "ub_requests st' = ub_requests st
      @ map (\<lambda>f. (upload_key path f, fp_file f)) (filter (\<lambda>f. \<not> upload_oversize mx f) (take (Suc k) (f # files)))"
    using rest post by (auto simp: batch_post_def)
  moreover have "Suc k \<le> length (f # files)" "length (ub_items st') = length (ub_items st)"
    "Suc k < length (f # files) \<longrightarrow> ub_aborted st'"
    using rest frame by (auto simp: batch_post_def)
  ultimately show ?thesis using names done_items cancelled unfolding batch_post_def by blast
qed

lemma upload_loop_post:
  assumes "length (ub_items st) = i + length files"
  shows "\<exists>k. batch_post mx run path i files st (upload_loop mx run clicked path i files st) k"
  using assms
proof (induction files arbitrary: i st)
  case Nil
  then show ?case by (intro exI [of _ 0]) (simp add: batch_post_def)
next
  case (Cons f files)
  let ?l = "look_at_signal (clicked i) st"
  show ?case
  proof (cases "ub_aborted ?l")
    case True
    with Cons.prems have "batch_post mx run path i (f # files) ?l (cancel_rest i ?l) 0"
      by (intro batch_post_cancel) simp_all
    with True show ?thesis by (intro exI [of _ 0]) (simp add: batch_post_def)
  next
    case False
    let ?s = "loop_step mx run path i f ?l"
    have i: "i < length (ub_items ?l)" using Cons.prems by simp
    have "length (ub_items ?s) = i + 1 + length files"
      using loop_step_post [OF i, of mx run path f] Cons.prems by (simp add: item_frame_def)
    from Cons.IH [OF this] obtain k
      where "batch_post mx run path (i + 1) files ?s (upload_loop mx run clicked path (i + 1) files ?s) k" ..
    from batch_post_Cons [OF Cons.prems refl this]
    have "batch_post mx run path i (f # files) st (upload_loop mx run clicked path (i + 1) files ?s) (Suc k)" .
    with False show ?thesis
      by (intro exI [of _ "Suc k"]) (simp add: loop_step_def split del: if_split)
  qed
qed

lemma handleUpload_post:
  "\<exists>k. batch_post mx run path 0 files
      \<lparr>ub_items = initial_items files, ub_aborted = False, ub_requests = [], ub_shown = [initial_items files]\<rparr>
      (uo_batch (handleUpload mx run clicked bucket roleId path files)) k"
  unfolding handleUpload_def Let_def
  by (simp, rule upload_loop_post) (simp add: initial_items_def)

subsection \<open>Properties\<close>

text \<open>C11: when a batch ends no file is left pending: there is a point k of the batch (the whole of it
  unless the user cancelled) before which every file has the outcome of its own upload, or the
  size error when it exceeds the limit, and from which on every file is cancelled; the requests
  sent are exactly those of the files before k that are within the limit, in order, each under the
  current folder.\<close>

theorem upload_batch_outcome:
  "\<exists>k\<le>length files.
    let r = handleUpload maxFileSize run clicked bucket roleId pathFromUrl files;
        items = ub_items (uo_batch r) in
      length items = length files
    \<and> map ui_name items = map (\<lambda>f. jf_name (fp_file f)) files
    \<and> map ui_status items
        = map (\<lambda>i. file_status maxFileSize run i (files ! i)) [0..<k] @ replicate (length files - k) Cancelled
    \<and> ub_requests (uo_batch r) = map (\<lambda>f. (upload_key pathFromUrl f, fp_file f))
        (filter (\<lambda>f. \<not> upload_oversize maxFileSize f) (take k files))
    \<and> (k = length files \<or> ub_aborted (uo_batch r))"
proof -
  let ?r = "handleUpload maxFileSize run clicked bucket roleId pathFromUrl files"
  let ?items = "ub_items (uo_batch ?r)"
  from handleUpload_post obtain k where post: "batch_post maxFileSize run pathFromUrl 0 files
      \<lparr>ub_items = initial_items files, ub_aborted = False, ub_requests = [], ub_shown = [initial_items files]\<rparr>
      (uo_batch ?r) k" by blast
  then have k: "k \<le> length files" and len: "length ?items = length files"
    by (simp_all add: batch_post_def initial_items_def)
  have "map ui_name ?items = map (\<lambda>f. jf_name (fp_file f)) files"
    using post by (intro nth_equalityI) (simp_all add: batch_post_def initial_items_def)
  moreover have "map ui_status ?items
      = map (\<lambda>i. file_status maxFileSize run i (files ! i)) [0..<k] @ replicate (length files - k) Cancelled"
  proof (rule nth_equalityI)
    show "length (map ui_status ?items)
        = length (map (\<lambda>i. file_status maxFileSize run i (files ! i)) [0..<k] @ replicate (length files - k) Cancelled)"
      using k len by simp
    show "map ui_status ?items ! i
        = (map (\<lambda>i. file_status maxFileSize run i (files ! i)) [0..<k] @ replicate (length files - k) Cancelled) ! i"
      if "i < length (map ui_status ?items)" for i
      using that post len by (auto simp: batch_post_def nth_append)
  qed
  ultimately show ?thesis using post k len by (intro exI [of _ k]) (auto simp: batch_post_def)
qed

lemma item_status_range:
  assumes "i < length files"
  shows "terminal_status (ui_status (ub_items (uo_batch (handleUpload mx run clicked bucket roleId path files)) ! i))"
proof -
  from handleUpload_post obtain k where post: "batch_post mx run path 0 files
      \<lparr>ub_items = initial_items files, ub_aborted = False, ub_requests = [], ub_shown = [initial_items files]\<rparr>
      (uo_batch (handleUpload mx run clicked bucket roleId path files)) k" by blast
  with assms show ?thesis
    by (cases "i < k")
      (auto simp: batch_post_def terminal_status_def file_status_def not_less split: sum.splits if_splits)
qed

text \<open>the summary agrees with what happened: the listing is refreshed exactly when some file
  arrived, the toast is green exactly when all did, and the counts of its headline add up to the
  number of files.\<close>

theorem upload_summary_counts:
  "let r = handleUpload maxFileSize run clicked bucket roleId pathFromUrl files;
       items = ub_items (uo_batch r) in
     has_status Done items + has_status Errored items + has_status Cancelled items = length files
   \<and> (uo_color r = Green) = (has_status Done items = length files)
   \<and> (uo_invalidated r \<noteq> []) = (0 < has_status Done items)
   \<and> (uo_autoClose r = duration_success) = (uo_color r = Green)"
proof -
  let ?r = "handleUpload maxFileSize run clicked bucket roleId pathFromUrl files"
  let ?items = "ub_items (uo_batch ?r)"
  from handleUpload_post have len: "length ?items = length files"
    by (fastforce simp: batch_post_def initial_items_def)
  have ended: "\<forall>u\<in>set ?items. terminal_status (ui_status u)"
    using item_status_range len by (metis in_set_conv_nth)
  have count: "has_status Done us + has_status Errored us + has_status Cancelled us = length us"
    if "\<forall>u\<in>set us. terminal_status (ui_status u)" for us
    using that by (induction us) (auto simp: has_status_def terminal_status_def)
  have all: "list_all (\<lambda>u. ui_status u = Done) us \<longleftrightarrow> has_status Done us = length us" for us
  proof (induction us)
    case (Cons u us)
    have "length (filter (\<lambda>u. ui_status u = Done) us) \<noteq> Suc (length us)"
      using length_filter_le [of "\<lambda>u. ui_status u = Done" us] by linarith
    with Cons show ?case by (auto simp: has_status_def)
  qed (simp add: has_status_def)
  have some: "list_ex (\<lambda>u. ui_status u = Done) us \<longleftrightarrow> 0 < has_status Done us" for us
    by (auto simp: has_status_def list_ex_iff filter_empty_conv)
  have parts: "uo_color ?r = summary_color ?items" "uo_autoClose ?r = summary_autoClose ?items"
    "uo_invalidated ?r = (if list_ex (\<lambda>u. ui_status u = Done) ?items
        then folder_invalidation bucket roleId pathFromUrl else [])"
    by (simp_all add: handleUpload_def Let_def)
  have color: "(uo_color ?r = Green) = (has_status Done ?items = length ?items)"
    unfolding parts summary_color_def Let_def all [symmetric] by simp
  have "(uo_invalidated ?r \<noteq> []) = (0 < has_status Done ?items)"
    unfolding parts some [symmetric] by (simp add: folder_invalidation_def)
  moreover have "(uo_autoClose ?r = duration_success) = (uo_color ?r = Green)"
    unfolding color unfolding parts summary_autoClose_def all [symmetric] by (simp add: TOAST_DURATIONS_defs)
  ultimately show ?thesis
    unfolding Let_def using count [OF ended] color len by simp
qed

text \<open>a file over the limit is never sent, whatever else happens in the batch.\<close>

theorem oversize_never_sent:
  assumes "(key, file_sent) \<in> set (ub_requests (uo_batch (handleUpload (Some mx) run clicked bucket roleId pathFromUrl files)))"
  shows "jf_size file_sent \<le> mx \<and> (\<exists>f\<in>set files. key = upload_key pathFromUrl f \<and> file_sent = fp_file f)"
proof -
  from handleUpload_post obtain k where "batch_post (Some mx) run pathFromUrl 0 files
      \<lparr>ub_items = initial_items files, ub_aborted = False, ub_requests = [], ub_shown = [initial_items files]\<rparr>
      (uo_batch (handleUpload (Some mx) run clicked bucket roleId pathFromUrl files)) k" by blast
  with assms show ?thesis
    by (auto simp: batch_post_def upload_oversize_def dest: in_set_takeD)
qed

theorem oversize_never_sent_witness:
  "jf_size (text_file ''a'') \<le> 5"
  using oversize_never_sent [of "''p/a''" "text_file ''a''" 5 "\<lambda>i. ([], Inr ())" "\<lambda>i. False" "''b''" "''r''" "''p''"
      "[\<lparr>fp_file = text_file ''a'', fp_relativePath = ''a''\<rparr>]"]
  by (simp add: handleUpload_def Let_def upload_oversize_def text_file_def look_at_signal_def upload_one_def
      upload_key_def upload_finish_def set_item_def renderToast_def initial_items_def)

text \<open>The progress bar stays within 0 and 100 percent while the browser's percentages do.\<close>

lemma find_active_not_counted:
  assumes "find (\<lambda>u. ui_status u = Uploading \<or> ui_status u = Finalizing) us = Some a"
  shows "has_status Done us + has_status Errored us + has_status Cancelled us < length us"
  using assms
proof (induction us)
  case (Cons u us)
  have le: "has_status Done us + has_status Errored us + has_status Cancelled us \<le> length us"
    by (induction us) (auto simp: has_status_def)
  show ?case
  proof (cases "ui_status u = Uploading \<or> ui_status u = Finalizing")
    case True
    with le show ?thesis by (auto simp: has_status_def)
  next
    case False
    with Cons show ?thesis by (cases "ui_status u") (auto simp: has_status_def)
  qed
qed simp

text \<open>the batch bar never leaves 0..100 percent as long as the percentages of the single uploads
  do not, and for a batch of one file in transfer it is that file's own percentage.\<close>

theorem progress_bar_bounds:
  assumes "\<And>u p. u \<in> set items \<Longrightarrow> ui_progress u = Some p \<Longrightarrow> p \<le> 100"
  shows "pv_bar_num (uploadProgress items) \<le> 100 * pv_bar_den (uploadProgress items)
    \<and> (\<forall>u. items = [u] \<and> ui_status u = Uploading \<longrightarrow>
         pv_bar_num (uploadProgress items) = active_percent (Some u) \<and> pv_bar_den (uploadProgress items) = 1)"
proof -
  let ?act = "find (\<lambda>u. ui_status u = Uploading \<or> ui_status u = Finalizing) items"
  let ?set = "has_status Done items + has_status Errored items + has_status Cancelled items"
  have le: "has_status Done us + has_status Errored us + has_status Cancelled us \<le> length us" for us
    by (induction us) (auto simp: has_status_def)
  have "100 * ?set + active_percent ?act \<le> 100 * length items"
  proof (cases ?act)
    case None
    then show ?thesis using le [of items] by (simp add: active_percent_def)
  next
    case (Some a)
    then have "a \<in> set items" using find_Some_in_set by fast
    then have "active_percent (Some a) \<le> 100"
      using assms by (auto simp: active_percent_def split: option.splits)
    with Some find_active_not_counted [OF Some] show ?thesis by simp
  qed
  then show ?thesis by (auto simp: uploadProgress_def Let_def has_status_def)
qed

theorem progress_bar_bounds_witness:
  "pv_bar_num (uploadProgress [\<lparr>ui_name = ''a'', ui_status = Uploading, ui_error = None, ui_progress = Some 40\<rparr>]) = 40"
  using progress_bar_bounds [of "[\<lparr>ui_name = ''a'', ui_status = Uploading, ui_error = None, ui_progress = Some 40\<rparr>]"]
  by (simp add: active_percent_def)

end
