(* ===== verification/Transfers.thy ===== *)
theory Transfers
  imports Path_Utils Files_Api Toast Format
begin

text \<open>
  Getting objects out of the browser: \<open>handleDownload\<close>, \<open>handleCopyUrl\<close>,
  \<open>handleBulkCopyUrl\<close> and \<open>handlePreview\<close> of
  \<open>components/FileBrowser/FileBrowser.tsx\<close>.

  \<open>presign\<close> is the outcome of the presigned-URL request of a path, \<open>clipboard\<close> that of
  writing a text to the clipboard, \<open>time_of_day\<close> the clock format of the locale.
\<close>

subsection \<open>The filename of a Content-Disposition header\<close>

text \<open>One match of \<open>/filename(\*?)=(?:UTF-8'')?"?([^";]+)"?/i\<close> at the front of a text: whether
  the star is there, the captured value, and the text after the match.\<close>

definition lower_ascii :: "char \<Rightarrow> char" where
  "lower_ascii c = (let n = of_char c :: nat in if 65 \<le> n \<and> n \<le> 90 then char_of (n + 32) else c)"

definition starts_with_i :: "string \<Rightarrow> string \<Rightarrow> bool" where
  "starts_with_i s p = (map lower_ascii (take (length p) s) = p)"

definition value_char :: "char \<Rightarrow> bool" where
  "value_char c \<longleftrightarrow> c \<noteq> CHR 0x22 \<and> c \<noteq> CHR '';''"

definition drop_quote :: "string \<Rightarrow> string" where
  "drop_quote s = (case s of [] \<Rightarrow> [] | c # r \<Rightarrow> if c = CHR 0x22 then r else s)"

definition match_value :: "string \<Rightarrow> (string \<times> string) option" where
  "match_value s =
     (let v = takeWhile value_char (drop_quote s)
      in if v = [] then None else Some (v, drop_quote (dropWhile value_char (drop_quote s))))"

definition utf8_prefix :: string where
  "utf8_prefix = ''utf-8'' @ [CHR 0x27, CHR 0x27]"

definition match_body :: "string \<Rightarrow> (string \<times> string) option" where
  "match_body s =
     (case (if starts_with_i s utf8_prefix then match_value (drop 7 s) else None) of
        Some r \<Rightarrow> Some r
      | None \<Rightarrow> match_value s)"

definition match_filename :: "string \<Rightarrow> (bool \<times> string \<times> string) option" where
  "match_filename s =
     (if \<not> starts_with_i s ''filename'' then None
      else (case drop 8 s of
              c # d # r \<Rightarrow>
                if c = CHR ''*'' \<and> d = CHR ''='' then map_option (Pair True) (match_body r)
                else if c = CHR ''='' then map_option (Pair False) (match_body (d # r))
                else None
            | _ \<Rightarrow> None))"

lemma lower_ascii_simps [simp]:
  "lower_ascii CHR ''U'' = CHR ''u''" "lower_ascii CHR ''T'' = CHR ''t''" "lower_ascii CHR ''F'' = CHR ''f''"
  "lower_ascii CHR ''-'' = CHR ''-''" "lower_ascii CHR ''8'' = CHR ''8''" "lower_ascii CHR 0x27 = CHR 0x27"
  "lower_ascii CHR ''f'' = CHR ''f''" "lower_ascii CHR ''i'' = CHR ''i''" "lower_ascii CHR ''l'' = CHR ''l''"
  "lower_ascii CHR ''e'' = CHR ''e''" "lower_ascii CHR ''n'' = CHR ''n''" "lower_ascii CHR ''a'' = CHR ''a''"
  "lower_ascii CHR ''m'' = CHR ''m''" "lower_ascii CHR ''t'' = CHR ''t''" "lower_ascii CHR ''c'' = CHR ''c''"
  "lower_ascii CHR ''h'' = CHR ''h''" "lower_ascii CHR '';'' = CHR '';''" "lower_ascii CHR '' '' = CHR '' ''"
  "lower_ascii CHR 0x22 = CHR 0x22"
  by code_simp+

lemma match_value_shorter: "match_value s = Some (v, r) \<Longrightarrow> length r \<le> length s"
proof -
  have dq: "length (drop_quote t) \<le> length t" for t by (cases t) (auto simp: drop_quote_def)
  assume "match_value s = Some (v, r)"
  then have "r = drop_quote (dropWhile value_char (drop_quote s))"
    by (auto simp: match_value_def Let_def split: if_splits)
  then show ?thesis using dq [of s] dq length_dropWhile_le [of value_char "drop_quote s"]
    by (metis le_trans)
qed

lemma match_body_shorter: "match_body s = Some (v, r) \<Longrightarrow> length r \<le> length s"
  using match_value_shorter [of "drop 7 s" v r] match_value_shorter [of s v r]
  by (auto simp: match_body_def split: option.splits if_splits)

lemma match_filename_shorter: "match_filename s = Some (b, v, r) \<Longrightarrow> length r < length s"
proof -
  assume m: "match_filename s = Some (b, v, r)"
  then obtain c d t where cd: "drop 8 s = c # d # t"
    by (auto simp: match_filename_def split: if_splits list.splits)
  then have len: "length t + 2 \<le> length s" by (metis length_Cons length_drop diff_le_self add_2_eq_Suc')
  from m cd consider "match_body t = Some (v, r)" | "match_body (d # t) = Some (v, r)"
    by (auto simp: match_filename_def split: if_splits)
  then show ?thesis
    using len match_body_shorter [of t v r] match_body_shorter [of "d # t" v r] by cases auto
qed

text \<open>\<open>matchAll\<close>: the matches from left to right, not overlapping.\<close>

function all_matches :: "string \<Rightarrow> (bool \<times> string) list" where
  "all_matches s =
     (case s of [] \<Rightarrow> []
      | c # cs \<Rightarrow>
          (case match_filename s of
             Some (star, v, r) \<Rightarrow> (star, v) # all_matches r
           | None \<Rightarrow> all_matches cs))"
  by auto
termination by (relation "measure length") (auto dest: match_filename_shorter)

declare all_matches.simps [simp del]

definition raw_filename :: "string \<Rightarrow> string option" where
  "raw_filename disposition =
     (let matches = all_matches disposition;
          starred = find (\<lambda>m. fst m) matches;
          plain = find (\<lambda>m. \<not> fst m) matches
      in case starred of Some m \<Rightarrow> Some (snd m) | None \<Rightarrow> map_option snd plain)"

definition download_filename :: "string option \<Rightarrow> string \<Rightarrow> uri_error + string" where
  "download_filename disposition name =
     (case raw_filename (case disposition of None \<Rightarrow> [] | Some d \<Rightarrow> d) of
        Some raw \<Rightarrow> if raw \<noteq> [] then decodeURIComponent raw else Inr name
      | None \<Rightarrow> Inr name)"

subsection \<open>handleDownload\<close>

record download_response =
  dl_status :: nat
  dl_statusText :: string
  dl_json :: "json option"
  dl_disposition :: "string option"

datatype download_outcome = SavedAs string | DownloadToast toast

definition uri_js_error :: js_error where
  "uri_js_error = PlainError ''URI malformed''"

definition handleDownload ::
  "(string \<Rightarrow> js_error + download_response) \<Rightarrow> string \<Rightarrow> string \<Rightarrow> string \<Rightarrow> string \<Rightarrow> download_outcome"
where
  "handleDownload fetch bucket roleId pathFromUrl name =
     (let url = buildDownloadUrl bucket roleId (joinPath [pathFromUrl, name]);
          res = and_then (fetch url) (\<lambda>response.
                  if \<not> (200 \<le> dl_status response \<and> dl_status response < 300) then
                    Inl (ApiError (dl_status response) (dl_statusText response) (dl_json response))
                  else (case download_filename (dl_disposition response) name of
                          Inl _ \<Rightarrow> Inl uri_js_error
                        | Inr f \<Rightarrow> Inr f))
      in case res of
           Inr f \<Rightarrow> SavedAs f
         | Inl e \<Rightarrow> DownloadToast (toast_of Red (Some ''Download failed'') (getErrorMessage e) duration_error))"

subsection \<open>Copying presigned URLs\<close>

text \<open>A handler's effects: the text written to the clipboard, if any, and the toast.\<close>

record copy_outcome =
  cp_clipboard :: "string option"
  cp_toast :: toast

definition nonempty :: "string option \<Rightarrow> string option" where
  "nonempty s = (case s of None \<Rightarrow> None | Some t \<Rightarrow> if t = [] then None else Some t)"

definition with_warning :: "string \<Rightarrow> string option \<Rightarrow> string" where
  "with_warning base warning = (case warning of None \<Rightarrow> base | Some w \<Rightarrow> base @ [CHR 0x0A] @ w)"

definition copy_color :: "string option \<Rightarrow> toast_color" where
  "copy_color warning = (if warning \<noteq> None then Yellow else Green)"

definition copy_failed :: "js_error \<Rightarrow> toast" where
  "copy_failed e = toast_of Red (Some ''Copy failed'') (error_message_of e) duration_error"

definition handleCopyUrl ::
  "(string \<Rightarrow> js_error + presigned_response) \<Rightarrow> (string \<Rightarrow> js_error + unit) \<Rightarrow> (string \<Rightarrow> string)
     \<Rightarrow> string \<Rightarrow> string \<Rightarrow> copy_outcome" where
  "handleCopyUrl presign clipboard time_of_day pathFromUrl name =
     (case presign (joinPath [pathFromUrl, name]) of
        Inl e \<Rightarrow> \<lparr>cp_clipboard = None, cp_toast = copy_failed e\<rparr>
      | Inr r \<Rightarrow>
          (case clipboard (ps_url r) of
             Inl e \<Rightarrow> \<lparr>cp_clipboard = None, cp_toast = copy_failed e\<rparr>
           | Inr _ \<Rightarrow>
               (let base = name @ '' '' @ em_dash @ '' anyone with this link can download it until ''
                      @ time_of_day (ps_expires_at r) @ '' (expires in '' @ formatDuration (ps_expires_in r)
                      @ ''). No sign-in needed.'';
                    warning = nonempty (ps_warning r)
                in \<lparr>cp_clipboard = Some (ps_url r),
                    cp_toast = toast_of (copy_color warning) (Some ''Presigned URL copied'')
                      (with_warning base warning) duration_infoLong\<rparr>)))"

text \<open>The ref \<open>bulkCopyingRef\<close> blocks a second batch; \<open>Promise.all\<close> rejects with the
  first failure of the list.\<close>

definition handleBulkCopyUrl ::
  "(string \<Rightarrow> js_error + presigned_response) \<Rightarrow> (string \<Rightarrow> js_error + unit) \<Rightarrow> (string \<Rightarrow> string)
     \<Rightarrow> bool \<Rightarrow> string \<Rightarrow> string list \<Rightarrow> copy_outcome option" where
  "handleBulkCopyUrl presign clipboard time_of_day bulkCopying pathFromUrl names =
     (if bulkCopying then None
      else Some (case map_sum_list (\<lambda>name. presign (joinPath [pathFromUrl, name])) names of
          Inl e \<Rightarrow> \<lparr>cp_clipboard = None, cp_toast = copy_failed e\<rparr>
        | Inr responses \<Rightarrow>
            (let urls = join_with [CHR 0x0A] (map ps_url responses)
             in case clipboard urls of
                  Inl e \<Rightarrow> \<lparr>cp_clipboard = None, cp_toast = copy_failed e\<rparr>
                | Inr _ \<Rightarrow>
                    (let warning = Option.bind (find (\<lambda>r. nonempty (ps_warning r) \<noteq> None) responses) ps_warning;
                         base = (case responses of [] \<Rightarrow> ''Links copied.''
                           | first # _ \<Rightarrow> ''Anyone with these links can download until ''
                               @ time_of_day (ps_expires_at first) @ '' (expires in ''
                               @ formatDuration (ps_expires_in first) @ ''). No sign-in needed.'')
                     in \<lparr>cp_clipboard = Some urls,
                         cp_toast = toast_of (copy_color warning)
                           (Some (nat_str (length responses) @ '' presigned URLs copied''))
                           (with_warning base warning) duration_infoLong\<rparr>))))"

subsection \<open>handlePreview\<close>

record preview_state =
  pw_filename :: string
  pw_url :: string
  pw_size :: nat

definition handlePreview ::
  "file_entry list \<Rightarrow> string \<Rightarrow> string \<Rightarrow> string \<Rightarrow> string \<Rightarrow> preview_state option" where
  "handlePreview items bucket roleId pathFromUrl name =
     (case find (\<lambda>f. fe_name f = name) items of
        None \<Rightarrow> None
      | Some fileEntry \<Rightarrow>
          if fe_is_directory fileEntry then None
          else Some \<lparr>pw_filename = name,
                     pw_url = buildDownloadUrl bucket roleId (joinPath [pathFromUrl, name]),
                     pw_size = fe_size fileEntry\<rparr>)"

subsection \<open>Properties\<close>

text \<open>The header the server sends: an ASCII fallback in quotes, then the percent-encoded name.\<close>

definition disposition_header :: "string \<Rightarrow> string \<Rightarrow> string" where
  "disposition_header ascii name =
     ''attachment; filename='' @ [CHR 0x22] @ ascii @ [CHR 0x22] @ ''; filename*=UTF-8'' @ [CHR 0x27, CHR 0x27]
       @ pct_encode_all name"

lemma takeWhile_value: "(\<And>c. c \<in> set v \<Longrightarrow> value_char c) \<Longrightarrow> \<not> value_char d \<Longrightarrow>
    takeWhile value_char (v @ d # r) = v \<and> dropWhile value_char (v @ d # r) = d # r"
  by (induction v) auto

lemma all_matches_skip: "match_filename (c # cs) = None \<Longrightarrow> all_matches (c # cs) = all_matches cs"
  by (subst all_matches.simps) simp

lemma all_matches_hit: "match_filename s = Some (b, v, r) \<Longrightarrow> all_matches s = (b, v) # all_matches r"
  by (subst all_matches.simps) (auto simp: match_filename_def starts_with_i_def split: list.splits if_splits)

lemma hex_value_char: "n < 16 \<Longrightarrow> value_char (hex_digit n)"
proof -
  assume "n < 16"
  then have "uri_unreserved (hex_digit n)" by (rule hex_digit_unreserved)
  then show ?thesis by (auto simp: value_char_def uri_unreserved_def)
qed

lemma pct_all_value: "c \<in> set (pct_encode_all s) \<Longrightarrow> value_char c"
proof -
  assume "c \<in> set (pct_encode_all s)"
  then have "c = CHR ''%'' \<or> (\<exists>x :: char. c = hex_digit (of_char x div 16)) \<or> (\<exists>x :: char. c = hex_digit (of_char x mod 16))"
    unfolding pct_encode_all_def by (auto split: if_splits)
  moreover have "value_char CHR ''%''" by (simp add: value_char_def)
  ultimately show ?thesis using hex_value_char [OF nibbles(1)] hex_value_char [OF nibbles(2)] by blast
qed

lemma match_plain:
  assumes "ascii \<noteq> []" and "\<And>c. c \<in> set ascii \<Longrightarrow> value_char c"
    and "\<not> starts_with_i ([CHR 0x22] @ ascii) utf8_prefix"
  shows "match_filename (''filename='' @ [CHR 0x22] @ ascii @ [CHR 0x22] @ r) = Some (False, ascii, r)"
proof -
  have "match_value (CHR 0x22 # ascii @ CHR 0x22 # r) = Some (ascii, r)"
    using assms(1) takeWhile_value [of ascii "CHR 0x22" r] assms(2)
    by (simp add: match_value_def drop_quote_def value_char_def)
  then show ?thesis
    by (simp add: match_filename_def starts_with_i_def match_body_def utf8_prefix_def)
qed

lemma match_starred:
  assumes "v \<noteq> []" and "\<And>c. c \<in> set v \<Longrightarrow> value_char c"
  shows "match_filename (''filename*=UTF-8'' @ [CHR 0x27, CHR 0x27] @ v) = Some (True, v, [])"
proof -
  have "takeWhile value_char v = v" "dropWhile value_char v = []"
    using assms(2) by (simp_all add: takeWhile_eq_all_conv dropWhile_eq_Nil_conv)
  moreover have "drop_quote v = v" using assms by (cases v) (auto simp: drop_quote_def value_char_def)
  moreover have "drop_quote [] = []" by (simp add: drop_quote_def)
  ultimately have "match_value v = Some (v, [])" using assms(1)
    unfolding match_value_def Let_def by (simp only: if_False)
  then show ?thesis
    by (simp add: match_filename_def starts_with_i_def match_body_def utf8_prefix_def)
qed

lemma all_matches_skips:
  "list_all (\<lambda>c. lower_ascii c \<noteq> CHR ''f'') p \<Longrightarrow> all_matches (p @ s) = all_matches s"
proof (induction p)
  case (Cons c p)
  then have "match_filename ((c # p) @ s) = None"
    by (simp add: match_filename_def starts_with_i_def)
  with Cons show ?case by (simp add: all_matches_skip)
qed simp

lemma all_matches_Nil [simp]: "all_matches [] = []"
  by (subst all_matches.simps) simp

lemma header_matches:
  assumes "ascii \<noteq> []" and "\<And>c. c \<in> set ascii \<Longrightarrow> value_char c" and "name \<noteq> []"
  shows "all_matches (disposition_header ascii name) = [(False, ascii), (True, pct_encode_all name)]"
proof -
  let ?v = "pct_encode_all name"
  let ?tail = "''filename*=UTF-8'' @ [CHR 0x27, CHR 0x27] @ ?v"
  have v: "?v \<noteq> []" using assms(3) by (cases name) (simp_all add: pct_encode_all_def)
  have plain: "match_filename (''filename='' @ [CHR 0x22] @ ascii @ [CHR 0x22] @ ''; '' @ ?tail)
      = Some (False, ascii, ''; '' @ ?tail)"
    by (rule match_plain) (use assms(1,2) in \<open>auto simp: starts_with_i_def utf8_prefix_def lower_ascii_def\<close>)
  have "all_matches (disposition_header ascii name)
      = all_matches (''attachment; '' @ ''filename='' @ [CHR 0x22] @ ascii @ [CHR 0x22] @ ''; '' @ ?tail)"
    by (simp add: disposition_header_def)
  also have "\<dots> = all_matches (''filename='' @ [CHR 0x22] @ ascii @ [CHR 0x22] @ ''; '' @ ?tail)"
    by (rule all_matches_skips) simp
  also have "\<dots> = (False, ascii) # all_matches (''; '' @ ?tail)"
    by (rule all_matches_hit [OF plain])
  also have "all_matches (''; '' @ ?tail) = all_matches ?tail"
    by (rule all_matches_skips) simp
  also have "all_matches ?tail = (True, ?v) # all_matches []"
    by (rule all_matches_hit [OF match_starred [OF v pct_all_value]])
  finally show ?thesis by simp
qed

lemma download_filename_raw:
  "raw_filename d = Some raw \<Longrightarrow> raw \<noteq> [] \<Longrightarrow> download_filename (Some d) shown = decodeURIComponent raw"
  by (simp add: download_filename_def)

text \<open>a download is saved under the object's own name: for the header the server sends (an ASCII
  fallback, then the percent-encoded UTF-8 name) the starred parameter is chosen although it comes
  second, and decoding gives back every character of the name.\<close>

theorem download_name_roundtrip:
  assumes "utf8_valid name" and "name \<noteq> []" and "ascii \<noteq> []" and "\<And>c. c \<in> set ascii \<Longrightarrow> value_char c"
  shows "download_filename (Some (disposition_header ascii name)) shown = Inr name"
proof -
  have "pct_encode_all name \<noteq> []" using assms(2) by (cases name) (simp_all add: pct_encode_all_def)
  then show ?thesis
    using header_matches [OF assms(3,4,2)] decode_all [OF assms(1)]
    by (simp add: download_filename_def raw_filename_def)
qed

theorem download_name_roundtrip_witness:
  "download_filename (Some (disposition_header ''r_.txt'' ([CHR ''r'', CHR 0xC3, CHR 0xA9] @ ''.txt''))) ''x''
    = Inr ([CHR ''r'', CHR 0xC3, CHR 0xA9] @ ''.txt'')"
  by (rule download_name_roundtrip)
    (auto simp: utf8_valid_def lead2_def is_cont_def value_char_def)

text \<open>a bulk copy is all or nothing: the clipboard receives one line per selected object, in the
  order of the selection, or nothing at all and a red toast; and while a copy runs no second one
  starts.\<close>

theorem bulk_copy_all_or_nothing:
  assumes "handleBulkCopyUrl presign clipboard time_of_day bulkCopying pathFromUrl names = Some r"
  shows "\<not> bulkCopying
    \<and> (cp_clipboard r = None \<longleftrightarrow> toast_color (cp_toast r) = Red)
    \<and> (\<forall>text. cp_clipboard r = Some text \<longrightarrow>
        (\<exists>rs. length rs = length names
          \<and> (\<forall>i<length names. presign (joinPath [pathFromUrl, names ! i]) = Inr (rs ! i))
          \<and> text = join_with [CHR 0x0A] (map ps_url rs)))"
proof (cases "map_sum_list (\<lambda>name. presign (joinPath [pathFromUrl, name])) names")
  case (Inl e)
  with assms show ?thesis
    by (auto simp: handleBulkCopyUrl_def copy_failed_def split: if_splits)
next
  case (Inr rs)
  have len: "length rs = length names" by (rule map_sum_list_Inr_length [OF Inr])
  have each: "\<forall>i<length names. presign (joinPath [pathFromUrl, names ! i]) = Inr (rs ! i)"
    using map_sum_list_Inr_nth [OF Inr] by blast
  show ?thesis
  proof (cases "clipboard (join_with [CHR 0x0A] (map ps_url rs))")
    case (Inl e)
    with assms \<open>map_sum_list _ _ = Inr rs\<close> show ?thesis
      by (auto simp: handleBulkCopyUrl_def copy_failed_def Let_def split: if_splits)
  next
    case (Inr u)
    with assms \<open>map_sum_list _ _ = Inr rs\<close> len each show ?thesis
      by (auto simp: handleBulkCopyUrl_def copy_color_def Let_def split: if_splits)
  qed
qed

lemma bulk_copy_starts: "\<exists>r. handleBulkCopyUrl presign clipboard time_of_day False pathFromUrl names = Some r"
  by (simp add: handleBulkCopyUrl_def)

definition sample_presign :: "string \<Rightarrow> js_error + presigned_response" where
  "sample_presign path = Inr \<lparr>ps_url = ''https://s3/'' @ path, ps_expires_at = ''t'', ps_expires_in = 3600,
     ps_warning = None\<rparr>"

theorem bulk_copy_all_or_nothing_witness:
  "\<exists>r. handleBulkCopyUrl sample_presign (\<lambda>_. Inr ()) (\<lambda>t. t) False ''p'' [''a'', ''b''] = Some r
    \<and> (cp_clipboard r = None \<longleftrightarrow> toast_color (cp_toast r) = Red)"
proof -
  obtain r where r: "handleBulkCopyUrl sample_presign (\<lambda>_. Inr ()) (\<lambda>t. t) False ''p'' [''a'', ''b''] = Some r"
    using bulk_copy_starts by blast
  show ?thesis
    by (rule exI [of _ r], rule conjI [OF r conjunct1 [OF conjunct2 [OF bulk_copy_all_or_nothing [OF r]]]])
qed

text \<open>A plain filename parameter with a bare percent sign makes the save fail although the
  download succeeded.\<close>

lemma download_name_pct:
  "download_filename (Some (''attachment; filename='' @ [CHR 0x22] @ ''100%'' @ [CHR 0x22])) ''100%''
    = Inl URIError"
proof -
  have "match_filename (''filename='' @ [CHR 0x22] @ ''100%'' @ [CHR 0x22] @ []) = Some (False, ''100%'', [])"
    by (rule match_plain) (auto simp: value_char_def starts_with_i_def utf8_prefix_def)
  from all_matches_hit [OF this]
  have "all_matches (''attachment; filename='' @ [CHR 0x22] @ ''100%'' @ [CHR 0x22]) = [(False, ''100%'')]"
    using all_matches_skips [of "''attachment; ''" "''filename='' @ [CHR 0x22] @ ''100%'' @ [CHR 0x22]"]
    by simp
  then have "raw_filename (''attachment; filename='' @ [CHR 0x22] @ ''100%'' @ [CHR 0x22]) = Some ''100%''"
    unfolding raw_filename_def by simp
  then have "download_filename (Some (''attachment; filename='' @ [CHR 0x22] @ ''100%'' @ [CHR 0x22])) ''100%''
      = decodeURIComponent (''100'' @ ''%'')"
    by (subst download_filename_raw [where raw = "''100%''"]) simp_all
  also have "\<dots> = Inl URIError" by (rule decode_trailing_pct)
  finally show ?thesis .
qed

end
