(* ===== verification/Browser_View.thy ===== *)
theory Browser_View
  imports Complex_Main Path_Utils Client_Load Sort_Entries Toast
begin

text \<open>
  What the file browser derives from its state on every render: the values computed in
  \<open>components/FileBrowser/FileBrowser.tsx\<close>, its header \<open>FileBrowserHeader.tsx\<close>, the
  load controls \<open>LoadSplitButton.tsx\<close> and \<open>FileBrowserLoadMoreFooter.tsx\<close>, the counter
  \<open>BucketPageHeader.tsx\<close> with \<open>hooks/useAnimatedNumber.ts\<close>, the near-end trigger
  \<open>useNearEndAutoLoad.ts\<close> and \<open>hooks/useDisplayMode.ts\<close>.

  \<open>lower\<close> is \<open>toLowerCase\<close>.
\<close>

subsection \<open>Sorting and filtering\<close>

definition all_items :: "listing \<Rightarrow> file_entry list" where
  "all_items l = ls_directories l @ ls_files l"

definition effectiveSort :: "bool \<Rightarrow> sort_state \<Rightarrow> sort_state" where
  "effectiveSort truncated sortPreference =
     (if truncated \<and> \<not> isDefaultSort sortPreference then DEFAULT_SORT else sortPreference)"

definition sortedItems ::
  "(string \<Rightarrow> string \<Rightarrow> int) \<Rightarrow> (string \<Rightarrow> int option) \<Rightarrow> listing \<Rightarrow> sort_state \<Rightarrow> file_entry list" where
  "sortedItems coll parse l effective =
     (if isDefaultSort effective then all_items l
      else sortEntries coll parse (ls_directories l) (ls_files l) effective)"

definition filteredItems ::
  "(string \<Rightarrow> string) \<Rightarrow> bool \<Rightarrow> string \<Rightarrow> file_entry list \<Rightarrow> file_entry list" where
  "filteredItems lower serverSearchActive debouncedQuery sorted_items =
     (if serverSearchActive then sorted_items
      else if debouncedQuery = [] then sorted_items
      else filter (\<lambda>f. js_includes (lower (fe_name f)) (lower debouncedQuery)) sorted_items)"

text \<open>The rows on screen for a listing, a sort preference and a search.\<close>

definition visible_rows ::
  "(string \<Rightarrow> string \<Rightarrow> int) \<Rightarrow> (string \<Rightarrow> int option) \<Rightarrow> (string \<Rightarrow> string) \<Rightarrow> listing \<Rightarrow> sort_state
     \<Rightarrow> bool \<Rightarrow> string \<Rightarrow> file_entry list" where
  "visible_rows coll parse lower l sortPreference serverSearchActive debouncedQuery =
     filteredItems lower serverSearchActive debouncedQuery
       (sortedItems coll parse l (effectiveSort (ls_truncated l) sortPreference))"

subsection \<open>Controls\<close>

definition sortBusy :: "bool \<Rightarrow> bool \<Rightarrow> bool" where
  "sortBusy loadingAll isFetchingNextPage \<longleftrightarrow> loadingAll \<or> isFetchingNextPage"

definition autoLoadEnabled :: "bool \<Rightarrow> bool \<Rightarrow> bool \<Rightarrow> bool \<Rightarrow> string \<Rightarrow> bool" where
  "autoLoadEnabled lazyLoadingEnabled truncated isFetchingNextPage serverSearchActive debouncedQuery \<longleftrightarrow>
     lazyLoadingEnabled \<and> truncated \<and> \<not> isFetchingNextPage \<and> (serverSearchActive \<or> debouncedQuery = [])"

definition showLoadMoreFooter :: "bool \<Rightarrow> bool \<Rightarrow> bool" where
  "showLoadMoreFooter lazyLoadingEnabled truncated \<longleftrightarrow> \<not> lazyLoadingEnabled \<and> truncated"

definition showSearchOnServer :: "bool \<Rightarrow> string \<Rightarrow> bool \<Rightarrow> bool" where
  "showSearchOnServer serverSearchActive debouncedQuery truncated \<longleftrightarrow>
     \<not> serverSearchActive \<and> debouncedQuery \<noteq> [] \<and> truncated"

definition objectCount :: "listing \<Rightarrow> nat \<Rightarrow> nat" where
  "objectCount l bulkDeletedCount = length (all_items l) - bulkDeletedCount"

datatype split_button = StopButton | LoadMoreButton bool

text \<open>The header's load control: absent, Stop during a drain, otherwise Load more (with its
  disabled flag).\<close>

definition loadSplitButton :: "bool \<Rightarrow> bool \<Rightarrow> bool \<Rightarrow> split_button option" where
  "loadSplitButton truncated loadingAll loading =
     (if truncated \<or> loadingAll
      then Some (if loadingAll then StopButton else LoadMoreButton loading) else None)"

datatype display_mode = TableMode | GridMode

datatype browser_view =
    ViewLoader
  | ViewError js_error
  | ViewEmpty "string option"
  | ViewTable bool
  | ViewGrid bool

definition browserView ::
  "bool \<Rightarrow> listing \<Rightarrow> js_error option \<Rightarrow> bool \<Rightarrow> file_entry list \<Rightarrow> string option \<Rightarrow> display_mode
     \<Rightarrow> bool \<Rightarrow> browser_view" where
  "browserView isFetching l err isFetchNextPageError filtered serverSearchTerm mode footer =
     (if isFetching \<and> all_items l = [] then ViewLoader
      else case (if isFetchNextPageError then None else err) of
        Some e \<Rightarrow> ViewError e
      | None \<Rightarrow>
          (if filtered = [] then
             ViewEmpty (case serverSearchTerm of
                 Some t \<Rightarrow> Some (''No items start with '' @ [CHR 0x22] @ t @ [CHR 0x22] @ '' here.'')
               | None \<Rightarrow> None)
           else if mode = TableMode then ViewTable footer else ViewGrid footer))"

text \<open>The header's sort controls.\<close>

definition sort_select :: "sort_state \<Rightarrow> sort_column \<Rightarrow> sort_state" where
  "sort_select sortState column =
     \<lparr>sort_col = column, sort_dir = (if sort_col sortState = column then sort_dir sortState else Asc)\<rparr>"

definition sort_toggle :: "sort_state \<Rightarrow> sort_state" where
  "sort_toggle sortState = sortState\<lparr>sort_dir := (if sort_dir sortState = Asc then Desc else Asc)\<rparr>"

definition sort_toggle_label :: "sort_state \<Rightarrow> string" where
  "sort_toggle_label sortState = (if sort_dir sortState = Asc then ''Sort descending'' else ''Sort ascending'')"

fun column_label :: "sort_column \<Rightarrow> string" where
  "column_label SortName = ''name''"
| "column_label SortSize = ''size''"
| "column_label SortModified = ''modified date''"

definition sort_modal_title :: "sort_column option \<Rightarrow> string" where
  "sort_modal_title column =
     ''Load the whole folder to sort by ''
     @ column_label (case column of None \<Rightarrow> SortName | Some c \<Rightarrow> c) @ ''?''"

definition countLabel :: "bool \<Rightarrow> nat \<Rightarrow> nat \<Rightarrow> string" where
  "countLabel truncated animatedCount object_count =
     (if truncated then nat_str animatedCount @ ''+ objects''
      else nat_str animatedCount @ '' object'' @ (if object_count = 1 then [] else ''s''))"

text \<open>One frame of the counter animation, \<open>elapsed\<close> milliseconds after its start; the eased
  fraction is exact here.\<close>

definition anim_t :: "int \<Rightarrow> rat" where
  "anim_t elapsed = min 1 (max 0 (of_int elapsed / 500))"

definition anim_eased :: "rat \<Rightarrow> rat" where
  "anim_eased t = 1 - (1 - t) ^ 3"

definition animated_tick :: "int \<Rightarrow> int \<Rightarrow> int \<Rightarrow> int" where
  "animated_tick start_value target elapsed =
     \<lfloor>of_int start_value + of_int (target - start_value) * anim_eased (anim_t elapsed) + 1 / 2\<rfloor>"

subsection \<open>The near-end trigger\<close>

definition END_THRESHOLD :: int where "END_THRESHOLD = 2"

text \<open>\<open>lastIndex\<close> is -1 when no row is rendered.\<close>

definition atEnd :: "nat \<Rightarrow> int \<Rightarrow> bool" where
  "atEnd rowCount lastIndex \<longleftrightarrow> 0 < rowCount \<and> int rowCount - END_THRESHOLD \<le> lastIndex"

text \<open>The effect: the new value of \<open>firedRef\<close> and whether \<open>onLoadMore\<close> is called.\<close>

definition near_end_effect :: "bool \<Rightarrow> bool \<Rightarrow> bool \<Rightarrow> bool \<times> bool" where
  "near_end_effect enabled at_end fired =
     (if \<not> enabled \<or> \<not> at_end then (False, False) else if fired then (fired, False) else (True, True))"

text \<open>A run of the effect over successive renders, counting the calls.\<close>

fun near_end_run :: "bool \<Rightarrow> (bool \<times> bool) list \<Rightarrow> nat" where
  "near_end_run fired [] = 0"
| "near_end_run fired ((enabled, at_end) # renders) =
     (let (fired', called) = near_end_effect enabled at_end fired
      in (if called then 1 else 0) + near_end_run fired' renders)"

subsection \<open>The display mode of a bucket\<close>

definition storageKey :: "string \<Rightarrow> string \<Rightarrow> string" where
  "storageKey role bucket = ''display:'' @ role @ '':'' @ bucket"

definition read_display_mode :: "storage \<Rightarrow> string \<Rightarrow> string \<Rightarrow> display_mode" where
  "read_display_mode local_storage role bucket =
     (if getItem local_storage (storageKey role bucket) = Some ''grid'' then GridMode else TableMode)"

definition mode_str :: "display_mode \<Rightarrow> string" where
  "mode_str m = (if m = GridMode then ''grid'' else ''table'')"

definition setMode :: "string \<Rightarrow> string \<Rightarrow> display_mode \<Rightarrow> storage \<Rightarrow> storage \<times> display_mode" where
  "setMode role bucket next_mode local_storage =
     (setItem (storageKey role bucket) (mode_str next_mode) local_storage, next_mode)"

subsection \<open>Properties\<close>

text \<open>the rows of a folder that is not completely loaded are never shown in a chosen order: the
  sort that the headers show is then the default, and the rows are the loaded entries in the order
  of arrival, so nothing that is on screen moves when the next chunk arrives.\<close>

theorem truncated_rows_stable:
  assumes "ls_truncated l"
  shows "isDefaultSort (effectiveSort (ls_truncated l) sortPreference)
    \<and> visible_rows coll parse lower l sortPreference True debouncedQuery = all_items l
    \<and> visible_rows coll parse lower l sortPreference False [] = all_items l"
proof -
  have "isDefaultSort (effectiveSort True sortPreference)"
    by (auto simp: effectiveSort_def isDefaultSort_def DEFAULT_SORT_def)
  with assms show ?thesis by (auto simp: visible_rows_def filteredItems_def sortedItems_def)
qed

definition one_file_listing :: listing where
  "one_file_listing = \<lparr>ls_directories = [], ls_files = [sample_file ''a'' 1], ls_truncated = True\<rparr>"

theorem truncated_rows_stable_witness:
  "isDefaultSort (effectiveSort (ls_truncated one_file_listing) \<lparr>sort_col = SortSize, sort_dir = Desc\<rparr>)"
  using truncated_rows_stable [of one_file_listing] by (simp add: one_file_listing_def)

text \<open>a filter only hides rows: what is shown is a selection of the loaded entries, each as often
  as it was loaded, exactly those whose name contains the query when letter case is ignored.\<close>

theorem visible_rows_exact:
  "mset (visible_rows coll parse lower l sortPreference False q)
     = filter_mset (\<lambda>f. q = [] \<or> js_includes (lower (fe_name f)) (lower q)) (mset (all_items l))
   \<and> mset (visible_rows coll parse lower l sortPreference True q) = mset (all_items l)"
proof -
  have "mset (sortedItems coll parse l s) = mset (all_items l)" for s
    by (simp add: sortedItems_def all_items_def sortEntries_mset)
  then show ?thesis
    by (simp add: visible_rows_def filteredItems_def mset_filter)
qed

text \<open>a folder with more to load always offers a way to reach the rest: scrolling, the button at
  the end of the list, or the search on the server.\<close>

theorem more_is_reachable:
  assumes "truncated" and "\<not> isFetchingNextPage"
  shows "autoLoadEnabled lazyLoadingEnabled truncated isFetchingNextPage serverSearchActive debouncedQuery
    \<or> showLoadMoreFooter lazyLoadingEnabled truncated
    \<or> showSearchOnServer serverSearchActive debouncedQuery truncated"
  using assms by (auto simp: autoLoadEnabled_def showLoadMoreFooter_def showSearchOnServer_def)

theorem more_is_reachable_witness:
  "autoLoadEnabled True True False False [] \<or> showLoadMoreFooter True True \<or> showSearchOnServer False [] True"
  by (rule more_is_reachable) simp_all

text \<open>The load control is never clickable twice for one chunk.\<close>

lemma load_button_guard:
  "loadSplitButton truncated loadingAll True \<noteq> Some (LoadMoreButton False)"
  by (auto simp: loadSplitButton_def)

text \<open>every frame of the counter animation shows a number between the one on screen and the new
  target, so restarting it on every chunk of a drain can never run away.\<close>

theorem animated_tick_between:
  "min start_value target \<le> animated_tick start_value target elapsed
   \<and> animated_tick start_value target elapsed \<le> max start_value target"
proof -
  let ?t = "anim_t elapsed" and ?d = "of_int (target - start_value) :: rat"
  have t: "0 \<le> ?t" "?t \<le> 1" by (auto simp: anim_t_def)
  then have "0 \<le> (1 - ?t) ^ 3" "(1 - ?t) ^ 3 \<le> 1" by (simp_all add: power_le_one)
  then have e: "0 \<le> anim_eased ?t" "anim_eased ?t \<le> 1" by (simp_all add: anim_eased_def)
  show ?thesis
  proof (cases "start_value \<le> target")
    case True
    then have "0 \<le> ?d" by simp
    with e have "0 \<le> ?d * anim_eased ?t" "?d * anim_eased ?t \<le> ?d"
      by (simp_all add: mult_left_le)
    with True show ?thesis unfolding animated_tick_def by (simp add: le_floor_iff floor_le_iff)
  next
    case False
    then have "?d \<le> 0" by simp
    then have "?d * anim_eased ?t \<le> 0" "?d * (1 - anim_eased ?t) \<le> 0"
      using e by (auto intro: mult_nonpos_nonneg)
    then have "?d * anim_eased ?t \<le> 0" "?d \<le> ?d * anim_eased ?t"
      by (simp_all only: right_diff_distrib mult_1_right diff_le_0_iff_le)
    then have "of_int target \<le> of_int start_value + ?d * anim_eased ?t + 1 / 2"
      "of_int start_value + ?d * anim_eased ?t + 1 / 2 < of_int start_value + 1" by simp_all
    then show ?thesis using False unfolding animated_tick_def by (simp only: le_floor_iff floor_le_iff min_def max_def if_False)
  qed
qed

text \<open>while the list stays at its end, a chunk that fails is asked for again as soon as the fetch
  is over: n failing fetches in a row (each one disables the trigger while it runs and enables it
  again, since nothing was appended) make n + 1 requests, with no bound on n.\<close>

theorem near_end_retries_failures:
  "near_end_run False
     (map (\<lambda>fetching. (autoLoadEnabled True True fetching serverSearchActive [], atEnd rowCount lastIndex))
        (concat (replicate n [False, True]) @ [False]))
   = (if atEnd rowCount lastIndex then n + 1 else 0)"
  by (induction n) (simp_all add: near_end_effect_def autoLoadEnabled_def)

lemma near_end_once: "near_end_run True (replicate n (True, True)) = 0"
  by (induction n) (simp_all add: near_end_effect_def)

text \<open>The display mode is kept per role and bucket.\<close>

lemma display_mode_roundtrip:
  "read_display_mode (fst (setMode role bucket m st)) role bucket = m"
  "storageKey role' bucket' \<noteq> storageKey role bucket \<Longrightarrow>
     read_display_mode (fst (setMode role bucket m st)) role' bucket' = read_display_mode st role' bucket'"
  by (cases m; simp add: read_display_mode_def setMode_def mode_str_def store.get_put)+

end
