(* ===== verification/Browser_State.thy ===== *)
theory Browser_State
  imports Browser_View Shift_Select
begin

text \<open>
  The state machine of \<open>components/FileBrowser/FileBrowser.tsx\<close>: the route, the search, the
  sort preference with its confirmation gate, the running drains and the selection.  The
  component stays mounted while the user moves between folders, so a drain can resolve in
  another folder than the one it was started in.

  \<open>trim\<close> is \<open>String.prototype.trim\<close>.
\<close>

subsection \<open>State\<close>

record browser =
  br_roleId :: string
  br_bucket :: string
  br_path :: string
  br_serverSearchTerm :: "string option"
  br_searchQuery :: string
  br_sortPreference :: sort_state
  br_pendingSort :: "sort_state option"
  br_prevContextKey :: string
  br_contextKeyRef :: string
  br_drains :: "(string \<times> sort_state) list"
  br_selection :: selection
  br_navigations :: "(string \<times> bool) list"

definition context_key :: "string \<Rightarrow> string \<Rightarrow> string \<Rightarrow> string" where
  "context_key roleId bucket path = roleId @ ''/'' @ bucket @ ''/'' @ path"

definition current_key :: "browser \<Rightarrow> string" where
  "current_key st = context_key (br_roleId st) (br_bucket st) (br_path st)"

text \<open>A render: the context reset of the render phase, then the write of the ref.\<close>

definition render :: "browser \<Rightarrow> browser" where
  "render st =
     (let contextKey = current_key st;
          st = (if contextKey \<noteq> br_prevContextKey st
                then st\<lparr>br_prevContextKey := contextKey, br_serverSearchTerm := None,
                        br_searchQuery := [], br_pendingSort := None\<rparr>
                else st)
      in st\<lparr>br_contextKeyRef := contextKey\<rparr>)"

definition browser0 :: "string \<Rightarrow> string \<Rightarrow> string \<Rightarrow> browser" where
  "browser0 roleId bucket path =
     \<lparr>br_roleId = roleId, br_bucket = bucket, br_path = path, br_serverSearchTerm = None,
      br_searchQuery = [], br_sortPreference = DEFAULT_SORT, br_pendingSort = None,
      br_prevContextKey = context_key roleId bucket path,
      br_contextKeyRef = context_key roleId bucket path, br_drains = [],
      br_selection = empty_selection, br_navigations = []\<rparr>"

subsection \<open>Navigation\<close>

definition folder_url :: "string \<Rightarrow> string \<Rightarrow> string \<Rightarrow> string" where
  "folder_url roleId bucket path =
     ''/r/'' @ encodeURIComponent roleId @ ''/b/'' @ encodeURIComponent bucket @ ''/p/'' @ encodePath path"

text \<open>\<open>navigate(url, {replace})\<close> is an effect, the pair of the url and the flag.\<close>

definition navigateToFolder :: "string \<Rightarrow> browser \<Rightarrow> browser" where
  "navigateToFolder folderName st =
     st\<lparr>br_selection := clear_selection (br_selection st), br_searchQuery := [],
        br_serverSearchTerm := None,
        br_navigations := br_navigations st
          @ [(folder_url (br_roleId st) (br_bucket st) (joinPath [br_path st, folderName]), False)]\<rparr>"

text \<open>The effect that adopts a path the server chose for the root.\<close>

definition adopt_server_path :: "client_load_page list \<Rightarrow> browser \<Rightarrow> browser" where
  "adopt_server_path pages st =
     (if br_path st \<noteq> [] \<or> br_serverSearchTerm st \<noteq> None then st
      else (case pages of
              [] \<Rightarrow> st
            | p # _ \<Rightarrow>
                (case pg_path p of
                   None \<Rightarrow> st
                 | Some effective \<Rightarrow>
                     if effective = [] then st
                     else st\<lparr>br_navigations := br_navigations st
                            @ [(folder_url (br_roleId st) (br_bucket st) effective, True)]\<rparr>)))"

subsection \<open>Search\<close>

definition enterServerSearch :: "(string \<Rightarrow> string) \<Rightarrow> string \<Rightarrow> browser \<Rightarrow> browser" where
  "enterServerSearch trim search_term st =
     (if trim search_term = [] then st
      else st\<lparr>br_serverSearchTerm := Some (trim search_term),
              br_selection := clear_selection (br_selection st)\<rparr>)"

definition exitServerSearch :: "browser \<Rightarrow> browser" where
  "exitServerSearch st = st\<lparr>br_serverSearchTerm := None, br_searchQuery := []\<rparr>"

definition onSearchChange :: "(string \<Rightarrow> string) \<Rightarrow> string \<Rightarrow> browser \<Rightarrow> browser" where
  "onSearchChange trim q st =
     (let st = st\<lparr>br_searchQuery := q, br_selection := clear_selection (br_selection st)\<rparr>
      in if br_serverSearchTerm st \<noteq> None \<and> trim q = [] then exitServerSearch st else st)"

subsection \<open>The sort gate\<close>

definition requestSort :: "bool \<Rightarrow> sort_state \<Rightarrow> browser \<Rightarrow> browser" where
  "requestSort truncated next_sort st =
     (if isDefaultSort next_sort \<or> \<not> truncated then st\<lparr>br_sortPreference := next_sort\<rparr>
      else st\<lparr>br_pendingSort := Some next_sort\<rparr>)"

definition cancelPendingSort :: "browser \<Rightarrow> browser" where
  "cancelPendingSort st = st\<lparr>br_pendingSort := None\<rparr>"

text \<open>The confirmation starts a drain and remembers the folder it was asked in.\<close>

definition confirmPendingSort :: "browser \<Rightarrow> browser" where
  "confirmPendingSort st =
     (case br_pendingSort st of
        None \<Rightarrow> st
      | Some next_sort \<Rightarrow>
          st\<lparr>br_pendingSort := None, br_drains := br_drains st @ [(current_key st, next_sort)]\<rparr>)"

text \<open>The continuation of \<open>loadAll()\<close>.\<close>

definition drain_resolved :: "string \<times> sort_state \<Rightarrow> bool \<Rightarrow> browser \<Rightarrow> browser" where
  "drain_resolved d completed st =
     (if completed \<and> fst d = br_contextKeyRef st then st\<lparr>br_sortPreference := snd d\<rparr> else st)"

subsection \<open>Steps\<close>

datatype browser_event =
    RouteChange string string string
  | OpenFolder string
  | AdoptPath "client_load_page list"
  | EnterSearch string
  | ExitSearch
  | SearchInput string
  | RequestSort bool sort_state
  | CancelSort
  | ConfirmSort
  | DrainResolved nat bool
  | SelectOp select_op

definition remove_nth :: "nat \<Rightarrow> 'a list \<Rightarrow> 'a list" where
  "remove_nth i xs = take i xs @ drop (Suc i) xs"

fun browser_step :: "(string \<Rightarrow> string) \<Rightarrow> browser \<Rightarrow> browser_event \<Rightarrow> browser" where
  "browser_step trim st (RouteChange roleId bucket path) =
     render (st\<lparr>br_roleId := roleId, br_bucket := bucket, br_path := path\<rparr>)"
| "browser_step trim st (OpenFolder folderName) = navigateToFolder folderName st"
| "browser_step trim st (AdoptPath pages) = adopt_server_path pages st"
| "browser_step trim st (EnterSearch search_term) = enterServerSearch trim search_term st"
| "browser_step trim st ExitSearch = exitServerSearch st"
| "browser_step trim st (SearchInput q) = onSearchChange trim q st"
| "browser_step trim st (RequestSort truncated next_sort) = requestSort truncated next_sort st"
| "browser_step trim st CancelSort = cancelPendingSort st"
| "browser_step trim st ConfirmSort = confirmPendingSort st"
| "browser_step trim st (DrainResolved i completed) =
     (if i < length (br_drains st)
      then drain_resolved (br_drains st ! i) completed (st\<lparr>br_drains := remove_nth i (br_drains st)\<rparr>)
      else st)"
| "browser_step trim st (SelectOp opn) = st\<lparr>br_selection := select_step (br_selection st) opn\<rparr>"

inductive browser_reachable :: "(string \<Rightarrow> string) \<Rightarrow> browser \<Rightarrow> bool" for trim :: "string \<Rightarrow> string" where
  start: "browser_reachable trim (browser0 roleId bucket path)"
| event: "browser_reachable trim st \<Longrightarrow> browser_reachable trim (browser_step trim st ev)"

definition browser_inv :: "browser \<Rightarrow> bool" where
  "browser_inv st \<longleftrightarrow>
     br_prevContextKey st = current_key st \<and> br_contextKeyRef st = current_key st
     \<and> (\<forall>s. br_pendingSort st = Some s \<longrightarrow> \<not> isDefaultSort s)
     \<and> (\<forall>d\<in>set (br_drains st). \<not> isDefaultSort (snd d))
     \<and> distinct (selected (br_selection st))"

lemmas browser_ops = navigateToFolder_def adopt_server_path_def enterServerSearch_def exitServerSearch_def
  onSearchChange_def requestSort_def cancelPendingSort_def confirmPendingSort_def drain_resolved_def
  clear_selection_def Let_def

lemma browser_inv_step: "browser_inv st \<Longrightarrow> browser_inv (browser_step trim st ev)"
proof (cases ev)
  case (DrainResolved i completed)
  assume "browser_inv st"
  moreover have "set (remove_nth i xs) \<subseteq> set xs" for xs :: "(string \<times> sort_state) list"
    by (auto simp: remove_nth_def dest: in_set_takeD in_set_dropD)
  ultimately show ?thesis
    using DrainResolved by (auto simp: browser_inv_def current_key_def drain_resolved_def)
next
  case (SelectOp opn)
  assume "browser_inv st"
  with SelectOp show ?thesis by (simp add: browser_inv_def current_key_def select_step_distinct)
qed (auto simp: browser_inv_def current_key_def render_def browser_ops split: list.splits option.splits)

lemma browser_reachable_inv: "browser_reachable trim st \<Longrightarrow> browser_inv st"
proof (induction rule: browser_reachable.induct)
  case (start roleId bucket path)
  then show ?case by (simp add: browser_inv_def browser0_def current_key_def empty_selection_def)
next
  case (event st ev)
  then show ?case by (simp only: browser_inv_step)
qed

subsection \<open>Properties\<close>

text \<open>C1: the sort preference changes in two ways only: by a request that needs no load (the default
  order, or a completely loaded level), or when a drain that was confirmed in the folder on screen
  reports that the level is completely loaded; a drain that was stopped, or that belongs to a folder
  the user has left, changes nothing.\<close>

theorem sort_applied_only_when_complete:
  assumes "browser_reachable trim st"
    and "br_sortPreference (browser_step trim st ev) \<noteq> br_sortPreference st"
  shows "(\<exists>truncated s. ev = RequestSort truncated s \<and> (isDefaultSort s \<or> \<not> truncated)
            \<and> br_sortPreference (browser_step trim st ev) = s)
    \<or> (\<exists>i s. ev = DrainResolved i True \<and> i < length (br_drains st)
            \<and> br_drains st ! i = (current_key st, s)
            \<and> br_sortPreference (browser_step trim st ev) = s)"
proof (cases ev)
  case (DrainResolved i completed)
  from browser_reachable_inv [OF assms(1)] have ref: "br_contextKeyRef st = current_key st"
    by (simp add: browser_inv_def)
  obtain k s where d: "br_drains st ! i = (k, s)" by (cases "br_drains st ! i")
  from assms(2) DrainResolved d ref show ?thesis
    by (auto simp: drain_resolved_def split: if_splits)
qed (use assms(2) in \<open>auto simp: render_def browser_ops split: if_splits list.splits option.splits\<close>)

definition sample_browser :: browser where
  "sample_browser = browser0 ''r'' ''b'' ''p''"

definition by_size :: sort_state where
  "by_size = \<lparr>sort_col = SortSize, sort_dir = Desc\<rparr>"

theorem sort_applied_only_when_complete_witness:
  "\<exists>s. br_drains (browser_step id (browser_step id sample_browser (RequestSort True by_size)) ConfirmSort) ! 0
      = (current_key sample_browser, s)"
proof -
  let ?st = "browser_step id (browser_step id sample_browser (RequestSort True by_size)) ConfirmSort"
  have "browser_reachable id ?st"
    unfolding sample_browser_def by (intro browser_reachable.intros)
  moreover have "br_sortPreference (browser_step id ?st (DrainResolved 0 True)) \<noteq> br_sortPreference ?st"
    by (simp add: sample_browser_def browser0_def by_size_def browser_ops isDefaultSort_def DEFAULT_SORT_def
        current_key_def)
  ultimately have "(\<exists>truncated s. DrainResolved 0 True = RequestSort truncated s \<and> (isDefaultSort s \<or> \<not> truncated)
            \<and> br_sortPreference (browser_step id ?st (DrainResolved 0 True)) = s)
    \<or> (\<exists>i s. DrainResolved 0 True = DrainResolved i True \<and> i < length (br_drains ?st)
            \<and> br_drains ?st ! i = (current_key ?st, s)
            \<and> br_sortPreference (browser_step id ?st (DrainResolved 0 True)) = s)"
    by (rule sort_applied_only_when_complete)
  moreover have "current_key ?st = current_key sample_browser"
    by (simp add: sample_browser_def browser0_def by_size_def browser_ops isDefaultSort_def current_key_def)
  ultimately show ?thesis by auto
qed

text \<open>whatever the user did before, arriving in another folder starts clean: no server search, an
  empty filter and no sort waiting for confirmation; the chosen sort is kept, and the reset happens
  exactly when role, bucket or path change.\<close>

theorem folder_change_resets:
  assumes "browser_reachable trim st"
    and "CHR ''/'' \<notin> set (br_roleId st)" and "CHR ''/'' \<notin> set (br_bucket st)"
    and "CHR ''/'' \<notin> set roleId" and "CHR ''/'' \<notin> set bucket"
    and "(roleId, bucket, path) \<noteq> (br_roleId st, br_bucket st, br_path st)"
  shows "br_serverSearchTerm (browser_step trim st (RouteChange roleId bucket path)) = None
    \<and> br_searchQuery (browser_step trim st (RouteChange roleId bucket path)) = []
    \<and> br_pendingSort (browser_step trim st (RouteChange roleId bucket path)) = None
    \<and> br_sortPreference (browser_step trim st (RouteChange roleId bucket path)) = br_sortPreference st"
proof -
  have split: "split_on CHR ''/'' (context_key r b p) = r # b # split_on CHR ''/'' p"
    if "CHR ''/'' \<notin> set r" "CHR ''/'' \<notin> set b" for r b p
    using split_on_append_sep [OF that(1), of "b @ CHR ''/'' # p"] split_on_append_sep [OF that(2), of p]
    by (simp add: context_key_def)
  have "context_key roleId bucket path \<noteq> current_key st"
  proof
    assume "context_key roleId bucket path = current_key st"
    then have "roleId # bucket # split_on CHR ''/'' path
        = br_roleId st # br_bucket st # split_on CHR ''/'' (br_path st)"
      using split [OF assms(4,5)] split [OF assms(2,3)] unfolding current_key_def by metis
    then have "roleId = br_roleId st" "bucket = br_bucket st"
      "split_on CHR ''/'' path = split_on CHR ''/'' (br_path st)" by auto
    moreover from this(3) have "path = br_path st" by (metis join_split)
    ultimately show False using assms(6) by simp
  qed
  moreover have "br_prevContextKey st = current_key st"
    using browser_reachable_inv [OF assms(1)] by (simp add: browser_inv_def)
  ultimately show ?thesis by (simp add: render_def current_key_def Let_def)
qed

theorem folder_change_resets_witness:
  "br_serverSearchTerm (browser_step id (browser_step id sample_browser (EnterSearch ''x''))
     (RouteChange ''r'' ''b'' ''q'')) = None"
proof -
  have "browser_reachable id (browser_step id sample_browser (EnterSearch ''x''))"
    unfolding sample_browser_def by (intro browser_reachable.intros)
  from folder_change_resets [OF this, of "''r''" "''b''" "''q''"] show ?thesis
    by (simp add: sample_browser_def browser0_def browser_ops)
qed

text \<open>opening a folder leads to a URL whose path part, decoded once, is the path of that folder
  under the current one, and it drops the selection.\<close>

theorem open_folder_url:
  assumes "utf8_valid (joinPath [br_path st, folderName])"
  shows "\<exists>u. br_navigations (navigateToFolder folderName st) = br_navigations st
        @ [(''/r/'' @ encodeURIComponent (br_roleId st) @ ''/b/'' @ encodeURIComponent (br_bucket st) @ ''/p/'' @ u, False)]
    \<and> decodePath u = Inr (joinPath [br_path st, folderName])
    \<and> selected (br_selection (navigateToFolder folderName st)) = []"
  using decodePath_encodePath_key [OF assms]
  by (auto simp: navigateToFolder_def folder_url_def clear_selection_def)

theorem open_folder_url_witness:
  "\<exists>u. decodePath u = Inr (joinPath [''p'', ''q'']) \<and> br_navigations (navigateToFolder ''q'' sample_browser) = [(''/r/'' @ encodeURIComponent ''r'' @ ''/b/'' @ encodeURIComponent ''b'' @ ''/p/'' @ u, False)]"
proof -
  have "utf8_valid (joinPath [br_path sample_browser, ''q''])"
    by (rule utf8_valid_ascii)
      (simp add: sample_browser_def browser0_def joinPath_def strip_both_def strip_front_def strip_back_def)
  from open_folder_url [OF this] show ?thesis by (auto simp: sample_browser_def browser0_def)
qed

end
