(* ===== verification/Forms.thy ===== *)
theory Forms
  imports Base
begin

text \<open>
  What the admin pages use of the form hook (the package Mantine Form): the current values, the
  baseline that \<open>setInitialValues\<close> and \<open>resetDirty\<close> set, the error map and the comparison
  \<open>isDirty\<close>.  The package is not part of the repository, so its documented behaviour is stated
  once as the assumptions of the locale \<open>baseline_form\<close>; the pages are proved against that
  contract, which the record of this theory satisfies.
\<close>

locale baseline_form =
  fixes vals :: "'f \<Rightarrow> 'v"
    and baseline :: "'f \<Rightarrow> 'v"
    and setVals :: "'v \<Rightarrow> 'f \<Rightarrow> 'f"
    and setInitial :: "'v \<Rightarrow> 'f \<Rightarrow> 'f"
  assumes vals_setVals: "vals (setVals v f) = v"
    and baseline_setVals: "baseline (setVals v f) = baseline f"
    and vals_setInitial: "vals (setInitial v f) = vals f"
    and baseline_setInitial: "baseline (setInitial v f) = v"
begin

definition dirty :: "'f \<Rightarrow> bool" where
  "dirty f \<longleftrightarrow> vals f \<noteq> baseline f"

definition dirty_in :: "('v \<Rightarrow> 'x) \<Rightarrow> 'f \<Rightarrow> bool" where
  "dirty_in fld f \<longleftrightarrow> fld (vals f) \<noteq> fld (baseline f)"

lemmas form_laws = vals_setVals baseline_setVals vals_setInitial baseline_setInitial

lemma populated_is_clean: "\<not> dirty (setVals v (setInitial v f))"
  by (simp add: dirty_def form_laws)

lemma populated_fields_clean: "\<not> dirty_in fld (setVals v (setInitial v f))"
  by (simp add: dirty_in_def form_laws)

lemma baseline_to_live_is_clean: "\<not> dirty (setInitial (vals f) f)"
  by (simp add: dirty_def form_laws)

lemma edit_makes_dirty: "dirty (setVals v f) \<longleftrightarrow> v \<noteq> baseline f"
  by (simp add: dirty_def form_laws)

lemma clean_fields: "\<not> dirty f \<Longrightarrow> \<not> dirty_in fld f"
  by (simp add: dirty_def dirty_in_def)

lemma reset_is_clean: "\<not> dirty (setVals (baseline f) f)"
  by (simp add: dirty_def form_laws)

end

subsection \<open>The record of a form\<close>

record 'v form =
  fm_values :: 'v
  fm_baseline :: 'v
  fm_errors :: "(string \<times> string) list"

definition new_form :: "'v \<Rightarrow> 'v form" where
  "new_form v = \<lparr>fm_values = v, fm_baseline = v, fm_errors = []\<rparr>"

definition setValues :: "'v \<Rightarrow> 'v form \<Rightarrow> 'v form" where
  "setValues v f = f\<lparr>fm_values := v\<rparr>"

definition setInitialValues :: "'v \<Rightarrow> 'v form \<Rightarrow> 'v form" where
  "setInitialValues v f = f\<lparr>fm_baseline := v\<rparr>"

definition form_reset :: "'v form \<Rightarrow> 'v form" where
  "form_reset f = f\<lparr>fm_values := fm_baseline f, fm_errors := []\<rparr>"

definition clearErrors :: "'v form \<Rightarrow> 'v form" where
  "clearErrors f = f\<lparr>fm_errors := []\<rparr>"

text \<open>A validator reads the values and gives at most one message; \<open>validate\<close> runs them all,
  \<open>validateField\<close> one of them.\<close>

type_synonym 'v validators = "(string \<times> ('v \<Rightarrow> string option)) list"

definition error_of :: "string \<Rightarrow> string option \<Rightarrow> (string \<times> string) list" where
  "error_of k e = (case e of None \<Rightarrow> [] | Some msg \<Rightarrow> [(k, msg)])"

definition form_errors :: "'v validators \<Rightarrow> 'v \<Rightarrow> (string \<times> string) list" where
  "form_errors rules v = concat (map (\<lambda>(k, r). error_of k (r v)) rules)"

definition form_valid :: "'v validators \<Rightarrow> 'v \<Rightarrow> bool" where
  "form_valid rules v \<longleftrightarrow> list_all (\<lambda>(k, r). r v = None) rules"

definition validate :: "'v validators \<Rightarrow> 'v form \<Rightarrow> 'v form \<times> bool" where
  "validate rules f =
     (f\<lparr>fm_errors := form_errors rules (fm_values f)\<rparr>, \<not> form_valid rules (fm_values f))"

definition validateField :: "'v validators \<Rightarrow> string \<Rightarrow> 'v form \<Rightarrow> 'v form \<times> bool" where
  "validateField rules k f =
     (let e = (case map_of rules k of None \<Rightarrow> None | Some r \<Rightarrow> r (fm_values f))
      in (f\<lparr>fm_errors := filter (\<lambda>p. fst p \<noteq> k) (fm_errors f) @ error_of k e\<rparr>, e \<noteq> None))"

text \<open>\<open>form.onSubmit\<close> hands the values on only when every validator passes.\<close>

definition onSubmit :: "'v validators \<Rightarrow> ('v \<Rightarrow> 'r) \<Rightarrow> 'v form \<Rightarrow> 'v form \<times> 'r option" where
  "onSubmit rules handle f =
     (fst (validate rules f), if form_valid rules (fm_values f) then Some (handle (fm_values f)) else None)"

interpretation pf: baseline_form fm_values fm_baseline setValues setInitialValues
  by unfold_locales (simp_all add: setValues_def setInitialValues_def)

text \<open>The executable forms of the locale's two tests.\<close>

definition isDirty :: "'v form \<Rightarrow> bool" where
  "isDirty f \<longleftrightarrow> fm_values f \<noteq> fm_baseline f"

definition isDirty_in :: "('v \<Rightarrow> 'x) \<Rightarrow> 'v form \<Rightarrow> bool" where
  "isDirty_in fld f \<longleftrightarrow> fld (fm_values f) \<noteq> fld (fm_baseline f)"

lemma isDirty_pf: "isDirty f = pf.dirty f" "isDirty_in fld f = pf.dirty_in fld f"
  by (simp_all add: isDirty_def isDirty_in_def pf.dirty_def pf.dirty_in_def)

lemma form_simps [simp]:
  "fm_values (setValues v f) = v" "fm_baseline (setValues v f) = fm_baseline f"
  "fm_errors (setValues v f) = fm_errors f"
  "fm_values (setInitialValues v f) = fm_values f" "fm_baseline (setInitialValues v f) = v"
  "fm_errors (setInitialValues v f) = fm_errors f"
  "fm_values (clearErrors f) = fm_values f" "fm_baseline (clearErrors f) = fm_baseline f"
  "fm_errors (clearErrors f) = []"
  by (simp_all add: setValues_def setInitialValues_def clearErrors_def)

lemma validate_simps [simp]:
  "fm_values (fst (validate rules f)) = fm_values f" "fm_baseline (fst (validate rules f)) = fm_baseline f"
  "snd (validate rules f) \<longleftrightarrow> \<not> form_valid rules (fm_values f)"
  "fm_values (fst (validateField rules k f)) = fm_values f"
  "fm_baseline (fst (validateField rules k f)) = fm_baseline f"
  by (simp_all add: validate_def validateField_def Let_def)

lemma snd_onSubmit:
  "snd (onSubmit rules handle f) = Some r \<longleftrightarrow> form_valid rules (fm_values f) \<and> r = handle (fm_values f)"
  by (auto simp: onSubmit_def)

lemma form_valid_rule: "form_valid rules v \<Longrightarrow> (k, r) \<in> set rules \<Longrightarrow> r v = None"
  by (auto simp: form_valid_def list_all_iff)

lemma form_valid_no_errors: "form_errors rules v = [] \<longleftrightarrow> form_valid rules v"
  by (auto simp: form_errors_def form_valid_def list_all_iff error_of_def split: option.splits)

lemma validateField_blocks:
  "distinct (map fst rules) \<Longrightarrow> (k, r) \<in> set rules \<Longrightarrow>
     snd (validateField rules k f) \<longleftrightarrow> r (fm_values f) \<noteq> None"
  by (simp add: validateField_def Let_def)

end
