(* ===== verification/Mutations.thy ===== *)
theory Mutations
  imports Toast Query_Keys
begin

text \<open>
  Mutations of the admin, token and account pages (features/*/hooks/*.ts, utils/mutationToast.tsx):
  a mutation calls the server and, only when the call succeeds, invalidates the query keys of its
  hook; \<open>runWithToasts\<close> shows one toast per call and runs the success callback.
\<close>

subsection \<open>Query keys\<close>

definition adminBansQueryKey :: query_key where "adminBansQueryKey = [''admin'', ''bans'']"
definition adminConfigQueryKey :: query_key where "adminConfigQueryKey = [''admin'', ''config'']"
definition adminUsersQueryKey :: query_key where "adminUsersQueryKey = [''admin'', ''users'']"
definition meQueryKey :: query_key where "meQueryKey = [''auth'', ''me'']"
definition configQueryKey :: query_key where "configQueryKey = [''config'']"
definition appInfoQueryKey :: query_key where "appInfoQueryKey = [''app-info'']"
definition myTokensKey :: query_key where "myTokensKey = [''my-tokens'']"
definition adminTokensKey :: query_key where "adminTokensKey = [''admin-tokens'']"

lemmas admin_key_defs = adminBansQueryKey_def adminConfigQueryKey_def adminUsersQueryKey_def
  meQueryKey_def configQueryKey_def appInfoQueryKey_def myTokensKey_def adminTokensKey_def

subsection \<open>useMutation with invalidations on success\<close>

definition mutation :: "query_key list \<Rightarrow> ('a \<Rightarrow> js_error + 'r) \<Rightarrow> 'a \<Rightarrow> (js_error + 'r) \<times> query_key list" where
  "mutation ks f a = (case f a of Inl e \<Rightarrow> (Inl e, []) | Inr r \<Rightarrow> (Inr r, ks))"

definition useSaveConfig where
  "useSaveConfig = mutation [adminConfigQueryKey, meQueryKey, configQueryKey]"

definition useUnbanUser where "useUnbanUser = mutation [adminBansQueryKey]"
definition useCreateUser where "useCreateUser = mutation [adminUsersQueryKey]"
definition useUpdateUser where "useUpdateUser = mutation [adminUsersQueryKey]"
definition useDeleteUser where "useDeleteUser = mutation [adminUsersQueryKey]"
definition useResetUserPassword where "useResetUserPassword = mutation []"
definition useLogin where "useLogin = mutation [meQueryKey]"
definition useChangeMyPassword where "useChangeMyPassword = mutation [meQueryKey]"
definition useUpdateMyDefaultRole where "useUpdateMyDefaultRole = mutation [meQueryKey]"
definition useCreateMyToken where "useCreateMyToken = mutation [myTokensKey]"
definition useDeleteMyToken where "useDeleteMyToken = mutation [myTokensKey]"
definition useUpdateMyToken where "useUpdateMyToken = mutation [myTokensKey]"
definition useCreateAdminToken where "useCreateAdminToken = mutation [adminTokensKey]"
definition useDeleteAdminToken where "useDeleteAdminToken = mutation [adminTokensKey]"
definition useUpdateAdminToken where "useUpdateAdminToken = mutation [adminTokensKey]"

lemma mutation_simps:
  "f a = Inl e \<Longrightarrow> mutation ks f a = (Inl e, [])"
  "f a = Inr r \<Longrightarrow> mutation ks f a = (Inr r, ks)"
  by (simp_all add: mutation_def)

subsection \<open>runWithToasts\<close>

definition runWithToasts :: "js_error + 'r \<Rightarrow> string \<Rightarrow> ('s \<Rightarrow> 's) \<Rightarrow> 's \<Rightarrow> toast \<times> 's" where
  "runWithToasts outcome successMessage onSuccess s =
     (case outcome of
        Inr r \<Rightarrow> (toast_of Green (Some ''Success'') successMessage duration_success, onSuccess s)
      | Inl e \<Rightarrow> (toast_of Red (Some ''Error'') (getErrorMessage e) duration_error, s))"

lemma runWithToasts_failure_keeps_state:
  "runWithToasts (Inl e) msg onSuccess s =
     (toast_of Red (Some ''Error'') (getErrorMessage e) duration_error, s)"
  by (simp add: runWithToasts_def)

lemma runWithToasts_success:
  "runWithToasts (Inr r) msg onSuccess s =
     (toast_of Green (Some ''Success'') msg duration_success, onSuccess s)"
  by (simp add: runWithToasts_def)

text \<open>Saving the configuration refreshes the admin copy, the account data and the public copy; it
  leaves the listings alone.\<close>

lemma save_config_refreshes:
  assumes "save cfg = Inr ()"
  shows "invalidates (snd (useSaveConfig save cfg)) adminConfigQueryKey
    \<and> invalidates (snd (useSaveConfig save cfg)) meQueryKey
    \<and> invalidates (snd (useSaveConfig save cfg)) configQueryKey
    \<and> \<not> invalidates (snd (useSaveConfig save cfg)) (filesQueryKey b r p)
    \<and> \<not> invalidates (snd (useSaveConfig save cfg)) adminUsersQueryKey"
  using assms
  by (simp add: useSaveConfig_def mutation_simps invalidates_def admin_key_defs filesQueryKey_def)

end
