(* ===== verification/Role_Shape.thy ===== *)
theory Role_Shape
  imports Api_Types Api_Client
begin

text \<open>
  The shapes the admin pages save: \<open>features/admin/api/roleShape.ts\<close> (only the fields of the
  role's own type), \<open>features/admin/api/configShape.ts\<close> (the allow list of the configuration),
  \<open>components/Admin/roleTypeMeta.ts\<close> (the names of the role types), and the JSON bodies
  \<open>JSON.stringify\<close> makes of them, where an absent (undefined) field is no key.
\<close>

subsection \<open>Projections\<close>

text \<open>Both shapes are projections: a fixed selection of fields.  Saving what was read back changes
  nothing more.\<close>

locale projection =
  fixes shape :: "'a \<Rightarrow> 'a"
  assumes shape_shape: "shape (shape x) = shape x"
begin

lemma shaped_iff: "(\<exists>y. x = shape y) \<longleftrightarrow> shape x = x"
  using shape_shape by metis

lemma shape_of_shaped: "x = shape y \<Longrightarrow> shape x = x"
  using shape_shape by simp

lemma shape_eq_trans: "shape x = shape y \<Longrightarrow> shape y = z \<Longrightarrow> shape x = z \<and> shape z = z"
  using shape_shape by metis

end

subsection \<open>stripIrrelevantFields\<close>

definition bare_role :: "string \<Rightarrow> role_type \<Rightarrow> app_role" where
  "bare_role nm t = \<lparr>r_name = nm, r_type = t, r_description = None, r_profile_name = None,
     r_role_arn = None, r_access_key_id = None, r_secret_access_key = None, r_region = None,
     r_endpoint_url = None, r_use_ssl = None, r_verify_ssl = None, r_addressing_style = None,
     r_allowed_buckets = None, r_allowed_prefixes = None\<rparr>"

definition stripIrrelevantFields :: "app_role \<Rightarrow> app_role" where
  "stripIrrelevantFields role =
     (let base = (bare_role (r_name role) (r_type role))
                   \<lparr>r_description := r_description role, r_allowed_buckets := r_allowed_buckets role\<rparr>
      in case r_type role of
           RT_default \<Rightarrow> base
         | RT_profile \<Rightarrow> base\<lparr>r_profile_name := r_profile_name role\<rparr>
         | RT_assume_role \<Rightarrow> base\<lparr>r_role_arn := r_role_arn role\<rparr>
         | RT_credentials \<Rightarrow>
             base\<lparr>r_access_key_id := r_access_key_id role,
                  r_secret_access_key := r_secret_access_key role, r_region := r_region role\<rparr>
         | RT_s3_compatible \<Rightarrow>
             base\<lparr>r_access_key_id := r_access_key_id role,
                  r_secret_access_key := r_secret_access_key role, r_region := r_region role,
                  r_endpoint_url := r_endpoint_url role, r_use_ssl := r_use_ssl role,
                  r_verify_ssl := r_verify_ssl role,
                  r_addressing_style := r_addressing_style role\<rparr>)"

definition keyed_type :: "role_type \<Rightarrow> bool" where
  "keyed_type t \<longleftrightarrow> t = RT_credentials \<or> t = RT_s3_compatible"

lemma keyed_type_simps [simp]:
  "\<not> keyed_type RT_default" "\<not> keyed_type RT_profile" "\<not> keyed_type RT_assume_role"
  "keyed_type RT_credentials" "keyed_type RT_s3_compatible"
  by (simp_all add: keyed_type_def)

lemma strip_fields [simp]:
  "r_name (stripIrrelevantFields role) = r_name role"
  "r_type (stripIrrelevantFields role) = r_type role"
  "r_description (stripIrrelevantFields role) = r_description role"
  "r_allowed_buckets (stripIrrelevantFields role) = r_allowed_buckets role"
  "r_allowed_prefixes (stripIrrelevantFields role) = None"
  "r_profile_name (stripIrrelevantFields role) = (if r_type role = RT_profile then r_profile_name role else None)"
  "r_role_arn (stripIrrelevantFields role) = (if r_type role = RT_assume_role then r_role_arn role else None)"
  "r_access_key_id (stripIrrelevantFields role) = (if keyed_type (r_type role) then r_access_key_id role else None)"
  "r_secret_access_key (stripIrrelevantFields role) =
     (if keyed_type (r_type role) then r_secret_access_key role else None)"
  "r_region (stripIrrelevantFields role) = (if keyed_type (r_type role) then r_region role else None)"
  "r_endpoint_url (stripIrrelevantFields role) =
     (if r_type role = RT_s3_compatible then r_endpoint_url role else None)"
  "r_use_ssl (stripIrrelevantFields role) = (if r_type role = RT_s3_compatible then r_use_ssl role else None)"
  "r_verify_ssl (stripIrrelevantFields role) =
     (if r_type role = RT_s3_compatible then r_verify_ssl role else None)"
  "r_addressing_style (stripIrrelevantFields role) =
     (if r_type role = RT_s3_compatible then r_addressing_style role else None)"
  by (cases "r_type role"; simp add: stripIrrelevantFields_def bare_role_def)+

lemma strip_idem: "stripIrrelevantFields (stripIrrelevantFields role) = stripIrrelevantFields role"
  by (rule app_role.equality) simp_all

subsection \<open>toWritableConfig\<close>

definition toWritableConfig :: "app_config \<Rightarrow> app_config" where
  "toWritableConfig config =
     \<lparr>c_roles = c_roles config, c_default_role = None,
      c_enable_lazy_loading = c_enable_lazy_loading config, c_max_file_size = c_max_file_size config,
      c_max_client_load = c_max_client_load config,
      c_presigned_url_default_ttl = c_presigned_url_default_ttl config,
      c_presigned_url_max_ttl = c_presigned_url_max_ttl config,
      c_disable_deletion = c_disable_deletion config,
      c_preview_text_extensions = c_preview_text_extensions config,
      c_upload_inline_extensions = c_upload_inline_extensions config,
      c_data_dir = None, c_is_read_only = None, c_current_role = None,
      c_password_min_length = c_password_min_length config,
      c_password_min_uppercase = c_password_min_uppercase config,
      c_password_min_lowercase = c_password_min_lowercase config,
      c_password_min_digits = c_password_min_digits config,
      c_password_min_special = c_password_min_special config,
      c_mcp_enabled = c_mcp_enabled config, c_mcp_disable_writes = c_mcp_disable_writes config,
      c_mcp_text_extensions = c_mcp_text_extensions config,
      c_mcp_global_max_read_bytes = c_mcp_global_max_read_bytes config,
      c_mcp_summary_max_keys = c_mcp_summary_max_keys config,
      c_mcp_summary_prefix_scan_pages = c_mcp_summary_prefix_scan_pages config,
      c_mcp_list_page_size = c_mcp_list_page_size config,
      c_mcp_list_max_page_size = c_mcp_list_max_page_size config\<rparr>"

text \<open>The writable shape is the configuration with its four derived fields removed.\<close>

lemma toWritableConfig_removes:
  "toWritableConfig config =
     config\<lparr>c_default_role := None, c_data_dir := None, c_is_read_only := None, c_current_role := None\<rparr>"
  by (rule app_config.equality) (simp_all add: toWritableConfig_def)

lemma toWritableConfig_roles [simp]: "c_roles (toWritableConfig config) = c_roles config"
  by (simp add: toWritableConfig_def)

interpretation role_shape: projection stripIrrelevantFields
  by unfold_locales (rule strip_idem)

interpretation config_shape: projection toWritableConfig
  by unfold_locales (simp add: toWritableConfig_def)

subsection \<open>JSON bodies\<close>

definition json_opt :: "string \<Rightarrow> ('a \<Rightarrow> json) \<Rightarrow> 'a option \<Rightarrow> (string \<times> json) list" where
  "json_opt k f v = (case v of None \<Rightarrow> [] | Some x \<Rightarrow> [(k, f x)])"

definition json_strings :: "string list \<Rightarrow> json" where
  "json_strings xs = JArr (map JStr xs)"

fun style_str :: "addressing_style \<Rightarrow> string" where
  "style_str AS_auto = ''auto''"
| "style_str AS_virtual = ''virtual''"
| "style_str AS_path = ''path''"

definition role_json :: "app_role \<Rightarrow> json" where
  "role_json r = JObj
     ([(''name'', JStr (r_name r)), (''type'', JStr (role_type_str (r_type r)))]
      @ json_opt ''description'' JStr (r_description r)
      @ json_opt ''allowed_buckets'' json_strings (r_allowed_buckets r)
      @ json_opt ''profile_name'' JStr (r_profile_name r)
      @ json_opt ''role_arn'' JStr (r_role_arn r)
      @ json_opt ''access_key_id'' JStr (r_access_key_id r)
      @ json_opt ''secret_access_key'' JStr (r_secret_access_key r)
      @ json_opt ''region'' JStr (r_region r)
      @ json_opt ''endpoint_url'' JStr (r_endpoint_url r)
      @ json_opt ''use_ssl'' JBool (r_use_ssl r)
      @ json_opt ''verify_ssl'' JBool (r_verify_ssl r)
      @ json_opt ''addressing_style'' (\<lambda>s. JStr (style_str s)) (r_addressing_style r)
      @ json_opt ''allowed_prefixes'' json_strings (r_allowed_prefixes r))"

lemma map_of_json_opt:
  "map_of (json_opt k f v @ kvs) k' =
     (if k' = k then (case v of None \<Rightarrow> map_of kvs k' | Some x \<Rightarrow> Some (f x)) else map_of kvs k')"
  "map_of (json_opt k f v) k' = (if k' = k then (case v of None \<Rightarrow> None | Some x \<Rightarrow> Some (f x)) else None)"
  by (simp_all add: json_opt_def split: option.splits)

lemma role_json_fields:
  "json_field ''secret_access_key'' (role_json r) = map_option JStr (r_secret_access_key r)"
  "json_field ''access_key_id'' (role_json r) = map_option JStr (r_access_key_id r)"
  "json_field ''allowed_prefixes'' (role_json r) = map_option json_strings (r_allowed_prefixes r)"
  "json_field ''name'' (role_json r) = Some (JStr (r_name r))"
  by (simp_all add: role_json_def map_of_json_opt map_option_case cong: option.case_cong del: map_of_append)

subsection \<open>Names of the role types\<close>

record role_type_meta =
  rt_value :: role_type
  rt_badgeLabel :: string
  rt_label :: string
  rt_description :: string

definition ROLE_TYPE_META :: "role_type_meta list" where
  "ROLE_TYPE_META =
    [\<lparr>rt_value = RT_default, rt_badgeLabel = ''AWS chain'', rt_label = ''AWS credential chain'',
      rt_description = ''Resolves credentials via the standard AWS chain '' @ [CHR 0xE2, CHR 0x80, CHR 0x94]
         @ '' no keys stored in this app.''\<rparr>,
     \<lparr>rt_value = RT_profile, rt_badgeLabel = ''AWS profile'', rt_label = ''Named AWS profile'',
      rt_description = ''References a named profile from ~/.aws/credentials or ~/.aws/config.''\<rparr>,
     \<lparr>rt_value = RT_assume_role, rt_badgeLabel = ''Assume role'', rt_label = ''STS assume role'',
      rt_description = ''Assumes a target IAM role via STS using the base credentials.''\<rparr>,
     \<lparr>rt_value = RT_credentials, rt_badgeLabel = ''Access keys'', rt_label = ''Static access key + secret'',
      rt_description = ''An AWS access key + secret stored directly in this app.''\<rparr>,
     \<lparr>rt_value = RT_s3_compatible, rt_badgeLabel = ''S3-compatible'', rt_label = ''Other S3-compatible service'',
      rt_description = ''Cloudflare R2, MinIO, Backblaze B2, Wasabi, etc. '' @ [CHR 0xE2, CHR 0x80, CHR 0x94]
         @ '' custom endpoint URL.''\<rparr>]"

definition roleTypeMeta :: "role_type \<Rightarrow> role_type_meta" where
  "roleTypeMeta t =
     (case find (\<lambda>m. rt_value m = t) ROLE_TYPE_META of
        Some m \<Rightarrow> m
      | None \<Rightarrow> \<lparr>rt_value = t, rt_badgeLabel = role_type_str t, rt_label = role_type_str t,
                 rt_description = ''Unknown role type.''\<rparr>)"

lemma roleTypeMeta_of: "roleTypeMeta t \<in> set ROLE_TYPE_META \<and> rt_value (roleTypeMeta t) = t"
  by (cases t) (simp_all add: roleTypeMeta_def ROLE_TYPE_META_def)

lemma role_labels_distinct: "rt_badgeLabel (roleTypeMeta t) = rt_badgeLabel (roleTypeMeta u) \<Longrightarrow> t = u"
  by (cases t; cases u) (simp_all add: roleTypeMeta_def ROLE_TYPE_META_def)

end
