(* ===== verification/Role_Drawer.thy ===== *)
theory Role_Drawer
  imports Role_Shape Forms Js_Text Toast
begin

text \<open>
  The drawer that creates and edits roles (\<open>components/Admin/RoleDrawer.tsx\<close> and the fields of
  \<open>components/Admin/RoleFormFields.tsx\<close>): the validators with their two regular expressions, the
  effect that fills the form, the three steps of the wizard, the edit form, and the preview of the
  review step.  \<open>String.trim\<close> is a parameter: nothing here depends on which characters it removes.
\<close>

subsection \<open>The two regular expressions\<close>

definition char_between :: "nat \<Rightarrow> nat \<Rightarrow> char \<Rightarrow> bool" where
  "char_between lo hi c \<longleftrightarrow> lo \<le> of_char c \<and> of_char c \<le> hi"

definition arn_partition_char :: "char \<Rightarrow> bool" where
  "arn_partition_char c \<longleftrightarrow> char_between 97 122 c \<or> c = CHR ''-''"

definition word_char :: "char \<Rightarrow> bool" where
  "word_char c \<longleftrightarrow> char_between 97 122 c \<or> char_between 65 90 c \<or> is_digit c \<or> c = CHR ''_''"

definition arn_name_char :: "char \<Rightarrow> bool" where
  "arn_name_char c \<longleftrightarrow> word_char c \<or> c \<in> set ''+=,.@/-''"

definition arn_regex :: "string \<Rightarrow> bool" where
  "arn_regex s =
     (let r = dropWhile arn_partition_char (drop 7 s);
          d = drop 6 r;
          n = drop 6 (dropWhile is_digit d)
      in starts_with s ''arn:aws'' \<and> starts_with r '':iam::'' \<and> length (takeWhile is_digit d) = 12
         \<and> starts_with (dropWhile is_digit d) '':role/'' \<and> n \<noteq> [] \<and> list_all arn_name_char n)"

definition akia_char :: "char \<Rightarrow> bool" where
  "akia_char c \<longleftrightarrow> char_between 65 90 c \<or> is_digit c"

definition akia_regex :: "string \<Rightarrow> bool" where
  "akia_regex s \<longleftrightarrow> starts_with s ''AKIA'' \<and> length (drop 4 s) = 16 \<and> list_all akia_char (drop 4 s)"

subsection \<open>Validators\<close>

datatype drawer_mode = CreateMode | EditMode

definition blank :: "(string \<Rightarrow> string) \<Rightarrow> string option \<Rightarrow> bool" where
  "blank trim v = (case v of None \<Rightarrow> True | Some s \<Rightarrow> s = [] \<or> trim s = [])"

definition name_rule :: "(string \<Rightarrow> string) \<Rightarrow> app_role \<Rightarrow> string option" where
  "name_rule trim v = (if blank trim (Some (r_name v)) then Some ''Required'' else None)"

definition profile_rule :: "(string \<Rightarrow> string) \<Rightarrow> app_role \<Rightarrow> string option" where
  "profile_rule trim v =
     (if r_type v = RT_profile \<and> blank trim (r_profile_name v) then Some ''Required for profile type'' else None)"

definition arn_rule :: "(string \<Rightarrow> string) \<Rightarrow> drawer_mode \<Rightarrow> app_role \<Rightarrow> string option" where
  "arn_rule trim mode v =
     (if r_type v \<noteq> RT_assume_role then None
      else if blank trim (r_role_arn v) then Some ''Required for assume_role type''
      else if mode \<noteq> CreateMode then None
      else if \<not> arn_regex (trim (the (r_role_arn v)))
           then Some ''Must look like arn:aws:iam::<account-id>:role/<RoleName>''
      else None)"

definition access_key_rule :: "(string \<Rightarrow> string) \<Rightarrow> drawer_mode \<Rightarrow> app_role \<Rightarrow> string option" where
  "access_key_rule trim mode v =
     (if \<not> (r_type v = RT_credentials \<or> r_type v = RT_s3_compatible) then None
      else if blank trim (r_access_key_id v) then Some ''Required''
      else if mode \<noteq> CreateMode then None
      else if r_type v = RT_credentials \<and> \<not> akia_regex (trim (the (r_access_key_id v)))
           then Some ''Static AWS access key IDs start with AKIA followed by 16 uppercase chars. For temporary STS credentials use the 'STS assume role' type.''
      else None)"

definition secret_rule :: "(string \<Rightarrow> string) \<Rightarrow> drawer_mode \<Rightarrow> app_role \<Rightarrow> string option" where
  "secret_rule trim mode v =
     (if (r_type v = RT_credentials \<or> r_type v = RT_s3_compatible) \<and> mode = CreateMode
         \<and> blank trim (r_secret_access_key v) then Some ''Required'' else None)"

definition endpoint_rule :: "(string \<Rightarrow> string) \<Rightarrow> app_role \<Rightarrow> string option" where
  "endpoint_rule trim v =
     (if r_type v = RT_s3_compatible \<and> blank trim (r_endpoint_url v)
      then Some ''Required for s3_compatible type'' else None)"

definition role_rules :: "(string \<Rightarrow> string) \<Rightarrow> drawer_mode \<Rightarrow> app_role validators" where
  "role_rules trim mode =
     [(''name'', name_rule trim), (''profile_name'', profile_rule trim), (''role_arn'', arn_rule trim mode),
      (''access_key_id'', access_key_rule trim mode), (''secret_access_key'', secret_rule trim mode),
      (''endpoint_url'', endpoint_rule trim)]"

lemmas role_rule_defs = name_rule_def profile_rule_def arn_rule_def access_key_rule_def
  secret_rule_def endpoint_rule_def

text \<open>What the validators accept, read off: the name is never blank, and each type has what it
  needs.\<close>

definition well_formed_role :: "(string \<Rightarrow> string) \<Rightarrow> drawer_mode \<Rightarrow> app_role \<Rightarrow> bool" where
  "well_formed_role trim mode v \<longleftrightarrow>
     \<not> blank trim (Some (r_name v))
     \<and> (case r_type v of
          RT_default \<Rightarrow> True
        | RT_profile \<Rightarrow> \<not> blank trim (r_profile_name v)
        | RT_assume_role \<Rightarrow> \<not> blank trim (r_role_arn v)
            \<and> (mode = CreateMode \<longrightarrow> arn_regex (trim (the (r_role_arn v))))
        | RT_credentials \<Rightarrow> \<not> blank trim (r_access_key_id v)
            \<and> (mode = CreateMode \<longrightarrow> akia_regex (trim (the (r_access_key_id v)))
                 \<and> \<not> blank trim (r_secret_access_key v))
        | RT_s3_compatible \<Rightarrow> \<not> blank trim (r_access_key_id v) \<and> \<not> blank trim (r_endpoint_url v)
            \<and> (mode = CreateMode \<longrightarrow> \<not> blank trim (r_secret_access_key v)))"

lemma role_valid_iff: "form_valid (role_rules trim mode) v \<longleftrightarrow> well_formed_role trim mode v"
  by (cases "r_type v") (auto simp: form_valid_def role_rules_def role_rule_defs well_formed_role_def)

lemma well_formed_strip: "well_formed_role trim mode (stripIrrelevantFields v) = well_formed_role trim mode v"
  by (cases "r_type v") (simp_all add: well_formed_role_def)

lemma name_rule_of_validateField:
  "snd (validateField (role_rules trim mode) ''name'' f) \<longleftrightarrow> name_rule trim (fm_values f) \<noteq> None"
  by (rule validateField_blocks) (simp_all add: role_rules_def)

subsection \<open>Filling the form\<close>

definition EMPTY_ROLE :: app_role where
  "EMPTY_ROLE = (bare_role [] RT_default)
     \<lparr>r_description := Some [], r_use_ssl := Some True, r_verify_ssl := Some True,
      r_addressing_style := Some AS_auto, r_allowed_buckets := Some [],
      r_secret_access_key := Some [], r_access_key_id := Some [], r_profile_name := Some [],
      r_role_arn := Some [], r_endpoint_url := Some [], r_region := Some []\<rparr>"

definition or_else :: "'a option \<Rightarrow> 'a option \<Rightarrow> 'a option" where
  "or_else a b = (case a of None \<Rightarrow> b | Some x \<Rightarrow> Some x)"

definition populated_role :: "app_role \<Rightarrow> app_role" where
  "populated_role initialRole =
     \<lparr>r_name = r_name initialRole, r_type = r_type initialRole,
      r_description = or_else (r_description initialRole) (r_description EMPTY_ROLE),
      r_profile_name = or_else (r_profile_name initialRole) (r_profile_name EMPTY_ROLE),
      r_role_arn = or_else (r_role_arn initialRole) (r_role_arn EMPTY_ROLE),
      r_access_key_id = or_else (r_access_key_id initialRole) (r_access_key_id EMPTY_ROLE),
      r_secret_access_key = Some [],
      r_region = or_else (r_region initialRole) (r_region EMPTY_ROLE),
      r_endpoint_url = or_else (r_endpoint_url initialRole) (r_endpoint_url EMPTY_ROLE),
      r_use_ssl = or_else (r_use_ssl initialRole) (r_use_ssl EMPTY_ROLE),
      r_verify_ssl = or_else (r_verify_ssl initialRole) (r_verify_ssl EMPTY_ROLE),
      r_addressing_style = or_else (r_addressing_style initialRole) (r_addressing_style EMPTY_ROLE),
      r_allowed_buckets = or_else (r_allowed_buckets initialRole) (r_allowed_buckets EMPTY_ROLE),
      r_allowed_prefixes = r_allowed_prefixes initialRole\<rparr>"

text \<open>Setting values merges keys: a key that the new values lack keeps its old value.  Only
  \<open>allowed_prefixes\<close> can be lacking, since \<open>EMPTY_ROLE\<close> has every other one.\<close>

definition merge_role :: "app_role \<Rightarrow> app_role \<Rightarrow> app_role" where
  "merge_role old new = new\<lparr>r_allowed_prefixes := or_else (r_allowed_prefixes new) (r_allowed_prefixes old)\<rparr>"

definition fill_form :: "app_role \<Rightarrow> app_role form \<Rightarrow> app_role form" where
  "fill_form v f = setValues (merge_role (fm_values f) v) (setInitialValues v f)"

record role_drawer =
  rd_opened :: bool
  rd_mode :: drawer_mode
  rd_initial :: "app_role option"
  rd_active :: nat
  rd_form :: "app_role form"
  rd_submitted :: "(app_role \<times> drawer_mode \<times> string option) list"
  rd_notes :: "(toast_color \<times> string) list"

definition drawer0 :: role_drawer where
  "drawer0 = \<lparr>rd_opened = False, rd_mode = CreateMode, rd_initial = None, rd_active = 0,
     rd_form = new_form EMPTY_ROLE, rd_submitted = [], rd_notes = []\<rparr>"

definition drawer_effect :: "role_drawer \<Rightarrow> role_drawer" where
  "drawer_effect st =
     (if \<not> rd_opened st then st
      else case (rd_mode st, rd_initial st) of
             (EditMode, Some initialRole) \<Rightarrow>
               st\<lparr>rd_form := fill_form (populated_role initialRole) (rd_form st)\<rparr>
           | (EditMode, None) \<Rightarrow> st
           | (CreateMode, _) \<Rightarrow>
               st\<lparr>rd_form := clearErrors (fill_form EMPTY_ROLE (rd_form st)), rd_active := 0\<rparr>)"

subsection \<open>Inputs\<close>

text \<open>A selection can also be cleared; the key is then absent like one that was never set.\<close>

datatype role_edit =
    SetName string | SetDescription string | SetType role_type | SetProfileName string
  | SetRoleArn string | SetAccessKeyId string | SetSecretAccessKey string | SetRegion string
  | SetEndpointUrl string | SetUseSsl bool | SetVerifySsl bool | SetAddressingStyle addressing_style
  | ClearAddressingStyle | SetAllowedBuckets "string list"

fun apply_edit :: "role_edit \<Rightarrow> app_role \<Rightarrow> app_role" where
  "apply_edit (SetName s) v = v\<lparr>r_name := s\<rparr>"
| "apply_edit (SetDescription s) v = v\<lparr>r_description := Some s\<rparr>"
| "apply_edit (SetType t) v = v\<lparr>r_type := t\<rparr>"
| "apply_edit (SetProfileName s) v = v\<lparr>r_profile_name := Some s\<rparr>"
| "apply_edit (SetRoleArn s) v = v\<lparr>r_role_arn := Some s\<rparr>"
| "apply_edit (SetAccessKeyId s) v = v\<lparr>r_access_key_id := Some s\<rparr>"
| "apply_edit (SetSecretAccessKey s) v = v\<lparr>r_secret_access_key := Some s\<rparr>"
| "apply_edit (SetRegion s) v = v\<lparr>r_region := Some s\<rparr>"
| "apply_edit (SetEndpointUrl s) v = v\<lparr>r_endpoint_url := Some s\<rparr>"
| "apply_edit (SetUseSsl b) v = v\<lparr>r_use_ssl := Some b\<rparr>"
| "apply_edit (SetVerifySsl b) v = v\<lparr>r_verify_ssl := Some b\<rparr>"
| "apply_edit (SetAddressingStyle a) v = v\<lparr>r_addressing_style := Some a\<rparr>"
| "apply_edit ClearAddressingStyle v = v\<lparr>r_addressing_style := None\<rparr>"
| "apply_edit (SetAllowedBuckets bs) v = v\<lparr>r_allowed_buckets := Some bs\<rparr>"

datatype form_step = StepType | StepCredentials | StepAll

definition shown_step :: "role_drawer \<Rightarrow> form_step option" where
  "shown_step st =
     (if rd_mode st = EditMode then Some StepAll
      else if rd_active st = 0 then Some StepType
      else if rd_active st = 1 then Some StepCredentials else None)"

text \<open>Which inputs of \<open>RoleFormFields\<close> are rendered and enabled.\<close>

fun input_enabled :: "bool \<Rightarrow> drawer_mode \<Rightarrow> form_step \<Rightarrow> role_type \<Rightarrow> role_edit \<Rightarrow> bool" where
  "input_enabled disabled mode step t (SetName s) \<longleftrightarrow>
     (step = StepType \<or> step = StepAll) \<and> \<not> (disabled \<or> mode = EditMode)"
| "input_enabled disabled mode step t (SetDescription s) \<longleftrightarrow>
     (step = StepType \<or> step = StepAll) \<and> \<not> disabled"
| "input_enabled disabled mode step t (SetType u) \<longleftrightarrow>
     (step = StepType \<or> step = StepAll) \<and> \<not> (disabled \<or> mode = EditMode)"
| "input_enabled disabled mode step t (SetProfileName s) \<longleftrightarrow>
     (step = StepCredentials \<or> step = StepAll) \<and> t = RT_profile \<and> \<not> disabled"
| "input_enabled disabled mode step t (SetRoleArn s) \<longleftrightarrow>
     (step = StepCredentials \<or> step = StepAll) \<and> t = RT_assume_role \<and> \<not> disabled"
| "input_enabled disabled mode step t (SetAllowedBuckets bs) \<longleftrightarrow>
     (step = StepCredentials \<or> step = StepAll) \<and> \<not> disabled"
| "input_enabled disabled mode step t (SetEndpointUrl s) \<longleftrightarrow>
     (step = StepCredentials \<or> step = StepAll) \<and> t = RT_s3_compatible \<and> \<not> disabled"
| "input_enabled disabled mode step t (SetUseSsl b) \<longleftrightarrow>
     (step = StepCredentials \<or> step = StepAll) \<and> t = RT_s3_compatible \<and> \<not> disabled"
| "input_enabled disabled mode step t (SetVerifySsl b) \<longleftrightarrow>
     (step = StepCredentials \<or> step = StepAll) \<and> t = RT_s3_compatible \<and> \<not> disabled"
| "input_enabled disabled mode step t (SetAddressingStyle a) \<longleftrightarrow>
     (step = StepCredentials \<or> step = StepAll) \<and> t = RT_s3_compatible \<and> \<not> disabled"
| "input_enabled disabled mode step t ClearAddressingStyle \<longleftrightarrow>
     (step = StepCredentials \<or> step = StepAll) \<and> t = RT_s3_compatible \<and> \<not> disabled"
| "input_enabled disabled mode step t _ \<longleftrightarrow>
     (step = StepCredentials \<or> step = StepAll) \<and> (t = RT_credentials \<or> t = RT_s3_compatible) \<and> \<not> disabled"

definition edit_allowed :: "bool \<Rightarrow> role_drawer \<Rightarrow> role_edit \<Rightarrow> bool" where
  "edit_allowed readOnly st e =
     (rd_opened st \<and>
      (case shown_step st of
         None \<Rightarrow> False
       | Some step \<Rightarrow> input_enabled (rd_mode st = EditMode \<and> readOnly) (rd_mode st) step
                        (r_type (fm_values (rd_form st))) e))"

definition input :: "role_edit \<Rightarrow> role_drawer \<Rightarrow> role_drawer" where
  "input e st =
     (let f = setValues (apply_edit e (fm_values (rd_form st))) (rd_form st)
      in st\<lparr>rd_form := (case e of SetType _ \<Rightarrow> clearErrors f | _ \<Rightarrow> f)\<rparr>)"

subsection \<open>The wizard\<close>

definition goNext :: "(string \<Rightarrow> string) \<Rightarrow> role_drawer \<Rightarrow> role_drawer" where
  "goNext trim st =
     (if rd_active st = 0 then
        (case validateField (role_rules trim (rd_mode st)) ''name'' (rd_form st) of
           (f, hasError) \<Rightarrow> if hasError then st\<lparr>rd_form := f\<rparr> else st\<lparr>rd_form := f, rd_active := 1\<rparr>)
      else if rd_active st = 1 then
        (case validate (role_rules trim (rd_mode st)) (rd_form st) of
           (f, hasErrors) \<Rightarrow>
             if hasErrors then st\<lparr>rd_form := f\<rparr>
             else st\<lparr>rd_form := f, rd_active := min (rd_active st + 1) 2\<rparr>)
      else st\<lparr>rd_active := min (rd_active st + 1) 2\<rparr>)"

definition goPrev :: "role_drawer \<Rightarrow> role_drawer" where
  "goPrev st = st\<lparr>rd_active := rd_active st - 1\<rparr>"

definition stepClick :: "nat \<Rightarrow> role_drawer \<Rightarrow> role_drawer" where
  "stepClick s st = (if s < rd_active st then st\<lparr>rd_active := s\<rparr> else st)"

definition onCreate :: "app_config option \<Rightarrow> role_drawer \<Rightarrow> role_drawer" where
  "onCreate config st =
     (case config of
        None \<Rightarrow> st
      | Some cfg \<Rightarrow>
          (let v = fm_values (rd_form st)
           in if list_ex (\<lambda>r. r_name r = r_name v) (c_roles cfg)
              then st\<lparr>rd_notes := rd_notes st
                        @ [(Red, ''A role named '' @ [CHR 0x22] @ r_name v @ [CHR 0x22] @ '' already exists.'')],
                      rd_active := 0\<rparr>
              else st\<lparr>rd_submitted := rd_submitted st @ [(stripIrrelevantFields v, CreateMode, None)]\<rparr>))"

definition onEditFormSubmit :: "(string \<Rightarrow> string) \<Rightarrow> role_drawer \<Rightarrow> role_drawer" where
  "onEditFormSubmit trim st =
     (case onSubmit (role_rules trim (rd_mode st)) stripIrrelevantFields (rd_form st) of
        (f, None) \<Rightarrow> st\<lparr>rd_form := f\<rparr>
      | (f, Some role) \<Rightarrow> st\<lparr>rd_form := f, rd_submitted := rd_submitted st
             @ [(role, EditMode, map_option r_name (rd_initial st))]\<rparr>)"

definition REDACTED :: string where "REDACTED = ''***REDACTED***''"

definition previewRole :: "role_drawer \<Rightarrow> app_role" where
  "previewRole st =
     (let p = stripIrrelevantFields (fm_values (rd_form st))
      in case r_secret_access_key p of
           Some s \<Rightarrow> if s \<noteq> [] then p\<lparr>r_secret_access_key := Some REDACTED\<rparr> else p
         | None \<Rightarrow> p)"

datatype drawer_event =
    DrawerOpen drawer_mode "app_role option"
  | DrawerClose
  | DrawerInput role_edit
  | DrawerNext
  | DrawerPrev
  | DrawerStepClick nat
  | DrawerSave "app_config option"
  | DrawerSubmit

fun drawer_enabled :: "bool \<Rightarrow> role_drawer \<Rightarrow> drawer_event \<Rightarrow> bool" where
  "drawer_enabled readOnly st (DrawerInput e) \<longleftrightarrow> edit_allowed readOnly st e"
| "drawer_enabled readOnly st DrawerNext \<longleftrightarrow> rd_opened st \<and> rd_mode st = CreateMode \<and> rd_active st < 2"
| "drawer_enabled readOnly st DrawerPrev \<longleftrightarrow> rd_opened st \<and> rd_mode st = CreateMode \<and> 0 < rd_active st"
| "drawer_enabled readOnly st (DrawerStepClick s) \<longleftrightarrow> rd_opened st \<and> rd_mode st = CreateMode"
| "drawer_enabled readOnly st (DrawerSave config) \<longleftrightarrow>
     rd_opened st \<and> rd_mode st = CreateMode \<and> rd_active st = 2"
| "drawer_enabled readOnly st DrawerSubmit \<longleftrightarrow> rd_opened st \<and> rd_mode st = EditMode \<and> \<not> readOnly"
| "drawer_enabled readOnly st _ \<longleftrightarrow> True"

fun drawer_step :: "(string \<Rightarrow> string) \<Rightarrow> role_drawer \<Rightarrow> drawer_event \<Rightarrow> role_drawer" where
  "drawer_step trim st (DrawerOpen mode initialRole) =
     drawer_effect (st\<lparr>rd_opened := True, rd_mode := mode, rd_initial := initialRole\<rparr>)"
| "drawer_step trim st DrawerClose = drawer_effect (st\<lparr>rd_opened := False, rd_initial := None\<rparr>)"
| "drawer_step trim st (DrawerInput e) = input e st"
| "drawer_step trim st DrawerNext = goNext trim st"
| "drawer_step trim st DrawerPrev = goPrev st"
| "drawer_step trim st (DrawerStepClick s) = stepClick s st"
| "drawer_step trim st (DrawerSave config) = onCreate config st"
| "drawer_step trim st DrawerSubmit = onEditFormSubmit trim st"

inductive drawer_reachable :: "(string \<Rightarrow> string) \<Rightarrow> role_drawer \<Rightarrow> bool" for trim where
  start: "drawer_reachable trim drawer0"
| event: "drawer_reachable trim st \<Longrightarrow> drawer_enabled readOnly st ev \<Longrightarrow>
    drawer_reachable trim (drawer_step trim st ev)"

subsection \<open>The regular expressions, declaratively\<close>

lemma takeWhile_block:
  "list_all P a \<Longrightarrow> \<not> P x \<Longrightarrow> takeWhile P (a @ x # b) = a \<and> dropWhile P (a @ x # b) = x # b"
  by (induction a) simp_all

lemma arn_regex_spec:
  "arn_regex s \<longleftrightarrow>
     (\<exists>p a n. s = ''arn:aws'' @ p @ '':iam::'' @ a @ '':role/'' @ n \<and> list_all arn_partition_char p
        \<and> length a = 12 \<and> list_all is_digit a \<and> n \<noteq> [] \<and> list_all arn_name_char n)"
  (is "_ \<longleftrightarrow> ?R")
proof
  assume arn: "arn_regex s"
  define r where "r = dropWhile arn_partition_char (drop 7 s)"
  define d where "d = drop 6 r"
  define n where "n = drop 6 (dropWhile is_digit d)"
  have f: "starts_with s ''arn:aws''" "starts_with r '':iam::''" "length (takeWhile is_digit d) = 12"
    "starts_with (dropWhile is_digit d) '':role/''" "n \<noteq> []" "list_all arn_name_char n"
    using arn by (simp_all add: arn_regex_def r_def d_def n_def Let_def)
  have "s = ''arn:aws'' @ drop 7 s" using f(1) by (auto simp: starts_with_iff)
  moreover have "drop 7 s = takeWhile arn_partition_char (drop 7 s) @ r" by (simp add: r_def)
  moreover have "r = '':iam::'' @ d" using f(2) by (auto simp: starts_with_iff d_def)
  moreover have "d = takeWhile is_digit d @ dropWhile is_digit d" by simp
  moreover have "dropWhile is_digit d = '':role/'' @ n" using f(4) by (auto simp: starts_with_iff n_def)
  ultimately have "s = ''arn:aws'' @ takeWhile arn_partition_char (drop 7 s) @ '':iam::''
      @ takeWhile is_digit d @ '':role/'' @ n" by metis
  moreover have "list_all arn_partition_char (takeWhile arn_partition_char (drop 7 s))"
    "list_all is_digit (takeWhile is_digit d)"
    by (auto simp: list_all_iff dest: set_takeWhileD)
  ultimately show ?R using f by blast
next
  assume ?R
  then obtain p a n where s: "s = ''arn:aws'' @ p @ '':iam::'' @ a @ '':role/'' @ n"
    and P: "list_all arn_partition_char p" "length a = 12" "list_all is_digit a" "n \<noteq> []"
      "list_all arn_name_char n" by blast
  have "\<not> arn_partition_char CHR '':''" "\<not> is_digit CHR '':''" by code_simp+
  then have "dropWhile arn_partition_char (p @ '':iam::'' @ a @ '':role/'' @ n) = '':iam::'' @ a @ '':role/'' @ n"
    "takeWhile is_digit (a @ '':role/'' @ n) = a" "dropWhile is_digit (a @ '':role/'' @ n) = '':role/'' @ n"
    using takeWhile_block[OF P(1)] takeWhile_block[OF P(3)] by simp_all
  moreover have "drop 7 s = p @ '':iam::'' @ a @ '':role/'' @ n" by (simp add: s)
  ultimately show "arn_regex s" using P by (simp add: arn_regex_def Let_def starts_with_def s)
qed

subsection \<open>Reachable drawers\<close>

definition drawer_inv :: "(string \<Rightarrow> string) \<Rightarrow> role_drawer \<Rightarrow> bool" where
  "drawer_inv trim st \<longleftrightarrow>
     rd_active st \<le> 2
     \<and> (rd_mode st = CreateMode \<and> rd_active st = 2 \<longrightarrow>
          well_formed_role trim CreateMode (fm_values (rd_form st)))
     \<and> (\<forall>role prev. (role, CreateMode, prev) \<in> set (rd_submitted st) \<longrightarrow>
          well_formed_role trim CreateMode role \<and> stripIrrelevantFields role = role)"

lemma inv_open:
  "drawer_inv trim st \<Longrightarrow> drawer_inv trim (drawer_effect (st\<lparr>rd_opened := True, rd_mode := m, rd_initial := i\<rparr>))"
  by (auto simp: drawer_inv_def drawer_effect_def split: drawer_mode.splits option.splits)

lemma inv_close:
  "drawer_inv trim st \<Longrightarrow> drawer_inv trim (drawer_effect (st\<lparr>rd_opened := False, rd_initial := None\<rparr>))"
  by (simp add: drawer_inv_def drawer_effect_def)

lemma inv_input:
  "drawer_inv trim st \<Longrightarrow> edit_allowed readOnly st e \<Longrightarrow> drawer_inv trim (input e st)"
  by (auto simp: drawer_inv_def input_def edit_allowed_def shown_step_def Let_def split: if_splits)

lemma inv_next: "drawer_inv trim st \<Longrightarrow> rd_mode st = CreateMode \<Longrightarrow> drawer_inv trim (goNext trim st)"
  by (auto simp: drawer_inv_def goNext_def role_valid_iff prod.case_eq_if)

lemma inv_back:
  "drawer_inv trim st \<Longrightarrow> drawer_inv trim (goPrev st)"
  "drawer_inv trim st \<Longrightarrow> drawer_inv trim (stepClick s st)"
  by (auto simp: drawer_inv_def goPrev_def stepClick_def)

lemma inv_save:
  "drawer_inv trim st \<Longrightarrow> rd_mode st = CreateMode \<Longrightarrow> rd_active st = 2 \<Longrightarrow> drawer_inv trim (onCreate config st)"
  by (auto simp: drawer_inv_def onCreate_def Let_def well_formed_strip strip_idem split: option.split)

lemma inv_submit: "drawer_inv trim st \<Longrightarrow> rd_mode st = EditMode \<Longrightarrow> drawer_inv trim (onEditFormSubmit trim st)"
  by (auto simp: drawer_inv_def onEditFormSubmit_def split: option.split prod.split)

lemma inv_step:
  "drawer_inv trim st \<Longrightarrow> drawer_enabled readOnly st ev \<Longrightarrow> drawer_inv trim (drawer_step trim st ev)"
  by (cases ev) (auto simp: inv_open inv_close inv_input inv_next inv_back inv_save inv_submit)

lemma reachable_inv: "drawer_reachable trim st \<Longrightarrow> drawer_inv trim st"
  by (induction rule: drawer_reachable.induct) (auto simp: inv_step, simp add: drawer_inv_def drawer0_def)

text \<open>C19: the review step of the wizard is reached only with a form every validator accepts, and a
  role created by the wizard satisfies all of them (a name, the right ARN or key format, the secret
  and the endpoint its type needs) and carries no field of another type, whatever the user typed,
  switched or stepped back to on the way.\<close>

theorem created_roles_well_formed:
  assumes "drawer_reachable trim st"
  shows "(rd_mode st = CreateMode \<and> rd_active st = 2 \<longrightarrow>
            form_valid (role_rules trim CreateMode) (fm_values (rd_form st)))
    \<and> (\<forall>role prev. (role, CreateMode, prev) \<in> set (rd_submitted st) \<longrightarrow>
         form_valid (role_rules trim CreateMode) role \<and> stripIrrelevantFields role = role)"
  using reachable_inv[OF assms] by (auto simp: drawer_inv_def role_valid_iff)

text \<open>A run of the wizard, event by event.\<close>

fun drawer_run :: "(string \<Rightarrow> string) \<Rightarrow> bool \<Rightarrow> drawer_event list \<Rightarrow> role_drawer \<Rightarrow> role_drawer option" where
  "drawer_run trim readOnly [] st = Some st"
| "drawer_run trim readOnly (ev # evs) st =
     (if drawer_enabled readOnly st ev then drawer_run trim readOnly evs (drawer_step trim st ev) else None)"

lemma drawer_run_reachable:
  "drawer_reachable trim st \<Longrightarrow> drawer_run trim readOnly evs st = Some st' \<Longrightarrow> drawer_reachable trim st'"
  by (induction evs arbitrary: st) (auto split: if_splits intro: drawer_reachable.event)

definition sample_config :: app_config where
  "sample_config =
     \<lparr>c_roles = [(bare_role ''old'' RT_default)\<lparr>r_allowed_prefixes := Some [''team/'']\<rparr>],
      c_default_role = None, c_enable_lazy_loading = True, c_max_file_size = 1000000, c_max_client_load = 10000,
      c_presigned_url_default_ttl = 3600, c_presigned_url_max_ttl = 604800, c_disable_deletion = False,
      c_preview_text_extensions = None, c_upload_inline_extensions = None, c_data_dir = Some ''/data'',
      c_is_read_only = Some False, c_current_role = None, c_password_min_length = 8,
      c_password_min_uppercase = 1, c_password_min_lowercase = 1, c_password_min_digits = 1,
      c_password_min_special = 0, c_mcp_enabled = True, c_mcp_disable_writes = False,
      c_mcp_text_extensions = [], c_mcp_global_max_read_bytes = 10485761, c_mcp_summary_max_keys = 50000,
      c_mcp_summary_prefix_scan_pages = 20, c_mcp_list_page_size = 1000, c_mcp_list_max_page_size = 10000\<rparr>"

definition wizard_events :: "drawer_event list" where
  "wizard_events =
     [DrawerOpen CreateMode None, DrawerNext, DrawerInput (SetName ''backup''), DrawerInput (SetType RT_credentials),
      DrawerNext, DrawerNext, DrawerInput (SetSecretAccessKey ''s3cret''), DrawerPrev,
      DrawerInput (SetType RT_profile), DrawerNext, DrawerInput (SetProfileName ''prod''), DrawerNext,
      DrawerSave (Some sample_config)]"

lemmas drawer_step_defs = drawer_effect_def input_def edit_allowed_def goNext_def goPrev_def
  onCreate_def shown_step_def validate_def validateField_def form_valid_def role_rules_def
  role_rule_defs blank_def fill_form_def merge_role_def or_else_def new_form_def setValues_def
  setInitialValues_def clearErrors_def EMPTY_ROLE_def bare_role_def stripIrrelevantFields_def Let_def

lemma wizard_run:
  "map_option rd_submitted (drawer_run (\<lambda>s. s) False wizard_events drawer0) =
     Some [((bare_role ''backup'' RT_profile)\<lparr>r_description := Some [], r_profile_name := Some ''prod'',
              r_allowed_buckets := Some []\<rparr>, CreateMode, None)]"
  by (simp add: wizard_events_def sample_config_def drawer0_def drawer_step_defs)

lemma wizard_reaches:
  "\<exists>st. drawer_reachable (\<lambda>s. s) st \<and> rd_submitted st =
     [((bare_role ''backup'' RT_profile)\<lparr>r_description := Some [], r_profile_name := Some ''prod'',
         r_allowed_buckets := Some []\<rparr>, CreateMode, None)]"
  using wizard_run drawer_run_reachable[OF drawer_reachable.start, of "\<lambda>s. s" False wizard_events] by auto

theorem created_roles_well_formed_witness:
  "form_valid (role_rules (\<lambda>s. s) CreateMode)
     ((bare_role ''backup'' RT_profile)\<lparr>r_description := Some [], r_profile_name := Some ''prod'',
        r_allowed_buckets := Some []\<rparr>)"
proof -
  obtain st where st: "drawer_reachable (\<lambda>s. s) st"
    and sub: "rd_submitted st = [((bare_role ''backup'' RT_profile)\<lparr>r_description := Some [],
        r_profile_name := Some ''prod'', r_allowed_buckets := Some []\<rparr>, CreateMode, None)]"
    using wizard_reaches by blast
  show ?thesis using created_roles_well_formed[OF st] unfolding sub by simp
qed

subsection \<open>The preview\<close>

text \<open>the preview of the review step never shows a typed secret, and apart from the masked secret
  it is the role that Save sends.\<close>

theorem preview_masks_secret:
  "json_field ''secret_access_key'' (role_json (previewRole st)) \<in> {None, Some (JStr []), Some (JStr REDACTED)}
   \<and> previewRole st\<lparr>r_secret_access_key := s\<rparr>
       = stripIrrelevantFields (fm_values (rd_form st))\<lparr>r_secret_access_key := s\<rparr>"
  by (auto simp: previewRole_def role_json_fields Let_def split: option.split)

end
