(* ===== verification/Roles_Page.thy ===== *)
theory Roles_Page
  imports Role_Drawer Mutations Path_Utils
begin

text \<open>
  The roles page of the admin console (\<open>pages/admin/RolesPage.tsx\<close>): which drawer a URL opens, and
  the configuration that creating, editing and deleting a role saves.
\<close>

subsection \<open>URL and drawer\<close>

text \<open>The two route matches come from the router: whether the URL is \<open>/admin/roles/new\<close>, and the
  (already decoded) \<open>roleName\<close> parameter when it is \<open>/admin/roles/:roleName\<close>.\<close>

definition edit_role_name :: "bool \<Rightarrow> string option option \<Rightarrow> uri_error + string option" where
  "edit_role_name isNewRoute editMatch =
     (if isNewRoute then Inr None
      else case editMatch of
             None \<Rightarrow> Inr None
           | Some param \<Rightarrow>
               and_then (decodeURIComponent (case param of None \<Rightarrow> [] | Some p \<Rightarrow> p)) (\<lambda>s. Inr (Some s)))"

definition drawer_mode_of :: "bool \<Rightarrow> string option \<Rightarrow> drawer_mode option" where
  "drawer_mode_of isNewRoute editRoleName =
     (if isNewRoute then Some CreateMode
      else if truthy editRoleName then Some EditMode else None)"

definition render_mode :: "drawer_mode option \<Rightarrow> drawer_mode option \<Rightarrow> drawer_mode" where
  "render_mode drawerMode lastDrawerMode =
     (case drawerMode of Some m \<Rightarrow> m
      | None \<Rightarrow> (case lastDrawerMode of Some m \<Rightarrow> m | None \<Rightarrow> CreateMode))"

definition edit_role :: "string option \<Rightarrow> app_config option \<Rightarrow> app_role option" where
  "edit_role editRoleName config =
     (if truthy editRoleName then
        (case config of None \<Rightarrow> None
         | Some cfg \<Rightarrow> find (\<lambda>r. r_name r = the editRoleName) (c_roles cfg))
      else None)"

definition role_not_found :: "string option \<Rightarrow> app_config option \<Rightarrow> (toast_color \<times> string) option" where
  "role_not_found editRoleName config =
     (if truthy editRoleName \<and> config \<noteq> None \<and> edit_role editRoleName config = None
      then Some (Red, ''Role '' @ [CHR 0x22] @ the editRoleName @ [CHR 0x22] @ '' not found'') else None)"

definition role_edit_url :: "string \<Rightarrow> string" where
  "role_edit_url name = ''/admin/roles/'' @ encodeURIComponent name"

lemma role_named_new_opens_create: "role_edit_url ''new'' = ''/admin/roles/new''"
  by code_simp

lemma role_name_decoded_twice:
  "edit_role_name False (Some (Some ''100%'')) = Inl URIError"
  "edit_role_name False (Some (Some ''a%41'')) = Inr (Some ''aA'')"
  by code_simp+

subsection \<open>Saving\<close>

record save_request =
  sr_config :: app_config
  sr_message :: string

definition merge_secret :: "(string \<Rightarrow> string) \<Rightarrow> app_role \<Rightarrow> app_role \<Rightarrow> app_role" where
  "merge_secret trim existing role =
     role\<lparr>r_secret_access_key :=
       (if \<not> blank trim (r_secret_access_key role) then r_secret_access_key role
        else r_secret_access_key existing)\<rparr>"

definition onSubmitRole ::
  "(string \<Rightarrow> string) \<Rightarrow> app_config option \<Rightarrow> app_role \<Rightarrow> drawer_mode \<Rightarrow> string option \<Rightarrow> save_request option" where
  "onSubmitRole trim config role mode previousName =
     (case config of
        None \<Rightarrow> None
      | Some cfg \<Rightarrow>
          (if mode = CreateMode then
             Some \<lparr>sr_config = (toWritableConfig cfg)\<lparr>c_roles := c_roles cfg @ [role]\<rparr>,
                   sr_message = ''Role '' @ r_name role @ '' created''\<rparr>
           else (case find (\<lambda>r. Some (r_name r) = previousName) (c_roles cfg) of
                   None \<Rightarrow> None
                 | Some existing \<Rightarrow>
                     (let cleaned = stripIrrelevantFields (merge_secret trim existing role)
                      in Some \<lparr>sr_config = (toWritableConfig cfg)
                                 \<lparr>c_roles := map (\<lambda>r. if Some (r_name r) = previousName then cleaned else r)
                                               (c_roles cfg)\<rparr>,
                               sr_message = ''Role '' @ r_name role @ '' saved''\<rparr>))))"

definition onConfirmDelete :: "app_config \<Rightarrow> app_role option \<Rightarrow> save_request option" where
  "onConfirmDelete cfg deleteTarget =
     (case deleteTarget of
        None \<Rightarrow> None
      | Some target \<Rightarrow>
          Some \<lparr>sr_config = (toWritableConfig cfg)
                  \<lparr>c_roles := filter (\<lambda>r. r_name r \<noteq> r_name target) (c_roles cfg)\<rparr>,
                sr_message = ''Role '' @ r_name target @ '' deleted''\<rparr>)"

definition typeColor :: "role_type \<Rightarrow> string" where
  "typeColor t = (if t = RT_credentials \<or> t = RT_s3_compatible then ''mutedSlateBlue'' else ''gray'')"

definition buckets_cell :: "app_role \<Rightarrow> string option" where
  "buckets_cell r =
     (let n = (case r_allowed_buckets r of None \<Rightarrow> 0 | Some bs \<Rightarrow> length bs)
      in if n = 0 then None else Some (nat_str n @ '' buckets''))"

subsection \<open>Editing\<close>

lemma find_named:
  "find (\<lambda>r. Some (r_name r) = Some n) rs = Some r \<Longrightarrow> r \<in> set rs \<and> r_name r = n"
  by (auto simp: find_Some_iff)

lemma merge_secret_fields [simp]:
  "r_name (merge_secret trim existing role) = r_name role"
  "r_type (merge_secret trim existing role) = r_type role"
  "r_secret_access_key (merge_secret trim existing role) =
     (if \<not> blank trim (r_secret_access_key role) then r_secret_access_key role
      else r_secret_access_key existing)"
  by (simp_all add: merge_secret_def)

lemma strip_merge_secret:
  "stripIrrelevantFields (merge_secret trim existing (stripIrrelevantFields role)) =
     stripIrrelevantFields (merge_secret trim existing role)"
  by (rule app_role.equality) (simp_all add: merge_secret_def)

lemma saved_role:
  "stripIrrelevantFields (merge_secret trim existing role) =
     \<lparr>r_name = r_name role, r_type = r_type role, r_description = r_description role,
      r_profile_name = (if r_type role = RT_profile then r_profile_name role else None),
      r_role_arn = (if r_type role = RT_assume_role then r_role_arn role else None),
      r_access_key_id = (if keyed_type (r_type role) then r_access_key_id role else None),
      r_secret_access_key = (if \<not> keyed_type (r_type role) then None
        else if blank trim (r_secret_access_key role) then r_secret_access_key existing
        else r_secret_access_key role),
      r_region = (if keyed_type (r_type role) then r_region role else None),
      r_endpoint_url = (if r_type role = RT_s3_compatible then r_endpoint_url role else None),
      r_use_ssl = (if r_type role = RT_s3_compatible then r_use_ssl role else None),
      r_verify_ssl = (if r_type role = RT_s3_compatible then r_verify_ssl role else None),
      r_addressing_style = (if r_type role = RT_s3_compatible then r_addressing_style role else None),
      r_allowed_buckets = r_allowed_buckets role, r_allowed_prefixes = None\<rparr>"
  by (rule app_role.equality) (simp_all add: merge_secret_def)

text \<open>C20: what saving an edited role changes, field by field.  The edited role is replaced in place by the
  fields of the form that belong to its type: name, type, description and allowed buckets always, the
  profile, the role ARN, the keys with their region, and the endpoint with its three options only for
  the types that have them; a blank secret keeps the stored one.  Its prefix restriction is gone.  Every
  other role keeps its place and all its fields.  Of the rest of the configuration the default role and
  the three fields the server derives are left out, and every other field is sent as it was loaded.\<close>

theorem role_edit_saves:
  assumes "find (\<lambda>r. Some (r_name r) = Some n) (c_roles cfg) = Some existing"
    and "onSubmitRole trim (Some cfg) role EditMode (Some n) = Some req"
  shows "\<exists>saved. saved =
      \<lparr>r_name = r_name role, r_type = r_type role, r_description = r_description role,
       r_profile_name = (if r_type role = RT_profile then r_profile_name role else None),
       r_role_arn = (if r_type role = RT_assume_role then r_role_arn role else None),
       r_access_key_id = (if keyed_type (r_type role) then r_access_key_id role else None),
       r_secret_access_key = (if \<not> keyed_type (r_type role) then None
         else if blank trim (r_secret_access_key role) then r_secret_access_key existing
         else r_secret_access_key role),
       r_region = (if keyed_type (r_type role) then r_region role else None),
       r_endpoint_url = (if r_type role = RT_s3_compatible then r_endpoint_url role else None),
       r_use_ssl = (if r_type role = RT_s3_compatible then r_use_ssl role else None),
       r_verify_ssl = (if r_type role = RT_s3_compatible then r_verify_ssl role else None),
       r_addressing_style = (if r_type role = RT_s3_compatible then r_addressing_style role else None),
       r_allowed_buckets = r_allowed_buckets role, r_allowed_prefixes = None\<rparr>
    \<and> sr_config req = cfg\<lparr>c_roles := map (\<lambda>r. if r_name r = n then saved else r) (c_roles cfg),
        c_default_role := None, c_data_dir := None, c_is_read_only := None, c_current_role := None\<rparr>"
proof -
  let ?saved = "stripIrrelevantFields (merge_secret trim existing role)"
  have "sr_config req = (toWritableConfig cfg)
      \<lparr>c_roles := map (\<lambda>r. if r_name r = n then ?saved else r) (c_roles cfg)\<rparr>"
    using assms(2) by (auto simp: onSubmitRole_def assms(1)[simplified] Let_def)
  also have "\<dots> = cfg\<lparr>c_roles := map (\<lambda>r. if r_name r = n then ?saved else r) (c_roles cfg),
      c_default_role := None, c_data_dir := None, c_is_read_only := None, c_current_role := None\<rparr>"
    by (simp add: toWritableConfig_removes)
  finally show ?thesis by (intro exI[of _ ?saved] conjI saved_role)
qed

text \<open>C37: (a flaw) opening a role for editing and saving it without a change removes its prefix
  restriction: whatever prefixes the role was confined to, the saved role has none, while its name,
  type and secret are kept.  The drawer's form holds \<open>allowed_prefixes\<close>, but the shape that is
  saved does not list it.\<close>

theorem editing_drops_prefixes:
  assumes "find (\<lambda>r. Some (r_name r) = Some n) (c_roles cfg) = Some existing"
    and "well_formed_role trim EditMode (populated_role existing)"
  shows "\<exists>st role req. drawer_run trim False [DrawerOpen EditMode (Some existing), DrawerSubmit] drawer0 = Some st
      \<and> rd_submitted st = [(role, EditMode, Some n)]
      \<and> onSubmitRole trim (Some cfg) role EditMode (Some n) = Some req
      \<and> (\<forall>r\<in>set (c_roles (sr_config req)). r_name r = n \<longrightarrow>
           r_allowed_prefixes r = None \<and> json_field ''allowed_prefixes'' (role_json r) = None
           \<and> r_type r = r_type existing
           \<and> (keyed_type (r_type existing) \<longrightarrow> r_secret_access_key r = r_secret_access_key existing))"
proof -
  have name: "r_name existing = n" using find_named[OF assms(1)] by simp
  define v where "v = merge_role EMPTY_ROLE (populated_role existing)"
  have "well_formed_role trim EditMode v"
    using assms(2) by (cases "r_type existing")
      (simp_all add: v_def merge_role_def well_formed_role_def populated_role_def)
  then have valid: "form_valid (role_rules trim EditMode) v" by (simp add: role_valid_iff)
  define st where "st = drawer_step trim (drawer_step trim drawer0 (DrawerOpen EditMode (Some existing))) DrawerSubmit"
  have run: "drawer_run trim False [DrawerOpen EditMode (Some existing), DrawerSubmit] drawer0 = Some st"
    by (simp add: st_def drawer0_def drawer_effect_def)
  have sub: "rd_submitted st = [(stripIrrelevantFields v, EditMode, Some n)]"
    using valid by (simp add: st_def drawer0_def drawer_effect_def fill_form_def new_form_def
        onEditFormSubmit_def onSubmit_def v_def name)
  define saved where "saved = stripIrrelevantFields (merge_secret trim existing (stripIrrelevantFields v))"
  have v: "r_name v = n" "r_type v = r_type existing" "r_secret_access_key v = Some []"
    by (simp_all add: v_def merge_role_def populated_role_def name)
  have saved: "r_allowed_prefixes saved = None" "r_type saved = r_type existing"
    "keyed_type (r_type existing) \<longrightarrow> r_secret_access_key saved = r_secret_access_key existing"
    by (simp_all add: saved_def strip_merge_secret v blank_def)
  define req where "req = \<lparr>sr_config = (toWritableConfig cfg)
      \<lparr>c_roles := map (\<lambda>r. if Some (r_name r) = Some n then saved else r) (c_roles cfg)\<rparr>,
      sr_message = ''Role '' @ r_name (stripIrrelevantFields v) @ '' saved''\<rparr>"
  have "onSubmitRole trim (Some cfg) (stripIrrelevantFields v) EditMode (Some n) = Some req"
    by (simp add: onSubmitRole_def assms(1)[simplified] saved_def req_def Let_def)
  moreover have "\<forall>r\<in>set (c_roles (sr_config req)). r_name r = n \<longrightarrow> r = saved"
    by (auto simp: req_def)
  ultimately show ?thesis
    using run sub saved by (intro exI[of _ st] exI[of _ "stripIrrelevantFields v"] exI[of _ req]) (auto simp: role_json_fields)
qed

text \<open>The one role of a configuration, edited: its buckets and description are those of the form, and the
  largest file size stays.\<close>

theorem role_edit_saves_witness:
  "\<exists>req saved. onSubmitRole (\<lambda>s. s) (Some sample_config)
       ((bare_role ''old'' RT_default)\<lparr>r_description := Some ''d'', r_allowed_buckets := Some [''b'']\<rparr>) EditMode (Some ''old'') = Some req
     \<and> c_roles (sr_config req) = [saved] \<and> r_description saved = Some ''d'' \<and> r_allowed_buckets saved = Some [''b'']
     \<and> r_allowed_prefixes saved = None \<and> c_max_file_size (sr_config req) = 1000000"
proof -
  let ?role = "(bare_role ''old'' RT_default)\<lparr>r_description := Some ''d'', r_allowed_buckets := Some [''b'']\<rparr>"
  have find: "find (\<lambda>r. Some (r_name r) = Some ''old'') (c_roles sample_config) = Some (hd (c_roles sample_config))"
    by (simp add: sample_config_def bare_role_def)
  obtain req where req: "onSubmitRole (\<lambda>s. s) (Some sample_config) ?role EditMode (Some ''old'') = Some req"
    unfolding onSubmitRole_def using find by (auto simp: Let_def)
  from role_edit_saves[OF find req] req show ?thesis by (simp add: sample_config_def bare_role_def)
qed

theorem editing_drops_prefixes_witness:
  "map r_allowed_prefixes (c_roles sample_config) = [Some [''team/'']]
   \<and> (\<exists>role req. onSubmitRole (\<lambda>s. s) (Some sample_config) role EditMode (Some ''old'') = Some req
        \<and> map r_name (c_roles (sr_config req)) = [''old''] \<and> map r_allowed_prefixes (c_roles (sr_config req)) = [None])"
proof -
  let ?old = "(bare_role ''old'' RT_default)\<lparr>r_allowed_prefixes := Some [''team/'']\<rparr>"
  have roles: "c_roles sample_config = [?old]" by (simp add: sample_config_def)
  have find: "find (\<lambda>r. Some (r_name r) = Some ''old'') (c_roles sample_config) = Some ?old"
    by (simp add: roles bare_role_def)
  have wf: "well_formed_role (\<lambda>s. s) EditMode (populated_role ?old)"
    by (simp add: well_formed_role_def populated_role_def bare_role_def blank_def)
  from editing_drops_prefixes[OF find wf] obtain role req
    where o: "onSubmitRole (\<lambda>s. s) (Some sample_config) role EditMode (Some ''old'') = Some req"
      and n: "\<forall>r\<in>set (c_roles (sr_config req)). r_name r = ''old'' \<longrightarrow> r_allowed_prefixes r = None"
      and sub: "\<exists>st. drawer_run (\<lambda>s. s) False [DrawerOpen EditMode (Some ?old), DrawerSubmit] drawer0 = Some st
        \<and> rd_submitted st = [(role, EditMode, Some ''old'')]" by blast
  have "r_name role = ''old''" using sub
    by (auto simp: drawer0_def drawer_effect_def fill_form_def onEditFormSubmit_def onSubmit_def merge_role_def
        populated_role_def bare_role_def split: if_splits)
  then have "map r_name (c_roles (sr_config req)) = [''old'']"
    using o by (auto simp: onSubmitRole_def roles bare_role_def Let_def)
  then obtain r where "c_roles (sr_config req) = [r]" "r_name r = ''old''" by auto
  then have "map r_name (c_roles (sr_config req)) = [''old'']" "map r_allowed_prefixes (c_roles (sr_config req)) = [None]"
    using n by simp_all
  with o have "\<exists>role req. onSubmitRole (\<lambda>s. s) (Some sample_config) role EditMode (Some ''old'') = Some req
    \<and> map r_name (c_roles (sr_config req)) = [''old''] \<and> map r_allowed_prefixes (c_roles (sr_config req)) = [None]"
    by (intro exI[of _ role] exI[of _ req] conjI)
  then show ?thesis by (simp add: roles)
qed

subsection \<open>The list of roles over any history of the page\<close>

text \<open>One accepted save: a role the wizard created against this configuration, a role the edit drawer
  submitted, or a confirmed deletion.\<close>

inductive roles_step :: "(string \<Rightarrow> string) \<Rightarrow> app_config \<Rightarrow> app_config \<Rightarrow> bool" for trim where
  created: "drawer_reachable trim st \<Longrightarrow>
    rd_submitted (onCreate (Some cfg) st) = rd_submitted st @ [(role, CreateMode, None)] \<Longrightarrow>
    onSubmitRole trim (Some cfg) role CreateMode None = Some req \<Longrightarrow> roles_step trim cfg (sr_config req)"
| edited: "drawer_reachable trim st \<Longrightarrow> (role, EditMode, Some n) \<in> set (rd_submitted st) \<Longrightarrow>
    onSubmitRole trim (Some cfg) role EditMode (Some n) = Some req \<Longrightarrow> roles_step trim cfg (sr_config req)"
| deleted: "onConfirmDelete cfg (Some target) = Some req \<Longrightarrow> roles_step trim cfg (sr_config req)"

definition edit_inv :: "role_drawer \<Rightarrow> bool" where
  "edit_inv st \<longleftrightarrow>
     (rd_opened st \<and> rd_mode st = EditMode \<longrightarrow>
        (\<forall>r. rd_initial st = Some r \<longrightarrow> r_name (fm_values (rd_form st)) = r_name r))
     \<and> (\<forall>role n. (role, EditMode, Some n) \<in> set (rd_submitted st) \<longrightarrow> r_name role = n)"

lemma edit_inv_step:
  assumes "edit_inv st" "drawer_enabled readOnly st ev"
  shows "edit_inv (drawer_step trim st ev)"
proof (cases ev)
  case (DrawerOpen m i)
  then show ?thesis using assms(1)
    by (cases m; cases i) (auto simp: edit_inv_def drawer_effect_def fill_form_def merge_role_def populated_role_def)
next
  case (DrawerInput e)
  then show ?thesis using assms
    by (cases e) (auto simp: edit_inv_def input_def edit_allowed_def shown_step_def Let_def split: if_splits)
next
  case (DrawerSave config)
  then show ?thesis using assms
    by (auto simp: edit_inv_def onCreate_def Let_def split: option.split)
next
  case DrawerSubmit
  then show ?thesis using assms
    by (cases "rd_initial st") (auto simp: edit_inv_def onEditFormSubmit_def onSubmit_def split: option.split prod.split)
qed (use assms in \<open>auto simp: edit_inv_def drawer_effect_def goNext_def goPrev_def stepClick_def prod.case_eq_if\<close>)

lemma reachable_edit_inv: "drawer_reachable trim st \<Longrightarrow> edit_inv st"
  by (induction rule: drawer_reachable.induct)
    (auto simp: edit_inv_step, simp add: edit_inv_def drawer0_def)

lemma roles_step_distinct:
  assumes "roles_step trim cfg cfg'" "distinct (map r_name (c_roles cfg))"
  shows "distinct (map r_name (c_roles cfg'))"
  using assms(1)
proof cases
  case (created st role req)
  then have "r_name role \<notin> set (map r_name (c_roles cfg))"
    by (auto simp: onCreate_def Let_def list_ex_iff split: if_splits)
  then show ?thesis using created assms(2) by (auto simp: onSubmitRole_def)
next
  case (edited st role n req)
  have "r_name role = n" using reachable_edit_inv[OF edited(2)] edited(3) by (auto simp: edit_inv_def)
  then have "map r_name (c_roles cfg') = map r_name (c_roles cfg)"
    using edited(1,4) by (auto simp: onSubmitRole_def Let_def split: option.splits)
  then show ?thesis using assms(2) by simp
next
  case (deleted target req)
  then show ?thesis using assms(2) by (auto simp: onConfirmDelete_def distinct_map_filter)
qed

text \<open>role names stay unique over any history of created, edited and deleted roles: the wizard
  refuses a name that is taken, the edit form cannot rename, and an edit replaces its role in place.\<close>

theorem role_names_stay_distinct:
  assumes "(roles_step trim)\<^sup>*\<^sup>* cfg cfg'" and "distinct (map r_name (c_roles cfg))"
  shows "distinct (map r_name (c_roles cfg'))"
  using assms by (induction rule: rtranclp_induct) (auto intro: roles_step_distinct)

theorem role_names_stay_distinct_witness:
  "\<exists>cfg'. (roles_step (\<lambda>s. s))\<^sup>*\<^sup>* sample_config cfg' \<and> c_roles cfg' = [] \<and> distinct (map r_name (c_roles cfg'))"
proof -
  define req where "req = the (onConfirmDelete sample_config (Some (bare_role ''old'' RT_default)))"
  have "onConfirmDelete sample_config (Some (bare_role ''old'' RT_default)) = Some req"
    by (simp add: req_def onConfirmDelete_def)
  then have step: "(roles_step (\<lambda>s. s))\<^sup>*\<^sup>* sample_config (sr_config req)" by (blast intro: roles_step.deleted)
  have "distinct (map r_name (c_roles sample_config))" by (simp add: sample_config_def)
  from role_names_stay_distinct[OF step this] have "distinct (map r_name (c_roles (sr_config req)))" .
  moreover have "c_roles (sr_config req) = []"
    by (simp add: req_def onConfirmDelete_def sample_config_def bare_role_def)
  ultimately show ?thesis using step by blast
qed

end
