(* ===== verification/Settings.thy ===== *)
theory Settings
  imports Role_Shape Role_Drawer Mutations
begin

text \<open>
  The settings page of the admin console (\<open>pages/admin/SettingsPage.tsx\<close> with its three tabs): one
  form over the whole configuration, with two byte counts edited in megabytes, filled from the
  server unless the user has unsaved edits, and saved as one configuration.

  Sizes in megabytes are rational: a byte count divided by a power of two is exact in binary floating
  point, so no rounding is hidden here; the two roundings the code performs are written out.  The other
  number fields are natural numbers; the strings a number input hands over while it is empty or half
  typed are not values here.
\<close>

definition MB :: rat where "MB = 1024 * 1024"

definition math_round :: "rat \<Rightarrow> int" where "math_round x = \<lfloor>x + 1 / 2\<rfloor>"

record settings_values =
  sv_max_client_load :: nat
  sv_disable_deletion :: bool
  sv_enable_lazy_loading :: bool
  sv_max_file_size_mb :: rat
  sv_preview_text_extensions :: "string list"
  sv_upload_inline_extensions :: "string list"
  sv_presigned_url_default_ttl :: nat
  sv_presigned_url_max_ttl :: nat
  sv_password_min_length :: nat
  sv_password_min_uppercase :: nat
  sv_password_min_lowercase :: nat
  sv_password_min_digits :: nat
  sv_password_min_special :: nat
  sv_mcp_enabled :: bool
  sv_mcp_disable_writes :: bool
  sv_mcp_text_extensions :: "string list"
  sv_mcp_global_max_read_bytes_mb :: rat
  sv_mcp_summary_max_keys :: nat
  sv_mcp_summary_prefix_scan_pages :: nat
  sv_mcp_list_page_size :: nat
  sv_mcp_list_max_page_size :: nat

definition settings_defaults :: settings_values where
  "settings_defaults =
     \<lparr>sv_max_client_load = 10000, sv_disable_deletion = False, sv_enable_lazy_loading = True,
      sv_max_file_size_mb = 100, sv_preview_text_extensions = [], sv_upload_inline_extensions = [],
      sv_presigned_url_default_ttl = 3600, sv_presigned_url_max_ttl = 604800,
      sv_password_min_length = 8, sv_password_min_uppercase = 1, sv_password_min_lowercase = 1,
      sv_password_min_digits = 1, sv_password_min_special = 0, sv_mcp_enabled = True,
      sv_mcp_disable_writes = False, sv_mcp_text_extensions = [],
      sv_mcp_global_max_read_bytes_mb = 10, sv_mcp_summary_max_keys = 50000,
      sv_mcp_summary_prefix_scan_pages = 20, sv_mcp_list_page_size = 1000,
      sv_mcp_list_max_page_size = 10000\<rparr>"

definition client_load_rule :: "settings_values \<Rightarrow> string option" where
  "client_load_rule v =
     (if sv_max_client_load v < 1 then Some ''Minimum is 1''
      else if 200000 < sv_max_client_load v then Some ''Maximum is 200000'' else None)"

definition max_ttl_rule :: "settings_values \<Rightarrow> string option" where
  "max_ttl_rule v =
     (if sv_presigned_url_max_ttl v < 60 then Some ''Minimum is 60 seconds''
      else if 604800 < sv_presigned_url_max_ttl v then Some ''Maximum is 7 days'' else None)"

definition default_ttl_rule :: "settings_values \<Rightarrow> string option" where
  "default_ttl_rule v =
     (if sv_presigned_url_default_ttl v < 60 then Some ''Minimum is 60 seconds''
      else if sv_presigned_url_max_ttl v < sv_presigned_url_default_ttl v
           then Some ''Default cannot exceed the maximum'' else None)"

definition settings_rules :: "settings_values validators" where
  "settings_rules =
     [(''max_client_load'', client_load_rule), (''presigned_url_max_ttl'', max_ttl_rule),
      (''presigned_url_default_ttl'', default_ttl_rule)]"

definition list_or_empty :: "'a list option \<Rightarrow> 'a list" where
  "list_or_empty xs = (case xs of None \<Rightarrow> [] | Some ys \<Rightarrow> ys)"

definition populated_settings :: "app_config \<Rightarrow> settings_values" where
  "populated_settings config =
     \<lparr>sv_max_client_load = c_max_client_load config,
      sv_disable_deletion = c_disable_deletion config,
      sv_enable_lazy_loading = c_enable_lazy_loading config,
      sv_max_file_size_mb = of_int (math_round (c_max_file_size config / MB)),
      sv_preview_text_extensions = list_or_empty (c_preview_text_extensions config),
      sv_upload_inline_extensions = list_or_empty (c_upload_inline_extensions config),
      sv_presigned_url_default_ttl = c_presigned_url_default_ttl config,
      sv_presigned_url_max_ttl = c_presigned_url_max_ttl config,
      sv_password_min_length = c_password_min_length config,
      sv_password_min_uppercase = c_password_min_uppercase config,
      sv_password_min_lowercase = c_password_min_lowercase config,
      sv_password_min_digits = c_password_min_digits config,
      sv_password_min_special = c_password_min_special config,
      sv_mcp_enabled = c_mcp_enabled config, sv_mcp_disable_writes = c_mcp_disable_writes config,
      sv_mcp_text_extensions = c_mcp_text_extensions config,
      sv_mcp_global_max_read_bytes_mb = of_nat (c_mcp_global_max_read_bytes config) / MB,
      sv_mcp_summary_max_keys = c_mcp_summary_max_keys config,
      sv_mcp_summary_prefix_scan_pages = c_mcp_summary_prefix_scan_pages config,
      sv_mcp_list_page_size = c_mcp_list_page_size config,
      sv_mcp_list_max_page_size = c_mcp_list_max_page_size config\<rparr>"

definition settings_config :: "app_config \<Rightarrow> settings_values form \<Rightarrow> app_config" where
  "settings_config config f =
     (let v = fm_values f
      in (toWritableConfig config)
           \<lparr>c_max_client_load := sv_max_client_load v,
            c_disable_deletion := sv_disable_deletion v,
            c_enable_lazy_loading := sv_enable_lazy_loading v,
            c_max_file_size := (if isDirty_in sv_max_file_size_mb f then sv_max_file_size_mb v * MB
                                else c_max_file_size config),
            c_preview_text_extensions := Some (sv_preview_text_extensions v),
            c_upload_inline_extensions := Some (sv_upload_inline_extensions v),
            c_presigned_url_default_ttl := sv_presigned_url_default_ttl v,
            c_presigned_url_max_ttl := sv_presigned_url_max_ttl v,
            c_password_min_length := sv_password_min_length v,
            c_password_min_uppercase := sv_password_min_uppercase v,
            c_password_min_lowercase := sv_password_min_lowercase v,
            c_password_min_digits := sv_password_min_digits v,
            c_password_min_special := sv_password_min_special v,
            c_mcp_enabled := sv_mcp_enabled v, c_mcp_disable_writes := sv_mcp_disable_writes v,
            c_mcp_text_extensions := sv_mcp_text_extensions v,
            c_mcp_global_max_read_bytes :=
              (if isDirty_in sv_mcp_global_max_read_bytes_mb f
               then nat (math_round (sv_mcp_global_max_read_bytes_mb v * MB))
               else c_mcp_global_max_read_bytes config),
            c_mcp_summary_max_keys := sv_mcp_summary_max_keys v,
            c_mcp_summary_prefix_scan_pages := sv_mcp_summary_prefix_scan_pages v,
            c_mcp_list_page_size := sv_mcp_list_page_size v,
            c_mcp_list_max_page_size := sv_mcp_list_max_page_size v\<rparr>)"

subsection \<open>The page\<close>

record settings_page =
  sp_config :: "app_config option"
  sp_form :: "settings_values form"
  sp_saving :: bool
  sp_sent :: "app_config list"
  sp_toasts :: "toast list"

definition settings_page0 :: settings_page where
  "settings_page0 = \<lparr>sp_config = None, sp_form = new_form settings_defaults, sp_saving = False,
     sp_sent = [], sp_toasts = []\<rparr>"

definition settings_readOnly :: "app_config \<Rightarrow> bool" where
  "settings_readOnly config \<longleftrightarrow> c_is_read_only config = Some True"

definition populate :: "settings_page \<Rightarrow> settings_page" where
  "populate st =
     (case sp_config st of
        None \<Rightarrow> st
      | Some config \<Rightarrow>
          (if isDirty (sp_form st) then st
           else st\<lparr>sp_form := setValues (populated_settings config)
                               (setInitialValues (populated_settings config) (sp_form st))\<rparr>))"

definition config_loaded :: "app_config \<Rightarrow> settings_page \<Rightarrow> settings_page" where
  "config_loaded config st =
     (if sp_config st = Some config then st else populate (st\<lparr>sp_config := Some config\<rparr>))"

text \<open>An input changes the values in its field \<open>k\<close> and validates that field; the one for the largest
  validity validates the default validity as well.\<close>

definition settings_field_input :: "string \<Rightarrow> settings_values \<Rightarrow> settings_values form \<Rightarrow> settings_values form" where
  "settings_field_input k v f =
     (let f' = fst (validateField settings_rules k (setValues v f))
      in if k = ''presigned_url_max_ttl'' then fst (validateField settings_rules ''presigned_url_default_ttl'' f') else f')"

definition settings_input :: "string \<Rightarrow> settings_values \<Rightarrow> settings_page \<Rightarrow> settings_page" where
  "settings_input k v st = st\<lparr>sp_form := settings_field_input k v (sp_form st)\<rparr>"

definition save_enabled :: "settings_page \<Rightarrow> bool" where
  "save_enabled st \<longleftrightarrow>
     (case sp_config st of None \<Rightarrow> False | Some config \<Rightarrow> \<not> settings_readOnly config)
     \<and> isDirty (sp_form st) \<and> \<not> sp_saving st \<and> fm_errors (sp_form st) = []"

definition settings_submit :: "settings_page \<Rightarrow> settings_page" where
  "settings_submit st =
     (case sp_config st of
        None \<Rightarrow> st
      | Some config \<Rightarrow>
          (case onSubmit settings_rules (\<lambda>v. settings_config config (sp_form st)) (sp_form st) of
             (f, None) \<Rightarrow> st\<lparr>sp_form := f\<rparr>
           | (f, Some next_config) \<Rightarrow>
               st\<lparr>sp_form := f, sp_saving := True, sp_sent := sp_sent st @ [next_config]\<rparr>))"

text \<open>The success callback reads the live values and makes them the baseline.\<close>

definition settings_saved :: "js_error + unit \<Rightarrow> settings_page \<Rightarrow> settings_page" where
  "settings_saved outcome st =
     (case runWithToasts outcome ''Settings saved''
             (\<lambda>f. setInitialValues (fm_values f) f) (sp_form st) of
        (t, f) \<Rightarrow> st\<lparr>sp_form := f, sp_saving := False, sp_toasts := sp_toasts st @ [t]\<rparr>)"

definition handleReset :: "settings_page \<Rightarrow> settings_page" where
  "handleReset st = st\<lparr>sp_form := form_reset (sp_form st)\<rparr>"

datatype settings_event =
    ConfigLoaded app_config
  | SettingsInput string settings_values
  | SettingsSubmit
  | SettingsSaved "js_error + unit"
  | SettingsReset

fun settings_enabled :: "settings_page \<Rightarrow> settings_event \<Rightarrow> bool" where
  "settings_enabled st (SettingsInput k v) \<longleftrightarrow>
     (case sp_config st of None \<Rightarrow> False | Some config \<Rightarrow> \<not> settings_readOnly config)"
| "settings_enabled st SettingsSubmit \<longleftrightarrow> save_enabled st"
| "settings_enabled st (SettingsSaved outcome) \<longleftrightarrow> sp_saving st"
| "settings_enabled st SettingsReset \<longleftrightarrow> isDirty (sp_form st) \<and> \<not> sp_saving st"
| "settings_enabled st (ConfigLoaded config) \<longleftrightarrow> True"

fun settings_step :: "settings_page \<Rightarrow> settings_event \<Rightarrow> settings_page" where
  "settings_step st (ConfigLoaded config) = config_loaded config st"
| "settings_step st (SettingsInput k v) = settings_input k v st"
| "settings_step st SettingsSubmit = settings_submit st"
| "settings_step st (SettingsSaved outcome) = settings_saved outcome st"
| "settings_step st SettingsReset = handleReset st"

fun settings_run :: "settings_event list \<Rightarrow> settings_page \<Rightarrow> settings_page option" where
  "settings_run [] st = Some st"
| "settings_run (ev # evs) st =
     (if settings_enabled st ev then settings_run evs (settings_step st ev) else None)"

lemma settings_run_append:
  "settings_run (evs @ evs') st = (case settings_run evs st of None \<Rightarrow> None | Some st' \<Rightarrow> settings_run evs' st')"
  by (induction evs arbitrary: st) simp_all

inductive settings_reachable :: "settings_page \<Rightarrow> bool" where
  start: "settings_reachable settings_page0"
| event: "settings_reachable st \<Longrightarrow> settings_enabled st ev \<Longrightarrow> settings_reachable (settings_step st ev)"

subsection \<open>Filling and saving\<close>

lemma form_valid_settings:
  "form_valid settings_rules v \<longleftrightarrow>
     1 \<le> sv_max_client_load v \<and> sv_max_client_load v \<le> 200000
     \<and> 60 \<le> sv_presigned_url_default_ttl v \<and> sv_presigned_url_default_ttl v \<le> sv_presigned_url_max_ttl v
     \<and> sv_presigned_url_max_ttl v \<le> 604800"
  by (auto simp: form_valid_def settings_rules_def client_load_rule_def max_ttl_rule_def default_ttl_rule_def)

text \<open>A configuration whose optional lists are present.\<close>

definition with_lists :: "app_config \<Rightarrow> app_config" where
  "with_lists config = config\<lparr>c_preview_text_extensions := Some (list_or_empty (c_preview_text_extensions config)),
     c_upload_inline_extensions := Some (list_or_empty (c_upload_inline_extensions config))\<rparr>"

lemma settings_config_fields [simp]:
  "c_roles (settings_config config f) = c_roles config"
  "c_max_client_load (settings_config config f) = sv_max_client_load (fm_values f)"
  by (simp_all add: settings_config_def Let_def)

lemma populated_sizes:
  "sv_max_file_size_mb (populated_settings config) = of_int (math_round (c_max_file_size config / MB))"
  "sv_mcp_global_max_read_bytes_mb (populated_settings config) = of_nat (c_mcp_global_max_read_bytes config) / MB"
  by (simp_all add: populated_settings_def)

lemma settings_config_untouched:
  assumes "fm_baseline f = populated_settings config" "fm_values f = populated_settings config"
  shows "settings_config config f = with_lists (toWritableConfig config)"
  by (rule app_config.equality)
    (simp_all add: settings_config_def with_lists_def isDirty_in_def assms populated_settings_def toWritableConfig_def)

lemma math_round_int [simp]: "math_round (of_int k) = k"
  by (simp add: math_round_def floor_eq_iff)

lemma MB_pos [simp]: "MB \<noteq> 0" "0 < MB" by (simp_all add: MB_def)

text \<open>The configuration a form posts over the configuration that filled it.\<close>

lemma settings_config_filled:
  assumes "fm_baseline f = populated_settings config"
  shows "c_max_file_size (settings_config config f) =
      (if sv_max_file_size_mb (fm_values f) = of_int (math_round (c_max_file_size config / MB))
       then c_max_file_size config else sv_max_file_size_mb (fm_values f) * MB)"
    and "c_mcp_global_max_read_bytes (settings_config config f) =
      (if sv_mcp_global_max_read_bytes_mb (fm_values f) = of_nat (c_mcp_global_max_read_bytes config) / MB
       then c_mcp_global_max_read_bytes config
       else nat (math_round (sv_mcp_global_max_read_bytes_mb (fm_values f) * MB)))"
    and "sv_max_file_size_mb (fm_values f) = of_int k \<Longrightarrow> sv_mcp_global_max_read_bytes_mb (fm_values f) = of_nat b / MB \<Longrightarrow>
      populated_settings (settings_config config f) = fm_values f"
proof -
  have b: "math_round (of_nat b) = int b" using math_round_int[of "int b"] by simp
  show "populated_settings (settings_config config f) = fm_values f"
    if "sv_max_file_size_mb (fm_values f) = of_int k" "sv_mcp_global_max_read_bytes_mb (fm_values f) = of_nat b / MB"
    by (rule settings_values.equality)
      (use that in \<open>simp_all add: settings_config_def populated_settings_def isDirty_in_def assms
        list_or_empty_def Let_def b\<close>)
qed (auto simp: settings_config_def isDirty_in_def assms populated_settings_def Let_def)

text \<open>The posted byte count of a field that agrees with the baseline is that of the configuration on
  screen, whatever the baseline is.\<close>

lemma settings_config_clean_size:
  "\<not> isDirty_in sv_max_file_size_mb f \<Longrightarrow> c_max_file_size (settings_config config f) = c_max_file_size config"
  by (simp add: settings_config_def Let_def)

subsection \<open>Validation field by field\<close>

lemma field_input_simps [simp]:
  "fm_values (settings_field_input k v f) = v"
  "fm_baseline (settings_field_input k v f) = fm_baseline f"
  by (simp_all add: settings_field_input_def Let_def)

lemma validateField_no_errors:
  "form_valid rules (fm_values f) \<Longrightarrow> fm_errors f = [] \<Longrightarrow> fm_errors (fst (validateField rules k f)) = []"
  by (auto simp: validateField_def error_of_def Let_def dest: map_of_SomeD form_valid_rule split: option.split)

lemma field_input_no_errors:
  "form_valid settings_rules v \<Longrightarrow> fm_errors f = [] \<Longrightarrow> fm_errors (settings_field_input k v f) = []"
  by (simp add: settings_field_input_def Let_def validateField_no_errors)

subsection \<open>Reachable pages\<close>

definition config_in_bounds :: "app_config \<Rightarrow> bool" where
  "config_in_bounds c \<longleftrightarrow>
     1 \<le> c_max_client_load c \<and> c_max_client_load c \<le> 200000
     \<and> 60 \<le> c_presigned_url_default_ttl c \<and> c_presigned_url_default_ttl c \<le> c_presigned_url_max_ttl c
     \<and> c_presigned_url_max_ttl c \<le> 604800"

lemma submit_in_bounds:
  "form_valid settings_rules (fm_values f) \<Longrightarrow> config_in_bounds (settings_config config f)"
  by (simp add: config_in_bounds_def form_valid_settings settings_config_def Let_def)

lemma sent_step:
  assumes "list_all config_in_bounds (sp_sent st)"
  shows "list_all config_in_bounds (sp_sent (settings_step st ev))"
  using assms
  by (cases ev) (auto simp: config_loaded_def populate_def settings_input_def settings_submit_def onSubmit_def
      settings_saved_def handleReset_def submit_in_bounds split: option.split prod.split)

text \<open>C24: whatever is typed, submitted or reloaded, the page never sends a configuration outside the
  limits: 1 to 200000 objects per load, and link lifetimes of at least a minute and at most seven days
  with the default within the maximum.\<close>

theorem sent_settings_in_bounds:
  assumes "settings_reachable st"
  shows "list_all config_in_bounds (sp_sent st)"
  using assms
  by (induction rule: settings_reachable.induct) (simp_all add: settings_page0_def sent_step)

text \<open>A reload while there are unsaved edits leaves the form alone.\<close>

lemma reload_keeps_edits:
  "isDirty (sp_form st) \<Longrightarrow> sp_form (config_loaded config st) = sp_form st"
  by (simp add: config_loaded_def populate_def)

lemma reload_fills_clean_form:
  "\<not> isDirty (sp_form st) \<Longrightarrow> sp_config st \<noteq> Some config \<Longrightarrow>
     fm_values (sp_form (config_loaded config st)) = populated_settings config
     \<and> fm_baseline (sp_form (config_loaded config st)) = populated_settings config"
  by (simp add: config_loaded_def populate_def)

lemma saved_is_clean: "\<not> isDirty (sp_form (settings_saved (Inr ()) st))"
  by (simp add: settings_saved_def runWithToasts_def isDirty_pf pf.baseline_to_live_is_clean)

lemma failed_save_keeps_edits: "sp_form (settings_saved (Inl e) st) = sp_form st"
  by (simp add: settings_saved_def runWithToasts_def)

text \<open>One valid edit and the click on Save.\<close>

lemma edit_and_save:
  assumes "sp_config st = Some config" "\<not> settings_readOnly config" "\<not> sp_saving st" "fm_errors (sp_form st) = []"
    and "v \<noteq> fm_baseline (sp_form st)" "form_valid settings_rules v"
  shows "\<exists>st'. settings_run [SettingsInput k v, SettingsSubmit] st = Some st' \<and> sp_config st' = Some config
    \<and> sp_saving st' \<and> fm_values (sp_form st') = v \<and> fm_baseline (sp_form st') = fm_baseline (sp_form st)
    \<and> fm_errors (sp_form st') = []
    \<and> sp_sent st' = sp_sent st @ [settings_config config (setValues v (sp_form st))]"
proof -
  define f where "f = settings_field_input k v (sp_form st)"
  have f: "fm_values f = v" "fm_baseline f = fm_baseline (sp_form st)" "fm_errors f = []"
    using assms(4,6) by (simp_all add: f_def field_input_no_errors)
  have c: "settings_config config f = settings_config config (setValues v (sp_form st))"
    by (simp add: settings_config_def isDirty_in_def f Let_def)
  have on: "save_enabled (st\<lparr>sp_form := f\<rparr>)" using assms by (simp add: save_enabled_def f isDirty_def)
  have "fm_errors (fst (validate settings_rules f)) = []" using assms(6) by (simp add: validate_def f form_valid_no_errors)
  then show ?thesis
    using assms on by (simp add: settings_input_def f_def[symmetric] settings_submit_def onSubmit_def f c)
qed

text \<open>C23: what is saved is what the form shows, as long as the form was filled from the configuration on
  screen.  Load a configuration into a clean form, edit and save: a byte count whose megabyte field
  was left alone is posted with its exact value, even when it is no whole number of megabytes, a
  changed one times 1048576, and the roles are untouched; and once the save is answered and refetched
  the form shows the same values again (whole megabytes in the upload limit, whole bytes in the read
  limit, which untouched fields always have).  It does not hold before that refetch (a flaw): the
  answer makes the live values the baseline while the old configuration is still on screen, so a
  second save of some other edit posts the old upload limit again and reverts the one just saved,
  although the form shows the new one.\<close>

theorem settings_roundtrip:
  assumes "\<not> isDirty (sp_form st)" "\<not> sp_saving st" "fm_errors (sp_form st) = []" "sp_config st \<noteq> Some config"
    and "\<not> settings_readOnly config" "form_valid settings_rules v" "v \<noteq> populated_settings config"
  shows "\<exists>st1 sent. settings_run [ConfigLoaded config, SettingsInput k v, SettingsSubmit] st = Some st1
    \<and> sp_sent st1 = sp_sent st @ [sent] \<and> c_roles sent = c_roles config
    \<and> c_max_file_size sent = (if sv_max_file_size_mb v = of_int (math_round (c_max_file_size config / MB))
         then c_max_file_size config else sv_max_file_size_mb v * MB)
    \<and> c_mcp_global_max_read_bytes sent = (if sv_mcp_global_max_read_bytes_mb v = of_nat (c_mcp_global_max_read_bytes config) / MB
         then c_mcp_global_max_read_bytes config else nat (math_round (sv_mcp_global_max_read_bytes_mb v * MB)))
    \<and> (\<forall>m b. sv_max_file_size_mb v = of_int m \<and> sv_mcp_global_max_read_bytes_mb v = of_nat b / MB \<longrightarrow>
         (\<exists>st2. settings_run [SettingsSaved (Inr ()), ConfigLoaded sent] st1 = Some st2 \<and> fm_values (sp_form st2) = v))
    \<and> (\<forall>k' w. form_valid settings_rules w \<and> w \<noteq> v \<and> sv_max_file_size_mb w = sv_max_file_size_mb v \<longrightarrow>
         (\<exists>st3 sent'. settings_run [SettingsSaved (Inr ()), SettingsInput k' w, SettingsSubmit] st1 = Some st3
            \<and> fm_values (sp_form st3) = w \<and> sp_sent st3 = sp_sent st1 @ [sent']
            \<and> c_max_file_size sent' = c_max_file_size config))"
proof -
  define s0 where "s0 = config_loaded config st"
  have s0: "sp_config s0 = Some config" "\<not> sp_saving s0" "fm_errors (sp_form s0) = []" "sp_sent s0 = sp_sent st"
    "fm_values (sp_form s0) = populated_settings config" "fm_baseline (sp_form s0) = populated_settings config"
    using assms(1-4) by (simp_all add: s0_def config_loaded_def populate_def)
  let ?f = "setValues v (sp_form s0)"
  have base: "fm_baseline ?f = populated_settings config" "fm_values ?f = v" by (simp_all add: s0)
  have "v \<noteq> fm_baseline (sp_form s0)" using assms(7) s0 by simp
  from edit_and_save[OF s0(1) assms(5) s0(2,3) this assms(6), of k] obtain st1 where
    run: "settings_run [SettingsInput k v, SettingsSubmit] s0 = Some st1" "sp_config st1 = Some config" "sp_saving st1"
      "fm_values (sp_form st1) = v" "fm_errors (sp_form st1) = []"
    and sent: "sp_sent st1 = sp_sent st @ [settings_config config ?f]" using s0(4) by auto
  let ?s = "settings_saved (Inr ()) st1"
  have saved: "sp_config ?s = Some config" "\<not> sp_saving ?s" "fm_values (sp_form ?s) = v" "fm_baseline (sp_form ?s) = v"
    "fm_errors (sp_form ?s) = []" "sp_sent ?s = sp_sent st1" "\<not> isDirty (sp_form ?s)"
    by (simp_all add: settings_saved_def runWithToasts_def run isDirty_def)
  have "fm_values (sp_form (config_loaded (settings_config config ?f) ?s)) = v"
    if "populated_settings (settings_config config ?f) = v"
    using that saved by (auto simp: config_loaded_def populate_def)
  then have again: "\<exists>st2. settings_run [SettingsSaved (Inr ()), ConfigLoaded (settings_config config ?f)] st1 = Some st2
      \<and> fm_values (sp_form st2) = v"
    if "sv_max_file_size_mb v = of_int m" "sv_mcp_global_max_read_bytes_mb v = of_nat b / MB" for m b
    using settings_config_filled(3)[OF base(1), of m b] that base(2) run(3) by simp
  have "\<exists>st3 sent'. settings_run [SettingsSaved (Inr ()), SettingsInput k' w, SettingsSubmit] st1 = Some st3
      \<and> fm_values (sp_form st3) = w \<and> sp_sent st3 = sp_sent st1 @ [sent'] \<and> c_max_file_size sent' = c_max_file_size config"
    if "form_valid settings_rules w \<and> w \<noteq> v \<and> sv_max_file_size_mb w = sv_max_file_size_mb v" for k' w
  proof -
    have w: "w \<noteq> fm_baseline (sp_form ?s)" "form_valid settings_rules w" using that saved(4) by simp_all
    have "\<not> isDirty_in sv_max_file_size_mb (setValues w (sp_form ?s))" using that saved(4) by (simp add: isDirty_in_def)
    moreover obtain st3 where "settings_run [SettingsInput k' w, SettingsSubmit] ?s = Some st3" "fm_values (sp_form st3) = w"
      "sp_sent st3 = sp_sent ?s @ [settings_config config (setValues w (sp_form ?s))]"
      using edit_and_save[OF saved(1) assms(5) saved(2,5) w, of k'] by blast
    moreover have "settings_run (SettingsSaved (Inr ()) # es) st1 = settings_run es ?s" for es by (simp add: run(3))
    ultimately show ?thesis unfolding saved(6) by (metis settings_config_clean_size)
  qed
  with again run(1) sent settings_config_filled(1,2)[OF base(1)] base(2) show ?thesis
    by (intro exI[of _ st1] exI[of _ "settings_config config ?f"]) (simp add: s0_def)
qed

text \<open>(a flaw) an edit typed while a save is in flight is lost.  The success callback makes the
  live values the baseline, so the newer edit counts as saved although no request contains it: the
  form is clean and Save is off, and the reload that follows the save overwrites the edit with what
  the server stored.\<close>

theorem inflight_edit_lost:
  assumes "settings_reachable st" "sp_config st = Some config" "\<not> settings_readOnly config" "\<not> sp_saving st"
    and "fm_errors (sp_form st) = []" "v1 \<noteq> fm_baseline (sp_form st)" "form_valid settings_rules v1" "form_valid settings_rules v2"
    and "stored \<noteq> config"
  shows "\<exists>st1 st2. settings_run [SettingsInput k1 v1, SettingsSubmit, SettingsInput k2 v2, SettingsSaved (Inr ())] st = Some st1
      \<and> fm_values (sp_form st1) = v2 \<and> \<not> isDirty (sp_form st1) \<and> \<not> save_enabled st1
      \<and> settings_run [ConfigLoaded stored] st1 = Some st2
      \<and> fm_values (sp_form st2) = populated_settings stored
      \<and> sp_sent st2 = sp_sent st @ [settings_config config (setValues v1 (sp_form st))]"
proof -
  define f1 where "f1 = settings_field_input k1 v1 (sp_form st)"
  define s1 where "s1 = st\<lparr>sp_form := f1\<rparr>"
  have f1: "fm_values f1 = v1" "fm_baseline f1 = fm_baseline (sp_form st)" "fm_errors f1 = []"
    using assms(5,7) by (simp_all add: f1_def field_input_no_errors)
  have c1: "settings_config config f1 = settings_config config (setValues v1 (sp_form st))"
    by (simp add: settings_config_def isDirty_in_def f1 Let_def)
  have e1: "save_enabled s1" using assms by (simp add: save_enabled_def s1_def f1 isDirty_def)
  define s2 where "s2 = s1\<lparr>sp_form := fst (validate settings_rules f1), sp_saving := True,
    sp_sent := sp_sent st @ [settings_config config f1]\<rparr>"
  have s2: "settings_submit s1 = s2"
    using assms(2,7) by (simp add: settings_submit_def s1_def onSubmit_def f1 s2_def)
  define s3 where "s3 = settings_input k2 v2 s2"
  define st1 where "st1 = settings_saved (Inr ()) s3"
  have run: "settings_run [SettingsInput k1 v1, SettingsSubmit, SettingsInput k2 v2, SettingsSaved (Inr ())] st = Some st1"
    using assms(2-4) e1 by (simp add: settings_input_def f1_def[symmetric] s1_def[symmetric] s2 s3_def[symmetric] st1_def)
      (simp add: s3_def settings_input_def s2_def s1_def)
  have st1: "fm_values (sp_form st1) = v2" "sp_config st1 = Some config"
    "sp_sent st1 = sp_sent st @ [settings_config config f1]"
    by (simp_all add: st1_def s3_def settings_saved_def runWithToasts_def settings_input_def s2_def s1_def assms(2))
  have clean: "\<not> isDirty (sp_form st1)" by (simp add: st1_def saved_is_clean)
  have "fm_values (sp_form (config_loaded stored st1)) = populated_settings stored"
    using reload_fills_clean_form[OF clean] assms(9) st1(2) by auto
  moreover have "sp_sent (config_loaded stored st1) = sp_sent st1"
    by (simp add: config_loaded_def populate_def split: option.split)
  ultimately show ?thesis using run st1 clean c1 by (auto simp: save_enabled_def)
qed

subsection \<open>A page in use\<close>

lemma settings_run_reachable:
  "settings_reachable st \<Longrightarrow> settings_run evs st = Some st' \<Longrightarrow> settings_reachable st'"
  by (induction evs arbitrary: st) (auto split: if_splits intro: settings_reachable.event)

definition edited :: "nat \<Rightarrow> settings_values" where
  "edited n = populated_settings sample_config\<lparr>sv_max_client_load := n\<rparr>"

definition loaded_page :: settings_page where
  "loaded_page = config_loaded sample_config settings_page0"

lemma loaded_page_simps:
  "sp_config loaded_page = Some sample_config" "\<not> sp_saving loaded_page"
  "fm_values (sp_form loaded_page) = populated_settings sample_config"
  "fm_baseline (sp_form loaded_page) = populated_settings sample_config" "sp_sent loaded_page = []"
  "fm_errors (sp_form loaded_page) = []"
  by (simp_all add: loaded_page_def config_loaded_def populate_def settings_page0_def new_form_def isDirty_def)

lemma loaded_reachable: "settings_reachable loaded_page"
  using settings_reachable.event[OF settings_reachable.start, of "ConfigLoaded sample_config"]
  by (simp add: loaded_page_def)

lemma edited_simps:
  "edited n = populated_settings sample_config \<longleftrightarrow> n = 10000"
  "form_valid settings_rules (edited n) \<longleftrightarrow> 1 \<le> n \<and> n \<le> 200000"
  "\<not> settings_readOnly sample_config"
  by (auto simp: edited_def form_valid_settings populated_settings_def sample_config_def settings_readOnly_def)

lemma edited_sent:
  "\<exists>st. settings_reachable st \<and> map c_max_client_load (sp_sent st) = [5]"
proof -
  let ?s = "settings_input ''max_client_load'' (edited 5) loaded_page"
  have s: "sp_config ?s = Some sample_config" "\<not> sp_saving ?s" "fm_values (sp_form ?s) = edited 5"
    "fm_baseline (sp_form ?s) = populated_settings sample_config" "fm_errors (sp_form ?s) = []" "sp_sent ?s = []"
    by (simp_all add: settings_input_def loaded_page_simps field_input_no_errors edited_simps)
  have r: "settings_reachable ?s"
    using settings_reachable.event[OF loaded_reachable, of "SettingsInput ''max_client_load'' (edited 5)"]
    by (simp add: loaded_page_simps edited_simps)
  have "save_enabled ?s" by (simp add: save_enabled_def s isDirty_def edited_simps)
  then have "settings_reachable (settings_submit ?s)"
    using settings_reachable.event[OF r, of SettingsSubmit] by simp
  moreover have "map c_max_client_load (sp_sent (settings_submit ?s)) = [5]"
    by (simp add: settings_submit_def s onSubmit_def edited_simps) (simp add: edited_def)
  ultimately show ?thesis by (intro exI[of _ "settings_submit ?s"] conjI)
qed

text \<open>The upload limit of a million bytes shows as 1 MB.  It is raised to 200 MB and saved, and before the
  refetch another field is saved: the second request posts the million bytes again.\<close>

theorem settings_roundtrip_witness:
  "\<exists>st3. settings_run [ConfigLoaded sample_config,
        SettingsInput ''max_file_size_mb'' ((edited 300)\<lparr>sv_max_file_size_mb := 200\<rparr>), SettingsSubmit, SettingsSaved (Inr ()),
        SettingsInput ''max_client_load'' ((edited 400)\<lparr>sv_max_file_size_mb := 200\<rparr>), SettingsSubmit] settings_page0 = Some st3
     \<and> sv_max_file_size_mb (fm_values (sp_form st3)) = 200
     \<and> map c_max_file_size (sp_sent st3) = [200 * MB, 1000000]"
proof -
  let ?v = "(edited 300)\<lparr>sv_max_file_size_mb := 200\<rparr>" and ?w = "(edited 400)\<lparr>sv_max_file_size_mb := 200\<rparr>"
  have size: "c_max_file_size sample_config = 1000000" by (simp add: sample_config_def)
  have shown: "math_round (1000000 / MB) = 1" by (simp add: math_round_def MB_def floor_eq_iff)
  have start: "\<not> isDirty (sp_form settings_page0)" "\<not> sp_saving settings_page0" "fm_errors (sp_form settings_page0) = []"
    "sp_config settings_page0 \<noteq> Some sample_config" "sp_sent settings_page0 = []"
    by (simp_all add: settings_page0_def new_form_def isDirty_def)
  have valid: "form_valid settings_rules ?v" "form_valid settings_rules ?w" "?v \<noteq> populated_settings sample_config" "?w \<noteq> ?v"
    using edited_simps(2)[of 300] edited_simps(2)[of 400]
    by (simp_all add: form_valid_settings) (simp_all add: edited_def populated_settings_def sample_config_def)
  from settings_roundtrip[OF start(1-4) edited_simps(3) valid(1,3), of "''max_file_size_mb''"] obtain st1 sent where
    run: "settings_run [ConfigLoaded sample_config, SettingsInput ''max_file_size_mb'' ?v, SettingsSubmit] settings_page0 = Some st1"
    and sent: "sp_sent st1 = sp_sent settings_page0 @ [sent]"
    and bytes: "c_max_file_size sent = (if sv_max_file_size_mb ?v = of_int (math_round (c_max_file_size sample_config / MB))
         then c_max_file_size sample_config else sv_max_file_size_mb ?v * MB)"
    and again: "\<forall>k' w. form_valid settings_rules w \<and> w \<noteq> ?v \<and> sv_max_file_size_mb w = sv_max_file_size_mb ?v \<longrightarrow>
         (\<exists>st3 sent'. settings_run [SettingsSaved (Inr ()), SettingsInput k' w, SettingsSubmit] st1 = Some st3
            \<and> fm_values (sp_form st3) = w \<and> sp_sent st3 = sp_sent st1 @ [sent']
            \<and> c_max_file_size sent' = c_max_file_size sample_config)" by blast
  from again valid(2,4) obtain st3 sent' where st3: "settings_run [SettingsSaved (Inr ()),
      SettingsInput ''max_client_load'' ?w, SettingsSubmit] st1 = Some st3" "fm_values (sp_form st3) = ?w"
      "sp_sent st3 = sp_sent st1 @ [sent']" "c_max_file_size sent' = c_max_file_size sample_config" by fastforce
  have "settings_run ([ConfigLoaded sample_config, SettingsInput ''max_file_size_mb'' ?v, SettingsSubmit]
      @ [SettingsSaved (Inr ()), SettingsInput ''max_client_load'' ?w, SettingsSubmit]) settings_page0 = Some st3"
    by (simp only: settings_run_append run option.case st3(1))
  moreover have "c_max_file_size sent = 200 * MB" using bytes by (simp add: size shown)
  ultimately show ?thesis using st3 sent start(5) size by (intro exI[of _ st3]) simp
qed

theorem sent_settings_in_bounds_witness:
  "\<exists>st::settings_page. map c_max_client_load (sp_sent st) = [5] \<and> list_all config_in_bounds (sp_sent st)"
proof -
  from edited_sent obtain st where st: "settings_reachable st" "map c_max_client_load (sp_sent st) = [5]"
    by (elim exE conjE)
  show ?thesis by (rule exI[of _ st], rule conjI[OF st(2) sent_settings_in_bounds[OF st(1)]])
qed

theorem inflight_edit_lost_witness:
  "\<exists>st1 st2. settings_run [SettingsInput ''max_client_load'' (edited 300), SettingsSubmit,
        SettingsInput ''max_client_load'' (edited 400), SettingsSaved (Inr ())]
        loaded_page = Some st1
     \<and> fm_values (sp_form st1) = edited 400 \<and> \<not> save_enabled st1
     \<and> settings_run [ConfigLoaded (sample_config\<lparr>c_max_client_load := 300\<rparr>)] st1 = Some st2
     \<and> sv_max_client_load (fm_values (sp_form st2)) = 300
     \<and> length (sp_sent st2) = 1"
proof -
  have "edited 300 \<noteq> fm_baseline (sp_form loaded_page)"
    "form_valid settings_rules (edited 300)" "form_valid settings_rules (edited 400)"
    "sample_config\<lparr>c_max_client_load := 300\<rparr> \<noteq> sample_config"
    by (simp_all add: loaded_page_simps edited_simps) (simp add: sample_config_def)
  from inflight_edit_lost[OF loaded_reachable loaded_page_simps(1) edited_simps(3) loaded_page_simps(2,6) this]
  show ?thesis by (fastforce simp: loaded_page_simps populated_settings_def)
qed

end
