(* ===== verification/Machine.thy ===== *)
theory Machine
  imports Main
begin

text \<open>
  State machines driven by events.  A component of the user interface has a state, a guard that says
  which events its current rendering admits (a hidden button cannot be clicked) and a step function.
  \<open>run_by\<close> executes a list of events and fails at the first one that is not admitted; \<open>reach_by\<close> is
  the set of states any such list leads to.  Two interfaces collect the arguments about machines: an
  invariant, and a simulation of the machine by an abstract specification that reads the same events.
\<close>

fun run_by :: "('s \<Rightarrow> 'e \<Rightarrow> bool) \<Rightarrow> ('s \<Rightarrow> 'e \<Rightarrow> 's) \<Rightarrow> 'e list \<Rightarrow> 's \<Rightarrow> 's option" where
  "run_by enabled stp [] st = Some st"
| "run_by enabled stp (ev # evs) st =
     (if enabled st ev then run_by enabled stp evs (stp st ev) else None)"

lemma run_by_append:
  "run_by enabled stp (evs @ evs') st =
     (case run_by enabled stp evs st of None \<Rightarrow> None | Some st' \<Rightarrow> run_by enabled stp evs' st')"
  by (induction evs arbitrary: st) simp_all

inductive reach_by :: "'s \<Rightarrow> ('s \<Rightarrow> 'e \<Rightarrow> bool) \<Rightarrow> ('s \<Rightarrow> 'e \<Rightarrow> 's) \<Rightarrow> 's \<Rightarrow> bool"
  for init enabled stp where
  start: "reach_by init enabled stp init"
| event: "reach_by init enabled stp st \<Longrightarrow> enabled st ev \<Longrightarrow> reach_by init enabled stp (stp st ev)"

lemma run_by_reach:
  "run_by enabled stp evs st = Some st' \<Longrightarrow> reach_by init enabled stp st \<Longrightarrow> reach_by init enabled stp st'"
  by (induction evs arbitrary: st) (auto split: if_splits intro: reach_by.event)

lemma reach_by_run:
  "reach_by init enabled stp st \<longleftrightarrow> (\<exists>evs. run_by enabled stp evs init = Some st)"
proof
  assume "reach_by init enabled stp st"
  then show "\<exists>evs. run_by enabled stp evs init = Some st"
  proof (induction rule: reach_by.induct)
    case start
    show ?case by (rule exI[of _ "[]"]) simp
  next
    case (event st ev)
    then obtain evs where "run_by enabled stp evs init = Some st" by blast
    with event.hyps show ?case by (intro exI[of _ "evs @ [ev]"]) (simp add: run_by_append)
  qed
next
  assume "\<exists>evs. run_by enabled stp evs init = Some st"
  then show "reach_by init enabled stp st" using run_by_reach reach_by.start by fast
qed

text \<open>A machine with fewer events reaches fewer states.\<close>

lemma reach_by_mono:
  assumes "reach_by init enabled' stp st" "\<And>s ev. enabled' s ev \<Longrightarrow> enabled s ev"
  shows "reach_by init enabled stp st"
  using assms by (induction rule: reach_by.induct) (auto intro: reach_by.intros)

locale invariant =
  fixes init :: 's
    and enabled :: "'s \<Rightarrow> 'e \<Rightarrow> bool"
    and stp :: "'s \<Rightarrow> 'e \<Rightarrow> 's"
    and inv :: "'s \<Rightarrow> bool"
  assumes inv_init: "inv init"
    and inv_step: "inv st \<Longrightarrow> enabled st ev \<Longrightarrow> inv (stp st ev)"
begin

lemma inv_reach: "reach_by init enabled stp st \<Longrightarrow> inv st"
  by (induction rule: reach_by.induct) (auto intro: inv_init inv_step)

lemma inv_run: "inv st \<Longrightarrow> run_by enabled stp evs st = Some st' \<Longrightarrow> inv st'"
  by (induction evs arbitrary: st) (auto split: if_splits intro: inv_step)

end

text \<open>A simulation: an abstraction of the state follows, event by event, a specification that is a
  function of the abstraction and the event alone.\<close>

locale simulation = invariant +
  fixes abs :: "'s \<Rightarrow> 'a"
    and spec :: "'a \<Rightarrow> 'e \<Rightarrow> 'a"
  assumes sim_step: "inv st \<Longrightarrow> enabled st ev \<Longrightarrow> abs (stp st ev) = spec (abs st) ev"
begin

lemma sim_run:
  "inv st \<Longrightarrow> run_by enabled stp evs st = Some st' \<Longrightarrow> abs st' = foldl spec (abs st) evs"
proof (induction evs arbitrary: st)
  case (Cons ev evs)
  then have "enabled st ev" "run_by enabled stp evs (stp st ev) = Some st'" by (simp_all split: if_splits)
  with Cons.IH[of "stp st ev"] Cons.prems(1) show ?case by (simp add: inv_step sim_step)
qed simp

lemma sim_start: "run_by enabled stp evs init = Some st \<Longrightarrow> abs st = foldl spec (abs init) evs"
  using sim_run[OF inv_init] .

end

end
