(* ===== verification/Json_Api.thy ===== *)
theory Json_Api
  imports Role_Shape Js_Text
begin

text \<open>
  The JSON and form endpoints: \<open>features/auth/api/authApi.ts\<close>, \<open>defaultRoleApi.ts\<close>,
  \<open>features/admin/api/adminApi.ts\<close> and \<open>features/tokens/api/tokensApi.ts\<close>.  Every function is
  one \<open>apiRequest\<close>; the pair of its URL and its options is the \<open>..._call\<close>, and the function
  sends it and shapes the result.
\<close>

subsection \<open>Bodies\<close>

text \<open>A body is the list of fields of a \<open>FormData\<close> or the text \<open>JSON.stringify\<close> makes of a
  value; the text of a whole configuration is kept as the configuration.\<close>

datatype request_body = FormData "(string \<times> string) list" | JsonText json | ConfigText app_config

type_synonym api_call = "string \<times> request_body request_options"

definition get_call :: "string \<Rightarrow> api_call" where
  "get_call url = (url, no_options)"

definition bare_call :: "http_method \<Rightarrow> string \<Rightarrow> api_call" where
  "bare_call m url = (url, \<lparr>opt_method = Some m, opt_body = None, opt_headers = Map.empty\<rparr>)"

definition form_call :: "http_method \<Rightarrow> string \<Rightarrow> (string \<times> string) list \<Rightarrow> api_call" where
  "form_call m url flds =
     (url, \<lparr>opt_method = Some m, opt_body = Some (FormData flds), opt_headers = Map.empty\<rparr>)"

definition json_call :: "http_method \<Rightarrow> string \<Rightarrow> request_body \<Rightarrow> api_call" where
  "json_call m url b =
     (url, \<lparr>opt_method = Some m, opt_body = Some b,
            opt_headers = [''Content-Type'' \<mapsto> ''application/json'']\<rparr>)"

lemmas call_kinds = get_call_def bare_call_def form_call_def json_call_def

definition bool_str :: "bool \<Rightarrow> string" where
  "bool_str b = (if b then ''true'' else ''false'')"

definition opt_field :: "string \<Rightarrow> ('a \<Rightarrow> string) \<Rightarrow> 'a option \<Rightarrow> (string \<times> string) list" where
  "opt_field k f v = (case v of None \<Rightarrow> [] | Some x \<Rightarrow> [(k, f x)])"

type_synonym api_fetch = "request_body http_request \<Rightarrow> js_error + http_response"

definition send :: "api_fetch \<Rightarrow> storage \<Rightarrow> api_call \<Rightarrow> js_error + json option" where
  "send fetch session call = apiRequest fetch session (fst call) (snd call)"

definition send_void :: "api_fetch \<Rightarrow> storage \<Rightarrow> api_call \<Rightarrow> js_error + unit" where
  "send_void fetch session call = and_then (send fetch session call) (\<lambda>_. Inr ())"

subsection \<open>authApi, defaultRoleApi\<close>

definition login_call :: "string \<Rightarrow> string \<Rightarrow> api_call" where
  "login_call username password =
     form_call POST ''/api/login'' [(''username'', username), (''password'', password)]"

definition login where "login fetch session u p = send fetch session (login_call u p)"

definition logout_call :: api_call where "logout_call = bare_call POST ''/api/logout''"

definition logout where "logout fetch session = send_void fetch session logout_call"

definition fetchMe where "fetchMe fetch session = send fetch session (get_call ''/api/me'')"

definition changeMyPassword_call :: "change_my_password_payload \<Rightarrow> api_call" where
  "changeMyPassword_call payload = json_call PUT ''/api/me/password''
     (JsonText (JObj [(''current_password'', JStr (cp_current_password payload)),
                      (''new_password'', JStr (cp_new_password payload))]))"

definition changeMyPassword where
  "changeMyPassword fetch session payload = send_void fetch session (changeMyPassword_call payload)"

definition updateMyDefaultRole_call :: "string option \<Rightarrow> api_call" where
  "updateMyDefaultRole_call role = json_call PUT ''/api/me/default-role''
     (JsonText (JObj [(''role'', case role of None \<Rightarrow> JNull | Some r \<Rightarrow> JStr r)]))"

definition updateMyDefaultRole where
  "updateMyDefaultRole fetch session role = send_void fetch session (updateMyDefaultRole_call role)"

subsection \<open>adminApi\<close>

definition admin_users_url :: string where "admin_users_url = ''/api/admin/users''"

definition admin_user_url :: "string \<Rightarrow> string" where
  "admin_user_url username = ''/api/admin/users/'' @ encodeURIComponent username"

text \<open>\<open>data.bans\<close> throws when the call returned undefined.\<close>

definition listBans where
  "listBans fetch session =
     and_then (send fetch session (get_call ''/api/admin/bans''))
       (\<lambda>data. case data of None \<Rightarrow> Inl (TypeErr ''Cannot read properties of undefined'')
                | Some d \<Rightarrow> Inr (json_field ''bans'' d))"

definition unbanUser_call :: "string \<Rightarrow> api_call" where
  "unbanUser_call username = bare_call DELETE (''/api/admin/bans/'' @ encodeURIComponent username)"

definition unbanUser where
  "unbanUser fetch session username = send_void fetch session (unbanUser_call username)"

definition listUsers where
  "listUsers fetch session = send fetch session (get_call admin_users_url)"

definition createUser_call :: "create_user_payload \<Rightarrow> api_call" where
  "createUser_call payload = form_call POST admin_users_url
     ([(''username'', cu_username payload), (''password'', cu_password payload),
       (''is_admin'', bool_str (cu_is_admin payload)),
       (''allowed_roles'', join_with '','' (cu_allowed_roles payload))]
      @ opt_field ''must_change_password'' bool_str (cu_must_change_password payload))"

definition createUser where
  "createUser fetch session payload = send_void fetch session (createUser_call payload)"

definition updateUser_call :: "string \<Rightarrow> update_user_payload \<Rightarrow> api_call" where
  "updateUser_call username payload = form_call PUT (admin_user_url username)
     (opt_field ''is_admin'' bool_str (uu_is_admin payload)
      @ opt_field ''allowed_roles'' (join_with '','') (uu_allowed_roles payload))"

definition updateUser where
  "updateUser fetch session username payload = send_void fetch session (updateUser_call username payload)"

definition deleteUser_call :: "string \<Rightarrow> api_call" where
  "deleteUser_call username = bare_call DELETE (admin_user_url username)"

definition deleteUser where
  "deleteUser fetch session username = send_void fetch session (deleteUser_call username)"

definition resetUserPassword_call :: "string \<Rightarrow> string \<Rightarrow> bool option \<Rightarrow> api_call" where
  "resetUserPassword_call username newPassword mustChangePassword =
     json_call PUT (admin_user_url username @ ''/password'')
       (JsonText (JObj ([(''password'', JStr newPassword)]
          @ json_opt ''must_change_password'' JBool mustChangePassword)))"

definition resetUserPassword where
  "resetUserPassword fetch session username newPassword mustChange =
     send_void fetch session (resetUserPassword_call username newPassword mustChange)"

definition getConfig where "getConfig fetch session = send fetch session (get_call ''/api/config'')"

definition saveConfig_call :: "app_config \<Rightarrow> api_call" where
  "saveConfig_call config = json_call POST ''/api/config'' (ConfigText config)"

definition saveConfig where
  "saveConfig fetch session config = send_void fetch session (saveConfig_call config)"

text \<open>The export bypasses \<open>apiRequest\<close>: the blob is the response, and an error carries a null
  body.\<close>

definition export_request :: "'b http_request" where
  "export_request = \<lparr>req_url = ''/api/config/export'', req_method = GET, req_credentials_include = True,
     req_headers = [''Accept'' \<mapsto> ''application/json''], req_body = None\<rparr>"

definition exportConfig :: "('b http_request \<Rightarrow> js_error + http_response) \<Rightarrow> js_error + http_response" where
  "exportConfig fetch =
     and_then (fetch export_request)
       (\<lambda>response. if \<not> resp_ok response
          then Inl (ApiError (resp_status response)
                     (if resp_status_text response \<noteq> [] then resp_status_text response
                      else ''HTTP '' @ nat_str (resp_status response)) (Some JNull))
          else Inr response)"

subsection \<open>tokensApi\<close>

definition my_token_url :: "nat \<Rightarrow> string" where "my_token_url i = ''/api/me/tokens/'' @ nat_str i"
definition admin_token_url :: "nat \<Rightarrow> string" where "admin_token_url i = ''/api/admin/tokens/'' @ nat_str i"

definition create_token_fields :: "'z create_token_payload_scheme \<Rightarrow> (string \<times> json) list" where
  "create_token_fields p = [(''name'', JStr (ct_name p)), (''is_read_only'', JBool (ct_is_read_only p)),
     (''max_read_bytes'', JNum (int (ct_max_read_bytes p)))]"

definition update_token_json :: "update_token_payload \<Rightarrow> json" where
  "update_token_json p = JObj (json_opt ''name'' JStr (ut_name p)
     @ json_opt ''is_read_only'' JBool (ut_is_read_only p)
     @ json_opt ''max_read_bytes'' (\<lambda>n. JNum (int n)) (ut_max_read_bytes p))"

definition fetchMyTokens where "fetchMyTokens fetch session = send fetch session (get_call ''/api/me/tokens'')"

definition createMyToken_call :: "create_token_payload \<Rightarrow> api_call" where
  "createMyToken_call payload = json_call POST ''/api/me/tokens'' (JsonText (JObj (create_token_fields payload)))"

definition deleteMyToken_call :: "nat \<Rightarrow> api_call" where
  "deleteMyToken_call i = bare_call DELETE (my_token_url i)"

definition updateMyToken_call :: "nat \<Rightarrow> update_token_payload \<Rightarrow> api_call" where
  "updateMyToken_call i payload = json_call PUT (my_token_url i) (JsonText (update_token_json payload))"

definition fetchAdminTokens where
  "fetchAdminTokens fetch session = send fetch session (get_call ''/api/admin/tokens'')"

definition createAdminToken_call :: "admin_create_token_payload \<Rightarrow> api_call" where
  "createAdminToken_call payload = json_call POST ''/api/admin/tokens''
     (JsonText (JObj (create_token_fields payload @ [(''user_id'', JNum (int (ct_user_id payload)))])))"

definition deleteAdminToken_call :: "nat \<Rightarrow> api_call" where
  "deleteAdminToken_call i = bare_call DELETE (admin_token_url i)"

definition updateAdminToken_call :: "nat \<Rightarrow> update_token_payload \<Rightarrow> api_call" where
  "updateAdminToken_call i payload = json_call PUT (admin_token_url i) (JsonText (update_token_json payload))"

subsection \<open>Addresses\<close>

text \<open>The path of a per-user endpoint: the text before the user's segment, the segment, the rest.\<close>

definition user_segment :: "string \<Rightarrow> nat \<Rightarrow> uri_error + string" where
  "user_segment url k = decodeURIComponent (split_on CHR ''/'' url ! k)"

lemma split_path:
  "ss \<noteq> [] \<Longrightarrow> list_all (\<lambda>s. CHR ''/'' \<notin> set s) ss \<Longrightarrow> url = join_with ''/'' ss \<Longrightarrow>
     split_on CHR ''/'' url = ss"
  by (simp add: split_join list_all_iff)

lemma user_paths:
  "split_on CHR ''/'' (admin_user_url u) = [[], ''api'', ''admin'', ''users'', encodeURIComponent u]"
  "split_on CHR ''/'' (admin_user_url u @ ''/password'')
     = [[], ''api'', ''admin'', ''users'', encodeURIComponent u, ''password'']"
  "split_on CHR ''/'' (''/api/admin/bans/'' @ encodeURIComponent u)
     = [[], ''api'', ''admin'', ''bans'', encodeURIComponent u]"
  by (rule split_path; simp add: encode_no_slash admin_user_url_def)+

lemma user_url_segment:
  assumes "utf8_valid u"
  shows "user_segment (admin_user_url u) 4 = Inr u" "user_segment (admin_user_url u @ ''/password'') 4 = Inr u"
    "user_segment (''/api/admin/bans/'' @ encodeURIComponent u) 4 = Inr u"
  unfolding user_segment_def user_paths by (simp_all add: decode_encode assms)

text \<open>whatever characters a user name has, each per-user request addresses exactly that user: the
  name is one segment of the path, and decoding the segment gives the name back; so two users never
  share an address.\<close>

theorem user_requests_address_user:
  assumes "utf8_valid u"
  shows "user_segment (fst (updateUser_call u p)) 4 = Inr u
    \<and> user_segment (fst (deleteUser_call u)) 4 = Inr u
    \<and> user_segment (fst (resetUserPassword_call u pw m)) 4 = Inr u
    \<and> user_segment (fst (unbanUser_call u)) 4 = Inr u
    \<and> length (split_on CHR ''/'' (fst (deleteUser_call u))) = 5"
  unfolding updateUser_call_def deleteUser_call_def resetUserPassword_call_def unbanUser_call_def call_kinds fst_conv
  by (intro conjI user_url_segment assms) (simp add: user_paths)

theorem user_requests_address_user_witness:
  "user_segment (fst (deleteUser_call ''a/b%'')) 4 = Inr ''a/b%''"
proof -
  have "utf8_valid ''a/b%''" by (rule utf8_valid_ascii) simp
  from user_requests_address_user[OF this] show ?thesis by blast
qed

text \<open>The roles of a user travel as one comma-separated field: they are read back exactly when none of
  them contains a comma, and a role with a comma reads as two.\<close>

lemma roles_field_roundtrip:
  "rs \<noteq> [] \<Longrightarrow> (\<And>r. r \<in> set rs \<Longrightarrow> CHR '','' \<notin> set r) \<Longrightarrow> split_on CHR '','' (join_with '','' rs) = rs"
  by (rule split_join) auto

lemma roles_field_ambiguous:
  "updateUser_call u \<lparr>uu_is_admin = None, uu_allowed_roles = Some [''a,b'']\<rparr>
     = updateUser_call u \<lparr>uu_is_admin = None, uu_allowed_roles = Some [''a'', ''b'']\<rparr>"
  by (simp add: updateUser_call_def opt_field_def)

end
