(* ===== verification/Session.thy ===== *)
theory Session
  imports Json_Api Mutations Machine
begin

text \<open>
  Who is signed in: the query of \<open>useMe.ts\<close>, which also stores the CSRF token, the sign-out of
  \<open>useLogout.ts\<close> and \<open>UserMenu.tsx\<close>, and the three guards (\<open>AuthGuard.tsx\<close>, \<open>AdminGuard.tsx\<close>,
  \<open>RequireFreshPassword.tsx\<close>) that read it.

  The cached query belongs to a package: what the components rely on is the locale \<open>query_entry\<close>
  (data survive a failing refetch, an error survives until the next success unless there are no data,
  clearing forgets everything), and the record below satisfies it.  The tab is a machine over the
  requests for the identity, those that an invalidation has replaced included, and two functions of its
  events alone specify what it shows and which token it stores.
\<close>

subsection \<open>A cached query\<close>

locale query_entry =
  fixes q_data :: "'q \<Rightarrow> 'a option"
    and q_error :: "'q \<Rightarrow> js_error option"
    and q_fetching :: "'q \<Rightarrow> bool"
    and q_start :: "'q \<Rightarrow> 'q"
    and q_settle :: "js_error + 'a \<Rightarrow> 'q \<Rightarrow> 'q"
    and q_clear :: "'q \<Rightarrow> 'q"
  assumes start_data: "q_data (q_start q) = q_data q"
    and start_error: "q_error (q_start q) = (if q_data q = None then None else q_error q)"
    and start_fetching: "q_fetching (q_start q)"
    and settle_data: "q_data (q_settle r q) = (case r of Inl e \<Rightarrow> q_data q | Inr a \<Rightarrow> Some a)"
    and settle_error: "q_error (q_settle r q) = (case r of Inl e \<Rightarrow> Some e | Inr a \<Rightarrow> None)"
    and settle_fetching: "\<not> q_fetching (q_settle r q)"
    and clear_all: "q_data (q_clear q) = None" "q_error (q_clear q) = None" "\<not> q_fetching (q_clear q)"
begin

lemmas entry_laws = start_data start_error start_fetching settle_data settle_error settle_fetching clear_all

lemma settled_known: "q_data (q_settle r q) \<noteq> None \<or> q_error (q_settle r q) \<noteq> None"
  by (cases r) (simp_all add: entry_laws)

lemma refetch_keeps_known: "q_data q \<noteq> None \<Longrightarrow> q_data (q_start q) = q_data q \<and> q_error (q_start q) = q_error q"
  by (auto simp: start_data start_error)

lemma failed_refetch_keeps_data: "q_data (q_settle (Inl e) q) = q_data q \<and> q_error (q_settle (Inl e) q) = Some e"
  by (simp add: entry_laws)

end

record 'a entry =
  en_data :: "'a option"
  en_error :: "js_error option"
  en_fetching :: bool

definition fresh_entry :: "'a entry" where
  "fresh_entry = \<lparr>en_data = None, en_error = None, en_fetching = False\<rparr>"

definition entry_start :: "'a entry \<Rightarrow> 'a entry" where
  "entry_start q = q\<lparr>en_error := (if en_data q = None then None else en_error q), en_fetching := True\<rparr>"

definition entry_settle :: "js_error + 'a \<Rightarrow> 'a entry \<Rightarrow> 'a entry" where
  "entry_settle r q =
     (case r of
        Inl e \<Rightarrow> q\<lparr>en_error := Some e, en_fetching := False\<rparr>
      | Inr a \<Rightarrow> \<lparr>en_data = Some a, en_error = None, en_fetching = False\<rparr>)"

interpretation me_entry: query_entry en_data en_error en_fetching entry_start entry_settle "\<lambda>q. fresh_entry"
  by unfold_locales (auto simp: entry_start_def entry_settle_def fresh_entry_def split: sum.split)

text \<open>\<open>isLoading\<close>: the first fetch is running.\<close>

definition isLoading :: "'a entry \<Rightarrow> bool" where
  "isLoading q \<longleftrightarrow> en_data q = None \<and> en_error q = None \<and> en_fetching q"

subsection \<open>useMe, useLogout\<close>

text \<open>The query function.  \<open>parse\<close> is the type assertion on the JSON of the response; reading the
  token of an undefined response throws.\<close>

definition useMe_queryFn ::
  "(json \<Rightarrow> me_response) \<Rightarrow> api_fetch \<Rightarrow> storage \<Rightarrow> (js_error + me_response) \<times> storage" where
  "useMe_queryFn parse fetch session =
     (case fetchMe fetch session of
        Inl e \<Rightarrow> (Inl e, session)
      | Inr None \<Rightarrow> (Inl (TypeErr ''Cannot read properties of undefined''), session)
      | Inr (Some j) \<Rightarrow> (Inr (parse j), setCsrfToken (me_csrf_token (parse j)) session))"

definition gateway_logout_url :: string where
  "gateway_logout_url = ''https://auth.mcpwork.space/if/flow/default-invalidation-flow/''"

text \<open>The browser tab: its session storage, the cached identity, the request in flight, the number of
  requests that run although a newer one has replaced them and, once the location was replaced, that
  the page is being left.  Mounting the guard starts the first request.\<close>

record tab =
  tb_session :: storage
  tb_me :: "me_response entry"
  tb_inflight :: bool
  tb_superseded :: nat
  tb_location :: "string option"
  tb_toasts :: "toast list"

definition tab0 :: "storage \<Rightarrow> tab" where
  "tab0 session = \<lparr>tb_session = session, tb_me = entry_start fresh_entry, tb_inflight = True,
     tb_superseded = 0, tb_location = None, tb_toasts = []\<rparr>"

text \<open>A mount or a focus asks for the identity unless a request is running.\<close>

definition me_start :: "tab \<Rightarrow> tab" where
  "me_start st =
     (if tb_inflight st then st else st\<lparr>tb_me := entry_start (tb_me st), tb_inflight := True\<rparr>)"

text \<open>The hooks that save the configuration, the default role or a password invalidate the identity.
  As the package documents, that cancels a running request and starts another (a first request, that
  has no data to fall back to, is joined).  Cancelling makes the package ignore the result; the query
  function does not take its abort signal, so it runs on.\<close>

definition me_invalidate :: "tab \<Rightarrow> tab" where
  "me_invalidate st =
     (if tb_inflight st \<and> en_data (tb_me st) \<noteq> None
      then st\<lparr>tb_me := entry_start (tb_me st), tb_superseded := tb_superseded st + 1\<rparr>
      else me_start st)"

text \<open>A response that arrives after the cache was cleared still runs the query function: it stores
  the token, but its entry is gone.\<close>

definition me_done :: "(json \<Rightarrow> me_response) \<Rightarrow> api_fetch \<Rightarrow> tab \<Rightarrow> tab" where
  "me_done parse fetch st =
     (case useMe_queryFn parse fetch (tb_session st) of
        (r, session) \<Rightarrow>
          st\<lparr>tb_session := session, tb_inflight := False,
             tb_me := (if tb_location st = None then entry_settle r (tb_me st) else tb_me st)\<rparr>)"

text \<open>The answer of a replaced request: its query function stores the token, its result is dropped.\<close>

definition me_late :: "(json \<Rightarrow> me_response) \<Rightarrow> api_fetch \<Rightarrow> tab \<Rightarrow> tab" where
  "me_late parse fetch st =
     (case useMe_queryFn parse fetch (tb_session st) of
        (r, session) \<Rightarrow> st\<lparr>tb_session := session, tb_superseded := tb_superseded st - 1\<rparr>)"

definition logout_failed_toast :: toast where
  "logout_failed_toast = showToast \<lparr>to_color = Red, to_title = Some ''Couldn't sign out'',
     to_message = ''Please close the tab manually '' @ [CHR 0xE2, CHR 0x80, CHR 0x94]
       @ '' your session may still be active on the server.'', to_autoClose = Some None\<rparr>"

definition useLogout :: "tab \<Rightarrow> tab" where
  "useLogout st = st\<lparr>tb_session := clearCsrfToken (tb_session st), tb_me := fresh_entry\<rparr>"

definition handleLogout :: "js_error + unit \<Rightarrow> tab \<Rightarrow> tab" where
  "handleLogout outcome st =
     (case outcome of
        Inr _ \<Rightarrow> (useLogout st)\<lparr>tb_location := Some gateway_logout_url\<rparr>
      | Inl e \<Rightarrow> st\<lparr>tb_toasts := tb_toasts st @ [logout_failed_toast]\<rparr>)"

subsection \<open>The guards\<close>

datatype guard_view = GuardLoading | SignInRequired | GuardThrows js_error | Outlet | Forbidden
  | RedirectTo string | RendersNothing

definition authGuard :: "me_response entry \<Rightarrow> guard_view" where
  "authGuard q =
     (if isLoading q then GuardLoading
      else case en_error q of
             Some e \<Rightarrow> if isAuthError e then SignInRequired else GuardThrows e
           | None \<Rightarrow> (if en_data q = None then SignInRequired else Outlet))"

definition adminGuard :: "me_response entry \<Rightarrow> guard_view" where
  "adminGuard q =
     (if isLoading q then RendersNothing
      else case en_data q of
             Some me \<Rightarrow> if me_is_admin me then Outlet else Forbidden
           | None \<Rightarrow> Forbidden)"

definition requireFreshPassword :: "string \<Rightarrow> me_response entry \<Rightarrow> guard_view" where
  "requireFreshPassword pathname q =
     (case en_data q of
        Some me \<Rightarrow> if me_must_change_password me \<and> pathname \<noteq> ''/change-password''
                    then RedirectTo ''/change-password'' else Outlet
      | None \<Rightarrow> Outlet)"

lemma authGuard_Outlet: "authGuard q = Outlet \<longleftrightarrow> en_error q = None \<and> en_data q \<noteq> None"
  by (auto simp: authGuard_def isLoading_def split: option.split)

lemma adminGuard_Outlet: "adminGuard q = Outlet \<longleftrightarrow> (\<exists>me. en_data q = Some me \<and> me_is_admin me)"
  by (auto simp: adminGuard_def isLoading_def split: option.split)

subsection \<open>The tab as a machine\<close>

datatype tab_event = MeStart | MeInvalidate | MeDone "js_error + http_response" | MeLate "js_error + http_response"
  | LogoutDone "js_error + unit"

text \<open>The menu with its sign-out is part of the guarded shell; once the location was replaced only
  responses that are still on their way can arrive.\<close>

fun tab_enabled :: "tab \<Rightarrow> tab_event \<Rightarrow> bool" where
  "tab_enabled st MeStart \<longleftrightarrow> tb_location st = None"
| "tab_enabled st MeInvalidate \<longleftrightarrow> tb_location st = None"
| "tab_enabled st (MeDone response) \<longleftrightarrow> tb_inflight st"
| "tab_enabled st (MeLate response) \<longleftrightarrow> 0 < tb_superseded st"
| "tab_enabled st (LogoutDone outcome) \<longleftrightarrow> authGuard (tb_me st) = Outlet \<and> tb_location st = None"

fun tab_step :: "(json \<Rightarrow> me_response) \<Rightarrow> tab \<Rightarrow> tab_event \<Rightarrow> tab" where
  "tab_step parse st MeStart = me_start st"
| "tab_step parse st MeInvalidate = me_invalidate st"
| "tab_step parse st (MeDone response) = me_done parse (\<lambda>r. response) st"
| "tab_step parse st (MeLate response) = me_late parse (\<lambda>r. response) st"
| "tab_step parse st (LogoutDone outcome) = handleLogout outcome st"

text \<open>What a response says, whatever session storage held when it was asked for.\<close>

definition me_answer :: "(json \<Rightarrow> me_response) \<Rightarrow> js_error + http_response \<Rightarrow> js_error + me_response" where
  "me_answer parse response = fst (useMe_queryFn parse (\<lambda>r. response) Map.empty)"

lemma queryFn_answer:
  "useMe_queryFn parse (\<lambda>r. response) session =
     (me_answer parse response,
      case me_answer parse response of Inl e \<Rightarrow> session | Inr me \<Rightarrow> setCsrfToken (me_csrf_token me) session)"
  by (auto simp: me_answer_def useMe_queryFn_def fetchMe_def send_def get_call_def apiRequest_def
      split: sum.split option.split)

lemma me_done_answer:
  "me_done parse (\<lambda>r. response) st = st\<lparr>
     tb_session := (case me_answer parse response of
        Inl e \<Rightarrow> tb_session st | Inr me \<Rightarrow> setCsrfToken (me_csrf_token me) (tb_session st)),
     tb_inflight := False,
     tb_me := (if tb_location st = None then entry_settle (me_answer parse response) (tb_me st) else tb_me st)\<rparr>"
  "me_late parse (\<lambda>r. response) st = st\<lparr>
     tb_session := (case me_answer parse response of
        Inl e \<Rightarrow> tb_session st | Inr me \<Rightarrow> setCsrfToken (me_csrf_token me) (tb_session st)),
     tb_superseded := tb_superseded st - 1\<rparr>"
  by (simp_all add: me_done_def me_late_def queryFn_answer)

text \<open>While nothing is known the loader is backed by a running request, and a cleared cache stays
  empty.\<close>

definition tab_inv :: "tab \<Rightarrow> bool" where
  "tab_inv st \<longleftrightarrow>
     (tb_location st = None \<and> en_data (tb_me st) = None \<longrightarrow>
        (en_error (tb_me st) = None \<longleftrightarrow> tb_inflight st) \<and> (tb_inflight st \<longrightarrow> en_fetching (tb_me st)))
     \<and> (tb_location st \<noteq> None \<longrightarrow> tb_me st = fresh_entry)"

lemmas tab_steps = me_start_def me_invalidate_def me_done_answer handleLogout_def useLogout_def

lemma tab_inv_step: "tab_inv st \<Longrightarrow> tab_enabled st ev \<Longrightarrow> tab_inv (tab_step parse st ev)"
  by (cases ev) (auto simp: tab_inv_def tab_steps me_entry.entry_laws fresh_entry_def split: sum.split)

lemma tab_inv_init: "tab_inv (tab0 session)"
  by (simp add: tab_inv_def tab0_def fresh_entry_def entry_start_def)

text \<open>What the user sees of the identity.\<close>

datatype identity = Unknown | NobodySignedIn | SignedIn me_response | Crashed js_error | Left

definition shown_identity :: "tab \<Rightarrow> identity" where
  "shown_identity st =
     (if tb_location st \<noteq> None then Left
      else case authGuard (tb_me st) of
             GuardLoading \<Rightarrow> Unknown
           | GuardThrows e \<Rightarrow> Crashed e
           | Outlet \<Rightarrow> SignedIn (the (en_data (tb_me st)))
           | _ \<Rightarrow> NobodySignedIn)"

text \<open>The specification reads the events alone: what is shown, and whether an identity was ever
  answered.  Asking again shows the loader only to someone who was never signed in; an answer in force
  decides what is shown; a replaced answer shows nothing; a sign-out is final.\<close>

type_synonym identity_view = "identity \<times> bool"

fun asks_again :: "identity_view \<Rightarrow> identity_view" where
  "asks_again (NobodySignedIn, False) = (Unknown, False)"
| "asks_again (Crashed e, False) = (Unknown, False)"
| "asks_again v = v"

fun answered :: "js_error + me_response \<Rightarrow> identity_view \<Rightarrow> identity_view" where
  "answered r (Left, known) = (Left, known)"
| "answered (Inr me) (i, known) = (SignedIn me, True)"
| "answered (Inl e) (i, known) = (if isAuthError e then NobodySignedIn else Crashed e, known)"

fun identity_next :: "(json \<Rightarrow> me_response) \<Rightarrow> identity_view \<Rightarrow> tab_event \<Rightarrow> identity_view" where
  "identity_next parse v MeStart = asks_again v"
| "identity_next parse v MeInvalidate = asks_again v"
| "identity_next parse v (MeDone response) = answered (me_answer parse response) v"
| "identity_next parse v (MeLate response) = v"
| "identity_next parse v (LogoutDone (Inr u)) = (Left, False)"
| "identity_next parse v (LogoutDone (Inl e)) = v"

text \<open>The token in session storage: every answer, replaced or not, stores its own, and a sign-out
  clears it.\<close>

fun event_answer :: "(json \<Rightarrow> me_response) \<Rightarrow> tab_event \<Rightarrow> me_response option" where
  "event_answer parse (MeDone response) = (case me_answer parse response of Inl e \<Rightarrow> None | Inr me \<Rightarrow> Some me)"
| "event_answer parse (MeLate response) = (case me_answer parse response of Inl e \<Rightarrow> None | Inr me \<Rightarrow> Some me)"
| "event_answer parse ev = None"

definition token_next :: "(json \<Rightarrow> me_response) \<Rightarrow> string option \<Rightarrow> tab_event \<Rightarrow> string option" where
  "token_next parse t ev =
     (if \<exists>u. ev = LogoutDone (Inr u) then None
      else case event_answer parse ev of None \<Rightarrow> t | Some me \<Rightarrow> Some (me_csrf_token me))"

definition identity_view_of :: "tab \<Rightarrow> identity_view" where
  "identity_view_of st = (shown_identity st, en_data (tb_me st) \<noteq> None)"

lemma view_of_left: "tb_location st \<noteq> None \<Longrightarrow> tab_inv st \<Longrightarrow> identity_view_of st = (Left, False)"
  by (auto simp: identity_view_of_def shown_identity_def tab_inv_def fresh_entry_def)

lemma view_of_open:
  assumes "tb_location st = None" "tab_inv st"
  shows "identity_view_of st =
    (case en_error (tb_me st) of
       Some e \<Rightarrow> (if isAuthError e then NobodySignedIn else Crashed e, en_data (tb_me st) \<noteq> None)
     | None \<Rightarrow> (case en_data (tb_me st) of None \<Rightarrow> (Unknown, False) | Some me \<Rightarrow> (SignedIn me, True)))"
  using assms
  by (auto simp: identity_view_of_def shown_identity_def tab_inv_def authGuard_def isLoading_def
      split: option.split)

lemma identity_sim:
  assumes inv: "tab_inv st" and en: "tab_enabled st ev"
  shows "identity_view_of (tab_step parse st ev) = identity_next parse (identity_view_of st) ev"
proof (cases "tb_location st")
  case None
  note inv' = tab_inv_step[OF inv en, of parse]
  show ?thesis
  proof (cases "tb_location (tab_step parse st ev)")
    case loc: None
    show ?thesis using inv en None loc
      unfolding view_of_open[OF None inv] view_of_open[OF loc inv']
      by (cases ev) (auto simp: tab_steps tab_inv_def me_entry.entry_laws split: option.splits sum.splits)
  next
    case (Some l)
    then obtain u where "ev = LogoutDone (Inr u)" using None
      by (cases ev) (auto simp: tab_steps split: sum.splits if_splits)
    then show ?thesis using view_of_left[OF _ inv'] Some by simp
  qed
next
  case (Some l)
  then have "tb_location (tab_step parse st ev) \<noteq> None" using en by (cases ev) (auto simp: tab_steps)
  from view_of_left[OF this tab_inv_step[OF inv en]] view_of_left[OF _ inv] Some en
  show ?thesis by (cases ev) auto
qed

lemma token_sim:
  "tab_enabled st ev \<Longrightarrow>
     getCsrfToken (tb_session (tab_step parse st ev)) = token_next parse (getCsrfToken (tb_session st)) ev"
  by (cases ev) (auto simp: token_next_def tab_steps csrf_set_get csrf_clear_get split: sum.split)

interpretation tab_identity: simulation "tab0 session" tab_enabled "tab_step parse" tab_inv identity_view_of "identity_next parse"
  for session parse
  by unfold_locales (simp_all add: tab_inv_init tab_inv_step identity_sim)

interpretation tab_token: simulation "tab0 session" tab_enabled "tab_step parse" tab_inv
    "\<lambda>st. getCsrfToken (tb_session st)" "token_next parse"
  for session parse
  by unfold_locales (simp_all add: tab_inv_init tab_inv_step token_sim)

subsection \<open>Properties\<close>

text \<open>The specification on its own: nobody who was answered with an identity sees the loader.\<close>

lemma asks_again_cases: "asks_again v = v \<or> fst v \<noteq> Left \<and> \<not> snd v \<and> asks_again v = (Unknown, False)"
  by (cases v rule: asks_again.cases) auto

lemma spec_known:
  assumes "v = foldl (identity_next parse) (Unknown, False) evs"
  shows "(fst v = Unknown \<longrightarrow> \<not> snd v)
    \<and> ((\<exists>response me. MeDone response \<in> set evs \<and> me_answer parse response = Inr me) \<longrightarrow> snd v \<or> fst v = Left)"
  using assms
proof (induction evs arbitrary: v rule: rev_induct)
  case (snoc ev evs)
  obtain i known where v0: "foldl (identity_next parse) (Unknown, False) evs = (i, known)" by fastforce
  show ?case
  proof (cases ev)
    case (MeDone response)
    then show ?thesis using snoc.IH[OF refl] snoc.prems v0
      by (cases i; cases "me_answer parse response") auto
  next
    case (LogoutDone outcome)
    then show ?thesis using snoc.IH[OF refl] snoc.prems v0 by (cases outcome) auto
  qed (use snoc.IH[OF refl] snoc.prems v0 asks_again_cases[of "(i, known)"] in auto)
qed simp

lemma shown_history:
  assumes "run_by tab_enabled (tab_step parse) evs (tab0 session) = Some st"
  shows "shown_identity st = fst (foldl (identity_next parse) (Unknown, False) evs)"
proof -
  have "identity_view_of (tab0 session) = (Unknown, False)"
    using view_of_open[of "tab0 session", OF _ tab_inv_init] by (simp add: tab0_def fresh_entry_def entry_start_def)
  with tab_identity.sim_start[OF assms] have "identity_view_of st = foldl (identity_next parse) (Unknown, False) evs"
    by simp
  then show ?thesis by (simp add: identity_view_of_def prod_eq_iff)
qed

text \<open>C16: what the user sees of the identity is determined by the history, as its specification says:
  in every history of identity requests, invalidations, answers, replaced answers and sign-outs the
  page shows exactly what the last answer in force said (the identity, the sign-in view for an
  authentication error, the crash page for any other), a first request that failed shows the loader
  when it is asked again, a replaced answer shows nothing, and a sign-out is final.  In
  particular nobody whose identity was answered once sees the loader again, whatever is refetched.\<close>

theorem identity_refines:
  assumes "run_by tab_enabled (tab_step parse) evs (tab0 session) = Some st"
  shows "shown_identity st = fst (foldl (identity_next parse) (Unknown, False) evs)
    \<and> (\<forall>response me. MeDone response \<in> set evs \<and> me_answer parse response = Inr me \<longrightarrow> shown_identity st \<noteq> Unknown)"
proof (intro conjI allI impI shown_history[OF assms])
  fix response me
  assume "MeDone response \<in> set evs \<and> me_answer parse response = Inr me"
  with spec_known[OF refl, of parse evs] show "shown_identity st \<noteq> Unknown"
    unfolding shown_history[OF assms] by auto
qed

text \<open>Events that carry no identity neither sign anybody in nor change the token.\<close>

lemma asks_again_signed_in: "fst (asks_again v) = SignedIn me \<Longrightarrow> fst v = SignedIn me"
  by (cases v rule: asks_again.cases) auto

lemma no_answer_no_sign_in:
  assumes "event_answer parse ev = None" "fst (identity_next parse v ev) = SignedIn me"
  shows "fst v = SignedIn me \<and> (\<forall>u. ev \<noteq> LogoutDone (Inr u))"
proof (cases ev)
  case (MeDone response)
  then show ?thesis using assms
    by (cases v; cases "fst v"; cases "me_answer parse response") (auto split: if_splits)
next
  case (LogoutDone outcome)
  then show ?thesis using assms by (cases outcome) auto
qed (use assms in \<open>auto dest: asks_again_signed_in\<close>)

lemma no_answers_keep:
  assumes "\<forall>ev\<in>set evs. event_answer parse ev = None" "fst (foldl (identity_next parse) v evs) = SignedIn me"
  shows "fst v = SignedIn me \<and> foldl (token_next parse) t evs = t"
  using assms
proof (induction evs arbitrary: v)
  case (Cons ev evs)
  then have "fst (identity_next parse v ev) = SignedIn me" "foldl (token_next parse) t evs = t" by auto
  moreover from this no_answer_no_sign_in[of parse ev v me] Cons.prems(1)
  have "fst v = SignedIn me" "token_next parse t ev = t" by (auto simp: token_next_def)
  ultimately show ?case by simp
qed simp

text \<open>C33: which token a mutating request carries.  In every history in which the guarded page is shown
  it carries the token of the answer to \<open>/api/me\<close> that arrived last.  When that was the answer of the
  request in force, the token is that of the very identity that is shown.  When it was the answer of
  a request that an invalidation had replaced (a saved configuration or default role while a refetch
  was running), the page shows what it would show without that answer, but session storage, and every
  mutating request, has the token of the replaced answer: where tokens rotate, as \<open>useMe.ts\<close> says
  they do, this is a flaw.\<close>

theorem sent_token_is_last_answered:
  assumes run: "run_by tab_enabled (tab_step parse) (evs @ ev # evs') (tab0 session) = Some st"
    and shown: "authGuard (tb_me st) = Outlet"
    and ev: "event_answer parse ev = Some me" and last: "\<forall>e\<in>set evs'. event_answer parse e = None"
    and opts: "opt_method opts = Some m" "m \<in> MUTATING"
  shows "getCsrfToken (tb_session st) = Some (me_csrf_token me)
    \<and> (me_csrf_token me \<noteq> [] \<longrightarrow>
         req_headers (build_request (tb_session st) url opts) ''X-CSRF-Token'' = Some (me_csrf_token me))
    \<and> (\<forall>response. ev = MeDone response \<longrightarrow> shown_identity st = SignedIn me)
    \<and> (\<forall>response. ev = MeLate response \<longrightarrow>
         shown_identity st = fst (foldl (identity_next parse) (Unknown, False) (evs @ evs')))"
proof -
  define v where "v = foldl (identity_next parse) (Unknown, False) evs"
  have inv: "tab_inv st"
    using run tab_identity.inv_run[OF tab_inv_init] by metis
  then have loc: "tb_location st = None" using shown by (auto simp: tab_inv_def authGuard_Outlet fresh_entry_def)
  obtain me' where me': "shown_identity st = SignedIn me'" using shown loc by (simp add: shown_identity_def)
  have view: "shown_identity st = fst (foldl (identity_next parse) (identity_next parse v ev) evs')"
    using shown_history[OF run] by (simp add: v_def)
  note keep = no_answers_keep[OF last view[symmetric, unfolded me']]
  have tok: "getCsrfToken (tb_session st) = Some (me_csrf_token me)"
    using tab_token.sim_start[OF run] keep[of "token_next parse (foldl (token_next parse) (getCsrfToken (tb_session (tab0 session))) evs) ev"] ev
    by (cases ev) (auto simp: token_next_def)
  have "shown_identity st = SignedIn me" if "ev = MeDone response" for response
    using keep ev me' that by (cases v; cases "fst v") (auto split: sum.splits)
  moreover have "shown_identity st = fst (foldl (identity_next parse) (Unknown, False) (evs @ evs'))"
    if "ev = MeLate response" for response using view that by (simp add: v_def)
  ultimately show ?thesis using tok opts by (auto simp: build_request_def Let_def)
qed

text \<open>(a flaw) an identity request that is answered after the sign-out stores its token again: the
  sign-out has cleared the token and the cache, but it does not stop the request.\<close>

theorem late_identity_restores_token:
  assumes "useMe_queryFn parse (\<lambda>r. response) (clearCsrfToken (tb_session st)) = (Inr me, session')"
    and "tab_enabled st (LogoutDone (Inr ()))" "tb_inflight st"
  shows "\<exists>st1 st2. run_by tab_enabled (tab_step parse) [LogoutDone (Inr ())] st = Some st1
      \<and> getCsrfToken (tb_session st1) = None
      \<and> run_by tab_enabled (tab_step parse) [MeDone response] st1 = Some st2
      \<and> getCsrfToken (tb_session st2) = Some (me_csrf_token me) \<and> shown_identity st2 = Left"
proof -
  have "session' = setCsrfToken (me_csrf_token me) (clearCsrfToken (tb_session st))"
    using assms(1) by (auto simp: queryFn_answer split: sum.splits)
  then show ?thesis using assms
    by (simp add: handleLogout_def useLogout_def me_done_def csrf_set_get csrf_clear_get shown_identity_def)
qed

subsection \<open>A session\<close>

definition sample_me :: "string \<Rightarrow> bool \<Rightarrow> me_response" where
  "sample_me token admin = \<lparr>me_username = ''ann'', me_is_admin = admin, me_csrf_token = token, me_theme = Auto,
     me_app_name = ''S3'', me_app_version = ''1'', me_allowed_roles = [''dev''], me_default_role = Some ''dev'',
     me_must_change_password = False, me_disable_deletion = False, me_max_file_size = 100\<rparr>"

definition ok_response :: "json \<Rightarrow> http_response" where
  "ok_response j = \<lparr>resp_status = 200, resp_status_text = ''OK'',
     resp_content_type = Some ''application/json'', resp_json = Inr j\<rparr>"

lemma ok_response_me:
  "useMe_queryFn parse (\<lambda>r. Inr (ok_response j)) session = (Inr (parse j), setCsrfToken (me_csrf_token (parse j)) session)"
  by (simp add: useMe_queryFn_def fetchMe_def send_def get_call_def apiRequest_def ok_response_def resp_ok_def)

definition signed_in_tab :: tab where
  "signed_in_tab = the (run_by tab_enabled (tab_step (\<lambda>j. sample_me ''tok'' True))
     [MeDone (Inr (ok_response JNull)), MeStart] (tab0 Map.empty))"

lemma signed_in_run:
  "run_by tab_enabled (tab_step (\<lambda>j. sample_me ''tok'' True)) [MeDone (Inr (ok_response JNull)), MeStart]
     (tab0 Map.empty) = Some signed_in_tab"
  by (simp add: signed_in_tab_def tab0_def me_start_def me_done_def ok_response_me)

lemma signed_in_fields:
  "tb_inflight signed_in_tab" "tb_location signed_in_tab = None"
  "en_data (tb_me signed_in_tab) = Some (sample_me ''tok'' True)" "en_error (tb_me signed_in_tab) = None"
  by (simp_all add: signed_in_tab_def tab0_def me_start_def me_done_def ok_response_me fresh_entry_def
      entry_start_def entry_settle_def)

text \<open>Two rotated tokens: the configuration is saved while a refetch runs, the new request is answered
  first, and the old answer arrives last.\<close>

definition rotating :: "json \<Rightarrow> me_response" where
  "rotating j = sample_me (case j of JStr t \<Rightarrow> t | _ \<Rightarrow> ''tok'') True"

lemma rotating_answer: "me_answer rotating (Inr (ok_response (JStr t))) = Inr (sample_me t True)"
  by (simp add: me_answer_def ok_response_me) (simp add: rotating_def)

theorem sent_token_is_last_answered_witness:
  "\<exists>st. run_by tab_enabled (tab_step rotating)
        [MeDone (Inr (ok_response (JStr ''first''))), MeStart, MeInvalidate,
         MeDone (Inr (ok_response (JStr ''new''))), MeLate (Inr (ok_response (JStr ''old'')))]
        (tab0 Map.empty) = Some st
    \<and> shown_identity st = SignedIn (sample_me ''new'' True)
    \<and> req_headers (build_request (tb_session st) ''/api/logout'' (snd logout_call)) ''X-CSRF-Token'' = Some ''old''"
proof -
  let ?r = "\<lambda>t. Inr (ok_response (JStr t)) :: js_error + http_response"
  let ?evs = "[MeDone (?r ''first''), MeStart, MeInvalidate, MeDone (?r ''new'')]"
  obtain st where run: "run_by tab_enabled (tab_step rotating) (?evs @ MeLate (?r ''old'') # []) (tab0 Map.empty) = Some st"
    by (simp add: tab_steps rotating_answer tab0_def fresh_entry_def entry_start_def entry_settle_def)
  have shown: "shown_identity st = SignedIn (sample_me ''new'' True)"
    using shown_history[OF run] by (simp add: rotating_answer)
  then have outlet: "authGuard (tb_me st) = Outlet"
    by (simp add: shown_identity_def split: if_splits guard_view.splits)
  have ans: "event_answer rotating (MeLate (?r ''old'')) = Some (sample_me ''old'' True)"
    by (simp add: rotating_answer)
  from sent_token_is_last_answered[OF run outlet ans, of "snd logout_call" POST "''/api/logout''"]
  have "req_headers (build_request (tb_session st) ''/api/logout'' (snd logout_call)) ''X-CSRF-Token'' = Some ''old''"
    by (simp add: logout_call_def bare_call_def MUTATING_def sample_me_def)
  with run shown show ?thesis by (intro exI[of _ st]) simp
qed

theorem identity_refines_witness:
  "shown_identity signed_in_tab = SignedIn (sample_me ''tok'' True) \<and> shown_identity signed_in_tab \<noteq> Unknown"
proof -
  have ans: "me_answer (\<lambda>j. sample_me ''tok'' True) (Inr (ok_response JNull)) = Inr (sample_me ''tok'' True)"
    by (simp add: me_answer_def ok_response_me)
  from identity_refines[OF signed_in_run] show ?thesis by (simp add: ans)
qed

theorem late_identity_restores_token_witness:
  "\<exists>st2. run_by tab_enabled (tab_step (\<lambda>j. sample_me ''tok'' True))
      [LogoutDone (Inr ()), MeDone (Inr (ok_response JNull))] signed_in_tab = Some st2
    \<and> getCsrfToken (tb_session st2) = Some ''tok'' \<and> shown_identity st2 = Left"
proof -
  have en: "tab_enabled signed_in_tab (LogoutDone (Inr ()))"
    by (simp add: authGuard_Outlet signed_in_fields)
  from late_identity_restores_token[OF ok_response_me[of "\<lambda>j. sample_me ''tok'' True"] en signed_in_fields(1)]
  obtain st1 st2 where run: "run_by tab_enabled (tab_step (\<lambda>j. sample_me ''tok'' True)) [LogoutDone (Inr ())] signed_in_tab = Some st1"
      "run_by tab_enabled (tab_step (\<lambda>j. sample_me ''tok'' True)) [MeDone (Inr (ok_response JNull))] st1 = Some st2"
    and st2: "getCsrfToken (tb_session st2) = Some (me_csrf_token (sample_me ''tok'' True))" "shown_identity st2 = Left"
    by blast
  have "run_by tab_enabled (tab_step (\<lambda>j. sample_me ''tok'' True))
      ([LogoutDone (Inr ())] @ [MeDone (Inr (ok_response JNull))]) signed_in_tab = Some st2"
    unfolding run_by_append using run by simp
  then show ?thesis using st2 by (intro exI[of _ st2]) (simp only: append_Cons append_Nil sample_me_def me_response.simps simp_thms)
qed

end
