(* ===== verification/Router.thy ===== *)
theory Router
  imports Session Path_Utils
begin

text \<open>
  From a URL to what is shown: the route table of \<open>app/router.tsx\<close> with the guards around every
  branch, the landing page (\<open>HomePage.tsx\<close>), which forwards to the user's role, and the page of a
  role (\<open>RolePage.tsx\<close>), which forwards to its only bucket.  Matching a URL against the table
  belongs to the router package; the table and what each branch renders are the program's.
\<close>

subsection \<open>The route table\<close>

text \<open>The components that are rendered by routes, or were written to be.\<close>

datatype element = El_AuthGuard | El_AppShellLayout | El_HomePage | El_RolePage | El_BucketPage
  | El_AdminGuard | El_AdminLayout | El_Navigate string | El_RolesPage | El_SettingsPage | El_NotFoundPage
  | El_RequireFreshPassword | El_ChangePasswordPage | El_UsersPage | El_BansPage | El_ApiTokensPage
  | El_AdminApiTokensPage

datatype route = Route "string option" element "route list"

definition router :: "route list" where
  "router =
    [Route None El_AuthGuard
       [Route None El_AppShellLayout
          [Route (Some ''/'') El_HomePage [],
           Route (Some ''/r/:roleId'') El_RolePage [],
           Route (Some ''/r/:roleId/b/:bucket'') El_BucketPage [],
           Route (Some ''/r/:roleId/b/:bucket/p/*'') El_BucketPage []],
        Route None El_AdminGuard
          [Route None El_AdminLayout
             [Route (Some ''/admin'') (El_Navigate ''/admin/roles'') [],
              Route (Some ''/admin/roles'') El_RolesPage [],
              Route (Some ''/admin/roles/new'') El_RolesPage [],
              Route (Some ''/admin/roles/:roleName'') El_RolesPage [],
              Route (Some ''/admin/settings'') El_SettingsPage []]]],
     Route (Some ''*'') El_NotFoundPage []]"

text \<open>The branches of the table: a path and the elements from the outermost to the page.\<close>

fun branches :: "element list \<Rightarrow> route \<Rightarrow> (string \<times> element list) list" where
  "branches outer (Route path e children) =
     (case path of None \<Rightarrow> [] | Some p \<Rightarrow> [(p, outer @ [e])])
     @ concat (map (branches (outer @ [e])) children)"

definition app_routes :: "(string \<times> element list) list" where
  "app_routes = concat (map (branches []) router)"

definition shell_chain :: "element \<Rightarrow> element list" where
  "shell_chain e = [El_AuthGuard, El_AppShellLayout, e]"

definition admin_chain :: "element \<Rightarrow> element list" where
  "admin_chain e = [El_AuthGuard, El_AdminGuard, El_AdminLayout, e]"

lemma app_routes_eq:
  "app_routes =
    [(''/'', shell_chain El_HomePage), (''/r/:roleId'', shell_chain El_RolePage),
     (''/r/:roleId/b/:bucket'', shell_chain El_BucketPage),
     (''/r/:roleId/b/:bucket/p/*'', shell_chain El_BucketPage),
     (''/admin'', admin_chain (El_Navigate ''/admin/roles'')), (''/admin/roles'', admin_chain El_RolesPage),
     (''/admin/roles/new'', admin_chain El_RolesPage), (''/admin/roles/:roleName'', admin_chain El_RolesPage),
     (''/admin/settings'', admin_chain El_SettingsPage), (''*'', [El_NotFoundPage])]"
  by (simp add: app_routes_def router_def shell_chain_def admin_chain_def)

text \<open>What an element shows around its child.\<close>

definition element_view :: "string \<Rightarrow> me_response entry \<Rightarrow> element \<Rightarrow> guard_view" where
  "element_view pathname q e =
     (case e of
        El_AuthGuard \<Rightarrow> authGuard q
      | El_AdminGuard \<Rightarrow> adminGuard q
      | El_RequireFreshPassword \<Rightarrow> requireFreshPassword pathname q
      | _ \<Rightarrow> Outlet)"

datatype shown = Page element | Guarded guard_view

fun render_chain :: "string \<Rightarrow> me_response entry \<Rightarrow> element list \<Rightarrow> shown" where
  "render_chain pathname q [] = Guarded RendersNothing"
| "render_chain pathname q [e] = Page e"
| "render_chain pathname q (e # es) =
     (if element_view pathname q e = Outlet then render_chain pathname q es
      else Guarded (element_view pathname q e))"

lemma render_shell: "render_chain pathname q (shell_chain e) =
    (if authGuard q = Outlet then Page e else Guarded (authGuard q))"
  by (simp add: shell_chain_def element_view_def)

lemma render_admin: "render_chain pathname q (admin_chain e) =
    (if authGuard q \<noteq> Outlet then Guarded (authGuard q)
     else if adminGuard q \<noteq> Outlet then Guarded (adminGuard q) else Page e)"
  by (simp add: admin_chain_def element_view_def)

lemma guard_not_Page: "render_chain pathname q els = Page e \<Longrightarrow> els \<noteq> []"
  by auto

text \<open>C17: every page but Not Found needs an identity whose last request succeeded, and every page of
  the admin console needs an administrator.\<close>

theorem pages_are_guarded:
  assumes "(path, els) \<in> set app_routes" "render_chain pathname q els = Page e" "path \<noteq> ''*''"
  shows "\<exists>me. en_data q = Some me \<and> en_error q = None \<and> (starts_with path ''/admin'' \<longrightarrow> me_is_admin me)"
proof -
  consider "els = shell_chain e" "\<not> starts_with path ''/admin''" | "els = admin_chain e"
    using assms by (auto simp: app_routes_eq render_shell render_admin starts_with_def split: if_splits)
  then show ?thesis
  proof cases
    case 1
    then show ?thesis using assms(2) by (auto simp: render_shell authGuard_Outlet split: if_splits)
  next
    case 2
    then show ?thesis using assms(2)
      by (auto simp: render_admin authGuard_Outlet adminGuard_Outlet split: if_splits)
  qed
qed

theorem pages_are_guarded_witness:
  "\<exists>me. en_data (tb_me signed_in_tab) = Some me \<and> me_is_admin me
     \<and> render_chain ''/admin/settings'' (tb_me signed_in_tab) (admin_chain El_SettingsPage) = Page El_SettingsPage"
proof -
  have page: "render_chain ''/admin/settings'' (tb_me signed_in_tab) (admin_chain El_SettingsPage) = Page El_SettingsPage"
    by (simp add: render_admin authGuard_Outlet adminGuard_Outlet signed_in_fields sample_me_def)
  have "(''/admin/settings'', admin_chain El_SettingsPage) \<in> set app_routes" by (simp add: app_routes_eq)
  from pages_are_guarded[OF this page] page show ?thesis by (auto simp: starts_with_def)
qed

text \<open>(a flaw) a user who must change the password is never asked to: the guard that enforces it is in
  no branch of the table, so what is shown does not depend on the flag, and there is no page to change
  the password on.\<close>

theorem password_change_not_enforced:
  assumes "(path, els) \<in> set app_routes" "en_data q = Some me"
  shows "render_chain pathname (q\<lparr>en_data := Some (me\<lparr>me_must_change_password := b\<rparr>)\<rparr>) els
      = render_chain pathname q els
    \<and> path \<noteq> ''/change-password'' \<and> El_RequireFreshPassword \<notin> set els \<and> El_ChangePasswordPage \<notin> set els"
proof -
  let ?q = "q\<lparr>en_data := Some (me\<lparr>me_must_change_password := b\<rparr>)\<rparr>"
  have guards: "authGuard ?q = authGuard q" "adminGuard ?q = adminGuard q"
    using assms(2) by (simp_all add: authGuard_def adminGuard_def isLoading_def)
  have "render_chain pathname ?q els = render_chain pathname q els"
    using assms(1) unfolding app_routes_eq by (auto simp: render_shell render_admin guards)
  then show ?thesis using assms(1) unfolding app_routes_eq by (auto simp: shell_chain_def admin_chain_def)
qed

theorem password_change_not_enforced_witness:
  "requireFreshPassword ''/'' (fresh_entry\<lparr>en_data := Some ((sample_me ''tok'' False)\<lparr>me_must_change_password := True\<rparr>)\<rparr>)
      = RedirectTo ''/change-password''
   \<and> render_chain ''/'' (fresh_entry\<lparr>en_data := Some ((sample_me ''tok'' False)\<lparr>me_must_change_password := True\<rparr>)\<rparr>)
       (shell_chain El_HomePage) = Page El_HomePage"
proof -
  have "(''/'', shell_chain El_HomePage) \<in> set app_routes" by (simp add: app_routes_eq)
  from password_change_not_enforced[OF this, of "fresh_entry\<lparr>en_data := Some (sample_me ''tok'' False)\<rparr>"
      "sample_me ''tok'' False" "''/''" True]
  show ?thesis by (simp add: requireFreshPassword_def render_shell authGuard_Outlet fresh_entry_def)
qed

subsection \<open>HomePage\<close>

definition home_target :: "me_response option \<Rightarrow> string option" where
  "home_target me =
     (case me of
        Some m \<Rightarrow>
          (if me_allowed_roles m \<noteq> [] then
             (if truthy (me_default_role m) \<and> the (me_default_role m) \<in> set (me_allowed_roles m)
              then me_default_role m else Some (hd (me_allowed_roles m)))
           else None)
      | None \<Rightarrow> None)"

definition role_url :: "string \<Rightarrow> string" where
  "role_url role = ''/r/'' @ encodeURIComponent role"

definition home_redirect :: "js_error option \<Rightarrow> me_response option \<Rightarrow> string option" where
  "home_redirect err me =
     (if err = None \<and> truthy (home_target me) then Some (role_url (the (home_target me))) else None)"

datatype home_view = HomeBlank | HomePicker

definition homePage :: "js_error option \<Rightarrow> me_response option \<Rightarrow> home_view" where
  "homePage err me = (if err = None \<and> truthy (home_target me) then HomeBlank else HomePicker)"

lemma home_target_allowed: "home_target (Some me) = Some r \<Longrightarrow> r \<in> set (me_allowed_roles me)"
  by (auto simp: home_target_def split: if_splits)

lemma home_blank_redirects: "homePage err me = HomeBlank \<longleftrightarrow> home_redirect err me \<noteq> None"
  by (simp add: homePage_def home_redirect_def)

subsection \<open>RolePage\<close>

text \<open>The route parameter is decoded once more; a malformed one throws while rendering.\<close>

definition role_page_id :: "string option \<Rightarrow> uri_error + string" where
  "role_page_id param = decodeURIComponent (case param of None \<Rightarrow> [] | Some p \<Rightarrow> p)"

text \<open>The views; a flag says whether the button to the admin console is offered.\<close>

datatype role_view = RoleBlank | RoleNotAvailable string bool | CannotListBuckets string bool
  | BucketsError string | NoBuckets string | BucketList "(string \<times> string) list"

fun error_status :: "js_error \<Rightarrow> nat option" where
  "error_status (ApiError status msg body) = Some status"
| "error_status _ = None"

definition is_role_level :: "string \<Rightarrow> bool" where
  "is_role_level message \<longleftrightarrow>
     js_includes message ''don't have permission to use role'' \<or> starts_with message ''Access denied:''"

definition denied_view :: "js_error \<Rightarrow> me_response option \<Rightarrow> role_view" where
  "denied_view e me =
     (let isAdmin = (case me of Some m \<Rightarrow> me_is_admin m | None \<Rightarrow> False);
          message = getErrorMessage e
      in if is_role_level message
         then RoleNotAvailable (message @ '' ''
                @ (if isAdmin then ''Edit this user's profile and add this role to their allowed roles.''
                   else ''Ask your administrator to grant you access to this role.'')) isAdmin
         else CannotListBuckets (message @ '' ''
                @ (if isAdmin then ''Edit this role and fill in 'Allowed Buckets' with the bucket names you want to access.''
                   else ''Ask your administrator to configure 'Allowed Buckets' on this role.'')) isAdmin)"

definition rolePage ::
  "string \<Rightarrow> bool \<Rightarrow> js_error option \<Rightarrow> string list option \<Rightarrow> me_response option \<Rightarrow> role_view" where
  "rolePage roleId loading err buckets me =
     (if loading then RoleBlank
      else case err of
        Some e \<Rightarrow> if error_status e = Some 403 then denied_view e me else BucketsError (getErrorMessage e)
      | None \<Rightarrow>
          (case buckets of
             None \<Rightarrow> NoBuckets roleId
           | Some bs \<Rightarrow>
               if bs = [] then NoBuckets roleId
               else if length bs = 1 then RoleBlank
               else BucketList (map (\<lambda>b. (b, role_base_url roleId b)) bs)))"

definition role_redirect :: "string \<Rightarrow> js_error option \<Rightarrow> string list option \<Rightarrow> string option" where
  "role_redirect roleId err buckets =
     (case (err, buckets) of
        (None, Some [b]) \<Rightarrow> Some (role_base_url roleId b)
      | _ \<Rightarrow> None)"

lemma denied_view_not_blank: "denied_view e me \<noteq> RoleBlank"
  by (simp add: denied_view_def Let_def)

text \<open>the page of a role is never stuck blank: once the first request has settled it is blank exactly
  when it forwards to the role's only bucket, so an error always shows, also over stale buckets, and
  several buckets are offered each under its own address.\<close>

theorem role_page_never_stuck:
  "(rolePage roleId False err buckets me = RoleBlank
      \<longleftrightarrow> (\<exists>b. err = None \<and> buckets = Some [b] \<and> role_redirect roleId err buckets = Some (role_base_url roleId b)))
   \<and> (err \<noteq> None \<longrightarrow> role_redirect roleId err buckets = None)
   \<and> (\<forall>rows. rolePage roleId False err buckets me = BucketList rows \<longrightarrow>
        buckets = Some (map fst rows) \<and> map snd rows = map (role_base_url roleId) (map fst rows))"
  by (cases err; cases buckets)
    (auto simp: rolePage_def role_redirect_def denied_view_def Let_def length_Suc_conv o_def split: list.split if_splits)

theorem role_page_never_stuck_witness:
  "rolePage ''dev'' False None (Some [''b1'']) None = RoleBlank
   \<and> role_redirect ''dev'' None (Some [''b1'']) = Some (role_base_url ''dev'' ''b1'')"
  using role_page_never_stuck[of "''dev''" None "Some [''b1'']" None] by (simp add: rolePage_def)

text \<open>landing leads a user to one of the roles the server allows, the default one where it is allowed,
  and the page that opens is the page of that very role, provided the name has no percent sign
  (\<open>dec\<close> is the decoding of the router, which undoes the encoding of a parameter).\<close>

theorem landing_opens_allowed_role:
  assumes "en_data q = Some me" "en_error q = None" "home_target (Some me) = Some r" "r \<noteq> []"
    and "\<And>s. utf8_valid s \<Longrightarrow> dec (encodeURIComponent s) = s" "utf8_valid r" "CHR ''%'' \<notin> set r"
  shows "r \<in> set (me_allowed_roles me)
    \<and> (\<forall>d. me_default_role me = Some d \<and> d \<noteq> [] \<and> d \<in> set (me_allowed_roles me) \<longrightarrow> r = d)
    \<and> render_chain ''/'' q (shell_chain El_HomePage) = Page El_HomePage
    \<and> home_redirect (en_error q) (en_data q) = Some (role_url r)
    \<and> split_on CHR ''/'' (role_url r) = [[], ''r'', encodeURIComponent r]
    \<and> role_page_id (Some (dec (encodeURIComponent r))) = Inr r"
proof (intro conjI)
  show "r \<in> set (me_allowed_roles me)" using home_target_allowed[OF assms(3)] .
  show "\<forall>d. me_default_role me = Some d \<and> d \<noteq> [] \<and> d \<in> set (me_allowed_roles me) \<longrightarrow> r = d"
    using assms(3) by (auto simp: home_target_def truthy_def split: if_splits)
  show "render_chain ''/'' q (shell_chain El_HomePage) = Page El_HomePage"
    using assms(1,2) by (simp add: render_shell authGuard_Outlet)
  show "home_redirect (en_error q) (en_data q) = Some (role_url r)"
    using assms by (simp add: home_redirect_def truthy_def)
  show "split_on CHR ''/'' (role_url r) = [[], ''r'', encodeURIComponent r]"
    by (rule split_path) (simp_all add: role_url_def encode_no_slash)
  show "role_page_id (Some (dec (encodeURIComponent r))) = Inr r"
    using assms(5-7) by (simp add: role_page_id_def decode_plain)
qed

theorem landing_opens_allowed_role_witness:
  "home_redirect (en_error (tb_me signed_in_tab)) (en_data (tb_me signed_in_tab)) = Some (role_url ''dev'')"
proof -
  have utf8: "utf8_valid ''dev''" by (rule utf8_valid_ascii) simp
  have target: "home_target (Some (sample_me ''tok'' True)) = Some ''dev''"
    by (simp add: home_target_def sample_me_def truthy_def)
  have dec: "\<And>s. utf8_valid s \<Longrightarrow> (case decodeURIComponent (encodeURIComponent s) of Inr t \<Rightarrow> t | Inl e \<Rightarrow> []) = s"
    by (simp add: decode_encode)
  show ?thesis
    using landing_opens_allowed_role[OF signed_in_fields(3,4) target _ _ utf8,
        of "\<lambda>x. case decodeURIComponent x of Inr t \<Rightarrow> t | Inl e \<Rightarrow> []"] dec by simp
qed

text \<open>A role whose name ends in a percent sign cannot be opened.\<close>

lemma percent_role_throws: "role_page_id (Some (r @ ''%'')) = Inl URIError"
  by (simp add: role_page_id_def decode_trailing_pct)

end
