(* ===== verification/Shell.thy ===== *)
theory Shell
  imports Router
begin

text \<open>
  The frame around the pages: the collapsible sidebar of \<open>components/AppShell/AppShellLayout.tsx\<close> and
  its stored preference, the tree of roles and buckets (\<open>components/Sidebar\<close>), the admin
  navigation (\<open>AdminSidebar.tsx\<close>), the header (\<open>AppHeader.tsx\<close>) and the picker of the default
  role (\<open>DefaultRolePicker.tsx\<close>).
\<close>

subsection \<open>AppShellLayout\<close>

definition COLLAPSED_KEY :: string where "COLLAPSED_KEY = ''sidebar:collapsed''"

record app_shell =
  sh_forceExpanded :: bool
  sh_collapsedPref :: bool
  sh_navOpened :: bool
  sh_local :: storage

definition mount_shell :: "bool \<Rightarrow> storage \<Rightarrow> app_shell" where
  "mount_shell forceExpanded local =
     \<lparr>sh_forceExpanded = forceExpanded, sh_collapsedPref = (getItem local COLLAPSED_KEY = Some ''true''),
      sh_navOpened = False, sh_local = local\<rparr>"

definition collapsed :: "app_shell \<Rightarrow> bool" where
  "collapsed st = (if sh_forceExpanded st then False else sh_collapsedPref st)"

definition navbar_width :: "app_shell \<Rightarrow> nat" where
  "navbar_width st = (if collapsed st then 60 else 260)"

definition toggleCollapsed :: "app_shell \<Rightarrow> app_shell" where
  "toggleCollapsed st =
     (if sh_forceExpanded st then st
      else let nxt = \<not> sh_collapsedPref st
           in st\<lparr>sh_collapsedPref := nxt, sh_local := setItem COLLAPSED_KEY (bool_str nxt) (sh_local st)\<rparr>)"

text \<open>The overlay of small screens: the burger toggles it; a change of route and a click on the main
  area close it.\<close>

definition toggleNav :: "app_shell \<Rightarrow> app_shell" where
  "toggleNav st = st\<lparr>sh_navOpened := \<not> sh_navOpened st\<rparr>"

definition closeNav :: "app_shell \<Rightarrow> app_shell" where
  "closeNav st = st\<lparr>sh_navOpened := False\<rparr>"

datatype shell_event = ToggleCollapsed | ToggleNav | RouteChanged | MainClicked

fun shell_step :: "app_shell \<Rightarrow> shell_event \<Rightarrow> app_shell" where
  "shell_step st ToggleCollapsed = toggleCollapsed st"
| "shell_step st ToggleNav = toggleNav st"
| "shell_step st RouteChanged = closeNav st"
| "shell_step st MainClicked = closeNav st"

definition shell_run :: "shell_event list \<Rightarrow> app_shell \<Rightarrow> app_shell" where
  "shell_run evs st = foldl shell_step st evs"

definition pref_stored :: "app_shell \<Rightarrow> bool" where
  "pref_stored st \<longleftrightarrow> sh_collapsedPref st = (getItem (sh_local st) COLLAPSED_KEY = Some ''true'')"

lemma bool_str_true: "bool_str b = ''true'' \<longleftrightarrow> b"
  by (simp add: bool_str_def)

lemma toggle_stored: "pref_stored st \<Longrightarrow> pref_stored (toggleCollapsed st)"
  by (auto simp: pref_stored_def toggleCollapsed_def Let_def store.get_put_same bool_str_true)

lemma nav_fields:
  "sh_collapsedPref (toggleNav st) = sh_collapsedPref st" "sh_local (toggleNav st) = sh_local st"
  "sh_forceExpanded (toggleNav st) = sh_forceExpanded st"
  "sh_collapsedPref (closeNav st) = sh_collapsedPref st" "sh_local (closeNav st) = sh_local st"
  "sh_forceExpanded (closeNav st) = sh_forceExpanded st"
  by (simp_all add: toggleNav_def closeNav_def)

definition shell_inv :: "bool \<Rightarrow> storage \<Rightarrow> app_shell \<Rightarrow> bool" where
  "shell_inv force local st \<longleftrightarrow> pref_stored st \<and> sh_forceExpanded st = force
     \<and> (force \<longrightarrow> sh_local st = local)
     \<and> (\<forall>k. k \<noteq> COLLAPSED_KEY \<longrightarrow> getItem (sh_local st) k = getItem local k)"

interpretation shell_machine: invariant "mount_shell force local" "\<lambda>st ev. True" shell_step "shell_inv force local"
  for force local
proof unfold_locales
  show "shell_inv force local (mount_shell force local)"
    by (simp add: shell_inv_def pref_stored_def mount_shell_def)
  fix st ev assume "shell_inv force local st"
  then show "shell_inv force local (shell_step st ev)"
    by (cases ev) (auto simp: shell_inv_def pref_stored_def nav_fields toggleCollapsed_def Let_def
        store.get_put_same store.get_put_other bool_str_true)
qed

lemma shell_run_run_by: "run_by (\<lambda>st ev. True) shell_step evs st = Some (shell_run evs st)"
  by (induction evs arbitrary: st) (simp_all add: shell_run_def)

text \<open>the sidebar reopens as it was left: after any sequence of clicks a reload shows the same width,
  no other stored key has changed, and under the locked admin shell nothing is stored at all.\<close>

theorem sidebar_survives_reload:
  "collapsed (mount_shell force (sh_local (shell_run evs (mount_shell force local))))
      = collapsed (shell_run evs (mount_shell force local))
   \<and> (k = COLLAPSED_KEY \<or> getItem (sh_local (shell_run evs (mount_shell force local))) k = getItem local k)
   \<and> navbar_width (mount_shell True l') = 260
   \<and> sh_local (shell_run evs (mount_shell True local)) = local"
proof -
  have inv: "shell_inv f local (shell_run evs (mount_shell f local))" for f
    by (rule shell_machine.inv_run[OF shell_machine.inv_init shell_run_run_by])
  have mount: "sh_forceExpanded (mount_shell f l) = f"
    "sh_collapsedPref (mount_shell f l) = (getItem l COLLAPSED_KEY = Some ''true'')" for f l
    by (simp_all add: mount_shell_def)
  from inv[of force] inv[of True] show ?thesis
    by (cases force) (auto simp: shell_inv_def pref_stored_def collapsed_def mount navbar_width_def)
qed

subsection \<open>The tree of roles\<close>

definition sidebar_roles :: "me_response option \<Rightarrow> string list" where
  "sidebar_roles me = (case me of Some m \<Rightarrow> me_allowed_roles m | None \<Rightarrow> [])"

text \<open>One item: \<open>open\<close> starts as whether the URL is inside the role; the effect opens it when that
  becomes true and never closes it; the chevron toggles it.\<close>

record role_item =
  ri_role :: string
  ri_active :: bool
  ri_open :: bool

definition mount_item :: "string \<Rightarrow> bool \<Rightarrow> role_item" where
  "mount_item role isActiveRole = \<lparr>ri_role = role, ri_active = isActiveRole, ri_open = isActiveRole\<rparr>"

definition item_route :: "bool \<Rightarrow> role_item \<Rightarrow> role_item" where
  "item_route isActiveRole it =
     (let it' = it\<lparr>ri_active := isActiveRole\<rparr>
      in if isActiveRole \<and> isActiveRole \<noteq> ri_active it then it'\<lparr>ri_open := True\<rparr> else it')"

definition toggleOpen :: "role_item \<Rightarrow> role_item" where
  "toggleOpen it = it\<lparr>ri_open := \<not> ri_open it\<rparr>"

definition item_query :: "role_item \<Rightarrow> query_key \<times> bool" where
  "item_query it = useBuckets_query (if ri_open it then Some (ri_role it) else None)"

datatype branch_row = LoadingRow | DeniedRow | ErrorRow string | BucketRow string string | NoBucketsRow

definition item_rows :: "role_item \<Rightarrow> bool \<Rightarrow> js_error option \<Rightarrow> string list option \<Rightarrow> branch_row list" where
  "item_rows it loading err buckets =
     (if \<not> ri_open it then []
      else (if loading then [LoadingRow] else [])
        @ (case err of
             None \<Rightarrow> []
           | Some e \<Rightarrow> if error_status e = Some 403 then [DeniedRow] else [ErrorRow (getErrorMessage e)])
        @ (case buckets of
             None \<Rightarrow> []
           | Some bs \<Rightarrow> map (\<lambda>b. BucketRow b (role_base_url (ri_role it) b)) bs
                        @ (if bs = [] then [NoBucketsRow] else [])))"

definition item_active_flag :: "js_error option \<Rightarrow> bool option" where
  "item_active_flag err =
     (case err of Some e \<Rightarrow> if error_status e = Some 403 then Some False else None | None \<Rightarrow> None)"

lemma entering_opens: "\<not> ri_active it \<Longrightarrow> ri_open (item_route True it)"
  by (simp add: item_route_def Let_def)

lemma leaving_keeps: "ri_open (item_route False it) = ri_open it"
  by (simp add: item_route_def Let_def)

lemma closed_items_ask_nothing: "\<not> ri_open it \<Longrightarrow> \<not> snd (item_query it) \<and> item_rows it l e b = []"
  by (simp add: item_query_def useBuckets_query_def truthy_def item_rows_def)

subsection \<open>AdminSidebar, AppHeader\<close>

definition infrastructureItems :: "(string \<times> string) list" where
  "infrastructureItems = [(''Roles'', ''/admin/roles''), (''Settings'', ''/admin/settings'')]"

definition active_items :: "string \<Rightarrow> string list" where
  "active_items pathname = map fst (filter (\<lambda>(l, t). starts_with pathname t) infrastructureItems)"

lemma one_active_item: "length (active_items pathname) \<le> 1"
  by (auto simp: active_items_def infrastructureItems_def starts_with_iff)

text \<open>The application info of the server, if it was loaded.\<close>

record app_info =
  ai_app_name :: string
  ai_app_description :: string
  ai_app_version :: string

definition header_name :: "app_info option \<Rightarrow> me_response option \<Rightarrow> string" where
  "header_name appInfo me =
     (case appInfo of
        Some i \<Rightarrow> ai_app_name i
      | None \<Rightarrow> (case me of Some m \<Rightarrow> me_app_name m | None \<Rightarrow> ''Another S3 Manager''))"

definition version_label :: "app_info option \<Rightarrow> string option" where
  "version_label appInfo =
     (case appInfo of
        Some i \<Rightarrow> if ai_app_version i \<noteq> [] \<and> ai_app_version i \<noteq> ''dev'' then Some (CHR ''v'' # ai_app_version i) else None
      | None \<Rightarrow> None)"

definition shows_admin_button :: "me_response option \<Rightarrow> bool" where
  "shows_admin_button me = (case me of Some m \<Rightarrow> me_is_admin m | None \<Rightarrow> False)"

text \<open>The button to the console is shown to exactly those the console admits.\<close>

lemma admin_button_iff: "authGuard q = Outlet \<Longrightarrow> shows_admin_button (en_data q) \<longleftrightarrow> adminGuard q = Outlet"
  by (auto simp: shows_admin_button_def adminGuard_Outlet authGuard_Outlet)

subsection \<open>DefaultRolePicker\<close>

definition picker_options :: "me_response option \<Rightarrow> string list option" where
  "picker_options me =
     (case me of
        None \<Rightarrow> None
      | Some m \<Rightarrow> if length (me_allowed_roles m) < 2 then None else Some (me_allowed_roles m))"

definition picker_change :: "me_response \<Rightarrow> string option \<Rightarrow> string option" where
  "picker_change m chosen =
     (if chosen = None \<or> chosen = me_default_role m then None else chosen)"

text \<open>One choice: the request, its toast, and the keys to refresh.\<close>

definition choose_default ::
  "api_fetch \<Rightarrow> storage \<Rightarrow> me_response \<Rightarrow> string option \<Rightarrow> (toast \<times> query_key list) option" where
  "choose_default fetch session m chosen =
     (case picker_change m chosen of
        None \<Rightarrow> None
      | Some r \<Rightarrow>
          (case useUpdateMyDefaultRole (\<lambda>x. updateMyDefaultRole fetch session x) (Some r) of
             (outcome, ks) \<Rightarrow> Some (fst (runWithToasts outcome ''Default role updated'' id ()), ks)))"

text \<open>A choice is shown by the picker only once the identity was fetched again, so a rejected one leaves
  the picker as it was and says why.\<close>

lemma rejected_choice:
  assumes "updateMyDefaultRole fetch session (Some r) = Inl e" "me_default_role m \<noteq> Some r"
  shows "choose_default fetch session m (Some r)
    = Some (toast_of Red (Some ''Error'') (getErrorMessage e) duration_error, [])"
  using assms by (simp add: choose_default_def picker_change_def useUpdateMyDefaultRole_def mutation_simps runWithToasts_def)

end
