(* ===== verification/Passwords.thy ===== *)
theory Passwords
  imports Forms Json_Api Mutations
begin

text \<open>
  The password rules: \<open>components/Auth/PasswordRequirementsList.tsx\<close> with \<open>usePasswordPolicy.ts\<close>,
  and the two forms that only ask for a password, \<open>pages/ChangePasswordPage.tsx\<close> and
  \<open>components/Admin/ResetPasswordModal.tsx\<close>.

  The Unicode classes of the regular expressions (\<open>\p{Lu}\<close>, \<open>\p{Ll}\<close>, \<open>\p{N}\<close>, \<open>\p{L}\<close>,
  \<open>\s\<close>) are tables of the JavaScript engine, a record of predicates on code points that every
  definition takes as its first argument.  The rules count code points; only the length counts
  UTF-16 units, which is what \<open>length\<close> is in JavaScript.
\<close>

record char_classes =
  cc_upper :: "nat \<Rightarrow> bool"
  cc_lower :: "nat \<Rightarrow> bool"
  cc_number :: "nat \<Rightarrow> bool"
  cc_letter :: "nat \<Rightarrow> bool"
  cc_space :: "nat \<Rightarrow> bool"

definition count_class :: "(nat \<Rightarrow> bool) \<Rightarrow> string \<Rightarrow> nat" where
  "count_class P s = length (filter P (code_points s))"

record requirement =
  rq_label :: string
  rq_met :: bool

definition requirement_for :: "nat \<Rightarrow> string \<Rightarrow> nat \<Rightarrow> requirement list" where
  "requirement_for n what k =
     (if 0 < n
      then [\<lparr>rq_label = ''At least '' @ nat_str n @ '' '' @ what @ (if n = 1 then '''' else ''s''),
             rq_met = (n \<le> k)\<rparr>]
      else [])"

definition evaluate :: "char_classes \<Rightarrow> string \<Rightarrow> password_policy \<Rightarrow> requirement list" where
  "evaluate cc password policy =
     requirement_for (password_min_length policy) ''character'' (js_length password)
     @ requirement_for (password_min_uppercase policy) ''uppercase letter'' (count_class (cc_upper cc) password)
     @ requirement_for (password_min_lowercase policy) ''lowercase letter'' (count_class (cc_lower cc) password)
     @ requirement_for (password_min_digits policy) ''digit'' (count_class (cc_number cc) password)
     @ requirement_for (password_min_special policy) ''special character''
         (count_class (\<lambda>c. \<not> cc_letter cc c \<and> \<not> cc_number cc c) password)"

definition meetsPolicy :: "char_classes \<Rightarrow> string \<Rightarrow> password_policy \<Rightarrow> bool" where
  "meetsPolicy cc password policy = list_all rq_met (evaluate cc password policy)"

definition requirement_rows :: "char_classes \<Rightarrow> string \<Rightarrow> password_policy \<Rightarrow> (string \<times> bool) list option" where
  "requirement_rows cc password policy =
     (let reqs = evaluate cc password policy
      in if reqs = [] then None else Some (map (\<lambda>r. (rq_label r, rq_met r)) reqs))"

definition policy_of :: "app_config \<Rightarrow> password_policy" where
  "policy_of config =
     \<lparr>password_min_length = c_password_min_length config,
      password_min_uppercase = c_password_min_uppercase config,
      password_min_lowercase = c_password_min_lowercase config,
      password_min_digits = c_password_min_digits config,
      password_min_special = c_password_min_special config\<rparr>"

text \<open>The reference: the five bounds, whether or not a rule is switched off.\<close>

lemma requirement_for_met: "list_all rq_met (requirement_for n what k) \<longleftrightarrow> n \<le> k"
  by (simp add: requirement_for_def)

lemma meets_bounds:
  "meetsPolicy cc pw pol \<longleftrightarrow>
      password_min_length pol \<le> js_length pw
      \<and> password_min_uppercase pol \<le> count_class (cc_upper cc) pw
      \<and> password_min_lowercase pol \<le> count_class (cc_lower cc) pw
      \<and> password_min_digits pol \<le> count_class (cc_number cc) pw
      \<and> password_min_special pol \<le> count_class (\<lambda>c. \<not> cc_letter cc c \<and> \<not> cc_number cc c) pw"
  by (simp only: meetsPolicy_def evaluate_def list_all_append requirement_for_met)

lemma rows_met: "list_all snd (map (\<lambda>r. (rq_label r, rq_met r)) reqs) = list_all rq_met reqs"
  by (induction reqs) simp_all

lemma rows_meet:
  "case requirement_rows cc pw pol of
     None \<Rightarrow> meetsPolicy cc pw pol
   | Some rows \<Rightarrow> rows \<noteq> [] \<and> list_all snd rows = meetsPolicy cc pw pol"
proof (cases "evaluate cc pw pol = []")
  case True
  then show ?thesis by (simp add: requirement_rows_def meetsPolicy_def)
next
  case False
  then show ?thesis by (simp only: requirement_rows_def Let_def if_False option.case rows_met meetsPolicy_def map_is_Nil_conv) simp
qed

text \<open>the check is exactly the five bounds of the policy: a rule with bound zero is not shown and
  never fails, and the list of rules that is shown is all green exactly when the form accepts.\<close>

theorem meetsPolicy_iff:
  "(meetsPolicy cc pw pol \<longleftrightarrow>
      password_min_length pol \<le> js_length pw
      \<and> password_min_uppercase pol \<le> count_class (cc_upper cc) pw
      \<and> password_min_lowercase pol \<le> count_class (cc_lower cc) pw
      \<and> password_min_digits pol \<le> count_class (cc_number cc) pw
      \<and> password_min_special pol \<le> count_class (\<lambda>c. \<not> cc_letter cc c \<and> \<not> cc_number cc c) pw)
   \<and> (case requirement_rows cc pw pol of
        None \<Rightarrow> meetsPolicy cc pw pol
      | Some rows \<Rightarrow> rows \<noteq> [] \<and> list_all snd rows = meetsPolicy cc pw pol)"
  using meets_bounds rows_meet by blast

text \<open>The length rule counts UTF-16 units, not characters: four emoji pass a minimum of eight, which a
  check on code points, such as Python's, refuses.\<close>

definition emoji :: string where
  "emoji = [CHR 0xF0, CHR 0x9F, CHR 0x98, CHR 0x80]"

lemma emoji_points: "length (code_points (emoji @ s)) = Suc (length (code_points s))"
proof -
  have bytes: "map of_char emoji = [240, 159, 152, 128 :: nat]" by (simp add: emoji_def)
  have "\<not> lead2 240" "\<not> lead3 240 159" by (simp_all add: lead2_def lead3_def)
  then show ?thesis
    unfolding code_points_def map_append bytes append_Cons append_Nil
    by (subst code_points_of.simps) (simp del: code_points_of.simps)
qed

lemma emoji_units: "js_length (emoji @ s) = 2 + js_length s"
  by (simp add: js_length_def emoji_def units_of_byte_def)

lemma emoji_count_double:
  "length (code_points (emoji @ emoji @ emoji @ emoji)) = 4 \<and> js_length (emoji @ emoji @ emoji @ emoji) = 8"
proof -
  have "code_points [] = []" "js_length [] = 0" by (simp_all add: code_points_def js_length_def)
  then show ?thesis using emoji_points[of "[]"] emoji_units[of "[]"] by (simp add: emoji_points emoji_units)
qed

subsection \<open>ChangePasswordPage\<close>

record change_values =
  cv_current :: string
  cv_next :: string
  cv_confirm :: string

text \<open>The policy is None until it was loaded; then the server decides.\<close>

definition current_rule :: "change_values \<Rightarrow> string option" where
  "current_rule v = (if cv_current v = [] then Some ''Required'' else None)"

definition next_rule :: "char_classes \<Rightarrow> password_policy option \<Rightarrow> change_values \<Rightarrow> string option" where
  "next_rule cc policy v =
     (case policy of
        None \<Rightarrow> None
      | Some pol \<Rightarrow> if meetsPolicy cc (cv_next v) pol then None else Some ''Password does not meet policy'')"

definition confirm_rule :: "change_values \<Rightarrow> string option" where
  "confirm_rule v = (if cv_confirm v = cv_next v then None else Some ''Does not match new password'')"

definition change_rules :: "char_classes \<Rightarrow> password_policy option \<Rightarrow> change_values validators" where
  "change_rules cc policy =
     [(''current'', current_rule), (''next'', next_rule cc policy), (''confirm'', confirm_rule)]"

definition policy_button_enabled :: "password_policy option \<Rightarrow> bool \<Rightarrow> bool" where
  "policy_button_enabled policy policyFailed \<longleftrightarrow> \<not> (policy = None \<and> \<not> policyFailed)"

definition change_submit ::
  "char_classes \<Rightarrow> password_policy option \<Rightarrow> change_values form
     \<Rightarrow> change_values form \<times> change_my_password_payload option" where
  "change_submit cc policy f =
     onSubmit (change_rules cc policy)
       (\<lambda>v. \<lparr>cp_current_password = cv_current v, cp_new_password = cv_next v\<rparr>) f"

definition change_done :: "js_error + unit \<Rightarrow> string list \<Rightarrow> toast \<times> string list" where
  "change_done outcome navigations =
     runWithToasts outcome ''Password changed successfully'' (\<lambda>ns. ns @ [''/'']) navigations"

lemma change_submit_checked:
  "snd (change_submit cc policy f) = Some p \<Longrightarrow>
     cp_current_password p \<noteq> [] \<and> cp_new_password p = cv_confirm (fm_values f)
     \<and> (\<forall>pol. policy = Some pol \<longrightarrow> meetsPolicy cc (cp_new_password p) pol)"
  by (auto simp: change_submit_def snd_onSubmit form_valid_def change_rules_def current_rule_def next_rule_def
      confirm_rule_def split: option.splits if_splits)

subsection \<open>A new password for somebody else\<close>

definition new_password_rule :: "char_classes \<Rightarrow> password_policy option \<Rightarrow> string \<Rightarrow> string option" where
  "new_password_rule cc policy pw =
     (case policy of
        None \<Rightarrow> if pw \<noteq> [] then None else Some ''Required''
      | Some pol \<Rightarrow> if meetsPolicy cc pw pol then None else Some ''Password does not meet policy'')"

record reset_values =
  rs_password :: string
  rs_must_change_password :: bool

definition reset_initial :: reset_values where
  "reset_initial = \<lparr>rs_password = [], rs_must_change_password = True\<rparr>"

definition reset_rules :: "char_classes \<Rightarrow> password_policy option \<Rightarrow> reset_values validators" where
  "reset_rules cc policy = [(''password'', \<lambda>v. new_password_rule cc policy (rs_password v))]"

text \<open>Submitting hands the values on and resets the form at once, before the request has an answer.\<close>

definition reset_submit ::
  "char_classes \<Rightarrow> password_policy option \<Rightarrow> reset_values form
     \<Rightarrow> reset_values form \<times> (string \<times> bool) option" where
  "reset_submit cc policy f =
     (case onSubmit (reset_rules cc policy) (\<lambda>v. (rs_password v, rs_must_change_password v)) f of
        (f', None) \<Rightarrow> (f', None)
      | (f', Some r) \<Rightarrow> (form_reset f', Some r))"

lemma reset_submit_Some:
  "new_password_rule cc policy (rs_password (fm_values f)) = None \<Longrightarrow>
     reset_submit cc policy f = (form_reset (fst (validate (reset_rules cc policy) f)),
       Some (rs_password (fm_values f), rs_must_change_password (fm_values f)))"
  by (simp add: reset_submit_def onSubmit_def form_valid_def reset_rules_def)

lemma reset_submit_rule:
  "snd (reset_submit cc policy f) = Some (pw, m) \<Longrightarrow> new_password_rule cc policy pw = None"
  by (auto simp: reset_submit_def onSubmit_def form_valid_def reset_rules_def split: if_splits)

end
