(* ===== verification/Users_Page.thy ===== *)
theory Users_Page
  imports Passwords Role_Drawer Machine
begin

text \<open>
  The user administration: \<open>components/Admin/UserDrawer.tsx\<close>, \<open>pages/admin/UsersPage.tsx\<close> with
  the reset dialog and the delete confirmation (\<open>components/Confirm/ConfirmDeleteModal.tsx\<close>), and
  \<open>pages/admin/BansPage.tsx\<close>.  Requests are recorded when they are sent and answered by an event of
  their own, so that anything may happen in between.
\<close>

subsection \<open>UserDrawer\<close>

record user_values =
  uf_username :: string
  uf_password :: string
  uf_is_admin :: bool
  uf_allowed_roles :: "string list"
  uf_must_change_password :: bool

definition user_initial :: user_values where
  "user_initial = \<lparr>uf_username = [], uf_password = [], uf_is_admin = False, uf_allowed_roles = [],
     uf_must_change_password = True\<rparr>"

definition username_rule :: "char_classes \<Rightarrow> drawer_mode \<Rightarrow> user_values \<Rightarrow> string option" where
  "username_rule cc mode v =
     (if mode = CreateMode
         \<and> (uf_username v = [] \<or> js_length (uf_username v) < 3 \<or> list_ex (cc_space cc) (code_points (uf_username v)))
      then Some ''3+ chars, no spaces'' else None)"

definition password_rule ::
  "char_classes \<Rightarrow> password_policy option \<Rightarrow> drawer_mode \<Rightarrow> user_values \<Rightarrow> string option" where
  "password_rule cc policy mode v =
     (if mode \<noteq> CreateMode then None else new_password_rule cc policy (uf_password v))"

definition user_rules :: "char_classes \<Rightarrow> password_policy option \<Rightarrow> drawer_mode \<Rightarrow> user_values validators" where
  "user_rules cc policy mode =
     [(''username'', username_rule cc mode), (''password'', password_rule cc policy mode)]"

text \<open>The effect that fills the form; \<open>setValues\<close> without \<open>must_change_password\<close> keeps that value.\<close>

definition user_effect :: "drawer_mode \<Rightarrow> admin_user option \<Rightarrow> user_values form \<Rightarrow> user_values form" where
  "user_effect mode initialUser f =
     (case (mode, initialUser) of
        (EditMode, Some u) \<Rightarrow>
          setValues ((fm_values f)\<lparr>uf_username := au_username u, uf_password := [],
            uf_is_admin := au_is_admin u, uf_allowed_roles := au_allowed_roles u\<rparr>) f
      | (EditMode, None) \<Rightarrow> f
      | (CreateMode, _) \<Rightarrow> form_reset f)"

definition isSelf :: "string \<Rightarrow> drawer_mode \<Rightarrow> admin_user option \<Rightarrow> bool" where
  "isSelf currentUsername mode initialUser \<longleftrightarrow>
     mode = EditMode \<and> (case initialUser of None \<Rightarrow> False | Some u \<Rightarrow> au_username u = currentUsername)"

datatype user_edit = EditUsername string | EditPassword string | EditAdmin bool | EditRoles "string list"
  | EditMustChange bool

fun apply_user_edit :: "user_edit \<Rightarrow> user_values \<Rightarrow> user_values" where
  "apply_user_edit (EditUsername s) v = v\<lparr>uf_username := s\<rparr>"
| "apply_user_edit (EditPassword s) v = v\<lparr>uf_password := s\<rparr>"
| "apply_user_edit (EditAdmin b) v = v\<lparr>uf_is_admin := b\<rparr>"
| "apply_user_edit (EditRoles rs) v = v\<lparr>uf_allowed_roles := rs\<rparr>"
| "apply_user_edit (EditMustChange b) v = v\<lparr>uf_must_change_password := b\<rparr>"

fun user_input_enabled :: "bool \<Rightarrow> drawer_mode \<Rightarrow> user_edit \<Rightarrow> bool" where
  "user_input_enabled self mode (EditUsername s) \<longleftrightarrow> mode \<noteq> EditMode"
| "user_input_enabled self mode (EditPassword s) \<longleftrightarrow> mode = CreateMode"
| "user_input_enabled self mode (EditMustChange b) \<longleftrightarrow> mode = CreateMode"
| "user_input_enabled self mode (EditAdmin b) \<longleftrightarrow> \<not> self"
| "user_input_enabled self mode (EditRoles rs) \<longleftrightarrow> True"

subsection \<open>Requests\<close>

datatype user_request = CreateUser create_user_payload | UpdateUser string update_user_payload
  | DeleteUser string | ResetPassword string string bool

definition onCreateSubmit :: "user_values \<Rightarrow> user_request" where
  "onCreateSubmit v = CreateUser \<lparr>cu_username = uf_username v, cu_password = uf_password v,
     cu_is_admin = uf_is_admin v, cu_allowed_roles = uf_allowed_roles v,
     cu_must_change_password = Some (uf_must_change_password v)\<rparr>"

definition onEditSubmit :: "user_values \<Rightarrow> user_request" where
  "onEditSubmit v = UpdateUser (uf_username v)
     \<lparr>uu_is_admin = Some (uf_is_admin v), uu_allowed_roles = Some (uf_allowed_roles v)\<rparr>"

fun user_success_message :: "user_request \<Rightarrow> string" where
  "user_success_message (CreateUser p) = ''User '' @ cu_username p @ '' created''"
| "user_success_message (UpdateUser u p) = ''User '' @ u @ '' updated''"
| "user_success_message (DeleteUser u) = ''User '' @ u @ '' deleted''"
| "user_success_message (ResetPassword u pw m) = ''Password reset for '' @ u"

fun send_user_request :: "api_fetch \<Rightarrow> storage \<Rightarrow> user_request \<Rightarrow> (js_error + unit) \<times> query_key list" where
  "send_user_request fetch session (CreateUser p) = Mutations.useCreateUser (createUser fetch session) p"
| "send_user_request fetch session (UpdateUser u p) =
     Mutations.useUpdateUser (\<lambda>(n, q). updateUser fetch session n q) (u, p)"
| "send_user_request fetch session (DeleteUser u) = Mutations.useDeleteUser (deleteUser fetch session) u"
| "send_user_request fetch session (ResetPassword u pw m) =
     Mutations.useResetUserPassword (\<lambda>(n, w, b). resetUserPassword fetch session n w (Some b)) (u, pw, m)"

subsection \<open>UsersPage\<close>

record users_page =
  up_users :: "admin_user list"
  up_drawer :: "drawer_mode option"
  up_last :: "drawer_mode option"
  up_edit :: "admin_user option"
  up_form :: "user_values form"
  up_reset :: "admin_user option"
  up_reset_form :: "reset_values form"
  up_delete :: "admin_user option"
  up_sent :: "user_request list"
  up_toasts :: "toast list"

definition users_page0 :: users_page where
  "users_page0 = \<lparr>up_users = [], up_drawer = None, up_last = None, up_edit = None,
     up_form = new_form user_initial, up_reset = None, up_reset_form = new_form reset_initial,
     up_delete = None, up_sent = [], up_toasts = []\<rparr>"

definition users_mode :: "users_page \<Rightarrow> drawer_mode" where
  "users_mode st =
     (case up_drawer st of Some m \<Rightarrow> m | None \<Rightarrow> (case up_last st of Some m \<Rightarrow> m | None \<Rightarrow> CreateMode))"

text \<open>After a change of the drawer's state: the fill effect, when one of its inputs changed, then the
  effect that remembers the mode.\<close>

definition after_drawer_change :: "users_page \<Rightarrow> users_page \<Rightarrow> users_page" where
  "after_drawer_change old st =
     (let st = (if (users_mode old, up_edit old, up_drawer old \<noteq> None)
                   \<noteq> (users_mode st, up_edit st, up_drawer st \<noteq> None)
                then st\<lparr>up_form := user_effect (users_mode st) (up_edit st) (up_form st)\<rparr> else st)
      in if up_drawer st = None then st else st\<lparr>up_last := up_drawer st\<rparr>)"

definition set_drawer :: "drawer_mode option \<Rightarrow> admin_user option \<Rightarrow> users_page \<Rightarrow> users_page" where
  "set_drawer m u st = after_drawer_change st (st\<lparr>up_drawer := m, up_edit := u\<rparr>)"

definition drawer_submit :: "char_classes \<Rightarrow> password_policy option \<Rightarrow> users_page \<Rightarrow> users_page" where
  "drawer_submit cc policy st =
     (case onSubmit (user_rules cc policy (users_mode st))
             (\<lambda>v. if users_mode st = CreateMode then onCreateSubmit v else onEditSubmit v) (up_form st) of
        (f, None) \<Rightarrow> st\<lparr>up_form := f\<rparr>
      | (f, Some req) \<Rightarrow> st\<lparr>up_form := f, up_sent := up_sent st @ [req]\<rparr>)"

definition onResetSubmit :: "char_classes \<Rightarrow> password_policy option \<Rightarrow> users_page \<Rightarrow> users_page" where
  "onResetSubmit cc policy st =
     (case reset_submit cc policy (up_reset_form st) of
        (f, None) \<Rightarrow> st\<lparr>up_reset_form := f\<rparr>
      | (f, Some (pw, m)) \<Rightarrow>
          (case up_reset st of
             None \<Rightarrow> st\<lparr>up_reset_form := f\<rparr>
           | Some u \<Rightarrow> st\<lparr>up_reset_form := f,
                         up_sent := up_sent st @ [ResetPassword (au_username u) pw m]\<rparr>))"

definition confirm_user_delete :: "users_page \<Rightarrow> users_page" where
  "confirm_user_delete st =
     (case up_delete st of
        None \<Rightarrow> st
      | Some u \<Rightarrow> st\<lparr>up_sent := up_sent st @ [DeleteUser (au_username u)]\<rparr>)"

fun user_request_success :: "user_request \<Rightarrow> users_page \<Rightarrow> users_page" where
  "user_request_success (CreateUser p) st = set_drawer None (up_edit st) st"
| "user_request_success (UpdateUser u p) st = set_drawer None None st"
| "user_request_success (DeleteUser u) st = st\<lparr>up_delete := None\<rparr>"
| "user_request_success (ResetPassword u pw m) st = st\<lparr>up_reset := None\<rparr>"

definition user_request_done :: "user_request \<Rightarrow> js_error + unit \<Rightarrow> users_page \<Rightarrow> users_page" where
  "user_request_done req outcome st =
     (case runWithToasts outcome (user_success_message req) (user_request_success req) st of
        (t, st') \<Rightarrow> st'\<lparr>up_toasts := up_toasts st' @ [t]\<rparr>)"

datatype users_event =
    UsersLoaded "admin_user list"
  | AddUser | EditUser admin_user | CloseDrawer | UserInput user_edit | UserSubmit "password_policy option" bool
  | ResetOpen admin_user | ResetClose | ResetInput reset_values | ResetSubmit "password_policy option" bool
  | DeleteOpen admin_user | DeleteClose | DeleteConfirm
  | RequestDone user_request "js_error + unit"

text \<open>The rows come from the server; the user who looks at the page is an administrator, and the row of
  that user says so.\<close>

fun users_enabled :: "string \<Rightarrow> users_page \<Rightarrow> users_event \<Rightarrow> bool" where
  "users_enabled self st (UsersLoaded us) \<longleftrightarrow> list_all (\<lambda>u. au_username u = self \<longrightarrow> au_is_admin u) us"
| "users_enabled self st AddUser \<longleftrightarrow> True"
| "users_enabled self st (EditUser u) \<longleftrightarrow> u \<in> set (up_users st)"
| "users_enabled self st CloseDrawer \<longleftrightarrow> up_drawer st \<noteq> None"
| "users_enabled self st (UserInput e) \<longleftrightarrow>
     up_drawer st \<noteq> None \<and> user_input_enabled (isSelf self (users_mode st) (up_edit st)) (users_mode st) e"
| "users_enabled self st (UserSubmit policy policyFailed) \<longleftrightarrow>
     up_drawer st \<noteq> None \<and> \<not> (users_mode st = CreateMode \<and> policy = None \<and> \<not> policyFailed)"
| "users_enabled self st (ResetOpen u) \<longleftrightarrow> u \<in> set (up_users st) \<and> au_username u \<noteq> self"
| "users_enabled self st ResetClose \<longleftrightarrow> up_reset st \<noteq> None"
| "users_enabled self st (ResetInput v) \<longleftrightarrow> up_reset st \<noteq> None"
| "users_enabled self st (ResetSubmit policy policyFailed) \<longleftrightarrow>
     up_reset st \<noteq> None \<and> policy_button_enabled policy policyFailed"
| "users_enabled self st (DeleteOpen u) \<longleftrightarrow> u \<in> set (up_users st) \<and> au_username u \<noteq> self"
| "users_enabled self st DeleteClose \<longleftrightarrow> up_delete st \<noteq> None"
| "users_enabled self st DeleteConfirm \<longleftrightarrow> up_delete st \<noteq> None"
| "users_enabled self st (RequestDone req outcome) \<longleftrightarrow> req \<in> set (up_sent st)"

fun users_step :: "char_classes \<Rightarrow> users_page \<Rightarrow> users_event \<Rightarrow> users_page" where
  "users_step cc st (UsersLoaded us) = st\<lparr>up_users := us\<rparr>"
| "users_step cc st AddUser = set_drawer (Some CreateMode) None st"
| "users_step cc st (EditUser u) = set_drawer (Some EditMode) (Some u) st"
| "users_step cc st CloseDrawer = set_drawer None None st"
| "users_step cc st (UserInput e) = st\<lparr>up_form := setValues (apply_user_edit e (fm_values (up_form st))) (up_form st)\<rparr>"
| "users_step cc st (UserSubmit policy policyFailed) = drawer_submit cc policy st"
| "users_step cc st (ResetOpen u) = st\<lparr>up_reset := Some u\<rparr>"
| "users_step cc st ResetClose = st\<lparr>up_reset := None\<rparr>"
| "users_step cc st (ResetInput v) = st\<lparr>up_reset_form := setValues v (up_reset_form st)\<rparr>"
| "users_step cc st (ResetSubmit policy policyFailed) = onResetSubmit cc policy st"
| "users_step cc st (DeleteOpen u) = st\<lparr>up_delete := Some u\<rparr>"
| "users_step cc st DeleteClose = st\<lparr>up_delete := None\<rparr>"
| "users_step cc st DeleteConfirm = confirm_user_delete st"
| "users_step cc st (RequestDone req outcome) = user_request_done req outcome st"

subsection \<open>Nobody locks himself out\<close>

fun locks_out :: "string \<Rightarrow> user_request \<Rightarrow> bool" where
  "locks_out self (CreateUser p) \<longleftrightarrow> False"
| "locks_out self (UpdateUser u p) \<longleftrightarrow> u = self \<and> uu_is_admin p \<noteq> Some True"
| "locks_out self (DeleteUser u) \<longleftrightarrow> u = self"
| "locks_out self (ResetPassword u pw m) \<longleftrightarrow> u = self"

text \<open>The invariant: the rows, the targets, and the form of an open edit drawer.\<close>

definition edit_safe :: "string \<Rightarrow> users_page \<Rightarrow> bool" where
  "edit_safe self st \<longleftrightarrow>
     (case up_edit st of
        None \<Rightarrow> up_drawer st \<noteq> Some EditMode
      | Some u \<Rightarrow> up_drawer st \<noteq> Some CreateMode \<and> (au_username u = self \<longrightarrow> au_is_admin u)
          \<and> (up_drawer st = Some EditMode \<longrightarrow>
               uf_username (fm_values (up_form st)) = au_username u
               \<and> (au_username u = self \<longrightarrow> uf_is_admin (fm_values (up_form st)))))"

definition users_inv :: "string \<Rightarrow> users_page \<Rightarrow> bool" where
  "users_inv self st \<longleftrightarrow>
     list_all (\<lambda>u. au_username u = self \<longrightarrow> au_is_admin u) (up_users st)
     \<and> edit_safe self st
     \<and> (\<forall>u. up_reset st = Some u \<longrightarrow> au_username u \<noteq> self)
     \<and> (\<forall>u. up_delete st = Some u \<longrightarrow> au_username u \<noteq> self)
     \<and> list_all (\<lambda>r. \<not> locks_out self r) (up_sent st)"

lemma edit_safe_upd [simp]:
  "edit_safe self (st\<lparr>up_users := us\<rparr>) = edit_safe self st"
  "edit_safe self (st\<lparr>up_reset := r\<rparr>) = edit_safe self st"
  "edit_safe self (st\<lparr>up_reset_form := f\<rparr>) = edit_safe self st"
  "edit_safe self (st\<lparr>up_delete := d\<rparr>) = edit_safe self st"
  "edit_safe self (st\<lparr>up_sent := s\<rparr>) = edit_safe self st"
  "edit_safe self (st\<lparr>up_toasts := ts\<rparr>) = edit_safe self st"
  by (simp_all add: edit_safe_def cong: option.case_cong)

lemma set_drawer_fields [simp]:
  "up_users (set_drawer m u st) = up_users st" "up_drawer (set_drawer m u st) = m"
  "up_edit (set_drawer m u st) = u" "up_reset (set_drawer m u st) = up_reset st"
  "up_delete (set_drawer m u st) = up_delete st" "up_sent (set_drawer m u st) = up_sent st"
  "up_reset_form (set_drawer m u st) = up_reset_form st"
  by (simp_all add: set_drawer_def after_drawer_change_def Let_def)

lemma set_drawer_closed: "users_inv self st \<Longrightarrow> users_inv self (set_drawer None None st)"
  "users_inv self st \<Longrightarrow> users_inv self (set_drawer None (up_edit st) st)"
  by (auto simp: users_inv_def edit_safe_def split: option.splits)

lemma set_drawer_edit_form:
  "up_edit st \<noteq> Some u \<or> up_drawer st \<noteq> Some EditMode \<Longrightarrow>
     uf_username (fm_values (up_form (set_drawer (Some EditMode) (Some u) st))) = au_username u
     \<and> uf_is_admin (fm_values (up_form (set_drawer (Some EditMode) (Some u) st))) = au_is_admin u"
  by (auto simp: set_drawer_def after_drawer_change_def Let_def users_mode_def user_effect_def split: option.splits)

lemma inv_edit_user:
  assumes "users_inv self st" "u \<in> set (up_users st)"
  shows "users_inv self (set_drawer (Some EditMode) (Some u) st)"
proof -
  have u: "au_username u = self \<longrightarrow> au_is_admin u"
    using assms by (auto simp: users_inv_def list_all_iff)
  have "uf_username (fm_values (up_form (set_drawer (Some EditMode) (Some u) st))) = au_username u
    \<and> (au_username u = self \<longrightarrow> uf_is_admin (fm_values (up_form (set_drawer (Some EditMode) (Some u) st))))"
  proof (cases "up_edit st = Some u \<and> up_drawer st = Some EditMode")
    case True
    then have "up_form (set_drawer (Some EditMode) (Some u) st) = up_form st"
      by (simp add: set_drawer_def after_drawer_change_def Let_def users_mode_def)
    then show ?thesis using assms(1) True by (simp add: users_inv_def edit_safe_def)
  next
    case False
    then show ?thesis using set_drawer_edit_form u by auto
  qed
  then show ?thesis using assms(1) u by (simp add: users_inv_def edit_safe_def)
qed

lemma inv_submit_user:
  assumes "users_inv self st" "up_drawer st \<noteq> None"
  shows "users_inv self (drawer_submit cc policy st)"
proof -
  have mode: "up_drawer st = Some (users_mode st)" using assms(2) by (auto simp: users_mode_def)
  have safe: "\<not> locks_out self (if users_mode st = CreateMode then onCreateSubmit v else onEditSubmit v)"
    if "v = fm_values (up_form st)" for v
    using assms(1) mode that
    by (cases "users_mode st") (auto simp: users_inv_def edit_safe_def onCreateSubmit_def onEditSubmit_def split: option.splits)
  show ?thesis using assms(1) safe[OF refl]
    by (auto simp: drawer_submit_def onSubmit_def users_inv_def edit_safe_def split: option.splits)
qed

lemma users_inv_step:
  assumes "users_inv self st" "users_enabled self st ev"
  shows "users_inv self (users_step cc st ev)"
proof (cases ev)
  case (EditUser u)
  then show ?thesis using assms inv_edit_user by simp
next
  case (UserSubmit p f)
  then show ?thesis using assms inv_submit_user by simp
next
  case CloseDrawer
  then show ?thesis using assms set_drawer_closed by simp
next
  case AddUser
  then show ?thesis using assms(1) by (auto simp: users_inv_def edit_safe_def)
next
  case (UserInput e)
  then show ?thesis using assms
    by (cases e) (auto simp: users_inv_def edit_safe_def isSelf_def users_mode_def split: option.splits)
next
  case (ResetSubmit p f)
  then show ?thesis using assms
    by (auto simp: onResetSubmit_def users_inv_def split: option.splits prod.splits)
next
  case DeleteConfirm
  then show ?thesis using assms
    by (auto simp: confirm_user_delete_def users_inv_def split: option.splits)
next
  case (RequestDone req outcome)
  have toasts: "users_inv self (s\<lparr>up_toasts := ts\<rparr>) = users_inv self s" for s ts
    by (simp add: users_inv_def)
  have "users_inv self (user_request_success req st)"
    using assms(1) set_drawer_closed[OF assms(1)] by (cases req) (simp_all, simp_all add: users_inv_def)
  then show ?thesis using assms(1) RequestDone
    by (auto simp: user_request_done_def runWithToasts_def toasts split: sum.split)
qed (use assms in \<open>auto simp: users_inv_def list_all_iff\<close>)

interpretation users_machine: invariant users_page0 "users_enabled self" "users_step cc" "users_inv self"
  for self cc
proof unfold_locales
  show "users_inv self users_page0" by (simp add: users_inv_def edit_safe_def users_page0_def)
qed (rule users_inv_step)

text \<open>an administrator cannot lock himself out: in no history of the page, with requests answered in
  any order, is a request sent that deletes the user's own account, resets its password or takes its
  administrator right away.\<close>

theorem no_self_lockout:
  assumes "reach_by users_page0 (users_enabled self) (users_step cc) st"
  shows "list_all (\<lambda>r. \<not> locks_out self r) (up_sent st)"
  using users_machine.inv_reach[OF assms] by (simp add: users_inv_def)

text \<open>(a flaw) the reset dialog keeps what was typed when it is closed: opened for another user it
  submits the password that was meant for the first.\<close>

theorem reset_password_carries_over:
  assumes "u1 \<in> set (up_users st)" "u2 \<in> set (up_users st)"
    and "au_username u1 \<noteq> self" "au_username u2 \<noteq> self" "au_username u1 \<noteq> au_username u2"
    and "new_password_rule cc policy (rs_password v) = None" "policy_button_enabled policy failed"
  shows "\<exists>st'. run_by (users_enabled self) (users_step cc)
      [ResetOpen u1, ResetInput v, ResetClose, ResetOpen u2, ResetSubmit policy failed] st = Some st'
    \<and> up_sent st' = up_sent st @ [ResetPassword (au_username u2) (rs_password v) (rs_must_change_password v)]"
  using assms by (simp add: onResetSubmit_def reset_submit_Some)

subsection \<open>ConfirmDeleteModal\<close>

text \<open>One item is named in the question; of several the first ten are listed.\<close>

datatype delete_question = DeleteOne string | DeleteMany nat "string list" "nat option"

definition confirmDeleteModal :: "string list \<Rightarrow> delete_question" where
  "confirmDeleteModal items =
     (if length items = 1 then DeleteOne (items ! 0)
      else DeleteMany (length items) (take 10 items)
             (if 10 < length items then Some (length items - 10) else None))"

lemma delete_question_complete:
  "confirmDeleteModal items = DeleteMany n names rest \<Longrightarrow>
     n = length names + (case rest of None \<Rightarrow> 0 | Some k \<Rightarrow> k) \<and> n = length items
     \<and> (rest = None \<longrightarrow> names = items)"
  by (auto simp: confirmDeleteModal_def split: if_splits)

subsection \<open>BansPage\<close>

datatype bans_view = BansBlank | BansError string | NoBans | BansTable "(string \<times> string \<times> string) list"

text \<open>\<open>format_date\<close> is \<open>formatDate\<close> on the ISO text of a number of seconds.\<close>

definition bansPage ::
  "(nat \<Rightarrow> string) \<Rightarrow> bool \<Rightarrow> js_error option \<Rightarrow> ban list option \<Rightarrow> bans_view" where
  "bansPage format_date loading err bans =
     (if loading then BansBlank
      else case err of
        Some e \<Rightarrow> BansError (getErrorMessage e)
      | None \<Rightarrow>
          (case bans of
             None \<Rightarrow> NoBans
           | Some bs \<Rightarrow> if bs = [] then NoBans
               else BansTable (map (\<lambda>b. (ban_username b, format_date (ban_banned_until b), ban_reason b)) bs)))"

definition confirm_unban :: "string option \<Rightarrow> string option" where
  "confirm_unban target = (if truthy target then target else None)"

definition unban_done :: "js_error + unit \<Rightarrow> string \<Rightarrow> string option \<Rightarrow> toast \<times> string option" where
  "unban_done outcome username target =
     runWithToasts outcome (''Unbanned '' @ username) (\<lambda>t. None) target"

lemma failed_unban_stays_open: "snd (unban_done (Inl e) u target) = target"
  by (simp add: unban_done_def runWithToasts_def)

subsection \<open>A page in use\<close>

definition sample_user :: "string \<Rightarrow> admin_user" where
  "sample_user nm = \<lparr>au_id = 1, au_username = nm, au_is_admin = True, au_allowed_roles = []\<rparr>"

definition no_classes :: char_classes where
  "no_classes = \<lparr>cc_upper = (\<lambda>c. False), cc_lower = (\<lambda>c. False), cc_number = (\<lambda>c. False),
     cc_letter = (\<lambda>c. False), cc_space = (\<lambda>c. False)\<rparr>"

definition users_loaded :: users_page where
  "users_loaded = users_page0\<lparr>up_users := [sample_user ''ann'', sample_user ''bob'', sample_user ''cid'']\<rparr>"

lemma users_loaded_reach: "reach_by users_page0 (users_enabled ''ann'') (users_step no_classes) users_loaded"
  using reach_by.event[OF reach_by.start, of "users_enabled ''ann''" users_page0
      "UsersLoaded [sample_user ''ann'', sample_user ''bob'', sample_user ''cid'']" "users_step no_classes"]
  by (simp add: users_loaded_def sample_user_def)

theorem no_self_lockout_witness:
  "\<exists>st :: users_page. map (\<lambda>r. locks_out ''ann'' r) (up_sent st) = [False] \<and> up_sent st = [DeleteUser ''bob'']"
proof -
  define st where "st = the (run_by (users_enabled ''ann'') (users_step no_classes)
    [DeleteOpen (sample_user ''bob''), DeleteConfirm] users_loaded)"
  have run: "run_by (users_enabled ''ann'') (users_step no_classes) [DeleteOpen (sample_user ''bob''), DeleteConfirm]
      users_loaded = Some st"
    by (simp add: st_def users_loaded_def sample_user_def)
  have sent: "up_sent st = [DeleteUser ''bob'']"
    by (simp add: st_def users_loaded_def users_page0_def sample_user_def confirm_user_delete_def)
  have "list_all (\<lambda>r. \<not> locks_out ''ann'' r) (up_sent st)"
    by (rule no_self_lockout[OF run_by_reach[OF run users_loaded_reach]])
  then show ?thesis using sent by (intro exI[of _ st]) simp
qed

theorem reset_password_carries_over_witness:
  "\<exists>st'. run_by (users_enabled ''ann'') (users_step no_classes)
      [ResetOpen (sample_user ''bob''), ResetInput \<lparr>rs_password = ''s3cret'', rs_must_change_password = True\<rparr>, ResetClose,
       ResetOpen (sample_user ''cid''), ResetSubmit None True] users_loaded = Some st'
    \<and> up_sent st' = [ResetPassword ''cid'' ''s3cret'' True]"
proof -
  have rows: "sample_user ''bob'' \<in> set (up_users users_loaded)" "sample_user ''cid'' \<in> set (up_users users_loaded)"
    by (simp_all add: users_loaded_def)
  have names: "au_username (sample_user nm) = nm" for nm by (simp add: sample_user_def)
  have other: "au_username (sample_user ''bob'') \<noteq> ''ann''" "au_username (sample_user ''cid'') \<noteq> ''ann''"
    "au_username (sample_user ''bob'') \<noteq> au_username (sample_user ''cid'')" by (simp_all add: names)
  have rule: "new_password_rule no_classes None (rs_password \<lparr>rs_password = ''s3cret'', rs_must_change_password = True\<rparr>) = None"
    "policy_button_enabled None True" by (simp_all add: new_password_rule_def policy_button_enabled_def)
  have "up_sent users_loaded = []" by (simp add: users_loaded_def users_page0_def)
  with reset_password_carries_over[OF rows other rule] show ?thesis by (simp add: names)
qed

end
