(* ===== verification/Tokens.thy ===== *)
theory Tokens
  imports Forms Json_Api Mutations Machine Format Settings Users_Page
begin

text \<open>
  The MCP tokens: the forms of \<open>components/Tokens/CreateTokenFormFields.tsx\<close> and
  \<open>TokenEditFormFields.tsx\<close>, the table (\<open>TokensTable.tsx\<close>), the dialog that shows a new token once
  (\<open>TokenPlaintextModal.tsx\<close>), the pages \<open>ApiTokensPage.tsx\<close> and \<open>AdminApiTokensPage.tsx\<close>, and
  the list inside the user drawer (\<open>UserTokensList.tsx\<close>).

  A read limit is edited in megabytes; as on the settings page a number of megabytes is rational.
  \<open>String.trim\<close> is a parameter.
\<close>

definition HARD_CEILING :: int where "HARD_CEILING = 10 * 1024 * 1024"

definition mb_to_bytes :: "rat \<Rightarrow> int" where
  "mb_to_bytes v = min HARD_CEILING (math_round (v * 1024 * 1024))"

subsection \<open>Creating\<close>

record create_values =
  kv_name :: string
  kv_is_read_only :: bool
  kv_max_read_mb :: rat
  kv_user_id :: "string option"

definition create_initial :: create_values where
  "create_initial = \<lparr>kv_name = [], kv_is_read_only = True, kv_max_read_mb = 1, kv_user_id = None\<rparr>"

definition token_name_rule :: "(string \<Rightarrow> string) \<Rightarrow> string \<Rightarrow> string option" where
  "token_name_rule trim v = (if trim v = [] then Some ''Name is required'' else None)"

definition create_mb_rule :: "rat \<Rightarrow> string option" where
  "create_mb_rule v =
     (if v < 1 / 1024 \<or> 10 < v then Some ''Must be between 1 KB (~0.001 MB) and 10 MB'' else None)"

definition user_id_rule :: "bool \<Rightarrow> string option \<Rightarrow> string option" where
  "user_id_rule adminMode v = (if adminMode \<and> \<not> truthy v then Some ''Pick a user'' else None)"

definition create_rules :: "(string \<Rightarrow> string) \<Rightarrow> bool \<Rightarrow> create_values validators" where
  "create_rules trim adminMode =
     [(''name'', \<lambda>v. token_name_rule trim (kv_name v)), (''max_read_mb'', \<lambda>v. create_mb_rule (kv_max_read_mb v)),
      (''user_id'', \<lambda>v. user_id_rule adminMode (kv_user_id v))]"

definition create_payload :: "(string \<Rightarrow> string) \<Rightarrow> create_values \<Rightarrow> create_token_payload" where
  "create_payload trim v = \<lparr>ct_name = trim (kv_name v), ct_is_read_only = kv_is_read_only v,
     ct_max_read_bytes = nat (mb_to_bytes (kv_max_read_mb v))\<rparr>"

text \<open>The payload and, in admin mode, the number of the picked user (None is NaN or undefined).\<close>

definition create_submit ::
  "(string \<Rightarrow> string) \<Rightarrow> bool \<Rightarrow> create_values form
     \<Rightarrow> create_values form \<times> (create_token_payload \<times> nat option) option" where
  "create_submit trim adminMode f =
     onSubmit (create_rules trim adminMode)
       (\<lambda>v. (create_payload trim v,
             if adminMode \<and> truthy (kv_user_id v) then js_Number (the (kv_user_id v)) else None)) f"

text \<open>An infinite limit is None.\<close>

definition slotFull :: "nat \<Rightarrow> nat option \<Rightarrow> bool" where
  "slotFull used limit = (case limit of None \<Rightarrow> False | Some l \<Rightarrow> l \<le> used)"

definition create_enabled :: "bool \<Rightarrow> nat \<Rightarrow> nat option \<Rightarrow> bool" where
  "create_enabled adminMode used limit \<longleftrightarrow> \<not> (\<not> adminMode \<and> slotFull used limit)"

definition slot_note :: "bool \<Rightarrow> nat \<Rightarrow> nat option \<Rightarrow> string option" where
  "slot_note adminMode used limit =
     (case limit of
        None \<Rightarrow> None
      | Some l \<Rightarrow>
          if adminMode then None
          else if slotFull used limit then Some (''Token limit reached ('' @ nat_str l @ '')'')
          else Some (''Used '' @ nat_str used @ '' of '' @ nat_str l @ '' token slots.''))"

definition user_options :: "(nat \<times> string) list \<Rightarrow> (string \<times> string) list" where
  "user_options us = map (\<lambda>(i, nm). (nat_str i, nm)) us"

subsection \<open>Editing\<close>

record edit_values =
  ev_name :: string
  ev_is_read_only :: bool
  ev_max_read_mb :: rat

definition bytesToMB :: "nat \<Rightarrow> int" where
  "bytesToMB b = max 1 (math_round (of_nat b / (1024 * 1024)))"

definition token_values :: "'z api_token_scheme \<Rightarrow> edit_values" where
  "token_values t = \<lparr>ev_name = tok_name t, ev_is_read_only = tok_is_read_only t,
     ev_max_read_mb = of_int (bytesToMB (tok_max_read_bytes t))\<rparr>"

definition edit_start :: "'z api_token_scheme option \<Rightarrow> edit_values form" where
  "edit_start t =
     new_form (case t of Some x \<Rightarrow> token_values x
               | None \<Rightarrow> \<lparr>ev_name = [], ev_is_read_only = False, ev_max_read_mb = 1\<rparr>)"

text \<open>The effect on a change of the token; during the close animation there is none.\<close>

definition prime_edit :: "'z api_token_scheme option \<Rightarrow> edit_values form \<Rightarrow> edit_values form" where
  "prime_edit t f =
     (case t of None \<Rightarrow> f | Some x \<Rightarrow> setValues (token_values x) (setInitialValues (token_values x) f))"

definition edit_mb_rule :: "rat \<Rightarrow> string option" where
  "edit_mb_rule v = (if v < 1 then Some ''Must be at least 1 MB'' else None)"

definition edit_rules :: "(string \<Rightarrow> string) \<Rightarrow> edit_values validators" where
  "edit_rules trim =
     [(''name'', \<lambda>v. token_name_rule trim (ev_name v)), (''max_read_mb'', \<lambda>v. edit_mb_rule (ev_max_read_mb v))]"

definition edit_payload :: "(string \<Rightarrow> string) \<Rightarrow> edit_values \<Rightarrow> update_token_payload" where
  "edit_payload trim v = \<lparr>ut_name = Some (trim (ev_name v)), ut_is_read_only = Some (ev_is_read_only v),
     ut_max_read_bytes = Some (nat (mb_to_bytes (ev_max_read_mb v)))\<rparr>"

definition edit_submit ::
  "(string \<Rightarrow> string) \<Rightarrow> edit_values form \<Rightarrow> edit_values form \<times> update_token_payload option" where
  "edit_submit trim f = onSubmit (edit_rules trim) (edit_payload trim) f"

subsection \<open>Read limits\<close>

lemma math_round_mono: "x \<le> y \<Longrightarrow> math_round x \<le> math_round y"
  by (simp add: math_round_def floor_mono)

lemma mb_to_bytes_le: "mb_to_bytes v \<le> HARD_CEILING"
  by (simp add: mb_to_bytes_def)

lemma mb_to_bytes_mono: "x \<le> y \<Longrightarrow> mb_to_bytes x \<le> mb_to_bytes y"
  unfolding mb_to_bytes_def by (intro min.mono math_round_mono) simp_all

lemma mb_to_bytes_whole: "k \<le> 10 \<Longrightarrow> mb_to_bytes (of_int k) = k * 1048576"
proof -
  assume "k \<le> 10"
  have "(of_int k * 1024 * 1024 :: rat) = of_int (k * 1048576)" by simp
  then show ?thesis using \<open>k \<le> 10\<close> by (simp only: mb_to_bytes_def math_round_int) (simp add: HARD_CEILING_def)
qed

lemma HARD_CEILING_1024: "min HARD_CEILING 1024 = 1024"
  by (simp add: HARD_CEILING_def)

lemma mb_to_bytes_kb: "mb_to_bytes (1 / 1024) = 1024"
proof -
  have "(1 / 1024 * 1024 * 1024 :: rat) = of_int 1024" by simp
  then show ?thesis unfolding mb_to_bytes_def by (metis (no_types) math_round_int HARD_CEILING_1024)
qed

lemma create_mb_bounds:
  "create_mb_rule v = None \<Longrightarrow> 1024 \<le> nat (mb_to_bytes v) \<and> nat (mb_to_bytes v) \<le> 10485760"
proof -
  assume "create_mb_rule v = None"
  then have "1 / 1024 \<le> v" by (simp add: create_mb_rule_def split: if_splits)
  from mb_to_bytes_mono[OF this] have "1024 \<le> mb_to_bytes v" by (simp only: mb_to_bytes_kb)
  then show ?thesis using mb_to_bytes_le[of v] unfolding HARD_CEILING_def by linarith
qed

lemma edit_mb_bounds:
  "edit_mb_rule v = None \<Longrightarrow> 1048576 \<le> nat (mb_to_bytes v) \<and> nat (mb_to_bytes v) \<le> 10485760"
proof -
  assume "edit_mb_rule v = None"
  then have "1 \<le> v" by (simp add: edit_mb_rule_def split: if_splits)
  then have "1048576 \<le> mb_to_bytes v" using mb_to_bytes_mono[of 1 v] mb_to_bytes_whole[of 1] by simp
  then show ?thesis using mb_to_bytes_le[of v] unfolding HARD_CEILING_def by linarith
qed

lemma token_name_bound: "token_name_rule trim v = None \<longleftrightarrow> trim v \<noteq> []"
  by (simp add: token_name_rule_def)

text \<open>the forms send only limits the server accepts: a new token may read between one kilobyte and
  ten megabytes a call, an edited one between one and ten megabytes, and neither has a blank name.\<close>

theorem token_limits_in_bounds:
  "(case snd (create_submit trim adminMode f) of
      None \<Rightarrow> True
    | Some (p, u) \<Rightarrow> 1024 \<le> ct_max_read_bytes p \<and> ct_max_read_bytes p \<le> 10485760 \<and> ct_name p \<noteq> [])
   \<and> (case snd (edit_submit trim g) of
        None \<Rightarrow> True
      | Some p \<Rightarrow> (\<exists>b n. ut_max_read_bytes p = Some b \<and> 1048576 \<le> b \<and> b \<le> 10485760
                    \<and> ut_name p = Some n \<and> n \<noteq> []))"
  using create_mb_bounds edit_mb_bounds
  by (simp add: create_submit_def edit_submit_def onSubmit_def form_valid_def create_rules_def edit_rules_def
      token_name_bound create_payload_def edit_payload_def)

text \<open>(a flaw) saving a token's edit form without touching its limit changes the limit: the form shows
  whole megabytes, at least one, and sends what it shows.  Every limit below a megabyte is raised to a
  megabyte; the limit survives exactly when it is between one and ten whole megabytes.\<close>

theorem edit_changes_untouched_limit:
  assumes "trim (tok_name t) \<noteq> []"
  shows "\<exists>p b. snd (edit_submit trim (prime_edit (Some t) f)) = Some p \<and> ut_max_read_bytes p = Some b
    \<and> (tok_max_read_bytes t < 1048576 \<longrightarrow> b = 1048576)
    \<and> (b = tok_max_read_bytes t \<longleftrightarrow> (\<exists>k. 1 \<le> k \<and> k \<le> 10 \<and> tok_max_read_bytes t = k * 1048576))"
proof -
  define m where "m = bytesToMB (tok_max_read_bytes t)"
  define b where "b = nat (mb_to_bytes (of_int m))"
  have m1: "1 \<le> m" by (simp add: m_def bytesToMB_def)
  have valid: "form_valid (edit_rules trim) (token_values t)"
    using assms m1 by (simp add: form_valid_def edit_rules_def token_name_rule_def edit_mb_rule_def token_values_def m_def)
  have sub: "snd (edit_submit trim (prime_edit (Some t) f)) = Some (edit_payload trim (token_values t))"
    using valid by (simp add: edit_submit_def prime_edit_def onSubmit_def)
  have pb: "ut_max_read_bytes (edit_payload trim (token_values t)) = Some b"
    by (simp add: edit_payload_def token_values_def b_def m_def)
  have whole: "m = int k" if "1 \<le> k" "tok_max_read_bytes t = k * 1048576" for k
  proof -
    have "(of_nat (tok_max_read_bytes t) / (1024 * 1024) :: rat) = of_int (int k)" using that(2) by simp
    then have "m = max 1 (math_round (of_int (int k)))" by (simp only: m_def bytesToMB_def)
    then show ?thesis using that(1) by (simp only: math_round_int)
  qed
  have b_eq: "b = nat (min 10 m) * 1048576"
  proof (cases "m \<le> 10")
    case True
    then show ?thesis using m1 by (simp add: b_def mb_to_bytes_whole nat_mult_distrib)
  next
    case False
    then have "mb_to_bytes 10 \<le> mb_to_bytes (of_int m)" by (intro mb_to_bytes_mono) simp
    moreover have "mb_to_bytes 10 = 10485760" using mb_to_bytes_whole[of 10] by simp
    ultimately have "mb_to_bytes (of_int m) = 10485760"
      using mb_to_bytes_le[of "of_int m"] by (simp add: HARD_CEILING_def)
    then show ?thesis using False by (simp add: b_def)
  qed
  have small: "b = 1048576" if "tok_max_read_bytes t < 1048576"
  proof -
    have "(of_nat (tok_max_read_bytes t) / (1024 * 1024) :: rat) \<le> 1" using that by simp
    from math_round_mono[OF this] have "math_round (of_nat (tok_max_read_bytes t) / (1024 * 1024)) \<le> 1"
      using math_round_int[of 1] by simp
    then have "m = 1" using m1 by (simp add: m_def bytesToMB_def)
    then show ?thesis by (simp add: b_eq)
  qed
  have "b = tok_max_read_bytes t \<longleftrightarrow> (\<exists>k. 1 \<le> k \<and> k \<le> 10 \<and> tok_max_read_bytes t = k * 1048576)"
  proof
    assume "b = tok_max_read_bytes t"
    then show "\<exists>k. 1 \<le> k \<and> k \<le> 10 \<and> tok_max_read_bytes t = k * 1048576"
      using b_eq m1 by (intro exI[of _ "nat (min 10 m)"]) auto
  next
    assume "\<exists>k. 1 \<le> k \<and> k \<le> 10 \<and> tok_max_read_bytes t = k * 1048576"
    then obtain k where "1 \<le> k" "k \<le> 10" "tok_max_read_bytes t = k * 1048576" by blast
    then show "b = tok_max_read_bytes t" using whole by (simp add: b_eq)
  qed
  with sub pb small show ?thesis by blast
qed

subsection \<open>TokensTable\<close>

text \<open>One row: the name, the owner, whether it is revoked, the text of the last use, the limit, and
  whether it can be edited and revoked.  \<open>relative\<close> is \<open>formatRelative\<close>.\<close>

record token_row =
  tr_name :: string
  tr_owner :: "string option"
  tr_revoked :: bool
  tr_last_used :: string
  tr_read_only :: bool
  tr_max_read :: string
  tr_can_edit :: bool
  tr_can_revoke :: bool

definition token_row_of ::
  "(string option \<Rightarrow> string) \<Rightarrow> bool \<Rightarrow> string option \<Rightarrow> 'z api_token_scheme \<Rightarrow> token_row" where
  "token_row_of relative editable owner t =
     (let isRevoked = truthy (tok_revoked_at t)
      in \<lparr>tr_name = tok_name t, tr_owner = owner, tr_revoked = isRevoked,
          tr_last_used = (if isRevoked then ''Revoked '' @ relative (tok_revoked_at t)
                          else relative (tok_last_used_at t)),
          tr_read_only = tok_is_read_only t, tr_max_read = formatBytes (tok_max_read_bytes t),
          tr_can_edit = (\<not> isRevoked \<and> editable), tr_can_revoke = (\<not> isRevoked)\<rparr>)"

text \<open>An empty list is a sentence, not a table.\<close>

definition tokensTable ::
  "(string option \<Rightarrow> string) \<Rightarrow> bool \<Rightarrow> bool \<Rightarrow> api_token_with_owner list \<Rightarrow> token_row list option" where
  "tokensTable relative showOwner editable tokens =
     (if tokens = [] then None
      else Some (map (\<lambda>t. token_row_of relative editable
                       (if showOwner then Some (tok_owner_username t) else None) t) tokens))"

lemma revoked_rows_inert:
  "tr_revoked (token_row_of relative editable owner t) \<Longrightarrow>
     \<not> tr_can_edit (token_row_of relative editable owner t) \<and> \<not> tr_can_revoke (token_row_of relative editable owner t)"
  by (simp add: token_row_of_def Let_def)

subsection \<open>The pages\<close>

datatype token_request = CreateToken create_token_payload "nat option" | RevokeToken nat string
  | UpdateToken nat update_token_payload string

record token_target =
  tt_id :: nat
  tt_name :: string

record tokens_page =
  tp_create_open :: bool
  tp_plaintext :: "string option"
  tp_revoke :: "token_target option"
  tp_edit :: "token_target option"
  tp_sent :: "token_request list"
  tp_toasts :: "(toast_color \<times> string) list"

definition tokens_page0 :: tokens_page where
  "tokens_page0 = \<lparr>tp_create_open = False, tp_plaintext = None, tp_revoke = None, tp_edit = None,
     tp_sent = [], tp_toasts = []\<rparr>"

definition handleCreate :: "create_token_payload \<Rightarrow> tokens_page \<Rightarrow> tokens_page" where
  "handleCreate payload st = st\<lparr>tp_sent := tp_sent st @ [CreateToken payload None]\<rparr>"

text \<open>On behalf of a user: a missing number and user 0 are falsy.\<close>

definition handleCreate_admin :: "create_token_payload \<Rightarrow> nat option \<Rightarrow> tokens_page \<Rightarrow> tokens_page" where
  "handleCreate_admin payload userId st =
     (case userId of
        None \<Rightarrow> st
      | Some i \<Rightarrow> if i = 0 then st else st\<lparr>tp_sent := tp_sent st @ [CreateToken payload (Some i)]\<rparr>)"

text \<open>From the list of one user, the picked number falls back to that user.\<close>

definition user_list_create :: "nat \<Rightarrow> create_token_payload \<Rightarrow> nat option \<Rightarrow> tokens_page \<Rightarrow> tokens_page" where
  "user_list_create userId payload picked st =
     st\<lparr>tp_sent := tp_sent st @ [CreateToken payload (Some (case picked of None \<Rightarrow> userId | Some i \<Rightarrow> i))]\<rparr>"

definition create_done :: "js_error + string \<Rightarrow> tokens_page \<Rightarrow> tokens_page" where
  "create_done outcome st =
     (case outcome of
        Inr token_plaintext \<Rightarrow>
          st\<lparr>tp_toasts := tp_toasts st @ [(Green, ''Token created'')], tp_create_open := False,
             tp_plaintext := Some token_plaintext\<rparr>
      | Inl e \<Rightarrow> st\<lparr>tp_toasts := tp_toasts st @ [(Red, getErrorMessage e)]\<rparr>)"

definition handleRevoke :: "tokens_page \<Rightarrow> tokens_page" where
  "handleRevoke st =
     (case tp_revoke st of
        None \<Rightarrow> st
      | Some t \<Rightarrow> st\<lparr>tp_sent := tp_sent st @ [RevokeToken (tt_id t) (tt_name t)]\<rparr>)"

definition submit_edit :: "update_token_payload \<Rightarrow> tokens_page \<Rightarrow> tokens_page" where
  "submit_edit payload st =
     (case tp_edit st of
        None \<Rightarrow> st
      | Some t \<Rightarrow> st\<lparr>tp_sent := tp_sent st @ [UpdateToken (tt_id t) payload (tt_name t)]\<rparr>)"

definition revoke_done :: "js_error + unit \<Rightarrow> string \<Rightarrow> tokens_page \<Rightarrow> tokens_page" where
  "revoke_done outcome nm st =
     (case runWithToasts outcome (''Token '' @ [CHR 0x22] @ nm @ [CHR 0x22] @ '' revoked'')
             (\<lambda>s. s\<lparr>tp_revoke := None\<rparr>) st of
        (t, s) \<Rightarrow> s\<lparr>tp_toasts := tp_toasts s @ [(toast_color t, toast_message t)]\<rparr>)"

definition edit_done :: "js_error + unit \<Rightarrow> string \<Rightarrow> tokens_page \<Rightarrow> tokens_page" where
  "edit_done outcome msg st =
     (case runWithToasts outcome msg (\<lambda>s. s\<lparr>tp_edit := None\<rparr>) st of
        (t, s) \<Rightarrow> s\<lparr>tp_toasts := tp_toasts s @ [(toast_color t, toast_message t)]\<rparr>)"

datatype tokens_event = CreateOpen | CreateClose | CreateSubmit create_token_payload | CreateDone "js_error + string"
  | PlaintextClose | RevokeOpen token_target | RevokeClose | RevokeConfirm | RevokeDone "js_error + unit" string
  | EditOpen token_target | EditClose | EditSubmit update_token_payload | EditDone "js_error + unit" string

fun tokens_enabled :: "tokens_page \<Rightarrow> tokens_event \<Rightarrow> bool" where
  "tokens_enabled st CreateOpen \<longleftrightarrow> tp_plaintext st = None"
| "tokens_enabled st (CreateSubmit p) \<longleftrightarrow> tp_create_open st"
| "tokens_enabled st (CreateDone outcome) \<longleftrightarrow> list_ex (\<lambda>r. case r of CreateToken p u \<Rightarrow> True | _ \<Rightarrow> False) (tp_sent st)"
| "tokens_enabled st PlaintextClose \<longleftrightarrow> tp_plaintext st \<noteq> None"
| "tokens_enabled st RevokeConfirm \<longleftrightarrow> tp_revoke st \<noteq> None"
| "tokens_enabled st (EditSubmit p) \<longleftrightarrow> tp_edit st \<noteq> None"
| "tokens_enabled st _ \<longleftrightarrow> True"

fun tokens_step :: "tokens_page \<Rightarrow> tokens_event \<Rightarrow> tokens_page" where
  "tokens_step st CreateOpen = st\<lparr>tp_create_open := True\<rparr>"
| "tokens_step st CreateClose = st\<lparr>tp_create_open := False\<rparr>"
| "tokens_step st (CreateSubmit p) = handleCreate p st"
| "tokens_step st (CreateDone outcome) = create_done outcome st"
| "tokens_step st PlaintextClose = st\<lparr>tp_plaintext := None\<rparr>"
| "tokens_step st (RevokeOpen t) = st\<lparr>tp_revoke := Some t\<rparr>"
| "tokens_step st RevokeClose = st\<lparr>tp_revoke := None\<rparr>"
| "tokens_step st RevokeConfirm = handleRevoke st"
| "tokens_step st (RevokeDone outcome nm) = revoke_done outcome nm st"
| "tokens_step st (EditOpen t) = st\<lparr>tp_edit := Some t\<rparr>"
| "tokens_step st EditClose = st\<lparr>tp_edit := None\<rparr>"
| "tokens_step st (EditSubmit p) = submit_edit p st"
| "tokens_step st (EditDone outcome msg) = edit_done outcome msg st"

text \<open>A plaintext stays on screen until the user closes it or another token is created.\<close>

lemma plaintext_kept:
  assumes "tp_plaintext st = Some p" "ev \<noteq> PlaintextClose" "\<And>q. ev \<noteq> CreateDone (Inr q)"
  shows "tp_plaintext (tokens_step st ev) = Some p"
  using assms
  by (cases ev) (auto simp: handleCreate_def create_done_def handleRevoke_def submit_edit_def revoke_done_def
      edit_done_def runWithToasts_def split: option.split sum.splits)

lemma plaintext_shown_on_create:
  "tp_plaintext (create_done (Inr p) st) = Some p \<and> \<not> tp_create_open (create_done (Inr p) st)"
  by (simp add: create_done_def)

subsection \<open>AdminApiTokensPage, UserTokensList\<close>

definition tokens_of_user :: "string option \<Rightarrow> api_token_with_owner list \<Rightarrow> api_token_with_owner list" where
  "tokens_of_user userFilter allTokens =
     (if truthy userFilter then filter (\<lambda>t. Some (tok_owner_username t) = userFilter) allTokens else allTokens)"

definition user_tokens :: "string \<Rightarrow> api_token_with_owner list \<Rightarrow> api_token_with_owner list" where
  "user_tokens username tokens = filter (\<lambda>t. tok_owner_username t = username) tokens"

definition token_note :: "string \<Rightarrow> string" where
  "token_note username = ''Pass this token to '' @ username @ '' via a secure channel (e.g. password manager share).''"

definition owner_name :: "admin_user list \<Rightarrow> nat \<Rightarrow> string" where
  "owner_name users userId =
     (case find (\<lambda>u. au_id u = userId) users of Some u \<Rightarrow> au_username u | None \<Rightarrow> nat_str userId)"

text \<open>a token issued on behalf of a user is issued for exactly the user that was picked: the option's
  text is read back as that user's number, and without a pick nothing is sent.\<close>

theorem issued_for_picked_user:
  assumes "(txt, nm) \<in> set (user_options us)" "kv_user_id (fm_values f) = Some txt"
    and "snd (create_submit trim True f) = Some (p, picked)"
  shows "\<exists>i. (i, nm) \<in> set us \<and> picked = Some i \<and> txt = nat_str i
    \<and> (i \<noteq> 0 \<longrightarrow> tp_sent (handleCreate_admin p picked st) = tp_sent st @ [CreateToken p (Some i)])"
proof -
  from assms(1) obtain i where i: "(i, nm) \<in> set us" "txt = nat_str i" by (auto simp: user_options_def)
  from assms(2,3) i have "picked = Some i"
    by (auto simp: create_submit_def snd_onSubmit truthy_def)
  with i show ?thesis by (auto simp: handleCreate_admin_def)
qed

subsection \<open>Examples\<close>

definition sample_token :: "nat \<Rightarrow> api_token" where
  "sample_token b = \<lparr>tok_id = 7, tok_name = ''ci'', tok_is_read_only = True, tok_max_read_bytes = b,
     tok_created_at = [], tok_last_used_at = None, tok_revoked_at = None\<rparr>"

theorem edit_changes_untouched_limit_witness:
  "\<exists>p. snd (edit_submit (\<lambda>s. s) (prime_edit (Some (sample_token 1024)) (edit_start (None :: api_token option)))) = Some p
     \<and> ut_max_read_bytes p = Some 1048576"
proof -
  have nm: "(\<lambda>s. s) (tok_name (sample_token 1024)) \<noteq> []" by (simp add: sample_token_def)
  from edit_changes_untouched_limit[of "\<lambda>s. s", OF nm, of "edit_start (None :: api_token option)"] obtain p b
    where "snd (edit_submit (\<lambda>s. s) (prime_edit (Some (sample_token 1024)) (edit_start (None :: api_token option)))) = Some p"
      "ut_max_read_bytes p = Some b" "tok_max_read_bytes (sample_token 1024) < 1048576 \<longrightarrow> b = 1048576" by blast
  then show ?thesis by (intro exI[of _ p]) (simp add: sample_token_def)
qed

theorem issued_for_picked_user_witness:
  "\<exists>p. snd (create_submit (\<lambda>s. s) True (new_form \<lparr>kv_name = ''ci'', kv_is_read_only = True, kv_max_read_mb = 1,
        kv_user_id = Some ''5''\<rparr>)) = Some (p, Some 5)
     \<and> tp_sent (handleCreate_admin p (Some 5) tokens_page0) = [CreateToken p (Some 5)]"
proof -
  let ?f = "new_form \<lparr>kv_name = ''ci'', kv_is_read_only = True, kv_max_read_mb = 1, kv_user_id = Some ''5''\<rparr>"
  have five: "nat_str 5 = ''5''" by (subst nat_str.simps) simp
  then have opt: "(''5'', ''bob'') \<in> set (user_options [(5, ''bob'')])" by (simp add: user_options_def)
  have uid: "kv_user_id (fm_values ?f) = Some ''5''" by (simp add: new_form_def)
  have "form_valid (create_rules (\<lambda>s. s) True) (fm_values ?f)"
    by (simp add: form_valid_def create_rules_def token_name_rule_def create_mb_rule_def user_id_rule_def truthy_def new_form_def)
  then obtain p picked where sub: "snd (create_submit (\<lambda>s. s) True ?f) = Some (p, picked)"
    by (simp add: create_submit_def onSubmit_def)
  from issued_for_picked_user[OF opt uid sub, of tokens_page0]
  have "picked = Some 5" "tp_sent (handleCreate_admin p picked tokens_page0) = [CreateToken p (Some 5)]"
    by (auto simp: tokens_page0_def)
  then show ?thesis using sub by (intro exI[of _ p]) simp
qed

end
