(* ===== verification/File_Kinds.thy ===== *)
theory File_Kinds
  imports Transfers
begin

text \<open>
  What a file name says about the file: the icon (\<open>utils/fileIcon.ts\<close>), the kind of preview
  (\<open>utils/filePreview.ts\<close>) and the kind of thumbnail (\<open>components/FileBrowser/FileCard.tsx\<close>).
  \<open>String.prototype.toLowerCase\<close> is a parameter; the locale \<open>case_folding\<close> states what the
  comparison of the two classifications relies on, and lower-casing the ASCII letters satisfies it.

  The icon table is a plain JavaScript object, so a lookup also finds the properties that every
  object inherits; they are not icon specifications.
\<close>

subsection \<open>Plain objects\<close>

definition OBJECT_PROTOTYPE :: "string list" where
  "OBJECT_PROTOTYPE = [''constructor'', ''__defineGetter__'', ''__defineSetter__'', ''hasOwnProperty'',
     ''__lookupGetter__'', ''__lookupSetter__'', ''isPrototypeOf'', ''propertyIsEnumerable'', ''toString'',
     ''valueOf'', ''__proto__'', ''toLocaleString'']"

datatype 'a property_value = OwnValue 'a | InheritedValue | NoValue

definition object_get :: "(string \<times> 'a) list \<Rightarrow> string \<Rightarrow> 'a property_value" where
  "object_get kvs k =
     (case map_of kvs k of
        Some v \<Rightarrow> OwnValue v
      | None \<Rightarrow> if k \<in> set OBJECT_PROTOTYPE then InheritedValue else NoValue)"

subsection \<open>fileIcon.ts\<close>

datatype lucide_icon = IconBraces | IconCode | IconDatabase | IconFile | IconFileText | IconFolder
  | IconImage | IconMusic | IconPackage | IconVideo

text \<open>A component is rendered from the field \<open>Icon\<close>; what an inherited property has there is
  undefined, the value None.\<close>

record file_icon_spec =
  fi_Icon :: "lucide_icon option"
  fi_color :: "string option"

definition icon_spec :: "lucide_icon \<Rightarrow> string option \<Rightarrow> file_icon_spec" where
  "icon_spec ic color = \<lparr>fi_Icon = Some ic, fi_color = color\<rparr>"

definition tinted :: "lucide_icon \<Rightarrow> string \<Rightarrow> string list \<Rightarrow> (string \<times> file_icon_spec) list" where
  "tinted ic color exts = map (\<lambda>e. (e, icon_spec ic (Some (''var(--mantine-color-'' @ color @ '')'')))) exts"

definition EXT_MAP :: "(string \<times> file_icon_spec) list" where
  "EXT_MAP =
     tinted IconImage ''teal-5'' [''png'', ''jpg'', ''jpeg'', ''gif'', ''webp'', ''svg'', ''avif'']
     @ tinted IconVideo ''pink-5'' [''mp4'', ''webm'', ''mov'', ''mkv'']
     @ tinted IconMusic ''grape-5'' [''mp3'', ''flac'', ''wav'', ''ogg'']
     @ tinted IconBraces ''yellow-6'' [''json'', ''yaml'', ''yml'', ''toml'']
     @ tinted IconDatabase ''cyan-5'' [''csv'', ''tsv'', ''sql'', ''parquet'']
     @ tinted IconCode ''blue-5'' [''ts'', ''tsx'', ''js'', ''jsx'', ''py'', ''go'', ''rs'', ''sh'']
     @ tinted IconPackage ''indigo-4'' [''zip'', ''tar'', ''gz'', ''tgz'', ''bz2'', ''xz'', ''zst'', ''7z'', ''rar'']
     @ map (\<lambda>e. (e, icon_spec IconFileText None)) [''md'', ''txt'', ''log'']"

definition lastIndexOf :: "char \<Rightarrow> string \<Rightarrow> nat option" where
  "lastIndexOf c s = (if c \<in> set s then Some (length s - 1 - length (takeWhile (\<lambda>x. x \<noteq> c) (rev s))) else None)"

definition icon_ext :: "(string \<Rightarrow> string) \<Rightarrow> string \<Rightarrow> string" where
  "icon_ext lower name =
     (case lastIndexOf CHR ''.'' name of
        Some dot \<Rightarrow> if 0 < dot then lower (drop (dot + 1) name) else []
      | None \<Rightarrow> [])"

definition getFileIcon :: "(string \<Rightarrow> string) \<Rightarrow> string \<Rightarrow> bool \<Rightarrow> file_icon_spec" where
  "getFileIcon lower name isDirectory =
     (if isDirectory then icon_spec IconFolder (Some ''var(--mantine-color-mutedSlateBlue-6)'')
      else case object_get EXT_MAP (icon_ext lower name) of
             OwnValue spec \<Rightarrow> spec
           | InheritedValue \<Rightarrow> \<lparr>fi_Icon = None, fi_color = None\<rparr>
           | NoValue \<Rightarrow> icon_spec IconFile (Some ''var(--mantine-color-slate-5)''))"

subsection \<open>filePreview.ts\<close>

datatype preview_type = PreviewImage | PreviewVideo | PreviewPdf | PreviewText

definition IMAGE_EXTS :: "string list" where
  "IMAGE_EXTS = [''png'', ''jpg'', ''jpeg'', ''gif'', ''webp'', ''svg'']"

definition VIDEO_EXTS :: "string list" where
  "VIDEO_EXTS = [''mp4'', ''webm'', ''mov'']"

definition preview_ext :: "(string \<Rightarrow> string) \<Rightarrow> string \<Rightarrow> string" where
  "preview_ext lower filename = last (split_on CHR ''.'' (lower filename))"

definition getPreviewType :: "(string \<Rightarrow> string) \<Rightarrow> string \<Rightarrow> string list \<Rightarrow> preview_type option" where
  "getPreviewType lower filename previewTextExts =
     (let ext = preview_ext lower filename
      in if ext = [] then None
         else if ext \<in> set IMAGE_EXTS then Some PreviewImage
         else if ext \<in> set VIDEO_EXTS then Some PreviewVideo
         else if ext = ''pdf'' then Some PreviewPdf
         else if ext \<in> set previewTextExts then Some PreviewText
         else None)"

subsection \<open>The thumbnail of a card\<close>

text \<open>The regular expressions \<open>/\.(png|jpe?g|gif|webp|svg)$/i\<close> and \<open>/\.(mp4|webm|mov)$/i\<close>: the name
  ends, up to the case of ASCII letters, in a dot and one of the alternatives.\<close>

datatype preview_kind = KindImage | KindVideo | KindOther

definition ends_in_ext :: "string list \<Rightarrow> string \<Rightarrow> bool" where
  "ends_in_ext exts name \<longleftrightarrow> list_ex (\<lambda>e. starts_with (rev (map lower_ascii name)) (rev (CHR ''.'' # e))) exts"

definition IMAGE_RE :: "string \<Rightarrow> bool" where
  "IMAGE_RE = ends_in_ext [''png'', ''jpg'', ''jpeg'', ''gif'', ''webp'', ''svg'']"

definition VIDEO_RE :: "string \<Rightarrow> bool" where
  "VIDEO_RE = ends_in_ext [''mp4'', ''webm'', ''mov'']"

definition categorizePreview :: "string \<Rightarrow> preview_kind" where
  "categorizePreview name = (if IMAGE_RE name then KindImage else if VIDEO_RE name then KindVideo else KindOther)"

subsection \<open>The two classifications\<close>

locale case_folding =
  fixes lower :: "string \<Rightarrow> string"
  assumes lower_split: "split_on CHR ''.'' (lower s) = map lower (split_on CHR ''.'' s)"
    and lower_media: "e \<in> set (IMAGE_EXTS @ VIDEO_EXTS) \<Longrightarrow> lower s = e \<longleftrightarrow> map lower_ascii s = e"

lemma lower_ascii_dot [simp]: "lower_ascii c = CHR ''.'' \<longleftrightarrow> c = CHR ''.''"
proof
  assume dot: "lower_ascii c = CHR ''.''"
  show "c = CHR ''.''"
  proof (cases "65 \<le> (of_char c :: nat) \<and> (of_char c :: nat) \<le> 90")
    case True
    with dot have "char_of ((of_char c :: nat) + 32) = CHR ''.''" by (simp add: lower_ascii_def Let_def)
    then have "(of_char (char_of ((of_char c :: nat) + 32)) :: nat) = of_char CHR ''.''" by simp
    with True show ?thesis by simp
  next
    case False
    with dot show ?thesis by (auto simp: lower_ascii_def Let_def)
  qed
qed (simp add: lower_ascii_def)

lemma split_map_lower: "split_on CHR ''.'' (map lower_ascii s) = map (map lower_ascii) (split_on CHR ''.'' s)"
proof (induction s)
  case (Cons x s)
  obtain h t where "split_on CHR ''.'' s = h # t" using split_on_nonempty by (metis neq_Nil_conv)
  with Cons show ?case by simp
qed simp

interpretation ascii_case: case_folding "map lower_ascii"
  by unfold_locales (simp_all add: split_map_lower)

lemma last_split: "CHR ''.'' \<notin> set e \<Longrightarrow>
  (\<exists>u. s = u @ CHR ''.'' # e) \<longleftrightarrow> CHR ''.'' \<in> set s \<and> last (split_on CHR ''.'' s) = e"
proof (induction s)
  case (Cons x s)
  obtain h t where ht: "split_on CHR ''.'' s = h # t" using split_on_nonempty by (metis neq_Nil_conv)
  show ?case
  proof (cases "CHR ''.'' \<in> set s")
    case True
    then have "t \<noteq> []" using split_on_no_sep join_split[of "CHR ''.''" s] split_on_pieces[of h "CHR ''.''" s] ht by auto
    moreover have "(\<exists>u. x # s = u @ CHR ''.'' # e) \<longleftrightarrow> (\<exists>u. s = u @ CHR ''.'' # e)"
      using True Cons.prems by (auto simp: Cons_eq_append_conv)
    ultimately show ?thesis using Cons True ht by auto
  next
    case False
    then have "split_on CHR ''.'' s = [s]" by (rule split_on_no_sep)
    with False show ?thesis by (auto simp: Cons_eq_append_conv)
  qed
qed simp

lemma ends_in_ext_iff:
  assumes "\<And>e. e \<in> set exts \<Longrightarrow> CHR ''.'' \<notin> set e"
  shows "ends_in_ext exts name \<longleftrightarrow>
    CHR ''.'' \<in> set name \<and> map lower_ascii (last (split_on CHR ''.'' name)) \<in> set exts"
proof -
  have "starts_with (rev (map lower_ascii name)) (rev (CHR ''.'' # e)) \<longleftrightarrow>
      CHR ''.'' \<in> set name \<and> map lower_ascii (last (split_on CHR ''.'' name)) = e" if "e \<in> set exts" for e
  proof -
    have "starts_with (rev (map lower_ascii name)) (rev (CHR ''.'' # e))
        \<longleftrightarrow> (\<exists>u. map lower_ascii name = u @ CHR ''.'' # e)"
      unfolding starts_with_iff by (metis rev_append rev_rev_ident)
    also have "\<dots> \<longleftrightarrow> CHR ''.'' \<in> set (map lower_ascii name) \<and> last (split_on CHR ''.'' (map lower_ascii name)) = e"
      by (rule last_split[OF assms[OF that]])
    also have "CHR ''.'' \<in> set (map lower_ascii name) \<longleftrightarrow> CHR ''.'' \<in> set name"
      using lower_ascii_dot by (metis image_iff list.set_map)
    finally show ?thesis by (simp add: split_map_lower last_map)
  qed
  then show ?thesis by (auto simp: ends_in_ext_def list_ex_iff)
qed

lemma media_regexes:
  "IMAGE_RE name \<longleftrightarrow> CHR ''.'' \<in> set name \<and> map lower_ascii (last (split_on CHR ''.'' name)) \<in> set IMAGE_EXTS"
  "VIDEO_RE name \<longleftrightarrow> CHR ''.'' \<in> set name \<and> map lower_ascii (last (split_on CHR ''.'' name)) \<in> set VIDEO_EXTS"
  unfolding IMAGE_RE_def VIDEO_RE_def IMAGE_EXTS_def VIDEO_EXTS_def by (rule ends_in_ext_iff; fastforce)+

context case_folding begin

lemma preview_ext_media:
  "preview_ext lower name \<in> set exts \<longleftrightarrow> map lower_ascii (last (split_on CHR ''.'' name)) \<in> set exts"
  if "set exts \<subseteq> set (IMAGE_EXTS @ VIDEO_EXTS)"
proof -
  have "preview_ext lower name = lower (last (split_on CHR ''.'' name))"
    by (simp add: preview_ext_def lower_split last_map)
  then show ?thesis using that lower_media by (metis subsetD)
qed

lemma getPreviewType_image:
  "getPreviewType lower name exts = Some PreviewImage \<longleftrightarrow>
     map lower_ascii (last (split_on CHR ''.'' name)) \<in> set IMAGE_EXTS"
proof -
  have "[] \<notin> set IMAGE_EXTS" by (simp add: IMAGE_EXTS_def)
  then show ?thesis using preview_ext_media[of IMAGE_EXTS name]
    by (auto simp: getPreviewType_def Let_def split: if_splits)
qed

lemma getPreviewType_video:
  "getPreviewType lower name exts = Some PreviewVideo \<longleftrightarrow>
     map lower_ascii (last (split_on CHR ''.'' name)) \<in> set VIDEO_EXTS"
proof -
  have "[] \<notin> set VIDEO_EXTS" "set VIDEO_EXTS \<inter> set IMAGE_EXTS = {}"
    by (simp_all add: VIDEO_EXTS_def IMAGE_EXTS_def)
  then show ?thesis using preview_ext_media[of IMAGE_EXTS name] preview_ext_media[of VIDEO_EXTS name]
    by (auto simp: getPreviewType_def Let_def split: if_splits)
qed

end

subsection \<open>Properties\<close>

lemma icon_table_defined: "object_get EXT_MAP e = OwnValue spec \<Longrightarrow> fi_Icon spec \<noteq> None"
proof -
  assume "object_get EXT_MAP e = OwnValue spec"
  then have "(e, spec) \<in> set EXT_MAP"
    by (auto simp: object_get_def split: option.splits if_splits dest: map_of_SomeD)
  moreover have "list_all (\<lambda>p. fi_Icon (snd p) \<noteq> None) EXT_MAP"
    by (simp add: EXT_MAP_def tinted_def icon_spec_def)
  ultimately show ?thesis by (auto simp: list_all_iff)
qed

lemma prototype_not_listed: "k \<in> set OBJECT_PROTOTYPE \<Longrightarrow> object_get EXT_MAP k = InheritedValue"
proof -
  assume k: "k \<in> set OBJECT_PROTOTYPE"
  have "set OBJECT_PROTOTYPE \<inter> fst ` set EXT_MAP = {}"
    by (simp add: OBJECT_PROTOTYPE_def EXT_MAP_def tinted_def)
  with k have "map_of EXT_MAP k = None" by (auto simp: map_of_eq_None_iff)
  with k show ?thesis by (simp add: object_get_def)
qed

lemma file_icon_missing_iff:
  "fi_Icon (getFileIcon lower name isDirectory) = None \<longleftrightarrow>
     \<not> isDirectory \<and> icon_ext lower name \<in> set OBJECT_PROTOTYPE"
proof (cases "icon_ext lower name \<in> set OBJECT_PROTOTYPE")
  case True
  then show ?thesis by (simp add: getFileIcon_def prototype_not_listed icon_spec_def)
next
  case False
  then show ?thesis
    using icon_table_defined[of "icon_ext lower name"]
    by (auto simp: getFileIcon_def icon_spec_def object_get_def split: option.splits)
qed

lemma icon_ext_suffix:
  assumes "base \<noteq> []" "CHR ''.'' \<notin> set e"
  shows "icon_ext lower (base @ CHR ''.'' # e) = lower e"
proof -
  have "takeWhile (\<lambda>x. x \<noteq> CHR ''.'') (rev e @ CHR ''.'' # rev base) = rev e"
    using assms(2) by (subst takeWhile_append2) auto
  then have "lastIndexOf CHR ''.'' (base @ CHR ''.'' # e) = Some (length base)"
    by (simp add: lastIndexOf_def)
  with assms(1) show ?thesis by (simp add: icon_ext_def)
qed

text \<open>a card shows an image or a video thumbnail exactly for the files that the preview dialog
  opens as an image or a video and whose name has a dot: the regular expressions of the card and the
  lists of the preview never disagree on an extension, whatever the admin lists as text.\<close>

theorem thumbnails_match_previews:
  assumes "case_folding lower"
  shows "(categorizePreview name = KindImage \<longleftrightarrow>
            CHR ''.'' \<in> set name \<and> getPreviewType lower name exts = Some PreviewImage)
       \<and> (categorizePreview name = KindVideo \<longleftrightarrow>
            CHR ''.'' \<in> set name \<and> getPreviewType lower name exts = Some PreviewVideo)"
proof -
  have "set VIDEO_EXTS \<inter> set IMAGE_EXTS = {}" by (simp add: VIDEO_EXTS_def IMAGE_EXTS_def)
  then show ?thesis
    by (auto simp: categorizePreview_def media_regexes case_folding.getPreviewType_image[OF assms]
        case_folding.getPreviewType_video[OF assms])
qed

theorem thumbnails_match_previews_witness:
  "categorizePreview ''cat.PNG'' = KindImage
   \<and> getPreviewType (map lower_ascii) ''cat.PNG'' [''txt''] = Some PreviewImage"
proof -
  have k: "categorizePreview ''cat.PNG'' = KindImage"
    by code_simp
  with thumbnails_match_previews[OF ascii_case.case_folding_axioms, of "''cat.PNG''" "[''txt'']"]
  show ?thesis by blast
qed

text \<open>A name without a dot is its own extension: a file called pdf, or log when the admin lists log,
  has a preview button, although its icon is that of a file of unknown type.\<close>

lemma dotless_name_previews:
  "getPreviewType id ''pdf'' exts = Some PreviewPdf"
  "''log'' \<in> set exts \<Longrightarrow> getPreviewType id ''log'' exts = Some PreviewText"
  "getFileIcon id ''log'' False = icon_spec IconFile (Some ''var(--mantine-color-slate-5)'')"
  by (simp_all add: getPreviewType_def preview_ext_def IMAGE_EXTS_def VIDEO_EXTS_def Let_def getFileIcon_def
      icon_ext_def lastIndexOf_def object_get_def EXT_MAP_def tinted_def OBJECT_PROTOTYPE_def)

end
