(* ===== verification/Preview.thy ===== *)
theory Preview
  imports File_Kinds Machine Sort_Entries
begin

text \<open>
  The preview dialog (\<open>components/Preview\<close>): which viewer a file gets (PreviewModal), the two viewers
  that fetch before they show anything (TextPreview, PdfPreview) as machines whose events are renders
  with new properties and the answers of the network in any order, and the two that hand the address to
  an element of the browser (ImagePreview, VideoPreview).

  Every run of an effect starts at most one fetch; fetches are numbered in the order they start.  The
  flag \<open>cancelled\<close> of the source is false exactly for the fetch \<open>px_live\<close>.
\<close>

subsection \<open>A fetch and what is shown\<close>

datatype 'c load_state = LoadLoading | LoadReady 'c | LoadFailed string

datatype flight = AwaitHeaders | AwaitErrorBody nat string | AwaitText

record 'c preview_box =
  px_url :: string
  px_size :: nat
  px_mounted :: bool
  px_state :: "'c load_state"
  px_fetches :: "(string \<times> nat) list"
  px_flights :: "nat \<Rightarrow> flight option"
  px_live :: "nat option"
  px_answers :: "(nat \<times> 'c) list"

definition MAX_SIZE :: nat where
  "MAX_SIZE = 5 * 1024 * 1024"

definition too_large :: "nat \<Rightarrow> string" where
  "too_large sz = ''File too large for preview ('' @ toFixed1 sz (1024 * 1024)
     @ '' MB > 5 MB). Download to view.''"

definition is_live :: "nat \<Rightarrow> 'c preview_box \<Rightarrow> bool" where
  "is_live n st \<longleftrightarrow> px_live st = Some n"

definition land :: "nat \<Rightarrow> 'c preview_box \<Rightarrow> 'c preview_box" where
  "land n st = st\<lparr>px_flights := (px_flights st)(n := None)\<rparr>"

definition start_fetch :: "'c preview_box \<Rightarrow> 'c preview_box" where
  "start_fetch st =
     st\<lparr>px_state := LoadLoading, px_fetches := px_fetches st @ [(px_url st, px_size st)],
        px_flights := (px_flights st)(length (px_fetches st) \<mapsto> AwaitHeaders),
        px_live := Some (length (px_fetches st))\<rparr>"

text \<open>The catch clause.\<close>

definition fail_with :: "nat \<Rightarrow> js_error \<Rightarrow> 'c preview_box \<Rightarrow> 'c preview_box" where
  "fail_with n e st =
     (if is_live n st then (land n st)\<lparr>px_state := LoadFailed (getErrorMessage e)\<rparr> else land n st)"

definition deliver :: "nat \<Rightarrow> 'c \<Rightarrow> 'c preview_box \<Rightarrow> 'c preview_box" where
  "deliver n c st =
     (let st' = (land n st)\<lparr>px_answers := px_answers st @ [(n, c)]\<rparr>
      in if is_live n st then st'\<lparr>px_state := LoadReady c\<rparr> else st')"

text \<open>The effects, run after the cleanup of the previous run.\<close>

definition text_effect :: "string preview_box \<Rightarrow> string preview_box" where
  "text_effect st =
     (if MAX_SIZE < px_size st then st\<lparr>px_live := None, px_state := LoadFailed (too_large (px_size st))\<rparr>
      else start_fetch st)"

definition pdf_effect :: "unit preview_box \<Rightarrow> unit preview_box" where
  "pdf_effect st = start_fetch st"

definition blank_box :: "string \<Rightarrow> nat \<Rightarrow> 'c preview_box" where
  "blank_box url sz = \<lparr>px_url = url, px_size = sz, px_mounted = True, px_state = LoadLoading, px_fetches = [],
     px_flights = Map.empty, px_live = None, px_answers = []\<rparr>"

datatype preview_event =
    NewProps string nat
  | Unmounted
  | Headers nat "js_error + http_response"
  | ErrorBody nat "json option"
  | TextBody nat "js_error + string"

fun preview_enabled :: "'c preview_box \<Rightarrow> preview_event \<Rightarrow> bool" where
  "preview_enabled st (NewProps url sz) \<longleftrightarrow> px_mounted st"
| "preview_enabled st Unmounted \<longleftrightarrow> px_mounted st"
| "preview_enabled st (Headers n outcome) \<longleftrightarrow> px_flights st n = Some AwaitHeaders"
| "preview_enabled st (ErrorBody n body) \<longleftrightarrow> (\<exists>status text. px_flights st n = Some (AwaitErrorBody status text))"
| "preview_enabled st (TextBody n outcome) \<longleftrightarrow> px_flights st n = Some AwaitText"

definition unmount :: "'c preview_box \<Rightarrow> 'c preview_box" where
  "unmount st = st\<lparr>px_mounted := False, px_live := None\<rparr>"

text \<open>A cancelled fetch whose headers arrive returns undefined: nothing else is read from it.\<close>

definition on_headers ::
  "(nat \<Rightarrow> 'c preview_box \<Rightarrow> 'c preview_box) \<Rightarrow> nat \<Rightarrow> js_error + http_response \<Rightarrow> 'c preview_box \<Rightarrow> 'c preview_box"
where
  "on_headers ok n outcome st =
     (case outcome of
        Inl e \<Rightarrow> fail_with n e st
      | Inr r \<Rightarrow>
          if \<not> is_live n st then land n st
          else if \<not> resp_ok r then
            st\<lparr>px_flights := (px_flights st)(n \<mapsto> AwaitErrorBody (resp_status r) (resp_status_text r))\<rparr>
          else ok n st)"

definition on_error_body :: "nat \<Rightarrow> json option \<Rightarrow> 'c preview_box \<Rightarrow> 'c preview_box" where
  "on_error_body n body st =
     (case px_flights st n of
        Some (AwaitErrorBody status text) \<Rightarrow> fail_with n (ApiError status text body) st
      | _ \<Rightarrow> st)"

fun text_step :: "string preview_box \<Rightarrow> preview_event \<Rightarrow> string preview_box" where
  "text_step st (NewProps url sz) =
     (if url = px_url st \<and> sz = px_size st then st else text_effect (st\<lparr>px_url := url, px_size := sz\<rparr>))"
| "text_step st Unmounted = unmount st"
| "text_step st (Headers n outcome) =
     on_headers (\<lambda>n st. st\<lparr>px_flights := (px_flights st)(n \<mapsto> AwaitText)\<rparr>) n outcome st"
| "text_step st (ErrorBody n body) = on_error_body n body st"
| "text_step st (TextBody n outcome) = (case outcome of Inl e \<Rightarrow> fail_with n e st | Inr t \<Rightarrow> deliver n t st)"

text \<open>The PDF viewer asks for the headers only; its effect does not depend on the size.\<close>

fun pdf_step :: "unit preview_box \<Rightarrow> preview_event \<Rightarrow> unit preview_box" where
  "pdf_step st (NewProps url sz) =
     (if url = px_url st then st\<lparr>px_size := sz\<rparr> else pdf_effect (st\<lparr>px_url := url, px_size := sz\<rparr>))"
| "pdf_step st Unmounted = unmount st"
| "pdf_step st (Headers n outcome) = on_headers (\<lambda>n st. deliver n () st) n outcome st"
| "pdf_step st (ErrorBody n body) = on_error_body n body st"
| "pdf_step st (TextBody n outcome) = st"

subsection \<open>What the viewers show\<close>

datatype viewer =
    ViewerLoader
  | ViewerAlert string string
  | ViewerText string
  | ViewerFrame string

fun text_view :: "string preview_box \<Rightarrow> viewer" where
  "text_view st =
     (case px_state st of
        LoadLoading \<Rightarrow> ViewerLoader
      | LoadFailed m \<Rightarrow> ViewerAlert (''Couldn't load this text file. '' @ m) (px_url st)
      | LoadReady c \<Rightarrow> ViewerText c)"

fun pdf_view :: "unit preview_box \<Rightarrow> viewer" where
  "pdf_view st =
     (case px_state st of
        LoadLoading \<Rightarrow> ViewerLoader
      | LoadFailed m \<Rightarrow> ViewerAlert (''Couldn't load this PDF. '' @ m) (px_url st)
      | LoadReady _ \<Rightarrow> ViewerFrame (px_url st))"

subsection \<open>Images and videos\<close>

record media_box =
  mb_url :: string
  mb_failed :: bool

definition media_props :: "string \<Rightarrow> media_box \<Rightarrow> media_box" where
  "media_props url st = (if url = mb_url st then st else \<lparr>mb_url = url, mb_failed = False\<rparr>)"

definition media_error :: "media_box \<Rightarrow> media_box" where
  "media_error st = st\<lparr>mb_failed := True\<rparr>"

datatype media_view = MediaElement string | MediaAlert string string

definition image_view :: "media_box \<Rightarrow> media_view" where
  "image_view st =
     (if mb_failed st then MediaAlert (''Couldn't load this image. The file may be corrupted, in an unsupported ''
        @ ''format, or unreachable.'') (mb_url st)
      else MediaElement (mb_url st))"

definition video_view :: "media_box \<Rightarrow> media_view" where
  "video_view st =
     (if mb_failed st then MediaAlert (''Couldn't load this video. The file may be corrupted, in an unsupported ''
        @ ''format, or unreachable.'') (mb_url st)
      else MediaElement (mb_url st))"

subsection \<open>PreviewModal\<close>

datatype modal_body = BodyImage string string | BodyVideo string | BodyPdf string | BodyText string nat | BodyNone

definition preview_exts :: "app_config option \<Rightarrow> string list" where
  "preview_exts config =
     (case config of
        Some c \<Rightarrow> (case c_preview_text_extensions c of Some l \<Rightarrow> l | None \<Rightarrow> [])
      | None \<Rightarrow> [])"

definition previewModal :: "(string \<Rightarrow> string) \<Rightarrow> app_config option \<Rightarrow> preview_state \<Rightarrow> modal_body" where
  "previewModal lower config st =
     (case getPreviewType lower (pw_filename st) (preview_exts config) of
        Some PreviewImage \<Rightarrow> BodyImage (pw_url st) (pw_filename st)
      | Some PreviewVideo \<Rightarrow> BodyVideo (pw_url st)
      | Some PreviewPdf \<Rightarrow> BodyPdf (pw_url st)
      | Some PreviewText \<Rightarrow> BodyText (pw_url st) (pw_size st)
      | None \<Rightarrow> BodyNone)"

text \<open>The eye button of a row or card (\<open>FileRow.tsx\<close>, \<open>FileCard.tsx\<close>).\<close>

definition canPreview :: "(string \<Rightarrow> string) \<Rightarrow> app_config option \<Rightarrow> file_entry \<Rightarrow> bool" where
  "canPreview lower config f \<longleftrightarrow>
     \<not> fe_is_directory f \<and> getPreviewType lower (fe_name f) (preview_exts config) \<noteq> None"

subsection \<open>Only the current file is shown\<close>

text \<open>While the viewer is mounted, a loader stands for a fetch that is still on its way, and shown
  content was answered to the live fetch, which asked for the current address.\<close>

definition box_inv :: "'c preview_box \<Rightarrow> bool" where
  "box_inv st \<longleftrightarrow>
     (\<forall>n. px_live st = Some n \<longrightarrow> n < length (px_fetches st) \<and> fst (px_fetches st ! n) = px_url st)
     \<and> (px_mounted st \<longrightarrow>
          (case px_state st of
             LoadLoading \<Rightarrow> \<exists>n. px_live st = Some n \<and> px_flights st n \<noteq> None
           | LoadReady c \<Rightarrow> \<exists>n. px_live st = Some n \<and> (n, c) \<in> set (px_answers st)
           | LoadFailed m \<Rightarrow> True))"

lemma inv_start_fetch: "box_inv (start_fetch st)"
  by (simp add: box_inv_def start_fetch_def)

lemma inv_unmount: "box_inv (unmount st)"
  by (simp add: box_inv_def unmount_def)

lemma inv_advance: "box_inv st \<Longrightarrow> box_inv (st\<lparr>px_flights := (px_flights st)(n \<mapsto> f)\<rparr>)"
  by (auto simp: box_inv_def split: load_state.split_asm)

lemma inv_land: "box_inv st \<Longrightarrow> \<not> is_live n st \<Longrightarrow> box_inv (land n st)"
  by (auto simp: box_inv_def land_def is_live_def split: load_state.split_asm)

lemma inv_fail_with: "box_inv st \<Longrightarrow> box_inv (fail_with n e st)"
  using inv_land[of st n] by (auto simp: fail_with_def) (simp add: box_inv_def land_def)

lemma inv_deliver: "box_inv st \<Longrightarrow> box_inv (deliver n c st)"
  by (auto simp: box_inv_def deliver_def land_def is_live_def Let_def split: load_state.splits)

lemma inv_on_headers:
  "box_inv st \<Longrightarrow> (\<And>n. box_inv (ok n st)) \<Longrightarrow> box_inv (on_headers ok n outcome st)"
  by (auto simp: on_headers_def inv_fail_with inv_land inv_advance split: sum.split)

lemma inv_on_error_body: "box_inv st \<Longrightarrow> box_inv (on_error_body n body st)"
  by (auto simp: on_error_body_def inv_fail_with split: option.split flight.split)

lemmas box_inv_rules = inv_start_fetch inv_unmount inv_advance inv_land inv_fail_with inv_deliver inv_on_headers
  inv_on_error_body

text \<open>The size limit of the text viewer: nothing above it is ever fetched.\<close>

definition size_inv :: "string preview_box \<Rightarrow> bool" where
  "size_inv st \<longleftrightarrow>
     (\<forall>q\<in>set (px_fetches st). snd q \<le> MAX_SIZE)
     \<and> (MAX_SIZE < px_size st \<longrightarrow> px_live st = None \<and> px_state st = LoadFailed (too_large (px_size st)))"

lemma size_kept:
  assumes "size_inv st"
    and "px_fetches st' = px_fetches st" "px_size st' = px_size st"
    and "px_live st' = px_live st \<or> px_live st' = None"
    and "px_live st = None \<Longrightarrow> px_state st' = px_state st"
  shows "size_inv st'"
  using assms by (auto simp: size_inv_def)

lemma size_effect: "size_inv st \<Longrightarrow> size_inv (text_effect (st\<lparr>px_url := url, px_size := sz\<rparr>))"
  by (auto simp: size_inv_def text_effect_def start_fetch_def)

lemma size_step: "size_inv st \<Longrightarrow> size_inv (text_step st ev)"
proof (cases ev)
  case (NewProps url sz)
  then show "size_inv st \<Longrightarrow> size_inv (text_step st ev)" by (simp add: size_effect)
next
  case (Headers n outcome)
  then show "size_inv st \<Longrightarrow> size_inv (text_step st ev)"
    by (auto intro!: size_kept[of st] simp: on_headers_def fail_with_def land_def is_live_def split: sum.split)
next
  case (ErrorBody n body)
  then show "size_inv st \<Longrightarrow> size_inv (text_step st ev)"
    by (auto intro!: size_kept[of st] simp: on_error_body_def fail_with_def land_def is_live_def
        split: option.split flight.split)
next
  case (TextBody n outcome)
  then show "size_inv st \<Longrightarrow> size_inv (text_step st ev)"
    by (auto intro!: size_kept[of st] simp: fail_with_def deliver_def land_def is_live_def Let_def split: sum.split)
qed (auto intro!: size_kept[of st] simp: unmount_def)

lemma text_inv_effect: "box_inv (text_effect st)"
  by (simp add: text_effect_def inv_start_fetch) (simp add: box_inv_def)

lemma text_inv_step: "box_inv st \<Longrightarrow> box_inv (text_step st ev)"
  by (cases ev) (auto simp: text_inv_effect box_inv_rules split: sum.split)

lemma inv_size: "box_inv (st\<lparr>px_size := sz\<rparr>) = box_inv st"
  by (cases "px_state st") (simp_all add: box_inv_def)

lemma pdf_inv_step: "box_inv st \<Longrightarrow> box_inv (pdf_step st ev)"
  by (cases ev) (simp_all add: pdf_effect_def box_inv_rules inv_size)

definition text_start :: "string \<Rightarrow> nat \<Rightarrow> string preview_box" where
  "text_start url sz = text_effect (blank_box url sz)"

definition pdf_start :: "string \<Rightarrow> nat \<Rightarrow> unit preview_box" where
  "pdf_start url sz = pdf_effect (blank_box url sz)"

lemma text_start_inv: "box_inv (text_start url sz) \<and> size_inv (text_start url sz)"
proof -
  have "size_inv (text_effect ((blank_box url 0)\<lparr>px_url := url, px_size := sz\<rparr>))"
    by (rule size_effect) (simp add: size_inv_def blank_box_def)
  then show ?thesis by (simp add: text_start_def text_inv_effect blank_box_def)
qed

interpretation text_machine: invariant "text_start url sz" preview_enabled text_step "\<lambda>st. box_inv st \<and> size_inv st"
  by unfold_locales (simp_all add: text_start_inv text_inv_step size_step)

interpretation pdf_machine: invariant "pdf_start url sz" preview_enabled pdf_step box_inv
  by unfold_locales (simp_all add: pdf_start_def pdf_effect_def inv_start_fetch pdf_inv_step)

text \<open>C31: however the user switches files and however late the network answers, the text that the
  viewer shows is an answer to a request for the file it was given, a spinner stands for a request that
  is still on its way, and no file above 5 MB is ever requested.\<close>

theorem text_preview_is_current:
  assumes "reach_by (text_start url sz) preview_enabled text_step st"
  shows "(px_mounted st \<and> px_state st = LoadReady c \<longrightarrow>
            (\<exists>n<length (px_fetches st). fst (px_fetches st ! n) = px_url st \<and> (n, c) \<in> set (px_answers st)))
       \<and> (px_mounted st \<and> px_state st = LoadLoading \<longrightarrow>
            (\<exists>n. px_live st = Some n \<and> px_flights st n \<noteq> None))
       \<and> (\<forall>q\<in>set (px_fetches st). snd q \<le> MAX_SIZE)"
proof -
  from text_machine.inv_reach[OF assms] have inv: "box_inv st" "size_inv st" by auto
  from inv(1) show ?thesis using inv(2) by (force simp: box_inv_def size_inv_def)
qed

definition ok_headers :: http_response where
  "ok_headers = \<lparr>resp_status = 200, resp_status_text = ''OK'', resp_content_type = None, resp_json = Inr JNull\<rparr>"

text \<open>The user switches from a to b; the answer for a arrives last and is not shown.\<close>

definition switch_run :: "preview_event list" where
  "switch_run = [Headers 0 (Inr ok_headers), NewProps ''/b'' 7, Headers 1 (Inr ok_headers), TextBody 1 (Inr ''bee''),
     TextBody 0 (Inr ''ay'')]"

lemma switch_run_result:
  "\<exists>st. run_by preview_enabled text_step switch_run (text_start ''/a'' 3) = Some st \<and> px_mounted st
     \<and> px_state st = LoadReady ''bee'' \<and> px_url st = ''/b'' \<and> px_answers st = [(1, ''bee''), (0, ''ay'')]"
  by (simp add: switch_run_def text_start_def text_effect_def start_fetch_def blank_box_def MAX_SIZE_def
      ok_headers_def resp_ok_def on_headers_def is_live_def deliver_def land_def Let_def)

theorem text_preview_is_current_witness:
  "\<exists>st n. run_by preview_enabled text_step switch_run (text_start ''/a'' 3) = Some st
     \<and> fst (px_fetches st ! n) = ''/b'' \<and> (n, ''bee'') \<in> set (px_answers st)"
proof -
  from switch_run_result obtain st where st: "run_by preview_enabled text_step switch_run (text_start ''/a'' 3) = Some st"
    "px_mounted st" "px_state st = LoadReady ''bee''" "px_url st = ''/b''" by blast
  from st(1) have "reach_by (text_start ''/a'' 3) preview_enabled text_step st" by (auto simp: reach_by_run)
  from text_preview_is_current[OF this, of "''bee''"] st show ?thesis by auto
qed

lemma pdf_preview_is_current:
  assumes "reach_by (pdf_start url sz) preview_enabled pdf_step st" "px_mounted st" "pdf_view st = ViewerFrame u"
  shows "u = px_url st \<and> (\<exists>n<length (px_fetches st). fst (px_fetches st ! n) = u \<and> (n, ()) \<in> set (px_answers st))"
  using pdf_machine.inv_reach[OF assms(1)] assms(2,3) by (auto simp: box_inv_def split: load_state.splits)

subsection \<open>The eye button and the dialog\<close>

text \<open>the eye button keeps its promise: for a file that offers a preview the click opens the dialog
  with a viewer for that file and never with the sentence that it cannot be previewed, unless a folder
  of the same name is listed before it, in which case the click does nothing.\<close>

theorem preview_button_opens_viewer:
  assumes "f \<in> set items" "canPreview lower config f"
  shows "(handlePreview items bucket roleId path (fe_name f) = None \<longleftrightarrow>
           (\<exists>g. find (\<lambda>g. fe_name g = fe_name f) items = Some g \<and> fe_is_directory g))
    \<and> (\<forall>st. handlePreview items bucket roleId path (fe_name f) = Some st \<longrightarrow>
         pw_filename st = fe_name f \<and> pw_url st = buildDownloadUrl bucket roleId (joinPath [path, fe_name f])
         \<and> previewModal lower config st \<noteq> BodyNone)"
proof -
  obtain g where g: "find (\<lambda>g. fe_name g = fe_name f) items = Some g"
    using assms(1) by (metis (mono_tags, lifting) find_None_iff option.exhaust)
  from assms(2) obtain t where t: "getPreviewType lower (fe_name f) (preview_exts config) = Some t"
    by (auto simp: canPreview_def)
  with g show ?thesis by (cases t) (auto simp: handlePreview_def previewModal_def)
qed

theorem preview_button_opens_viewer_witness:
  "\<exists>st. handlePreview [sample_file ''a.png'' 4] ''b'' ''r'' ''p'' ''a.png'' = Some st
     \<and> previewModal id None st \<noteq> BodyNone"
proof -
  have can: "canPreview id None (sample_file ''a.png'' 4)"
    by (simp add: canPreview_def sample_file_def getPreviewType_def preview_ext_def IMAGE_EXTS_def Let_def)
  have nm: "fe_name (sample_file ''a.png'' 4) = ''a.png''" by (simp add: sample_file_def)
  from preview_button_opens_viewer[OF _ can, of "[sample_file ''a.png'' 4]" "''b''" "''r''" "''p''", unfolded nm]
  show ?thesis by (auto simp: sample_file_def handlePreview_def)
qed

end
