(* ===== verification/File_List.thy ===== *)
theory File_List
  imports Preview Shift_Select Query_Keys
begin

text \<open>
  The list of a folder on the screen (\<open>components/FileBrowser\<close>): the table (FileTable, FileRow), the grid
  (FileGrid, FileCard) and the action buttons of an entry (FileActions, FileRowActionsMenu).

  The virtualizer is a package; the entries it asks for are a parameter, a list of rows with their
  positions for the table and a list of row numbers for the grid.  Rendering an element without a
  component throws, so a row is a sum: an error or what it shows.  Widths are rationals; \<open>lower\<close> is
  \<open>toLowerCase\<close>, \<open>fmt_date\<close> the date formatter applied to the current clock.
\<close>

subsection \<open>Columns of the grid\<close>

definition GRID_ROW_HEIGHT :: nat where "GRID_ROW_HEIGHT = 241"
definition GAP :: nat where "GAP = 16"
definition MIN_CARD :: nat where "MIN_CARD = 180"

definition columnsForWidth :: "rat \<Rightarrow> nat" where
  "columnsForWidth width =
     (if width \<le> 0 then 6
      else max 2 (nat \<lfloor>(width + of_nat GAP) / of_nat (MIN_CARD + GAP)\<rfloor>))"

definition grid_columns :: "rat \<Rightarrow> nat" where
  "grid_columns width = columnsForWidth (if width = 0 then 1200 else width)"

definition rowCount :: "nat \<Rightarrow> nat \<Rightarrow> nat" where
  "rowCount n columns = (n + columns - 1) div columns"

text \<open>\<open>rowItems\<close> with the index that each card gets.\<close>

definition grid_row :: "nat \<Rightarrow> 'a list \<Rightarrow> nat \<Rightarrow> (nat \<times> 'a) list" where
  "grid_row columns xs row =
     (let start = row * columns in enumerate start (take columns (drop start xs)))"

subsection \<open>The buttons of an entry\<close>

datatype row_action = ActDownload | ActCopyUrl | ActPreview | ActDelete

record action_button =
  ab_action :: row_action
  ab_label :: string
  ab_disabled :: bool

definition button :: "row_action \<Rightarrow> string \<Rightarrow> bool \<Rightarrow> action_button" where
  "button act label dis = \<lparr>ab_action = act, ab_label = label, ab_disabled = dis\<rparr>"

text \<open>The optional handlers of FileActions are flags: whether the parent passed them.\<close>

record file_actions_props =
  fa_isDirectory :: bool
  fa_canPreview :: bool
  fa_filename :: "string option"
  fa_onDownload :: bool
  fa_onCopyUrl :: bool
  fa_onCopyUrlWithTtl :: bool
  fa_onPreview :: bool
  fa_disabled :: bool

definition fileActions :: "file_actions_props \<Rightarrow> action_button list" where
  "fileActions p =
     (if \<not> fa_isDirectory p \<and> fa_onDownload p
      then [button ActDownload
              (if truthy (fa_filename p) then ''Download '' @ the (fa_filename p) else ''Download'') False] else [])
     @ (if \<not> fa_isDirectory p \<and> fa_onCopyUrl p then [button ActCopyUrl ''Copy URL'' False] else [])
     @ (if \<not> fa_isDirectory p \<and> fa_canPreview p \<and> fa_onPreview p
        then [button ActPreview ''Preview'' False] else [])
     @ [button ActDelete ''Delete'' (fa_disabled p)]"

definition share_label :: "file_actions_props \<Rightarrow> string" where
  "share_label p =
     (if fa_onCopyUrlWithTtl p
      then ''Copy link '' @ [CHR 0xC2, CHR 0xB7] @ '' right-click to set validity''
      else ''Copy shareable link'')"

definition fileRowActionsMenu :: "bool \<Rightarrow> bool \<Rightarrow> bool \<Rightarrow> action_button list" where
  "fileRowActionsMenu isDirectory can_preview disabled =
     (if \<not> isDirectory then [button ActDownload ''Download'' False] else [])
     @ (if \<not> isDirectory then [button ActCopyUrl ''Copy URL'' False] else [])
     @ (if \<not> isDirectory \<and> can_preview then [button ActPreview ''Preview'' False] else [])
     @ [button ActDelete ''Delete'' disabled]"

text \<open>What a click asks the browser to do.\<close>

datatype browser_call =
    CallToggle string bool
  | CallNavigate string
  | CallDownload string
  | CallCopyUrl string
  | CallPreview string
  | CallDelete "string list"

fun action_call :: "string \<Rightarrow> row_action \<Rightarrow> browser_call" where
  "action_call name ActDownload = CallDownload name"
| "action_call name ActCopyUrl = CallCopyUrl name"
| "action_call name ActPreview = CallPreview name"
| "action_call name ActDelete = CallDelete [name]"

definition click_button :: "string \<Rightarrow> action_button \<Rightarrow> browser_call list" where
  "click_button name b = (if ab_disabled b then [] else [action_call name (ab_action b)])"

subsection \<open>A row of the table\<close>

definition STAGGER_ROW_LIMIT :: nat where "STAGGER_ROW_LIMIT = 16"

record file_row =
  fr_name :: string
  fr_index :: nat
  fr_animateIn :: bool
  fr_striped :: bool
  fr_checked :: bool
  fr_icon :: lucide_icon
  fr_size :: "string option"
  fr_modified :: "string option"
  fr_actions :: "action_button list"
  fr_menu :: "action_button list"

definition render_icon :: "file_icon_spec \<Rightarrow> js_error + lucide_icon" where
  "render_icon spec =
     (case fi_Icon spec of
        Some ic \<Rightarrow> Inr ic
      | None \<Rightarrow> Inl (PlainError ''Element type is invalid''))"

definition entry_actions :: "bool \<Rightarrow> bool \<Rightarrow> file_entry \<Rightarrow> action_button list" where
  "entry_actions can_preview disableDeletion f =
     fileActions \<lparr>fa_isDirectory = fe_is_directory f, fa_canPreview = can_preview, fa_filename = Some (fe_name f),
       fa_onDownload = True, fa_onCopyUrl = True, fa_onCopyUrlWithTtl = True, fa_onPreview = True,
       fa_disabled = disableDeletion\<rparr>"

definition fileRow ::
  "(string \<Rightarrow> string) \<Rightarrow> (string \<Rightarrow> string) \<Rightarrow> app_config option \<Rightarrow> bool \<Rightarrow> file_entry \<Rightarrow> nat \<Rightarrow> bool
     \<Rightarrow> js_error + file_row" where
  "fileRow lower fmt_date config disableDeletion f index chosen =
     and_then (render_icon (getFileIcon lower (fe_name f) (fe_is_directory f)))
       (\<lambda>ic. Inr \<lparr>fr_name = fe_name f, fr_index = index, fr_animateIn = index < STAGGER_ROW_LIMIT,
           fr_striped = (index mod 2 = 1), fr_checked = chosen, fr_icon = ic,
           fr_size = (if fe_is_directory f then None else Some (formatBytes (fe_size f))),
           fr_modified = map_option fmt_date (nonempty (fe_last_modified f)),
           fr_actions = entry_actions (canPreview lower config f) disableDeletion f,
           fr_menu = fileRowActionsMenu (fe_is_directory f) (canPreview lower config f) disableDeletion\<rparr>)"

text \<open>A click on the name cell, and a double click anywhere on the row.\<close>

definition name_click :: "file_entry \<Rightarrow> browser_call list" where
  "name_click f = (if fe_is_directory f then [CallNavigate (fe_name f)] else [])"

definition checkbox_change :: "file_entry \<Rightarrow> bool option \<Rightarrow> browser_call list" where
  "checkbox_change f shiftKey = [CallToggle (fe_name f) (case shiftKey of Some b \<Rightarrow> b | None \<Rightarrow> False)]"

subsection \<open>The table\<close>

datatype aria_sort = AriaNone | AriaAscending | AriaDescending

definition ariaSortFor :: "sort_state \<Rightarrow> sort_column \<Rightarrow> aria_sort" where
  "ariaSortFor sortState column =
     (if sort_col sortState \<noteq> column then AriaNone
      else if sort_dir sortState = Asc then AriaAscending else AriaDescending)"

record sort_header =
  sh_column :: sort_column
  sh_label :: string
  sh_aria :: aria_sort
  sh_chevron :: "sort_direction option"
  sh_disabled :: bool

definition sortHeaderButton :: "sort_state \<Rightarrow> bool \<Rightarrow> string \<Rightarrow> sort_column \<Rightarrow> sort_header" where
  "sortHeaderButton sortState disabled label column =
     \<lparr>sh_column = column, sh_label = ''Sort by '' @ map lower_ascii label, sh_aria = ariaSortFor sortState column,
      sh_chevron = (if sort_col sortState = column then Some (sort_dir sortState) else None),
      sh_disabled = disabled\<rparr>"

definition table_headers :: "sort_state \<Rightarrow> bool \<Rightarrow> sort_header list" where
  "table_headers sortState sortDisabled =
     [sortHeaderButton sortState sortDisabled ''Name'' SortName,
      sortHeaderButton sortState sortDisabled ''Size'' SortSize,
      sortHeaderButton sortState sortDisabled ''Modified'' SortModified]"

definition header_click :: "sort_header \<Rightarrow> sort_column option" where
  "header_click h = (if sh_disabled h then None else Some (sh_column h))"

definition allSelected :: "file_entry list \<Rightarrow> string list \<Rightarrow> bool" where
  "allSelected files chosen \<longleftrightarrow> files \<noteq> [] \<and> list_all (\<lambda>f. fe_name f \<in> set chosen) files"

definition someSelected :: "file_entry list \<Rightarrow> string list \<Rightarrow> bool" where
  "someSelected files chosen \<longleftrightarrow>
     list_ex (\<lambda>f. fe_name f \<in> set chosen) files \<and> \<not> allSelected files chosen"

record virtual_row =
  vr_index :: nat
  vr_start :: int
  vr_end :: int

record file_table =
  ft_all :: bool
  ft_some :: bool
  ft_headers :: "sort_header list"
  ft_paddingTop :: int
  ft_rows :: "file_row list"
  ft_paddingBottom :: int

definition paddingTop :: "virtual_row list \<Rightarrow> int" where
  "paddingTop rows = (if rows = [] then 0 else vr_start (hd rows))"

definition paddingBottom :: "int \<Rightarrow> virtual_row list \<Rightarrow> int" where
  "paddingBottom totalSize rows = (if rows = [] then 0 else totalSize - vr_end (last rows))"

definition fileTable ::
  "(string \<Rightarrow> string) \<Rightarrow> (string \<Rightarrow> string) \<Rightarrow> app_config option \<Rightarrow> bool \<Rightarrow> file_entry list \<Rightarrow> string list
     \<Rightarrow> sort_state \<Rightarrow> bool \<Rightarrow> int \<Rightarrow> virtual_row list \<Rightarrow> js_error + file_table" where
  "fileTable lower fmt_date config disableDeletion files chosen sortState sortDisabled totalSize rows =
     and_then (map_sum_list (\<lambda>v. fileRow lower fmt_date config disableDeletion (files ! vr_index v) (vr_index v)
         (fe_name (files ! vr_index v) \<in> set chosen)) rows)
       (\<lambda>rs. Inr \<lparr>ft_all = allSelected files chosen, ft_some = someSelected files chosen,
           ft_headers = table_headers sortState sortDisabled, ft_paddingTop = paddingTop rows,
           ft_rows = rs, ft_paddingBottom = paddingBottom totalSize rows\<rparr>)"

subsection \<open>The grid\<close>

datatype card_media = CardIcon lucide_icon | CardImage string | CardVideo string

record file_card =
  fc_name :: string
  fc_index :: nat
  fc_animateIn :: bool
  fc_checked :: bool
  fc_media :: card_media
  fc_size :: "string option"
  fc_actions :: "action_button list"

definition card_kind :: "file_entry \<Rightarrow> preview_kind" where
  "card_kind f = (if fe_is_directory f then KindOther else categorizePreview (fe_name f))"

definition thumbnail_enabled :: "file_entry \<Rightarrow> bool" where
  "thumbnail_enabled f \<longleftrightarrow> \<not> fe_is_directory f \<and> (card_kind f = KindImage \<or> card_kind f = KindVideo)"

definition thumbnail_query ::
  "(string \<Rightarrow> int option) \<Rightarrow> int \<Rightarrow> presigned_response option \<Rightarrow> string \<Rightarrow> string \<Rightarrow> string \<Rightarrow> file_entry
     \<Rightarrow> presigned_query" where
  "thumbnail_query parse now cached bucket roleId path f =
     usePresignedUrl parse now cached bucket roleId (joinPath [path, fe_name f]) (thumbnail_enabled f)"

text \<open>\<open>presigned\<close> is the data of that query, \<open>mediaError\<close> the state set by the error event.\<close>

definition card_media_of ::
  "(string \<Rightarrow> string) \<Rightarrow> file_entry \<Rightarrow> presigned_response option \<Rightarrow> bool \<Rightarrow> js_error + card_media" where
  "card_media_of lower f presigned mediaError =
     (let ic = and_then (render_icon (getFileIcon lower (fe_name f) (fe_is_directory f))) (\<lambda>ic. Inr (CardIcon ic));
          url = nonempty (map_option ps_url presigned)
      in if fe_is_directory f then ic
         else if card_kind f = KindImage \<and> url \<noteq> None \<and> \<not> mediaError then Inr (CardImage (the url))
         else if card_kind f = KindVideo \<and> url \<noteq> None \<and> \<not> mediaError then Inr (CardVideo (the url))
         else ic)"

definition fileCard ::
  "(string \<Rightarrow> string) \<Rightarrow> app_config option \<Rightarrow> bool \<Rightarrow> (string \<Rightarrow> presigned_response option \<times> bool) \<Rightarrow> file_entry
     \<Rightarrow> nat \<Rightarrow> bool \<Rightarrow> js_error + file_card" where
  "fileCard lower config disableDeletion media f index chosen =
     and_then (card_media_of lower f (fst (media (fe_name f))) (snd (media (fe_name f))))
       (\<lambda>m. Inr \<lparr>fc_name = fe_name f, fc_index = index, fc_animateIn = index < STAGGER_ROW_LIMIT,
           fc_checked = chosen, fc_media = m,
           fc_size = (if fe_is_directory f then None else Some (formatBytes (fe_size f))),
           fc_actions = entry_actions (canPreview lower config f) disableDeletion f\<rparr>)"

definition fileGrid ::
  "(string \<Rightarrow> string) \<Rightarrow> app_config option \<Rightarrow> bool \<Rightarrow> (string \<Rightarrow> presigned_response option \<times> bool)
     \<Rightarrow> file_entry list \<Rightarrow> string list \<Rightarrow> rat \<Rightarrow> nat list \<Rightarrow> js_error + file_card list list" where
  "fileGrid lower config disableDeletion media files chosen width rows =
     map_sum_list (\<lambda>row. map_sum_list (\<lambda>(index, f).
         fileCard lower config disableDeletion media f index (fe_name f \<in> set chosen))
       (grid_row (grid_columns width) files row)) rows"

subsection \<open>Scrolling back up\<close>

definition SCROLL_THRESHOLD :: int where "SCROLL_THRESHOLD = 400"

definition scrollToTopShown :: "int \<Rightarrow> bool" where
  "scrollToTopShown scrollTop \<longleftrightarrow> SCROLL_THRESHOLD < scrollTop"

subsection \<open>Every entry has one place in the grid\<close>

lemma columns_at_least_two: "2 \<le> columnsForWidth width"
  by (simp add: columnsForWidth_def)

lemma grid_columns_pos: "0 < grid_columns width"
  using columns_at_least_two[of "if width = 0 then 1200 else width"] by (simp add: grid_columns_def)

lemma rowCount_spec:
  "0 < c \<Longrightarrow> n \<le> rowCount n c * c \<and> (0 < n \<longrightarrow> (rowCount n c - 1) * c < n)"
proof (intro conjI impI)
  assume c: "0 < c"
  have "n + c - 1 = rowCount n c * c + (n + c - 1) mod c" by (simp add: rowCount_def)
  moreover have "(n + c - 1) mod c < c" using c by simp
  ultimately show le: "n \<le> rowCount n c * c" by linarith
  assume n: "0 < n"
  have "rowCount n c * c \<le> n + c - 1" by (simp add: rowCount_def)
  then have "rowCount n c * c < n + c" using n by linarith
  then show "(rowCount n c - 1) * c < n" using n le by (cases "rowCount n c") auto
qed

lemma enumerate_take_drop:
  "enumerate n (take (a + b) xs) = enumerate n (take a xs) @ enumerate (n + min a (length xs)) (take b (drop a xs))"
  by (simp add: take_add enumerate_append_eq min.commute)

lemma grid_window:
  "a \<le> b \<Longrightarrow> concat (map (grid_row c xs) [a..<b]) = enumerate (a * c) (take ((b - a) * c) (drop (a * c) xs))"
proof (induction b)
  case (Suc b)
  show ?case
  proof (cases "a \<le> b")
    case True
    have "enumerate (a * c) (take ((Suc b - a) * c) (drop (a * c) xs))
        = enumerate (a * c) (take ((b - a) * c) (drop (a * c) xs))
          @ enumerate (a * c + min ((b - a) * c) (length xs - a * c)) (take c (drop (b * c) xs))"
      using True enumerate_take_drop[of "a * c" "(b - a) * c" c "drop (a * c) xs"]
      by (simp add: Suc_diff_le add.commute left_diff_distrib' mult_le_mono1)
    moreover have "enumerate (a * c + min ((b - a) * c) (length xs - a * c)) (take c (drop (b * c) xs))
        = grid_row c xs b"
    proof (cases "b * c \<le> length xs")
      case le: True
      then have "(b - a) * c \<le> length xs - a * c" by (simp add: left_diff_distrib' diff_le_mono)
      moreover have "a * c + (b - a) * c = b * c"
        using True by (simp add: left_diff_distrib' mult_le_mono1)
      ultimately show ?thesis by (simp add: grid_row_def Let_def min_absorb1)
    qed (simp add: grid_row_def Let_def)
    ultimately show ?thesis using True Suc by simp
  qed (use Suc.prems in simp)
qed simp

lemma grid_columns_fit:
  assumes "376 \<le> width"
  shows "of_nat (columnsForWidth width * MIN_CARD + (columnsForWidth width - 1) * GAP) \<le> width"
    and "width < of_nat ((columnsForWidth width + 1) * MIN_CARD + columnsForWidth width * GAP)"
proof -
  let ?q = "(width + 16) / 196"
  have "2 \<le> ?q" using assms by (simp add: field_simps)
  then have two: "2 \<le> \<lfloor>?q\<rfloor>" by (simp add: le_floor_iff)
  then have "max 2 (nat \<lfloor>?q\<rfloor>) = nat \<lfloor>?q\<rfloor>" by (simp add: max_def le_nat_iff)
  then have c: "columnsForWidth width = nat \<lfloor>?q\<rfloor>" using assms
    by (simp add: columnsForWidth_def GAP_def MIN_CARD_def)
  have fl: "of_int \<lfloor>?q\<rfloor> \<le> ?q" "?q < of_int \<lfloor>?q\<rfloor> + 1" by linarith+
  have n: "of_nat (nat \<lfloor>?q\<rfloor>) = (of_int \<lfloor>?q\<rfloor> :: rat)" using two by simp
  moreover have "1 \<le> nat \<lfloor>?q\<rfloor>" using two by linarith
  ultimately have n': "of_nat (nat \<lfloor>?q\<rfloor> - 1) = (of_int \<lfloor>?q\<rfloor> - 1 :: rat)" by (simp add: of_nat_diff)
  show "of_nat (columnsForWidth width * MIN_CARD + (columnsForWidth width - 1) * GAP) \<le> width"
    using fl(1) n n' by (simp add: c GAP_def MIN_CARD_def field_simps)
  show "width < of_nat ((columnsForWidth width + 1) * MIN_CARD + columnsForWidth width * GAP)"
    using fl(2) n by (simp add: c GAP_def MIN_CARD_def field_simps)
qed

text \<open>C30: the grid loses no entry and shows none twice: whatever the width of the window, the rows
  0 to \<open>rowCount - 1\<close> are full but the last, contain every entry exactly once, in order and with its index
  in the list, and the rows a to b that the virtualizer asks for contain exactly the entries of that
  range.\<close>

theorem grid_shows_every_entry_once:
  assumes "a \<le> b" "c = grid_columns width"
  shows "concat (map (grid_row c files) [0..<rowCount (length files) c]) = enumerate 0 files
    \<and> concat (map (grid_row c files) [a..<b]) = enumerate (a * c) (take ((b - a) * c) (drop (a * c) files))
    \<and> (\<forall>row. length (grid_row c files row) \<le> c)
    \<and> (\<forall>row<rowCount (length files) c. grid_row c files row \<noteq> [])"
proof -
  have c: "0 < c" using assms(2) grid_columns_pos by simp
  have whole: "concat (map (grid_row c files) [0..<rowCount (length files) c]) = enumerate 0 files"
    using grid_window[of 0 "rowCount (length files) c" c files] rowCount_spec[OF c, of "length files"] by simp
  have "grid_row c files row \<noteq> []" if "row < rowCount (length files) c" for row
  proof -
    from that have n: "0 < length files" by (cases files) (auto simp: rowCount_def c)
    have "row * c \<le> (rowCount (length files) c - 1) * c" using that by (intro mult_le_mono1) simp
    with rowCount_spec[OF c, of "length files"] n have "row * c < length files" by linarith
    with c show ?thesis by (simp add: grid_row_def Let_def enumerate_eq_zip)
  qed
  with whole grid_window[OF assms(1), of c files] show ?thesis by (simp add: grid_row_def Let_def)
qed

theorem grid_shows_every_entry_once_witness:
  "concat (map (grid_row 2 [''a'', ''b'', ''c'']) [0..<rowCount 3 2]) = [(0, ''a''), (1, ''b''), (2, ''c'')]
   \<and> concat (map (grid_row 2 [''a'', ''b'', ''c'']) [1..<2]) = [(2, ''c'')]"
proof -
  have "2 = grid_columns 376" by (simp add: grid_columns_def columnsForWidth_def GAP_def MIN_CARD_def)
  from grid_shows_every_entry_once[OF _ this, of 1 2 "[''a'', ''b'', ''c'']"] show ?thesis
    by (simp add: numeral_3_eq_3 numeral_2_eq_2)
qed

subsection \<open>What a row offers\<close>

lemma action_calls:
  "b \<in> set (entry_actions can_preview dis f) \<Longrightarrow> ab_action b = ActDelete \<longleftrightarrow> ab_label b = ''Delete''"
  "b \<in> set (entry_actions can_preview dis f) \<Longrightarrow> fe_is_directory f \<Longrightarrow> ab_action b = ActDelete"
  "b \<in> set (entry_actions can_preview dis f) \<Longrightarrow> ab_disabled b \<Longrightarrow> dis"
  by (auto simp: entry_actions_def fileActions_def button_def split: if_splits)

lemma menu_offers_same_actions:
  "map ab_action (entry_actions can_preview dis f)
     = map ab_action (fileRowActionsMenu (fe_is_directory f) can_preview dis)
   \<and> map ab_disabled (entry_actions can_preview dis f)
     = map ab_disabled (fileRowActionsMenu (fe_is_directory f) can_preview dis)"
  by (simp add: entry_actions_def fileActions_def fileRowActionsMenu_def button_def)

lemma no_delete_call:
  "b \<in> set (entry_actions can_preview True f) \<union> set (fileRowActionsMenu (fe_is_directory f) can_preview True) \<Longrightarrow>
     CallDelete names \<notin> set (click_button name b)"
  by (auto simp: entry_actions_def fileActions_def fileRowActionsMenu_def button_def click_button_def split: if_splits)

lemma fileRow_Inr:
  "fileRow lower fmt_date config dis f index chk = Inr r \<Longrightarrow>
     fr_name r = fe_name f \<and> fr_index r = index \<and> fr_checked r = chk
     \<and> fr_actions r = entry_actions (canPreview lower config f) dis f
     \<and> fr_menu r = fileRowActionsMenu (fe_is_directory f) (canPreview lower config f) dis"
  by (auto simp: fileRow_def and_then_Inr_iff)

lemma table_rows:
  assumes "fileTable lower fmt_date config dis files chosen srt busy total_size rows = Inr t" "r \<in> set (ft_rows t)"
  obtains v where "v \<in> set rows" "fileRow lower fmt_date config dis (files ! vr_index v) (vr_index v)
      (fe_name (files ! vr_index v) \<in> set chosen) = Inr r"
proof -
  from assms(1) have rs: "map_sum_list (\<lambda>v. fileRow lower fmt_date config dis (files ! vr_index v) (vr_index v)
         (fe_name (files ! vr_index v) \<in> set chosen)) rows = Inr (ft_rows t)"
    by (auto simp: fileTable_def and_then_Inr_iff)
  from assms(2) obtain i where "i < length (ft_rows t)" "r = ft_rows t ! i" by (auto simp: in_set_conv_nth)
  with map_sum_list_Inr_nth[OF rs] map_sum_list_Inr_length[OF rs] that show ?thesis by (metis nth_mem)
qed

text \<open>with deletion disabled in the configuration no button and no menu item of the table asks to
  delete, and every row is about the entry at its index: its check box is that entry's selection, its
  buttons call the browser with that entry's name.\<close>

theorem table_respects_disabled_deletion:
  assumes "fileTable lower fmt_date config True files chosen srt busy total_size rows = Inr t"
    and "r \<in> set (ft_rows t)" "b \<in> set (fr_actions r) \<union> set (fr_menu r)"
  shows "(\<forall>names. CallDelete names \<notin> set (click_button (fr_name r) b))
    \<and> fr_name r = fe_name (files ! fr_index r)
    \<and> (fr_checked r \<longleftrightarrow> fr_name r \<in> set chosen)"
proof -
  obtain v where v: "v \<in> set rows" "fileRow lower fmt_date config True (files ! vr_index v) (vr_index v)
      (fe_name (files ! vr_index v) \<in> set chosen) = Inr r"
    by (rule table_rows[OF assms(1,2)])
  note row = fileRow_Inr[OF v(2)]
  have "b \<in> set (entry_actions (canPreview lower config (files ! vr_index v)) True (files ! vr_index v))
      \<union> set (fileRowActionsMenu (fe_is_directory (files ! vr_index v)) (canPreview lower config (files ! vr_index v)) True)"
    using assms(3) row by simp
  from no_delete_call[OF this] row show ?thesis by simp
qed

subsection \<open>A name that no table can show\<close>

lemma folder_row_defined: "fe_is_directory f \<Longrightarrow> \<exists>r. fileRow lower fmt_date config dis f index chk = Inr r"
  by (simp add: fileRow_def render_icon_def getFileIcon_def icon_spec_def)

lemma row_throws_iff:
  "(\<exists>e. fileRow lower fmt_date config dis f index chk = Inl e) \<longleftrightarrow>
     \<not> fe_is_directory f \<and> icon_ext lower (fe_name f) \<in> set OBJECT_PROTOTYPE"
  unfolding file_icon_missing_iff[symmetric]
  by (simp add: fileRow_def render_icon_def split: option.split)

text \<open>one object can make a folder unusable: when a file whose extension is the name of an
  inherited property, such as notes.constructor, is among the rows to show, rendering the table throws,
  whatever else is listed.\<close>

theorem inherited_extension_breaks_table:
  assumes "v \<in> set rows" "files ! vr_index v = f" "\<not> fe_is_directory f"
    and "fe_name f = base @ ''.constructor''" "base \<noteq> []" "lower ''constructor'' = ''constructor''"
  shows "\<exists>e. fileTable lower fmt_date config dis files chosen srt busy total_size rows = Inl e"
proof -
  have "icon_ext lower (fe_name f) = ''constructor''"
    using icon_ext_suffix[of base "''constructor''" lower] assms(4-6) by simp
  then have "\<exists>e. fileRow lower fmt_date config dis f (vr_index v) (fe_name f \<in> set chosen) = Inl e"
    using assms(3) by (simp add: row_throws_iff OBJECT_PROTOTYPE_def)
  with assms(1,2) show ?thesis
    using map_sum_list_Inr_nth by (cases "map_sum_list (\<lambda>v. fileRow lower fmt_date config dis (files ! vr_index v) (vr_index v)
      (fe_name (files ! vr_index v) \<in> set chosen)) rows") (fastforce simp: fileTable_def in_set_conv_nth)+
qed

theorem inherited_extension_breaks_table_witness:
  "\<exists>e. fileTable id id None False [sample_file ''a.txt'' 1, sample_file ''b.constructor'' 1] [] DEFAULT_SORT False 88
     [\<lparr>vr_index = 0, vr_start = 0, vr_end = 44\<rparr>, \<lparr>vr_index = 1, vr_start = 44, vr_end = 88\<rparr>] = Inl e"
  by (rule inherited_extension_breaks_table[of "\<lparr>vr_index = 1, vr_start = 44, vr_end = 88\<rparr>" _ _
        "sample_file ''b.constructor'' 1" "''b''"]) (simp_all add: sample_file_def)

lemma one_sorted_header:
  "length (filter (\<lambda>h. sh_aria h \<noteq> AriaNone) (table_headers srt busy)) = 1"
  by (cases srt; cases "sort_col srt") (simp_all add: table_headers_def sortHeaderButton_def ariaSortFor_def)

end
