(* ===== verification/Action_Bar.thy ===== *)
theory Action_Bar
  imports Ttl_Presets Machine
begin

text \<open>
  Choosing how long a link is valid, and the bar of bulk actions: \<open>components/TtlPopover/TtlPopover.tsx\<close>,
  the share button of \<open>components/FileBrowser/FileActions.tsx\<close> and
  \<open>components/FileBrowser/BulkActionBar.tsx\<close>.

  The popover is a value that its owner holds; the bar is a machine whose events are clicks, key
  presses and renders with a new selection.  The configured limits do not change while it runs.
\<close>

subsection \<open>TtlPopover\<close>

record popover =
  pp_open :: bool
  pp_selected :: string

definition popover0 :: "nat \<Rightarrow> popover" where
  "popover0 defaultTtl = \<lparr>pp_open = False, pp_selected = nat_str defaultTtl\<rparr>"

text \<open>A render with the given \<open>opened\<close>, followed by the effect that resets the choice on opening.\<close>

definition popover_set :: "nat \<Rightarrow> bool \<Rightarrow> popover \<Rightarrow> popover" where
  "popover_set defaultTtl opened p =
     (if opened \<and> \<not> pp_open p then \<lparr>pp_open = True, pp_selected = nat_str defaultTtl\<rparr>
      else p\<lparr>pp_open := opened\<rparr>)"

definition popover_data :: "nat \<Rightarrow> nat \<Rightarrow> select_option list" where
  "popover_data defaultTtl maxTtl = withConfiguredValue (ttlSelectDataUpTo maxTtl) defaultTtl"

definition popover_pick :: "string option \<Rightarrow> popover \<Rightarrow> popover" where
  "popover_pick v p =
     (case v of None \<Rightarrow> p | Some s \<Rightarrow> if s = [] then p else p\<lparr>pp_selected := s\<rparr>)"

text \<open>\<open>handleCopy\<close>: the confirmed number (None is NaN) and the closed popover.\<close>

definition popover_copy :: "popover \<Rightarrow> nat option \<times> popover" where
  "popover_copy p = (js_Number (pp_selected p), p\<lparr>pp_open := False\<rparr>)"

subsection \<open>The share button of an entry\<close>

datatype share_event = ShareClick | ShareContextMenu | SharePick "string option" | ShareConfirm | ShareDismiss

record share_button =
  sb_popover :: popover
  sb_copies :: "nat option option list"

text \<open>A logged copy is None for a copy with the default validity and Some of the chosen one.\<close>

definition share0 :: "nat \<Rightarrow> share_button" where
  "share0 defaultTtl = \<lparr>sb_popover = popover0 defaultTtl, sb_copies = []\<rparr>"

fun share_enabled :: "bool \<Rightarrow> nat \<Rightarrow> nat \<Rightarrow> share_button \<Rightarrow> share_event \<Rightarrow> bool" where
  "share_enabled canOverrideTtl d mx st ShareClick \<longleftrightarrow> True"
| "share_enabled canOverrideTtl d mx st ShareContextMenu \<longleftrightarrow> True"
| "share_enabled canOverrideTtl d mx st (SharePick v) \<longleftrightarrow> canOverrideTtl \<and> pp_open (sb_popover st)
     \<and> (case v of None \<Rightarrow> True | Some s \<Rightarrow> s \<in> opt_value ` set (popover_data d mx))"
| "share_enabled canOverrideTtl d mx st ShareConfirm \<longleftrightarrow> canOverrideTtl \<and> pp_open (sb_popover st)"
| "share_enabled canOverrideTtl d mx st ShareDismiss \<longleftrightarrow> canOverrideTtl \<and> pp_open (sb_popover st)"

fun share_step :: "bool \<Rightarrow> nat \<Rightarrow> share_button \<Rightarrow> share_event \<Rightarrow> share_button" where
  "share_step canOverrideTtl d st ShareClick = st\<lparr>sb_copies := sb_copies st @ [None]\<rparr>"
| "share_step canOverrideTtl d st ShareContextMenu =
     (if \<not> canOverrideTtl then st
      else st\<lparr>sb_popover := popover_set d (\<not> pp_open (sb_popover st)) (sb_popover st)\<rparr>)"
| "share_step canOverrideTtl d st (SharePick v) = st\<lparr>sb_popover := popover_pick v (sb_popover st)\<rparr>"
| "share_step canOverrideTtl d st ShareConfirm =
     (case popover_copy (sb_popover st) of (t, p) \<Rightarrow> st\<lparr>sb_popover := p, sb_copies := sb_copies st @ [Some t]\<rparr>)"
| "share_step canOverrideTtl d st ShareDismiss = st\<lparr>sb_popover := popover_set d False (sb_popover st)\<rparr>"

subsection \<open>BulkActionBar\<close>

datatype bar_call = BarClear | BarCopy "nat option option" | BarDelete | BarFocus

record bulk_bar =
  bb_count :: nat
  bb_busy :: bool
  bb_disableDeletion :: bool
  bb_popover :: popover
  bb_prevOpen :: bool
  bb_calls :: "bar_call list"

definition bar_open :: "bulk_bar \<Rightarrow> bool" where
  "bar_open st \<longleftrightarrow> 0 < bb_count st"

definition bar0 :: "nat \<Rightarrow> bool \<Rightarrow> bulk_bar" where
  "bar0 defaultTtl disableDeletion = \<lparr>bb_count = 0, bb_busy = False, bb_disableDeletion = disableDeletion,
     bb_popover = popover0 defaultTtl, bb_prevOpen = False, bb_calls = []\<rparr>"

definition bar_call :: "bar_call \<Rightarrow> bulk_bar \<Rightarrow> bulk_bar" where
  "bar_call c st = st\<lparr>bb_calls := bb_calls st @ [c]\<rparr>"

text \<open>The effect on the rising edge of the selection.\<close>

definition focus_effect :: "bulk_bar \<Rightarrow> bulk_bar" where
  "focus_effect st =
     (let st' = (if bar_open st \<and> \<not> bb_prevOpen st then bar_call BarFocus st else st)
      in st'\<lparr>bb_prevOpen := bar_open st\<rparr>)"

datatype bar_event =
    NewSelection nat bool bool
  | EscapeKey
  | ClearButton
  | CopyButton
  | ChevronButton
  | PickValidity "string option"
  | ConfirmValidity
  | ClickOutside
  | DeleteButton

fun bar_enabled :: "nat \<Rightarrow> nat \<Rightarrow> bulk_bar \<Rightarrow> bar_event \<Rightarrow> bool" where
  "bar_enabled d mx st (NewSelection n busy dis) \<longleftrightarrow> True"
| "bar_enabled d mx st EscapeKey \<longleftrightarrow> bar_open st"
| "bar_enabled d mx st ClearButton \<longleftrightarrow> bar_open st"
| "bar_enabled d mx st CopyButton \<longleftrightarrow> bar_open st \<and> \<not> bb_busy st"
| "bar_enabled d mx st ChevronButton \<longleftrightarrow> bar_open st \<and> \<not> bb_busy st"
| "bar_enabled d mx st (PickValidity v) \<longleftrightarrow> bar_open st \<and> pp_open (bb_popover st)
     \<and> (case v of None \<Rightarrow> True | Some s \<Rightarrow> s \<in> opt_value ` set (popover_data d mx))"
| "bar_enabled d mx st ConfirmValidity \<longleftrightarrow> bar_open st \<and> pp_open (bb_popover st)"
| "bar_enabled d mx st ClickOutside \<longleftrightarrow> bar_open st \<and> pp_open (bb_popover st)"
| "bar_enabled d mx st DeleteButton \<longleftrightarrow> bar_open st \<and> \<not> bb_disableDeletion st"

text \<open>The bar's contents are unmounted while nothing is selected, so the popover starts with the default
  when they return; whether it is open is state of the bar itself.\<close>

definition popover_remount :: "nat \<Rightarrow> bulk_bar \<Rightarrow> bulk_bar" where
  "popover_remount d st =
     (if bar_open st \<and> \<not> bb_prevOpen st then st\<lparr>bb_popover := (bb_popover st)\<lparr>pp_selected := nat_str d\<rparr>\<rparr> else st)"

fun bar_step :: "nat \<Rightarrow> bulk_bar \<Rightarrow> bar_event \<Rightarrow> bulk_bar" where
  "bar_step d st (NewSelection n busy dis) =
     focus_effect (popover_remount d (st\<lparr>bb_count := n, bb_busy := busy, bb_disableDeletion := dis\<rparr>))"
| "bar_step d st EscapeKey =
     (if pp_open (bb_popover st) then st\<lparr>bb_popover := popover_set d False (bb_popover st)\<rparr>
      else bar_call BarClear st)"
| "bar_step d st ClearButton = bar_call BarClear st"
| "bar_step d st CopyButton = bar_call (BarCopy None) st"
| "bar_step d st ChevronButton =
     st\<lparr>bb_popover := popover_set d (\<not> pp_open (bb_popover st)) (bb_popover st)\<rparr>"
| "bar_step d st (PickValidity v) = st\<lparr>bb_popover := popover_pick v (bb_popover st)\<rparr>"
| "bar_step d st ConfirmValidity =
     (case popover_copy (bb_popover st) of (t, p) \<Rightarrow> bar_call (BarCopy (Some t)) (st\<lparr>bb_popover := p\<rparr>))"
| "bar_step d st ClickOutside = st\<lparr>bb_popover := popover_set d False (bb_popover st)\<rparr>"
| "bar_step d st DeleteButton = bar_call BarDelete st"

subsection \<open>Only offered validities are asked for\<close>

definition offered :: "nat \<Rightarrow> nat \<Rightarrow> nat set" where
  "offered d mx = insert d {t \<in> set (map preset_value TTL_PRESETS). t \<le> mx}"

definition popover_ok :: "nat \<Rightarrow> nat \<Rightarrow> popover \<Rightarrow> bool" where
  "popover_ok d mx p \<longleftrightarrow> (\<exists>t\<in>offered d mx. pp_selected p = nat_str t)"

lemma popover_data_values: "opt_value ` set (popover_data d mx) = nat_str ` offered d mx"
proof -
  have "opt_value ` set (ttlSelectDataUpTo mx) = nat_str ` {t \<in> set (map preset_value TTL_PRESETS). t \<le> mx}"
    by (auto simp: ttlSelectDataUpTo_def ttlOptionsUpTo_def image_iff)
  moreover have "opt_value ` set (popover_data d mx) = insert (nat_str d) (opt_value ` set (ttlSelectDataUpTo mx))"
    by (cases "\<exists>o1\<in>set (ttlSelectDataUpTo mx). opt_value o1 = nat_str d")
      (force simp: popover_data_def withConfiguredValue_def set_js_sort)+
  ultimately show ?thesis by (simp add: offered_def)
qed

lemma popover_ok_rules:
  "popover_ok d mx (popover0 d)"
  "popover_ok d mx p \<Longrightarrow> popover_ok d mx (popover_set d b p)"
  "popover_ok d mx p \<Longrightarrow> (case v of None \<Rightarrow> True | Some s \<Rightarrow> s \<in> opt_value ` set (popover_data d mx)) \<Longrightarrow>
     popover_ok d mx (popover_pick v p)"
  "popover_ok d mx p \<Longrightarrow> popover_ok d mx (p\<lparr>pp_open := b\<rparr>)"
  unfolding popover_data_values
  by (auto simp: popover_ok_def popover0_def popover_set_def popover_pick_def offered_def split: option.splits)

lemma popover_copy_offered:
  "popover_ok d mx p \<Longrightarrow> \<exists>t\<in>offered d mx. popover_copy p = (Some t, p\<lparr>pp_open := False\<rparr>)"
  by (auto simp: popover_ok_def popover_copy_def)

definition copy_ok :: "nat \<Rightarrow> nat \<Rightarrow> nat option option \<Rightarrow> bool" where
  "copy_ok d mx c = (case c of None \<Rightarrow> True | Some t \<Rightarrow> (\<exists>n\<in>offered d mx. t = Some n))"

definition share_inv :: "nat \<Rightarrow> nat \<Rightarrow> share_button \<Rightarrow> bool" where
  "share_inv d mx st \<longleftrightarrow> popover_ok d mx (sb_popover st) \<and> list_all (copy_ok d mx) (sb_copies st)"

interpretation share_machine: invariant "share0 d" "share_enabled ov d mx" "share_step ov d" "share_inv d mx"
proof
  show "share_inv d mx (share0 d)" by (simp add: share_inv_def share0_def popover_ok_rules)
  show "share_inv d mx (share_step ov d st ev)" if "share_inv d mx st" "share_enabled ov d mx st ev" for st ev
    using that popover_copy_offered[of d mx "sb_popover st"]
    by (cases ev) (auto simp: share_inv_def popover_ok_rules copy_ok_def split: option.splits)
qed

text \<open>The bar: also nothing is deleted while deletion is disabled, and the popover's state.\<close>

definition bar_inv :: "nat \<Rightarrow> nat \<Rightarrow> bulk_bar \<Rightarrow> bool" where
  "bar_inv d mx st \<longleftrightarrow> popover_ok d mx (bb_popover st)
     \<and> list_all (\<lambda>c. case c of BarCopy t \<Rightarrow> copy_ok d mx t | _ \<Rightarrow> True) (bb_calls st)"

lemma focus_effect_fields [simp]:
  "bb_popover (focus_effect st) = bb_popover st"
  "bb_calls (focus_effect st) = bb_calls st @ (if bar_open st \<and> \<not> bb_prevOpen st then [BarFocus] else [])"
  "bb_count (focus_effect st) = bb_count st"
  by (simp_all add: focus_effect_def bar_call_def Let_def)

lemma popover_remount_fields [simp]:
  "pp_open (bb_popover (popover_remount d st)) = pp_open (bb_popover st)"
  "bb_calls (popover_remount d st) = bb_calls st"
  "popover_ok d mx (bb_popover st) \<Longrightarrow> popover_ok d mx (bb_popover (popover_remount d st))"
  by (auto simp: popover_remount_def popover_ok_def offered_def)

interpretation bar_machine: invariant "bar0 d dis" "bar_enabled d mx" "bar_step d" "bar_inv d mx"
proof
  show "bar_inv d mx (bar0 d dis)" by (simp add: bar_inv_def bar0_def popover_ok_rules)
  show "bar_inv d mx (bar_step d st ev)" if "bar_inv d mx st" "bar_enabled d mx st ev" for st ev
    using that popover_copy_offered[of d mx "bb_popover st"]
    by (cases ev) (auto simp: bar_inv_def popover_ok_rules copy_ok_def bar_call_def split: option.splits)
qed

text \<open>whatever the user clicks in the bulk bar, a copy asks for the default validity or for one that
  the popover offered: the configured default or a preset that does not exceed the server's maximum.
  Nothing that is not a number is ever sent.\<close>

theorem link_validity_offered:
  assumes "reach_by (bar0 d dis) (bar_enabled d mx) (bar_step d) st" "BarCopy (Some t) \<in> set (bb_calls st)"
  shows "\<exists>n. t = Some n \<and> (n = d \<or> n \<in> {300, 900, 3600, 21600, 43200, 86400, 259200, 604800} \<and> n \<le> mx)"
proof -
  have "copy_ok d mx (Some t)"
    using bar_machine.inv_reach[OF assms(1)] assms(2) by (fastforce simp: bar_inv_def list_all_iff)
  then show ?thesis by (auto simp: copy_ok_def offered_def TTL_PRESETS_def preset_def)
qed

text \<open>The user opens the popover, chooses an hour and confirms; the next popover starts from the default.\<close>

definition pick_an_hour :: "bar_event list" where
  "pick_an_hour = [NewSelection 2 False False, ChevronButton, PickValidity (Some (nat_str 3600)), ConfirmValidity]"

lemma hour_offered: "nat_str 3600 \<in> opt_value ` set (popover_data 900 86400)"
  unfolding popover_data_values by (rule imageI) (simp add: offered_def TTL_PRESETS_def preset_def)

lemma nat_str_nonempty': "nat_str n \<noteq> []"
  by (rule nat_str_nonempty)

lemma pick_an_hour_result:
  "\<exists>st. run_by (bar_enabled 900 86400) (bar_step 900) pick_an_hour (bar0 900 False) = Some st
     \<and> bb_calls st = [BarFocus, BarCopy (Some (Some 3600))] \<and> \<not> pp_open (bb_popover st)"
  using hour_offered
  by (simp add: pick_an_hour_def bar0_def focus_effect_def popover_remount_def bar_call_def bar_open_def popover_set_def popover0_def
      popover_pick_def popover_copy_def nat_str_nonempty' Let_def)

theorem link_validity_offered_witness:
  "\<exists>st. run_by (bar_enabled 900 86400) (bar_step 900) pick_an_hour (bar0 900 False) = Some st
     \<and> BarCopy (Some (Some 3600)) \<in> set (bb_calls st)
     \<and> (\<exists>n. Some (3600::nat) = Some n \<and> (n = 900 \<or> n \<in> {300, 900, 3600, 21600, 43200, 86400, 259200, 604800} \<and> n \<le> 86400))"
proof -
  from pick_an_hour_result obtain st where st:
    "run_by (bar_enabled 900 86400) (bar_step 900) pick_an_hour (bar0 900 False) = Some st"
    "bb_calls st = [BarFocus, BarCopy (Some (Some 3600))]" by blast
  from st(1) have "reach_by (bar0 900 False) (bar_enabled 900 86400) (bar_step 900) st" by (auto simp: reach_by_run)
  from link_validity_offered[OF this] st show ?thesis by auto
qed

lemma share_validity_offered:
  "reach_by (share0 d) (share_enabled ov d mx) (share_step ov d) st \<Longrightarrow> Some t \<in> set (sb_copies st) \<Longrightarrow>
     \<exists>n\<in>offered d mx. t = Some n"
  using share_machine.inv_reach by (fastforce simp: share_inv_def list_all_iff copy_ok_def)

lemma no_override_no_popover:
  "share_step False d st ShareContextMenu = st"
  by simp

text \<open>Escape closes the popover before it clears the selection, and a reopened popover shows the
  default again.\<close>

lemma escape_keeps_selection:
  "pp_open (bb_popover st) \<Longrightarrow> bb_calls (bar_step d st EscapeKey) = bb_calls st
     \<and> \<not> pp_open (bb_popover (bar_step d st EscapeKey))"
  by (simp add: popover_set_def)

lemma reopened_popover_is_fresh:
  "\<not> pp_open (bb_popover st) \<Longrightarrow> pp_selected (bb_popover (bar_step d st ChevronButton)) = nat_str d"
  by (simp add: popover_set_def)

text \<open>The flag of the popover outlives the bar: a selection that disappears while the popover is open
  (a delete that finishes) leaves it open for the next one.\<close>

lemma popover_survives_bar:
  assumes "pp_open (bb_popover st)"
  shows "pp_open (bb_popover (bar_step d (bar_step d st (NewSelection 0 busy dis)) (NewSelection 1 busy dis)))"
  using assms by simp

end
