(* ===== verification/Upload_Entry.thy ===== *)
theory Upload_Entry
  imports Folder_Upload Machine
begin

text \<open>
  How an upload begins without a drop: the split button (\<open>UploadSplitButton.tsx\<close>), the hint that is
  shown first (\<open>components/Upload/FolderUploadHintModal.tsx\<close>), the native pickers and their change
  handlers (\<open>FileBrowser.tsx\<close>).  Local storage is an option: None when the browser refuses it, in
  which case reading and writing throw and the source catches both.
\<close>

datatype upload_mode = ModeFiles | ModeFolder

definition HINT_KEY :: string where "HINT_KEY = ''upload:hintDismissed''"

definition hasDismissedFolderUploadHint :: "storage option \<Rightarrow> bool" where
  "hasDismissedFolderUploadHint local =
     (case local of Some s \<Rightarrow> getItem s HINT_KEY = Some ''1'' | None \<Rightarrow> False)"

definition setDismissed :: "storage option \<Rightarrow> storage option" where
  "setDismissed local = map_option (setItem HINT_KEY ''1'') local"

text \<open>\<open>up_mode\<close> and \<open>up_open\<close> are the state \<open>uploadHint\<close> of the browser, \<open>up_dontShow\<close> that of the
  modal, which stays mounted; \<open>up_timers\<close> are the pickers scheduled with a zero timeout and
  \<open>up_pickers\<close> the native dialogs that were opened.\<close>

record upload_entry =
  up_local :: "storage option"
  up_open :: bool
  up_mode :: upload_mode
  up_dontShow :: bool
  up_timers :: "upload_mode list"
  up_pickers :: "upload_mode list"

definition upload_entry0 :: "storage option \<Rightarrow> upload_entry" where
  "upload_entry0 local = \<lparr>up_local = local, up_open = False, up_mode = ModeFiles, up_dontShow = True,
     up_timers = [], up_pickers = []\<rparr>"

text \<open>A new hint state and the effect of the modal, which depends on the mode.\<close>

definition setUploadHint :: "bool \<Rightarrow> upload_mode \<Rightarrow> upload_entry \<Rightarrow> upload_entry" where
  "setUploadHint op mode st =
     st\<lparr>up_open := op, up_mode := mode,
        up_dontShow := (if mode = up_mode st then up_dontShow st else mode = ModeFiles)\<rparr>"

definition handleUploadClick :: "upload_entry \<Rightarrow> upload_entry" where
  "handleUploadClick st =
     (if hasDismissedFolderUploadHint (up_local st) then st\<lparr>up_pickers := up_pickers st @ [ModeFiles]\<rparr>
      else setUploadHint True ModeFiles st)"

definition handleUploadFolderClick :: "upload_entry \<Rightarrow> upload_entry" where
  "handleUploadFolderClick st =
     (if hasDismissedFolderUploadHint (up_local st) then st\<lparr>up_pickers := up_pickers st @ [ModeFolder]\<rparr>
      else setUploadHint True ModeFolder st)"

definition handleHintProceed :: "upload_entry \<Rightarrow> upload_entry" where
  "handleHintProceed st =
     (let mode = up_mode st in (setUploadHint False mode st)\<lparr>up_timers := up_timers st @ [mode]\<rparr>)"

definition dismiss_if_ticked :: "upload_entry \<Rightarrow> upload_entry" where
  "dismiss_if_ticked st = (if up_dontShow st then st\<lparr>up_local := setDismissed (up_local st)\<rparr> else st)"

definition handleProceed :: "upload_entry \<Rightarrow> upload_entry" where
  "handleProceed st = handleHintProceed (dismiss_if_ticked st)"

definition handleClose :: "upload_entry \<Rightarrow> upload_entry" where
  "handleClose st = (dismiss_if_ticked st)\<lparr>up_open := False\<rparr>"

definition timer_fires :: "upload_entry \<Rightarrow> upload_entry" where
  "timer_fires st =
     (case up_timers st of [] \<Rightarrow> st | m # ms \<Rightarrow> st\<lparr>up_timers := ms, up_pickers := up_pickers st @ [m]\<rparr>)"

text \<open>The three entries of the split button.\<close>

datatype split_click = PrimaryUpload | MenuUploadFiles | MenuUploadFolder

fun uploadSplitButton :: "split_click \<Rightarrow> upload_entry \<Rightarrow> upload_entry" where
  "uploadSplitButton PrimaryUpload = handleUploadClick"
| "uploadSplitButton MenuUploadFiles = handleUploadClick"
| "uploadSplitButton MenuUploadFolder = handleUploadFolderClick"

fun click_mode :: "split_click \<Rightarrow> upload_mode" where
  "click_mode MenuUploadFolder = ModeFolder"
| "click_mode _ = ModeFiles"

datatype entry_event = SplitClick split_click | TickBox bool | Proceed | CloseHint | TimerFires

fun entry_enabled :: "upload_entry \<Rightarrow> entry_event \<Rightarrow> bool" where
  "entry_enabled st (SplitClick c) \<longleftrightarrow> \<not> up_open st"
| "entry_enabled st (TickBox b) \<longleftrightarrow> up_open st"
| "entry_enabled st Proceed \<longleftrightarrow> up_open st"
| "entry_enabled st CloseHint \<longleftrightarrow> up_open st"
| "entry_enabled st TimerFires \<longleftrightarrow> up_timers st \<noteq> []"

fun entry_step :: "upload_entry \<Rightarrow> entry_event \<Rightarrow> upload_entry" where
  "entry_step st (SplitClick c) = uploadSplitButton c st"
| "entry_step st (TickBox b) = st\<lparr>up_dontShow := b\<rparr>"
| "entry_step st Proceed = handleProceed st"
| "entry_step st CloseHint = handleClose st"
| "entry_step st TimerFires = timer_fires st"

text \<open>The words of the modal.\<close>

definition hint_title :: "upload_mode \<Rightarrow> string" where
  "hint_title mode = (if mode = ModeFolder then ''Upload a folder'' else ''Upload files'')"

definition hint_proceedLabel :: "upload_mode \<Rightarrow> string" where
  "hint_proceedLabel mode = (if mode = ModeFolder then ''Open folder picker'' else ''Choose files'')"

subsection \<open>The change handlers of the two inputs\<close>

text \<open>The list that the handler passes to the upload, None when it does not start one.\<close>

definition handleFileInput :: "js_file list option \<Rightarrow> file_with_path list option" where
  "handleFileInput fileList =
     (case fileList of
        Some fs \<Rightarrow> if fs \<noteq> [] then Some (map (\<lambda>f. \<lparr>fp_file = f, fp_relativePath = jf_name f\<rparr>) fs) else None
      | None \<Rightarrow> None)"

definition handleFolderInput :: "js_file list option \<Rightarrow> file_with_path list option" where
  "handleFolderInput fileList =
     (case fileList of
        Some fs \<Rightarrow> if fs \<noteq> [] \<and> filesFromFolderInput fs \<noteq> [] then Some (filesFromFolderInput fs) else None
      | None \<Rightarrow> None)"

lemma inputs_never_empty:
  "handleFileInput l = Some items \<Longrightarrow> items \<noteq> []" "handleFolderInput l = Some items \<Longrightarrow> items \<noteq> []"
  by (auto simp: handleFileInput_def handleFolderInput_def split: option.splits if_splits)

subsection \<open>A dismissed hint stays dismissed\<close>

lemma dismissed_after: "hasDismissedFolderUploadHint (setDismissed (Some s))"
  by (simp add: hasDismissedFolderUploadHint_def setDismissed_def store.get_put_same)

lemma dismissed_mono:
  "hasDismissedFolderUploadHint local \<Longrightarrow> hasDismissedFolderUploadHint (setDismissed local)"
  by (auto simp: hasDismissedFolderUploadHint_def setDismissed_def store.get_put_same split: option.splits)

lemma local_of_steps [simp]:
  "up_local (setUploadHint op m st) = up_local st"
  "up_local (handleHintProceed st) = up_local st"
  "up_local (timer_fires st) = up_local st"
  "up_local (dismiss_if_ticked st) = (if up_dontShow st then setDismissed (up_local st) else up_local st)"
  by (simp_all add: setUploadHint_def handleHintProceed_def timer_fires_def dismiss_if_ticked_def Let_def
      split: list.split)

definition dismissed_inv :: "upload_entry \<Rightarrow> bool" where
  "dismissed_inv st \<longleftrightarrow> hasDismissedFolderUploadHint (up_local st) \<and> \<not> up_open st"

lemma dismissed_step: "dismissed_inv st \<Longrightarrow> entry_enabled st ev \<Longrightarrow> dismissed_inv (entry_step st ev)"
proof (cases ev)
  case (SplitClick c)
  then show "dismissed_inv st \<Longrightarrow> entry_enabled st ev \<Longrightarrow> dismissed_inv (entry_step st ev)"
    by (cases c) (auto simp: dismissed_inv_def handleUploadClick_def handleUploadFolderClick_def)
next
  case TimerFires
  then show "dismissed_inv st \<Longrightarrow> entry_enabled st ev \<Longrightarrow> dismissed_inv (entry_step st ev)"
    by (auto simp: dismissed_inv_def timer_fires_def split: list.split)
qed (auto simp: dismissed_inv_def)

interpretation dismissed_machine: invariant "upload_entry0 (setDismissed (Some s))" entry_enabled entry_step dismissed_inv
proof
  show "dismissed_inv (upload_entry0 (setDismissed (Some s)))"
    by (simp add: dismissed_inv_def upload_entry0_def dismissed_after)
qed (rule dismissed_step)

lemma closing_ticked_dismisses:
  assumes "up_local st = Some s" "up_dontShow st" "ev = Proceed \<or> ev = CloseHint"
  shows "dismissed_inv (entry_step st ev)"
  using assms dismissed_after[of s]
  by (auto simp: dismissed_inv_def handleProceed_def handleClose_def handleHintProceed_def setUploadHint_def Let_def
      dismiss_if_ticked_def)

text \<open>leaving the hint with the box ticked, by either button or by closing it, is final: whatever
  the user does afterwards, the hint is not shown again, and every later click on an upload button opens
  the native picker it names at once.\<close>

theorem dismissed_hint_stays_away:
  assumes "up_local st = Some s" "up_dontShow st" "ev = Proceed \<or> ev = CloseHint"
    and "run_by entry_enabled entry_step evs (entry_step st ev) = Some st'"
  shows "\<not> up_open st'
    \<and> up_pickers (entry_step st' (SplitClick c)) = up_pickers st' @ [click_mode c]
    \<and> \<not> up_open (entry_step st' (SplitClick c))"
proof -
  have "dismissed_inv st'"
    by (rule dismissed_machine.inv_run[OF closing_ticked_dismisses[OF assms(1-3)] assms(4)])
  then show ?thesis
    by (cases c) (auto simp: dismissed_inv_def handleUploadClick_def handleUploadFolderClick_def)
qed

text \<open>The box is pre-ticked for plain files: one click on Upload and Cancel also silences the question
  that precedes the folder picker.\<close>

definition after_files_cancel :: upload_entry where
  "after_files_cancel = entry_step (entry_step (upload_entry0 (Some Map.empty)) (SplitClick PrimaryUpload)) CloseHint"

theorem dismissed_hint_stays_away_witness:
  "\<not> up_open (entry_step after_files_cancel (SplitClick MenuUploadFolder))
   \<and> up_pickers (entry_step after_files_cancel (SplitClick MenuUploadFolder)) = [ModeFolder]"
proof -
  let ?st = "entry_step (upload_entry0 (Some Map.empty)) (SplitClick PrimaryUpload)"
  have local: "up_local ?st = Some Map.empty" and ticked: "up_dontShow ?st"
    by (simp_all add: upload_entry0_def handleUploadClick_def hasDismissedFolderUploadHint_def getItem_def
        setUploadHint_def)
  have pickers: "up_pickers (entry_step ?st CloseHint) = []"
    by (simp add: upload_entry0_def handleUploadClick_def hasDismissedFolderUploadHint_def getItem_def
        setUploadHint_def handleClose_def dismiss_if_ticked_def)
  from dismissed_hint_stays_away[OF local ticked, of CloseHint "[]" after_files_cancel MenuUploadFolder] pickers
  show ?thesis by (simp add: after_files_cancel_def)
qed

lemma unavailable_storage_always_asks:
  "up_local st = None \<Longrightarrow> up_open (uploadSplitButton c st) \<and> up_mode (uploadSplitButton c st) = click_mode c"
  by (cases c) (simp_all add: handleUploadClick_def handleUploadFolderClick_def hasDismissedFolderUploadHint_def
      setUploadHint_def)

text \<open>The picker that opens is the one whose button was clicked.\<close>

lemma proceed_opens_asked_picker:
  assumes "\<not> hasDismissedFolderUploadHint (up_local st)" "up_timers st = []"
  shows "up_pickers (entry_step (entry_step (entry_step st (SplitClick c)) Proceed) TimerFires)
    = up_pickers st @ [click_mode c]"
  using assms
  by (cases c) (simp_all add: handleUploadClick_def handleUploadFolderClick_def setUploadHint_def handleProceed_def
      handleHintProceed_def dismiss_if_ticked_def timer_fires_def Let_def)

end
