(* ===== verification/Browser_Page.thy ===== *)
theory Browser_Page
  imports Browser_State Bulk_Delete File_List
begin

text \<open>
  The file browser as a whole (the markup of \<open>components/FileBrowser/FileBrowser.tsx\<close> and its header
  \<open>FileBrowserHeader.tsx\<close>): which control calls which handler.  The state joins the state machine of
  \<open>Browser_State\<close> with the listing on screen, the confirmation dialog, the preview and the requests
  that were sent; an event is possible only when the control that causes it is rendered and enabled.

  A confirmed batch of deletes is one step here; \<open>Live_Page\<close> interleaves it with what the user does
  while it runs.
\<close>

subsection \<open>The header\<close>

text \<open>What the load control can ask for: Stop during a drain, otherwise the next chunk or all of them,
  and nothing while a chunk is on its way.\<close>

datatype load_call = CallLoadMore | CallLoadAll | CallStopLoadAll

fun load_calls :: "split_button \<Rightarrow> load_call list" where
  "load_calls StopButton = [CallStopLoadAll]"
| "load_calls (LoadMoreButton disabled) = (if disabled then [] else [CallLoadMore, CallLoadAll])"

definition SORT_OPTIONS :: "(string \<times> string) list" where
  "SORT_OPTIONS = [(''name'', ''Name''), (''size'', ''Size''), (''modified'', ''Modified'')]"

text \<open>The type guard: the column of a submitted value.\<close>

definition isSortColumn :: "string option \<Rightarrow> sort_column option" where
  "isSortColumn v =
     (if v = Some ''name'' then Some SortName else if v = Some ''size'' then Some SortSize
      else if v = Some ''modified'' then Some SortModified else None)"

definition onOptionSubmit :: "sort_state \<Rightarrow> string option \<Rightarrow> sort_state option" where
  "onOptionSubmit sortState v = map_option (sort_select sortState) (isSortColumn v)"

text \<open>\<open>sortControls\<close> on a screen that is or is not below the small breakpoint.\<close>

definition sort_controls_visible :: "display_mode \<Rightarrow> bool \<Rightarrow> bool" where
  "sort_controls_visible mode below_sm \<longleftrightarrow> mode = GridMode \<or> below_sm"

datatype search_box = SearchInputBox nat bool | SearchIcon bool

text \<open>The two instances of the filter: the one for wide screens, and the one for phones, which is an
  icon until it is opened.\<close>

definition desktop_search :: search_box where
  "desktop_search = SearchInputBox 200 False"

definition mobile_search :: "bool \<Rightarrow> string \<Rightarrow> search_box" where
  "mobile_search mobileSearchOpen searchQuery =
     (if mobileSearchOpen then SearchInputBox 180 True else SearchIcon (searchQuery \<noteq> []))"

record browser_header =
  hd_search :: search_box
  hd_table_pressed :: bool
  hd_grid_pressed :: bool
  hd_sortControls :: "(sort_column \<times> string \<times> bool) option"
  hd_load :: "split_button option"

definition fileBrowserHeader ::
  "bool \<Rightarrow> bool \<Rightarrow> string \<Rightarrow> display_mode \<Rightarrow> sort_state \<Rightarrow> bool \<Rightarrow> bool \<Rightarrow> bool \<Rightarrow> bool \<Rightarrow> browser_header" where
  "fileBrowserHeader below_sm mobileSearchOpen searchQuery mode sortState sortDisabled truncated isLoadingMore loadingAll =
     \<lparr>hd_search = (if below_sm then mobile_search mobileSearchOpen searchQuery else desktop_search),
      hd_table_pressed = (mode = TableMode), hd_grid_pressed = (mode = GridMode),
      hd_sortControls = (if sort_controls_visible mode below_sm
         then Some (sort_col sortState, sort_toggle_label sortState, sortDisabled) else None),
      hd_load = loadSplitButton truncated loadingAll isLoadingMore\<rparr>"

text \<open>The close button of the phone's filter.\<close>

definition close_search :: "(string \<Rightarrow> string) \<Rightarrow> browser \<Rightarrow> browser \<times> bool" where
  "close_search trim st = (onSearchChange trim [] st, False)"

subsection \<open>The page\<close>

datatype page_request = ReqDownload string | ReqCopyUrl string | ReqDelete string bool

record page =
  pg_browser :: browser
  pg_listing :: listing
  pg_debounced :: string
  pg_confirmOpen :: bool
  pg_pendingDelete :: "string list"
  pg_preview :: "preview_state option"
  pg_requests :: "page_request list"

definition page0 :: "string \<Rightarrow> string \<Rightarrow> string \<Rightarrow> page" where
  "page0 roleId bucket path =
     \<lparr>pg_browser = browser0 roleId bucket path,
      pg_listing = \<lparr>ls_directories = [], ls_files = [], ls_truncated = False\<rparr>, pg_debounced = [],
      pg_confirmOpen = False, pg_pendingDelete = [], pg_preview = None, pg_requests = []\<rparr>"

text \<open>What the page is given: the collator, the date parser, the case and white-space functions of the
  standard library, the configuration and the deletion flag of the signed-in user.\<close>

record page_env =
  ev_coll :: "string \<Rightarrow> string \<Rightarrow> int"
  ev_parse :: "string \<Rightarrow> int option"
  ev_lower :: "string \<Rightarrow> string"
  ev_trim :: "string \<Rightarrow> string"
  ev_config :: "app_config option"
  ev_disableDeletion :: bool

definition page_rows :: "page_env \<Rightarrow> page \<Rightarrow> file_entry list" where
  "page_rows env st =
     visible_rows (ev_coll env) (ev_parse env) (ev_lower env) (pg_listing st) (br_sortPreference (pg_browser st))
       (br_serverSearchTerm (pg_browser st) \<noteq> None) (pg_debounced st)"

definition orderedNames :: "page_env \<Rightarrow> page \<Rightarrow> string list" where
  "orderedNames env st = map fe_name (page_rows env st)"

definition page_selected :: "page \<Rightarrow> string list" where
  "page_selected st = selected (br_selection (pg_browser st))"

definition with_browser :: "page_env \<Rightarrow> browser_event \<Rightarrow> page \<Rightarrow> page" where
  "with_browser env ev st = st\<lparr>pg_browser := browser_step (ev_trim env) (pg_browser st) ev\<rparr>"

definition page_path :: "page \<Rightarrow> string \<Rightarrow> string" where
  "page_path st name = joinPath [br_path (pg_browser st), name]"

definition requestDelete :: "string list \<Rightarrow> page \<Rightarrow> page" where
  "requestDelete names st = st\<lparr>pg_pendingDelete := names, pg_confirmOpen := True\<rparr>"

fun page_call :: "page_env \<Rightarrow> page \<Rightarrow> browser_call \<Rightarrow> page" where
  "page_call env st (CallToggle name shiftKey) =
     with_browser env (SelectOp (Toggle name shiftKey (orderedNames env st))) st"
| "page_call env st (CallNavigate name) = with_browser env (OpenFolder name) st"
| "page_call env st (CallDownload name) = st\<lparr>pg_requests := pg_requests st @ [ReqDownload (page_path st name)]\<rparr>"
| "page_call env st (CallCopyUrl name) = st\<lparr>pg_requests := pg_requests st @ [ReqCopyUrl (page_path st name)]\<rparr>"
| "page_call env st (CallPreview name) =
     (case handlePreview (all_items (pg_listing st)) (br_bucket (pg_browser st)) (br_roleId (pg_browser st))
             (br_path (pg_browser st)) name of
        None \<Rightarrow> st
      | Some p \<Rightarrow> st\<lparr>pg_preview := Some p\<rparr>)"
| "page_call env st (CallDelete names) = requestDelete names st"

text \<open>The dialog's confirmation; \<open>del\<close> is the outcome of each request, \<open>clicked\<close> the clicks on
  Cancel.\<close>

definition page_confirm :: "(nat \<Rightarrow> string \<Rightarrow> js_error + unit) \<Rightarrow> (nat \<Rightarrow> bool) \<Rightarrow> page \<Rightarrow> page" where
  "page_confirm del clicked st =
     (let st' = st\<lparr>pg_confirmOpen := False\<rparr>
      in case confirmDelete del clicked (br_bucket (pg_browser st)) (br_roleId (pg_browser st))
               (br_path (pg_browser st)) (all_items (pg_listing st)) (pg_pendingDelete st) of
           None \<Rightarrow> st'
         | Some r \<Rightarrow>
             st'\<lparr>pg_requests := pg_requests st @ map (\<lambda>(p, ok). ReqDelete p ok) (bd_log (do_batch r)),
                 pg_browser := (pg_browser st)\<lparr>br_selection := clear_selection (br_selection (pg_browser st))\<rparr>\<rparr>)"

datatype page_event =
    PgBrowser browser_event
  | PgListing listing
  | PgDebounce
  | PgRow browser_call
  | PgToggleAll
  | PgBarClear
  | PgBarDelete
  | PgConfirm "nat \<Rightarrow> string \<Rightarrow> js_error + unit" "nat \<Rightarrow> bool"
  | PgCancel
  | PgClosePreview

text \<open>What the row or card of an entry can ask for.\<close>

definition row_calls :: "page_env \<Rightarrow> file_entry \<Rightarrow> browser_call list" where
  "row_calls env f =
     checkbox_change f (Some False) @ checkbox_change f (Some True) @ name_click f
     @ concat (map (click_button (fe_name f))
         (entry_actions (canPreview (ev_lower env) (ev_config env) f) (ev_disableDeletion env) f
          @ fileRowActionsMenu (fe_is_directory f) (canPreview (ev_lower env) (ev_config env) f)
              (ev_disableDeletion env)))"

fun own_event :: "browser_event \<Rightarrow> bool" where
  "own_event (SelectOp opn) \<longleftrightarrow> False"
| "own_event (OpenFolder name) \<longleftrightarrow> False"
| "own_event _ \<longleftrightarrow> True"

fun page_enabled :: "page_env \<Rightarrow> page \<Rightarrow> page_event \<Rightarrow> bool" where
  "page_enabled env st (PgBrowser ev) \<longleftrightarrow> own_event ev"
| "page_enabled env st (PgListing l) \<longleftrightarrow> True"
| "page_enabled env st PgDebounce \<longleftrightarrow> True"
| "page_enabled env st (PgRow c) \<longleftrightarrow> list_ex (\<lambda>f. c \<in> set (row_calls env f)) (page_rows env st)"
| "page_enabled env st PgToggleAll \<longleftrightarrow> page_rows env st \<noteq> []"
| "page_enabled env st PgBarClear \<longleftrightarrow> page_selected st \<noteq> []"
| "page_enabled env st PgBarDelete \<longleftrightarrow> page_selected st \<noteq> [] \<and> \<not> ev_disableDeletion env"
| "page_enabled env st (PgConfirm del clicked) \<longleftrightarrow> pg_confirmOpen st"
| "page_enabled env st PgCancel \<longleftrightarrow> pg_confirmOpen st"
| "page_enabled env st PgClosePreview \<longleftrightarrow> pg_preview st \<noteq> None"

fun page_step :: "page_env \<Rightarrow> page \<Rightarrow> page_event \<Rightarrow> page" where
  "page_step env st (PgBrowser ev) = with_browser env ev st"
| "page_step env st (PgListing l) = st\<lparr>pg_listing := l\<rparr>"
| "page_step env st PgDebounce = st\<lparr>pg_debounced := br_searchQuery (pg_browser st)\<rparr>"
| "page_step env st (PgRow c) = page_call env st c"
| "page_step env st PgToggleAll = with_browser env (SelectOp (ToggleAll (orderedNames env st))) st"
| "page_step env st PgBarClear = with_browser env (SelectOp Clear) st"
| "page_step env st PgBarDelete = requestDelete (page_selected st) st"
| "page_step env st (PgConfirm del clicked) = page_confirm del clicked st"
| "page_step env st PgCancel = st\<lparr>pg_confirmOpen := False\<rparr>"
| "page_step env st PgClosePreview = st\<lparr>pg_preview := None\<rparr>"

definition page_reach :: "page_env \<Rightarrow> string \<Rightarrow> string \<Rightarrow> string \<Rightarrow> page \<Rightarrow> bool" where
  "page_reach env roleId bucket path = reach_by (page0 roleId bucket path) (page_enabled env) (page_step env)"

text \<open>The load control never starts a second fetch: while one runs or a drain runs, it offers at most
  Stop.\<close>

lemma no_double_load:
  assumes "hd_load (fileBrowserHeader below_sm mobile_open q mode srt dis truncated isLoadingMore loadingAll) = Some b"
    and "isLoadingMore \<or> loadingAll"
  shows "set (load_calls b) \<subseteq> {CallStopLoadAll}"
  using assms by (auto simp: fileBrowserHeader_def loadSplitButton_def split: if_splits)

subsection \<open>The parts work together\<close>

lemma row_call_delete: "CallDelete names \<in> set (row_calls env f) \<Longrightarrow> \<not> ev_disableDeletion env \<and> names = [fe_name f]"
  by (auto simp: row_calls_def checkbox_change_def name_click_def click_button_def entry_actions_def fileActions_def
      fileRowActionsMenu_def button_def split: if_splits)

lemma row_call_preview:
  "CallPreview name \<in> set (row_calls env f) \<Longrightarrow> name = fe_name f \<and> canPreview (ev_lower env) (ev_config env) f"
  by (auto simp: row_calls_def checkbox_change_def name_click_def click_button_def entry_actions_def fileActions_def
      fileRowActionsMenu_def button_def split: if_splits)

lemma previewable_body:
  assumes "canPreview lower config f" "pw_filename p = fe_name f"
  shows "previewModal lower config p \<noteq> BodyNone"
proof -
  from assms(1) obtain t where "getPreviewType lower (fe_name f) (preview_exts config) = Some t"
    by (auto simp: canPreview_def)
  with assms(2) show ?thesis by (cases t) (simp_all add: previewModal_def)
qed

lemma handlePreview_filename: "handlePreview items bucket roleId path name = Some p \<Longrightarrow> pw_filename p = name"
  by (auto simp: handlePreview_def split: option.splits if_splits)

definition deletes_nothing :: "page \<Rightarrow> bool" where
  "deletes_nothing st \<longleftrightarrow>
     \<not> pg_confirmOpen st \<and> pg_pendingDelete st = [] \<and> (\<forall>p ok. ReqDelete p ok \<notin> set (pg_requests st))"

definition page_inv :: "page_env \<Rightarrow> page \<Rightarrow> bool" where
  "page_inv env st \<longleftrightarrow>
     browser_reachable (ev_trim env) (pg_browser st)
     \<and> (ev_disableDeletion env \<longrightarrow> deletes_nothing st)
     \<and> (\<forall>p. pg_preview st = Some p \<longrightarrow> previewModal (ev_lower env) (ev_config env) p \<noteq> BodyNone)"

text \<open>Steps that only move the browser, and steps that leave it alone.\<close>

lemma inv_with_browser: "page_inv env st \<Longrightarrow> page_inv env (with_browser env ev st)"
  by (auto simp: page_inv_def with_browser_def deletes_nothing_def intro: browser_reachable.event)

lemma inv_same_browser:
  assumes "page_inv env st" "pg_browser st' = pg_browser st" "pg_preview st' = pg_preview st \<or> pg_preview st' = None"
    and "ev_disableDeletion env \<Longrightarrow> deletes_nothing st \<Longrightarrow> deletes_nothing st'"
  shows "page_inv env st'"
  using assms by (auto simp: page_inv_def)

lemma inv_row_call:
  assumes "page_inv env st" "c \<in> set (row_calls env f)"
  shows "page_inv env (page_call env st c)"
proof (cases c)
  case (CallDelete names)
  with assms row_call_delete show ?thesis
    by (auto intro!: inv_same_browser[OF assms(1)] simp: requestDelete_def)
next
  case (CallPreview name)
  with assms(2) row_call_preview have f: "name = fe_name f" "canPreview (ev_lower env) (ev_config env) f" by blast+
  show ?thesis
    using assms(1) CallPreview f previewable_body handlePreview_filename
    by (fastforce simp: page_inv_def deletes_nothing_def split: option.split)
qed (auto simp: inv_with_browser[OF assms(1)] deletes_nothing_def intro: inv_same_browser[OF assms(1)])

lemma inv_confirm:
  assumes "page_inv env st" "pg_confirmOpen st"
  shows "page_inv env (page_confirm del clicked st)"
proof -
  let ?b = "(pg_browser st)\<lparr>br_selection := clear_selection (br_selection (pg_browser st))\<rparr>"
  have "?b = browser_step (ev_trim env) (pg_browser st) (SelectOp Clear)" by simp
  then have "browser_reachable (ev_trim env) ?b"
    using assms(1) browser_reachable.event by (metis page_inv_def)
  then show ?thesis using assms
    by (auto simp: page_inv_def page_confirm_def deletes_nothing_def Let_def split: option.split)
qed

lemma page_inv_step:
  assumes "page_inv env st" "page_enabled env st ev"
  shows "page_inv env (page_step env st ev)"
proof (cases ev)
  case (PgRow c)
  with assms show ?thesis using inv_row_call by (auto simp: list_ex_iff)
next
  case PgBarDelete
  with assms show ?thesis by (auto intro!: inv_same_browser[OF assms(1)] simp: requestDelete_def)
next
  case (PgConfirm del clicked)
  with assms show ?thesis using inv_confirm by simp
qed (auto simp: inv_with_browser[OF assms(1)] deletes_nothing_def intro: inv_same_browser[OF assms(1)])

interpretation page_machine: invariant "page0 roleId bucket path" "page_enabled env" "page_step env" "page_inv env"
proof
  show "page_inv env (page0 roleId bucket path)"
    by (simp add: page_inv_def page0_def deletes_nothing_def browser_reachable.start)
qed (rule page_inv_step)

text \<open>Every state of the page carries a reachable state of the browser, so what is proved of the browser
  holds on the page.\<close>

lemma page_browser_reachable:
  "page_reach env roleId bucket path st \<Longrightarrow> browser_reachable (ev_trim env) (pg_browser st)"
  unfolding page_reach_def using page_machine.inv_reach by (auto simp: page_inv_def)

text \<open>when the server configuration disables deletion, no sequence of clicks on rows, menus, the
  bulk bar and dialogs sends a delete request or opens the confirmation; and whatever the
  configuration, a preview that is open has a viewer for its file.\<close>

theorem disabled_deletion_deletes_nothing:
  assumes "page_reach env roleId bucket path st"
  shows "(ev_disableDeletion env \<longrightarrow> \<not> pg_confirmOpen st \<and> (\<forall>p ok. ReqDelete p ok \<notin> set (pg_requests st)))
    \<and> (\<forall>p. pg_preview st = Some p \<longrightarrow> previewModal (ev_lower env) (ev_config env) p \<noteq> BodyNone)"
  using page_machine.inv_reach[OF assms[unfolded page_reach_def]]
  by (auto simp: page_inv_def deletes_nothing_def)

definition sample_env :: "bool \<Rightarrow> page_env" where
  "sample_env dis = \<lparr>ev_coll = (\<lambda>a b. 0), ev_parse = (\<lambda>_. None), ev_lower = id, ev_trim = id, ev_config = None,
     ev_disableDeletion = dis\<rparr>"

definition sample_page :: "bool \<Rightarrow> page" where
  "sample_page dis = page_step (sample_env dis) (page_step (sample_env dis) (page0 ''r'' ''b'' ''p'') (PgListing one_file_listing))
     PgToggleAll"

lemma sample_rows: "page_rows (sample_env dis) (page_step (sample_env dis) (page0 ''r'' ''b'' ''p'') (PgListing one_file_listing))
    = [sample_file ''a'' 1]"
  by (simp add: page_rows_def sample_env_def page0_def one_file_listing_def visible_rows_def filteredItems_def
      sortedItems_def effectiveSort_def isDefaultSort_def browser0_def DEFAULT_SORT_def all_items_def)

lemma sample_page_selected: "page_selected (sample_page dis) = [''a'']"
  unfolding sample_page_def page_step.simps(5) orderedNames_def sample_rows
  by (simp add: page_selected_def with_browser_def page0_def browser0_def toggleAll_def empty_selection_def
      new_Set_def set_add_def sample_file_def)

lemma sample_page_reach: "page_reach (sample_env dis) ''r'' ''b'' ''p'' (sample_page dis)"
  unfolding page_reach_def sample_page_def
  by (intro reach_by.event reach_by.start) (simp_all add: sample_rows[simplified])

theorem disabled_deletion_deletes_nothing_witness:
  "page_reach (sample_env True) ''r'' ''b'' ''p'' (sample_page True) \<and> page_selected (sample_page True) = [''a'']
   \<and> \<not> pg_confirmOpen (sample_page True)"
  using disabled_deletion_deletes_nothing[OF sample_page_reach[of True]] sample_page_reach[of True]
    sample_page_selected[of True] by (simp add: sample_env_def)

subsection \<open>A selection that outlives its folder\<close>

text \<open>The URL can change without a click on a folder row: by a breadcrumb, by the browser's Back.  The
  selection is kept, a list of bare names.\<close>

lemma route_change_keeps_selection:
  "selected (br_selection (browser_step trim b (RouteChange roleId bucket path))) = selected (br_selection b)"
  by (simp add: render_def Let_def)

lemma confirm_single:
  assumes "find (\<lambda>g. fe_name g = name) items = Some g" "\<not> fe_is_directory g"
  shows "\<exists>r. confirmDelete (\<lambda>i p. Inr ()) (\<lambda>i. False) bucket roleId path items [name] = Some r
    \<and> bd_log (do_batch r) = [(joinPath [path, name], True)]"
  using assms by (simp add: confirmDelete_def Let_def batch0_def look_at_flag_def renderProgress_def delete_ok_def
      delete_path_def)

definition elsewhere_run :: "string \<Rightarrow> string \<Rightarrow> string \<Rightarrow> listing \<Rightarrow> page_event list" where
  "elsewhere_run roleId bucket path l =
     [PgBrowser (RouteChange roleId bucket path), PgListing l, PgBarDelete, PgConfirm (\<lambda>i p. Inr ()) (\<lambda>i. False)]"

text \<open>C35: a file selected in one folder and a click on a breadcrumb: the bulk bar still counts the file,
  and Delete removes the file of the same name in the folder the user went to.  Every step is possible on
  the page, from any state in which a single file is selected.\<close>

theorem stale_selection_deletes_elsewhere:
  assumes "page_selected st = [name]" "\<not> ev_disableDeletion env"
    and "find (\<lambda>g. fe_name g = name) (all_items l) = Some g" "\<not> fe_is_directory g"
  shows "\<exists>st'. run_by (page_enabled env) (page_step env) (elsewhere_run roleId bucket path l) st = Some st'
    \<and> pg_requests st' = pg_requests st @ [ReqDelete (joinPath [path, name]) True]"
proof -
  from confirm_single[OF assms(3,4), of bucket roleId path] obtain r where
    r: "confirmDelete (\<lambda>i p. Inr ()) (\<lambda>i. False) bucket roleId path (all_items l) [name] = Some r"
    "bd_log (do_batch r) = [(joinPath [path, name], True)]" by blast
  with assms(1,2) show ?thesis
    by (simp add: elsewhere_run_def with_browser_def page_selected_def requestDelete_def page_confirm_def render_def
        Let_def)
qed

theorem stale_selection_deletes_elsewhere_witness:
  "\<exists>st'. run_by (page_enabled (sample_env False)) (page_step (sample_env False))
       (elsewhere_run ''r'' ''b'' ''q'' one_file_listing) (sample_page False) = Some st'
     \<and> ReqDelete (joinPath [''q'', ''a'']) True \<in> set (pg_requests st')"
proof -
  have g: "find (\<lambda>g. fe_name g = ''a'') (all_items one_file_listing) = Some (sample_file ''a'' 1)"
    by (simp add: all_items_def one_file_listing_def sample_file_def)
  from stale_selection_deletes_elsewhere[OF sample_page_selected[of False] _ g, of "sample_env False" "''r''" "''b''" "''q''"]
  show ?thesis by (auto simp: sample_env_def sample_file_def)
qed

end
