(* ===== verification/Settings_Tabs.thy ===== *)
theory Settings_Tabs
  imports Settings Ttl_Presets Json_Api
begin

text \<open>
  The three tabs of the settings page (\<open>pages/admin/SettingsGeneralTab.tsx\<close>, \<open>SettingsSecurityTab.tsx\<close>,
  \<open>SettingsMcpTab.tsx\<close>): their controls with the field each one edits and its bounds, the two selects of
  link validities, and the download of the configuration.  The words of help texts are left out; labels
  and short descriptions are kept.
\<close>

subsection \<open>The controls\<close>

text \<open>\<open>NumberControl min max step decimals\<close>; a step that is not given is 1.\<close>

datatype control_kind =
    NumberControl rat rat rat "nat option"
  | SwitchControl
  | TagsControl
  | SelectControl

record setting_control =
  sc_key :: string
  sc_label :: string
  sc_kind :: control_kind
  sc_disabled :: bool

definition control :: "bool \<Rightarrow> string \<Rightarrow> string \<Rightarrow> control_kind \<Rightarrow> setting_control" where
  "control readOnly key label kind = \<lparr>sc_key = key, sc_label = label, sc_kind = kind, sc_disabled = readOnly\<rparr>"

definition settingsGeneralTab :: "bool \<Rightarrow> setting_control list" where
  "settingsGeneralTab readOnly =
     [control readOnly ''max_client_load'' ''Max client load'' (NumberControl 1 200000 1000 None),
      control readOnly ''disable_deletion'' ''Disable deletion'' SwitchControl,
      control readOnly ''enable_lazy_loading'' ''Enable lazy loading'' SwitchControl,
      control readOnly ''max_file_size_mb'' ''Max upload file size (MB)'' (NumberControl 1 5120 1 None),
      control readOnly ''preview_text_extensions'' ''Inline preview extensions (text)'' TagsControl,
      control readOnly ''upload_inline_extensions'' ''Open in browser on upload'' TagsControl,
      control readOnly ''presigned_url_default_ttl'' ''Default link validity'' SelectControl,
      control readOnly ''presigned_url_max_ttl'' ''Maximum link validity'' SelectControl]"

definition settingsSecurityTab :: "bool \<Rightarrow> setting_control list" where
  "settingsSecurityTab readOnly =
     [control readOnly ''password_min_length'' ''Minimum length'' (NumberControl 0 50 1 None),
      control readOnly ''password_min_uppercase'' ''Minimum uppercase letters'' (NumberControl 0 50 1 None),
      control readOnly ''password_min_lowercase'' ''Minimum lowercase letters'' (NumberControl 0 50 1 None),
      control readOnly ''password_min_digits'' ''Minimum digits'' (NumberControl 0 50 1 None),
      control readOnly ''password_min_special'' ''Minimum special characters'' (NumberControl 0 50 1 None)]"

definition settingsMcpTab :: "bool \<Rightarrow> setting_control list" where
  "settingsMcpTab readOnly =
     [control readOnly ''mcp_enabled'' ''Enable MCP server'' SwitchControl,
      control readOnly ''mcp_disable_writes'' ''Disable writes via MCP'' SwitchControl,
      control readOnly ''mcp_global_max_read_bytes_mb'' ''Global max read bytes (MB)''
        (NumberControl (1 / 1000) 10 (1 / 2) (Some 3)),
      control readOnly ''mcp_summary_max_keys'' ''Summary scan cap'' (NumberControl 1000 1000000 1000 None),
      control readOnly ''mcp_summary_prefix_scan_pages'' ''Summary prefix-scan pages'' (NumberControl 1 200 5 None),
      control readOnly ''mcp_list_page_size'' ''Default list page size'' (NumberControl 1 10000 100 None),
      control readOnly ''mcp_list_max_page_size'' ''Max list page size'' (NumberControl 1 10000 1000 None),
      control readOnly ''mcp_text_extensions'' ''Additional text extensions for read_file'' TagsControl]"

subsection \<open>The selects of link validities\<close>

definition default_ttl_data :: "settings_values \<Rightarrow> select_option list" where
  "default_ttl_data v =
     withConfiguredValue (ttlSelectDataUpTo (sv_presigned_url_max_ttl v)) (sv_presigned_url_default_ttl v)"

definition max_ttl_data :: "settings_values \<Rightarrow> select_option list" where
  "max_ttl_data v = withConfiguredValue (ttlSelectDataUpTo 604800) (sv_presigned_url_max_ttl v)"

text \<open>\<open>onChange\<close>: nothing for a falsy value; a value that is no numeral cannot be chosen.\<close>

definition select_default_ttl :: "string option \<Rightarrow> settings_values form \<Rightarrow> settings_values form" where
  "select_default_ttl v f =
     (case v of None \<Rightarrow> f
      | Some s \<Rightarrow>
          (case (s, js_Number s) of
             ([], _) \<Rightarrow> f
           | (_, Some n) \<Rightarrow>
               settings_field_input ''presigned_url_default_ttl'' ((fm_values f)\<lparr>sv_presigned_url_default_ttl := n\<rparr>) f
           | (_, None) \<Rightarrow> f))"

definition select_max_ttl :: "string option \<Rightarrow> settings_values form \<Rightarrow> settings_values form" where
  "select_max_ttl v f =
     (case v of None \<Rightarrow> f
      | Some s \<Rightarrow>
          (case (s, js_Number s) of
             ([], _) \<Rightarrow> f
           | (_, Some n) \<Rightarrow>
               settings_field_input ''presigned_url_max_ttl'' ((fm_values f)\<lparr>sv_presigned_url_max_ttl := n\<rparr>) f
           | (_, None) \<Rightarrow> f))"

subsection \<open>Downloading the configuration\<close>

datatype export_outcome = SavedConfig string | ExportFailed string

definition handleDownloadConfig :: "('b http_request \<Rightarrow> js_error + http_response) \<Rightarrow> export_outcome" where
  "handleDownloadConfig fetch =
     (case exportConfig fetch of
        Inr blob \<Rightarrow> SavedConfig ''config.json''
      | Inl e \<Rightarrow> ExportFailed (''Failed to download config: '' @ getErrorMessage e))"

subsection \<open>The tabs cover the form\<close>

definition settings_keys :: "string list" where
  "settings_keys = map sc_key (settingsGeneralTab False @ settingsSecurityTab False @ settingsMcpTab False)"

lemma every_rule_has_a_control:
  "distinct settings_keys \<and> length settings_keys = 21 \<and> fst ` set settings_rules \<subseteq> set settings_keys"
  by (simp add: settings_keys_def settingsGeneralTab_def settingsSecurityTab_def settingsMcpTab_def control_def
      settings_rules_def)

text \<open>The bounds of the number field of the client load are those of its validator, and read-only mode
  turns every control off.\<close>

lemma client_load_bounds:
  "client_load_rule v = None \<longleftrightarrow>
     (\<exists>c\<in>set (settingsGeneralTab b). sc_key c = ''max_client_load''
        \<and> (case sc_kind c of NumberControl lo hi _ _ \<Rightarrow>
             lo \<le> of_nat (sv_max_client_load v) \<and> of_nat (sv_max_client_load v) \<le> hi | _ \<Rightarrow> False))"
proof -
  have "(1 \<le> (of_nat (sv_max_client_load v) :: rat) \<and> (of_nat (sv_max_client_load v) :: rat) \<le> 200000)
      \<longleftrightarrow> 1 \<le> sv_max_client_load v \<and> sv_max_client_load v \<le> 200000"
    using of_nat_le_iff[of 1 "sv_max_client_load v", where 'a = rat]
      of_nat_le_iff[of "sv_max_client_load v" 200000, where 'a = rat] by simp
  then show ?thesis by (auto simp: settingsGeneralTab_def control_def client_load_rule_def)
qed

lemma read_only_disables_all:
  "list_all sc_disabled (settingsGeneralTab True @ settingsSecurityTab True @ settingsMcpTab True)"
  by (simp add: settingsGeneralTab_def settingsSecurityTab_def settingsMcpTab_def control_def)

subsection \<open>Lowering the maximum\<close>

lemma validateField_error:
  assumes "map_of rules k = Some r"
  shows "(k, msg) \<in> set (fm_errors (fst (validateField rules k f))) \<longleftrightarrow> r (fm_values f) = Some msg"
  using assms by (auto simp: validateField_def error_of_def Let_def split: option.splits)

text \<open>Choosing a maximum revalidates the default at once: it is marked exactly when it is out of range,
  so the page cannot be saved with a default above the maximum and says so where the maximum changed.\<close>

lemma lowering_max_flags_default:
  assumes "60 \<le> sv_presigned_url_default_ttl (fm_values f)"
  shows "(''presigned_url_default_ttl'', ''Default cannot exceed the maximum'')
      \<in> set (fm_errors (select_max_ttl (Some (nat_str n)) f))
    \<longleftrightarrow> n < sv_presigned_url_default_ttl (fm_values f)"
proof -
  have ne: "nat_str n \<noteq> []" by (rule nat_str_nonempty)
  let ?v = "(fm_values f)\<lparr>sv_presigned_url_max_ttl := n\<rparr>"
  have sel: "select_max_ttl (Some (nat_str n)) f = settings_field_input ''presigned_url_max_ttl'' ?v f"
  proof -
    obtain c cs where s: "nat_str n = c # cs" using ne by (cases "nat_str n") auto
    have "js_Number (c # cs) = Some n" unfolding s[symmetric] by (rule js_Number_nat_str)
    then show ?thesis unfolding s by (simp add: select_max_ttl_def)
  qed
  have rule: "map_of settings_rules ''presigned_url_default_ttl'' = Some default_ttl_rule"
    by (simp add: settings_rules_def)
  show ?thesis unfolding sel settings_field_input_def Let_def
    using assms by (simp add: validateField_error[OF rule]) (simp add: default_ttl_rule_def)
qed

text \<open>Both selects always show the value they hold.\<close>

lemma selects_show_their_value:
  "nat_str (sv_presigned_url_default_ttl v) \<in> opt_value ` set (default_ttl_data v)"
  "nat_str (sv_presigned_url_max_ttl v) \<in> opt_value ` set (max_ttl_data v)"
  by (force simp: default_ttl_data_def max_ttl_data_def withConfiguredValue_def set_js_sort)+

end
