(* ===== verification/Login.thy ===== *)
theory Login
  imports Session Forms
begin

text \<open>
  The sign-in form (\<open>pages/LoginPage/LoginPage.tsx\<close>).  No route of this commit shows the page (identity
  comes from the gateway), so it is modelled as a component: its form, the redirect of a user who is
  signed in already, and the submission.  \<open>trim\<close> is \<open>String.prototype.trim\<close>.
\<close>

record login_values =
  lg_username :: string
  lg_password :: string

definition login_rules :: "(string \<Rightarrow> string) \<Rightarrow> login_values validators" where
  "login_rules trim =
     [(''username'', \<lambda>v. if trim (lg_username v) = [] then Some ''Username is required'' else None),
      (''password'', \<lambda>v. if lg_password v = [] then Some ''Password is required'' else None)]"

definition login_form0 :: "login_values form" where
  "login_form0 = new_form \<lparr>lg_username = [], lg_password = []\<rparr>"

text \<open>\<open>isSuccess\<close>: the last fetch succeeded; after a failing refetch the data are still there.\<close>

definition isSuccess :: "'a entry \<Rightarrow> bool" where
  "isSuccess q \<longleftrightarrow> en_data q \<noteq> None \<and> en_error q = None"

definition return_path :: "string option \<Rightarrow> string" where
  "return_path from_state = (case from_state of Some p \<Rightarrow> p | None \<Rightarrow> ''/'')"

text \<open>The effect: where the page navigates to, if anywhere.\<close>

definition login_bounce :: "me_response entry \<Rightarrow> string option \<Rightarrow> string option" where
  "login_bounce q from_state =
     (if en_data q \<noteq> None \<and> isSuccess q then Some (return_path from_state) else None)"

record login_page =
  lp_form :: "login_values form"
  lp_pending :: bool
  lp_error :: "js_error option"
  lp_attempts :: "login_values list"
  lp_navigated :: "string option"

definition login_page0 :: login_page where
  "login_page0 = \<lparr>lp_form = login_form0, lp_pending = False, lp_error = None, lp_attempts = [], lp_navigated = None\<rparr>"

definition login_submit :: "(string \<Rightarrow> string) \<Rightarrow> login_page \<Rightarrow> login_page" where
  "login_submit trim st =
     (case onSubmit (login_rules trim) (\<lambda>v. v) (lp_form st) of
        (f, None) \<Rightarrow> st\<lparr>lp_form := f\<rparr>
      | (f, Some v) \<Rightarrow> st\<lparr>lp_form := f, lp_pending := True, lp_error := None, lp_attempts := lp_attempts st @ [v]\<rparr>)"

definition login_done :: "string option \<Rightarrow> js_error + unit \<Rightarrow> login_page \<Rightarrow> login_page" where
  "login_done from_state outcome st =
     (case outcome of
        Inl e \<Rightarrow> st\<lparr>lp_pending := False, lp_error := Some e\<rparr>
      | Inr _ \<Rightarrow> st\<lparr>lp_pending := False, lp_navigated := Some (return_path from_state)\<rparr>)"

text \<open>The red box above the fields.\<close>

definition login_alert :: "login_page \<Rightarrow> string option" where
  "login_alert st = map_option getErrorMessage (lp_error st)"

text \<open>The page leaves for the application exactly when the guard of the application would let the user
  in, so the two can never send a user back and forth: an identity that is still cached while its
  refetch fails keeps the user on the form.\<close>

lemma login_bounces_iff_admitted: "login_bounce q from_state \<noteq> None \<longleftrightarrow> authGuard q = Outlet"
  by (simp add: login_bounce_def isSuccess_def authGuard_Outlet conj_commute)

lemma stale_identity_stays: "login_bounce (entry_settle (Inl e) q) from_state = None"
  by (simp add: login_bounce_def isSuccess_def entry_settle_def)

lemma empty_login_not_sent:
  "trim (lg_username (fm_values (lp_form st))) = [] \<or> lg_password (fm_values (lp_form st)) = [] \<Longrightarrow>
     lp_attempts (login_submit trim st) = lp_attempts st"
  by (auto simp: login_submit_def onSubmit_def form_valid_def login_rules_def)

end
