(* ===== verification/Token_Dialog.thy ===== *)
theory Token_Dialog
  imports Tokens
begin

text \<open>
  The dialog that shows a new token once (\<open>components/Tokens/TokenPlaintextModal.tsx\<close>): the configuration
  snippet, printed by \<open>JSON.stringify\<close> with an indentation of two, and the two copy buttons.
\<close>

subsection \<open>JSON.stringify(v, null, 2)\<close>

definition hex_digit_of :: "nat \<Rightarrow> char" where
  "hex_digit_of d = (if d < 10 then char_of (48 + d) else char_of (87 + d))"

definition json_char :: "char \<Rightarrow> string" where
  "json_char c =
     (if c = CHR 0x22 then [CHR 0x5C, CHR 0x22] else if c = CHR 0x5C then [CHR 0x5C, CHR 0x5C]
      else if c = CHR 0x08 then [CHR 0x5C, CHR ''b''] else if c = CHR 0x0C then [CHR 0x5C, CHR ''f'']
      else if c = CHR 0x0A then [CHR 0x5C, CHR ''n''] else if c = CHR 0x0D then [CHR 0x5C, CHR ''r'']
      else if c = CHR 0x09 then [CHR 0x5C, CHR ''t'']
      else (let n = of_char c :: nat
            in if n < 32 then [CHR 0x5C] @ ''u00'' @ [hex_digit_of (n div 16), hex_digit_of (n mod 16)] else [c]))"

definition json_string :: "string \<Rightarrow> string" where
  "json_string s = [CHR 0x22] @ concat (map json_char s) @ [CHR 0x22]"

definition newline_indent :: "nat \<Rightarrow> string" where
  "newline_indent n = CHR 0x0A # replicate n (CHR 0x20)"

definition json_block :: "char \<Rightarrow> char \<Rightarrow> nat \<Rightarrow> string list \<Rightarrow> string" where
  "json_block opening closing indent parts =
     (if parts = [] then [opening, closing]
      else [opening] @ newline_indent (indent + 2) @ join_with ('','' @ newline_indent (indent + 2)) parts
             @ newline_indent indent @ [closing])"

fun json_text :: "nat \<Rightarrow> json \<Rightarrow> string" where
  "json_text indent JNull = ''null''"
| "json_text indent (JBool b) = (if b then ''true'' else ''false'')"
| "json_text indent (JNum i) = int_str i"
| "json_text indent (JStr s) = json_string s"
| "json_text indent (JArr vs) = json_block CHR ''['' CHR '']'' indent (map (json_text (indent + 2)) vs)"
| "json_text indent (JObj kvs) =
     json_block CHR ''{'' CHR ''}'' indent (map (\<lambda>kv. json_string (fst kv) @ '': '' @ json_text (indent + 2) (snd kv)) kvs)"

subsection \<open>The dialog\<close>

definition mcp_config :: "string \<Rightarrow> string \<Rightarrow> json" where
  "mcp_config origin plaintext =
     JObj [(''mcpServers'', JObj [(''another-s3-manager'',
       JObj [(''type'', JStr ''http''), (''url'', JStr (origin @ ''/mcp/'')),
             (''headers'', JObj [(''Authorization'', JStr (''Bearer '' @ plaintext))])])])]"

definition mcpSnippet :: "string \<Rightarrow> string \<Rightarrow> string" where
  "mcpSnippet origin plaintext = json_text 0 (mcp_config origin plaintext)"

text \<open>A notification is its title, message and colour.\<close>

record plaintext_dialog =
  pd_snippet_open :: bool
  pd_copied :: bool
  pd_clipboard :: "string option"
  pd_notes :: "(string \<times> string \<times> toast_color) list"

definition plaintext_dialog0 :: plaintext_dialog where
  "plaintext_dialog0 = \<lparr>pd_snippet_open = False, pd_copied = False, pd_clipboard = None, pd_notes = []\<rparr>"

text \<open>\<open>written\<close> is the outcome of the clipboard.\<close>

definition copy_text :: "js_error + unit \<Rightarrow> string \<Rightarrow> plaintext_dialog \<Rightarrow> plaintext_dialog" where
  "copy_text written text_to_copy st =
     (case written of
        Inr _ \<Rightarrow> st\<lparr>pd_copied := True, pd_clipboard := Some text_to_copy,
          pd_notes := pd_notes st @ [(''Copied'', ''Token copied to clipboard'', Green)]\<rparr>
      | Inl e \<Rightarrow> st\<lparr>pd_notes := pd_notes st @ [(''Copy failed'', ''Use manual copy'', Red)]\<rparr>)"

definition copied_timeout :: "plaintext_dialog \<Rightarrow> plaintext_dialog" where
  "copied_timeout st = st\<lparr>pd_copied := False\<rparr>"

definition snippet_toggle :: "plaintext_dialog \<Rightarrow> plaintext_dialog" where
  "snippet_toggle st = st\<lparr>pd_snippet_open := \<not> pd_snippet_open st\<rparr>"

text \<open>The texts of the warning, with the note for an administrator.\<close>

definition plaintext_warning :: "string option \<Rightarrow> string list" where
  "plaintext_warning noteForAdmin =
     ''Save it in your secret manager NOW. If you lose it, revoke and create a new one.''
     # (if truthy noteForAdmin then [the noteForAdmin] else [])"

subsection \<open>The snippet carries the token\<close>

lemma includes_inside: "js_includes s p \<Longrightarrow> js_includes (a @ s @ b) p"
  unfolding js_includes_iff by (metis append.assoc)

lemma includes_block_last: "parts \<noteq> [] \<Longrightarrow> js_includes (last parts) p \<Longrightarrow> js_includes (json_block x y n parts) p"
proof -
  assume ne: "parts \<noteq> []" and inc: "js_includes (last parts) p"
  obtain ps where ps: "parts = ps @ [last parts]" using ne by (metis append_butlast_last_id)
  have "\<exists>a. join_with d parts = a @ last parts" for d
    by (subst ps, cases "ps = []") (auto simp: join_with_snoc)
  then obtain a where "join_with ('','' @ newline_indent (n + 2)) parts = a @ last parts" by blast
  then have "json_block x y n parts
      = ([x] @ newline_indent (n + 2) @ a) @ last parts @ (newline_indent n @ [y])"
    using ne by (simp add: json_block_def)
  then show ?thesis by (simp only: includes_inside[OF inc])
qed

lemma includes_field_last:
  assumes "js_includes (json_text (n + 2) v) p"
  shows "js_includes (json_text n (JObj (kvs @ [(k, v)]))) p"
proof -
  have "js_includes ((json_string k @ '': '') @ json_text (n + 2) v @ []) p"
    by (rule includes_inside[OF assms])
  then have "js_includes (last (map (\<lambda>kv. json_string (fst kv) @ '': '' @ json_text (n + 2) (snd kv)) (kvs @ [(k, v)]))) p"
    by (simp only: map_append list.map last_snoc fst_conv snd_conv append_assoc append_Nil2)
  then show ?thesis unfolding json_text.simps(6) by (intro includes_block_last) simp_all
qed

text \<open>The snippet contains the token, quoted once, whatever its characters; a token without quotes,
  backslashes and control characters appears literally behind the word Bearer.\<close>

lemma snippet_has_token: "js_includes (mcpSnippet origin plaintext) (json_string (''Bearer '' @ plaintext))"
proof -
  let ?s = "''Bearer '' @ plaintext"
  have "js_includes (json_text (0 + 2 + 2 + 2 + 2) (JStr ?s)) (json_string ?s)"
    using includes_inside[of "json_string ?s" "json_string ?s" "[]" "[]"]
    by (simp only: json_text.simps append_Nil append_Nil2) (metis append_Nil append_Nil2 js_includes_iff)
  note includes_field_last[OF this, of "[]" "''Authorization''", unfolded append_Nil]
  note includes_field_last[OF this, of "[(''type'', JStr ''http''), (''url'', JStr (origin @ ''/mcp/''))]" "''headers''",
    unfolded append_Cons append_Nil]
  note includes_field_last[OF this, of "[]" "''another-s3-manager''", unfolded append_Nil]
  note includes_field_last[OF this, of "[]" "''mcpServers''", unfolded append_Nil]
  then show ?thesis unfolding mcpSnippet_def mcp_config_def append_Cons append_Nil .
qed

lemma plain_json_string:
  assumes "list_all (\<lambda>c. c \<noteq> CHR 0x22 \<and> c \<noteq> CHR 0x5C \<and> 32 \<le> (of_char c :: nat)) s"
  shows "json_string s = [CHR 0x22] @ s @ [CHR 0x22]"
proof -
  have "json_char c = [c]" if "c \<noteq> CHR 0x22" "c \<noteq> CHR 0x5C" "32 \<le> (of_char c :: nat)" for c
    using that by (auto simp: json_char_def Let_def)
  then have "concat (map json_char s) = s" using assms by (induction s) auto
  then show ?thesis by (simp add: json_string_def)
qed

lemma copied_text_is_in_clipboard:
  "pd_clipboard (copy_text (Inr ()) s st) = Some s" "pd_clipboard (copy_text (Inl e) s st) = pd_clipboard st"
  by (simp_all add: copy_text_def)

end
