(* ===== verification/Delete_Run.thy ===== *)
theory Delete_Run
  imports Bulk_Delete Machine
begin

text \<open>
  A bulk delete while it runs: \<open>confirmDelete\<close> of \<open>components/FileBrowser/FileBrowser.tsx\<close> as the
  asynchronous function it is.  It stops at every \<open>await\<close>: on the answer to one request, and on the
  refetch after the last one.  Between two stops the user may press Cancel, as long as the progress
  toast is shown.  What the closure captured when the dialog was confirmed does not change: the
  bucket, the role, the folder, the listing and the names.

  \<open>Bulk_Delete\<close> gives all the answers at once; the last section shows that the two agree.
\<close>

subsection \<open>State and steps\<close>

datatype delete_phase = Deleting nat | Refetching | Finished

record delete_run =
  dr_bucket :: string
  dr_roleId :: string
  dr_path :: string
  dr_items :: "file_entry list"
  dr_names :: "string list"
  dr_cancelRef :: bool
  dr_phase :: delete_phase
  dr_batch :: batch

definition dr_showProgress :: "delete_run \<Rightarrow> bool" where
  "dr_showProgress r \<longleftrightarrow> 1 < length (dr_names r)"

definition dr_target :: "delete_run \<Rightarrow> string \<Rightarrow> string" where
  "dr_target r = delete_path (dr_path r) (dr_items r)"

text \<open>The head of the loop: the flag is looked at, and the i-th request is sent unless the loop ends.\<close>

definition next_request :: "nat \<Rightarrow> delete_run \<Rightarrow> delete_run" where
  "next_request i r =
     (let b = look_at_flag (dr_cancelRef r) (dr_batch r)
      in if i < length (dr_names r) \<and> \<not> bd_cancelled b
         then r\<lparr>dr_batch := renderProgress (dr_showProgress r) i (dr_names r ! i) b, dr_phase := Deleting i\<rparr>
         else r\<lparr>dr_batch := b, dr_phase := Refetching\<rparr>)"

definition run0 :: "string \<Rightarrow> string \<Rightarrow> string \<Rightarrow> file_entry list \<Rightarrow> string list \<Rightarrow> delete_run" where
  "run0 bucket roleId path items names =
     \<lparr>dr_bucket = bucket, dr_roleId = roleId, dr_path = path, dr_items = items, dr_names = names,
      dr_cancelRef = False, dr_phase = Deleting 0,
      dr_batch = (if 1 < length names then batch0\<lparr>bd_progress := [(0, hd names)]\<rparr> else batch0)\<rparr>"

definition start_run :: "string \<Rightarrow> string \<Rightarrow> string \<Rightarrow> file_entry list \<Rightarrow> string list \<Rightarrow> delete_run option" where
  "start_run bucket roleId path items names =
     (if names = [] then None else Some (next_request 0 (run0 bucket roleId path items names)))"

text \<open>The continuation of \<open>await deleteFile(\<dots>)\<close>.\<close>

definition delete_answered :: "nat \<Rightarrow> js_error + unit \<Rightarrow> delete_run \<Rightarrow> delete_run" where
  "delete_answered i outcome r =
     (let nm = dr_names r ! i; fullPath = dr_target r nm
      in case outcome of
           Inr _ \<Rightarrow> next_request (i + 1) (r\<lparr>dr_batch := delete_ok fullPath (dr_batch r)\<rparr>)
         | Inl e \<Rightarrow>
             (let b = delete_failed nm fullPath e (dr_batch r)
              in if bd_aborted b then r\<lparr>dr_batch := b, dr_phase := Refetching\<rparr>
                 else next_request (i + 1) (r\<lparr>dr_batch := b\<rparr>)))"

datatype dr_event = DrAnswer "js_error + unit" | DrCancel | DrRefetched

fun dr_enabled :: "delete_run \<Rightarrow> dr_event \<Rightarrow> bool" where
  "dr_enabled r (DrAnswer outcome) \<longleftrightarrow> (case dr_phase r of Deleting i \<Rightarrow> True | _ \<Rightarrow> False)"
| "dr_enabled r DrCancel \<longleftrightarrow> dr_showProgress r \<and> (case dr_phase r of Deleting i \<Rightarrow> True | _ \<Rightarrow> False)"
| "dr_enabled r DrRefetched \<longleftrightarrow> dr_phase r = Refetching"

fun dr_step :: "delete_run \<Rightarrow> dr_event \<Rightarrow> delete_run" where
  "dr_step r (DrAnswer outcome) =
     (case dr_phase r of Deleting i \<Rightarrow> delete_answered i outcome r | _ \<Rightarrow> r)"
| "dr_step r DrCancel = r\<lparr>dr_cancelRef := True\<rparr>"
| "dr_step r DrRefetched = r\<lparr>dr_phase := Finished\<rparr>"

text \<open>The summary toast of a finished run.\<close>

definition dr_toast :: "delete_run \<Rightarrow> toast option" where
  "dr_toast r = delete_toast (length (dr_names r)) (dr_batch r)"

definition dr_outcome :: "delete_run \<Rightarrow> delete_outcome" where
  "dr_outcome r = \<lparr>do_batch = dr_batch r,
     do_invalidated = folder_invalidation (dr_bucket r) (dr_roleId r) (dr_path r),
     do_counter_after = 0, do_toast = dr_toast r, do_clearSelection = True\<rparr>"

definition captured :: "delete_run \<Rightarrow> string \<times> string \<times> string \<times> file_entry list \<times> string list" where
  "captured r = (dr_bucket r, dr_roleId r, dr_path r, dr_items r, dr_names r)"

subsection \<open>Basic facts\<close>

lemma next_request_simps [simp]:
  "dr_names (next_request i r) = dr_names r" "dr_path (next_request i r) = dr_path r"
  "dr_items (next_request i r) = dr_items r" "dr_bucket (next_request i r) = dr_bucket r"
  "dr_roleId (next_request i r) = dr_roleId r" "dr_cancelRef (next_request i r) = dr_cancelRef r"
  "bd_log (dr_batch (next_request i r)) = bd_log (dr_batch r)"
  "batch_inv (dr_batch (next_request i r)) = batch_inv (dr_batch r)"
  "bd_aborted (dr_batch (next_request i r)) = bd_aborted (dr_batch r)"
  by (simp_all add: next_request_def Let_def)

lemma delete_answered_simps [simp]:
  "dr_names (delete_answered i out r) = dr_names r" "dr_path (delete_answered i out r) = dr_path r"
  "dr_items (delete_answered i out r) = dr_items r" "dr_bucket (delete_answered i out r) = dr_bucket r"
  "dr_roleId (delete_answered i out r) = dr_roleId r" "dr_cancelRef (delete_answered i out r) = dr_cancelRef r"
  by (simp_all add: delete_answered_def Let_def split: sum.split)

lemma run_update_simps [simp]:
  "dr_target (r\<lparr>dr_batch := b\<rparr>) = dr_target r" "dr_target (r\<lparr>dr_phase := ph\<rparr>) = dr_target r"
  "dr_target (r\<lparr>dr_cancelRef := c\<rparr>) = dr_target r" "dr_target (next_request i r) = dr_target r"
  "dr_showProgress (r\<lparr>dr_batch := b\<rparr>) = dr_showProgress r" "dr_showProgress (r\<lparr>dr_phase := ph\<rparr>) = dr_showProgress r"
  "dr_showProgress (r\<lparr>dr_cancelRef := c\<rparr>) = dr_showProgress r"
  "dr_showProgress (next_request i r) = dr_showProgress r"
  by (simp_all add: dr_target_def dr_showProgress_def)

lemma captured_step [simp]: "captured (dr_step r ev) = captured r"
  by (cases ev) (simp_all add: captured_def split: delete_phase.split)

lemma dr_target_cong: "captured r = captured r' \<Longrightarrow> dr_target r = dr_target r'"
  by (simp add: captured_def dr_target_def)

lemma captured_run: "run_by dr_enabled dr_step evs r = Some r' \<Longrightarrow> captured r' = captured r"
  by (induction evs arbitrary: r) (auto split: if_splits)

lemma next_request_phase:
  "dr_phase (next_request i r) = Deleting i \<and> i < length (dr_names r) \<and> \<not> bd_cancelled (look_at_flag (dr_cancelRef r) (dr_batch r))
   \<or> dr_phase (next_request i r) = Refetching"
  by (simp add: next_request_def Let_def)

text \<open>Every stop of a run: the request under way is that of a name of the batch, all names before it
  are answered, and the requests follow the order of the names.\<close>

definition run_inv :: "delete_run \<Rightarrow> bool" where
  "run_inv r \<longleftrightarrow>
     batch_inv (dr_batch r)
     \<and> (\<exists>k\<le>length (dr_names r). map fst (bd_log (dr_batch r)) = map (dr_target r) (take k (dr_names r)))
     \<and> (\<forall>i. dr_phase r = Deleting i \<longrightarrow> i < length (dr_names r) \<and> length (bd_log (dr_batch r)) = i
          \<and> \<not> bd_aborted (dr_batch r))"

lemma run_inv_next:
  assumes "batch_inv (dr_batch r)" "\<not> bd_aborted (dr_batch r)"
    and "map fst (bd_log (dr_batch r)) = map (dr_target r) (take i (dr_names r))" "i \<le> length (dr_names r)"
  shows "run_inv (next_request i r)"
proof -
  have "length (bd_log (dr_batch r)) = i" using arg_cong[OF assms(3), of length] assms(4) by simp
  then show ?thesis using assms next_request_phase[of i r] by (auto simp: run_inv_def)
qed

lemma run_inv_start: "start_run bucket roleId path items names = Some r \<Longrightarrow> run_inv r"
  using batch_inv0 by (auto simp: start_run_def run0_def batch0_def split: if_splits intro!: run_inv_next)

lemma run_inv_answer:
  assumes "run_inv r" "dr_phase r = Deleting i"
  shows "run_inv (delete_answered i outcome r)"
proof -
  let ?p = "dr_target r (dr_names r ! i)"
  from assms have i: "i < length (dr_names r)" "length (bd_log (dr_batch r)) = i" and inv: "batch_inv (dr_batch r)"
    and na: "\<not> bd_aborted (dr_batch r)" by (auto simp: run_inv_def)
  from assms obtain k where k: "k \<le> length (dr_names r)"
    "map fst (bd_log (dr_batch r)) = map (dr_target r) (take k (dr_names r))" by (auto simp: run_inv_def)
  then have "k = i" using i(2) by (metis length_map length_take min_absorb2)
  with k have "map fst (bd_log (dr_batch r)) = map (dr_target r) (take i (dr_names r))" by simp
  then have log: "map fst (bd_log (dr_batch r)) @ [?p] = map (dr_target r) (take (i + 1) (dr_names r))"
    using i by (simp add: take_Suc_conv_app_nth)
  show ?thesis
  proof (cases outcome)
    case (Inr u)
    have "batch_inv (delete_ok ?p (dr_batch r))" using batch_inv_ok inv na by blast
    moreover have "\<not> bd_aborted (delete_ok ?p (dr_batch r))" using na by (simp add: delete_ok_def)
    moreover have "map fst (bd_log (delete_ok ?p (dr_batch r))) = map (dr_target r) (take (i + 1) (dr_names r))"
      using log by (simp add: delete_ok_def)
    ultimately show ?thesis using i Inr by (simp add: delete_answered_def Let_def run_inv_next)
  next
    case (Inl e)
    let ?b = "delete_failed (dr_names r ! i) ?p e (dr_batch r)"
    have b: "batch_inv ?b" "map fst (bd_log ?b) = map (dr_target r) (take (i + 1) (dr_names r))"
      using batch_inv_failed inv na log by (auto simp: delete_failed_def)
    show ?thesis
    proof (cases "bd_aborted ?b")
      case True
      with Inl b i show ?thesis
        by (auto simp: delete_answered_def Let_def run_inv_def intro!: exI[of _ "i + 1"])
    next
      case False
      with Inl b i show ?thesis by (simp add: delete_answered_def Let_def run_inv_next)
    qed
  qed
qed

lemma run_inv_step: "run_inv r \<Longrightarrow> dr_enabled r ev \<Longrightarrow> run_inv (dr_step r ev)"
  using run_inv_answer by (cases ev) (auto simp: run_inv_def dr_target_def split: delete_phase.splits)

interpretation delete_machine: invariant "the (start_run bucket roleId path items (n # names))" dr_enabled dr_step run_inv
proof
  show "run_inv (the (start_run bucket roleId path items (n # names)))"
    using run_inv_start[of bucket roleId path items "n # names"] by (auto simp: start_run_def)
qed (rule run_inv_step)


subsection \<open>A run ends\<close>

definition is_answer :: "dr_event \<Rightarrow> bool" where
  "is_answer ev \<longleftrightarrow> ev \<noteq> DrCancel"

text \<open>The answers a run still waits for at most, the refetch included.\<close>

definition stops_left :: "delete_run \<Rightarrow> nat" where
  "stops_left r = (case dr_phase r of Deleting i \<Rightarrow> length (dr_names r) - i + 1 | Refetching \<Rightarrow> 1 | Finished \<Rightarrow> 0)"

lemma stops_left_next: "stops_left (next_request i r) \<le> length (dr_names r) - i + 1"
  by (simp add: stops_left_def next_request_def Let_def)

lemma stops_left_step:
  assumes "run_inv r" "dr_enabled r ev"
  shows "if is_answer ev then stops_left (dr_step r ev) < stops_left r else stops_left (dr_step r ev) = stops_left r"
proof (cases ev)
  case (DrAnswer outcome)
  with assms(2) obtain i where i: "dr_phase r = Deleting i" by (auto split: delete_phase.splits)
  with assms(1) have lt: "i < length (dr_names r)" by (simp add: run_inv_def)
  have "stops_left (next_request (i + 1) (r\<lparr>dr_batch := b\<rparr>)) \<le> length (dr_names r) - (i + 1) + 1" for b
    using stops_left_next[of "i + 1" "r\<lparr>dr_batch := b\<rparr>"] by simp
  moreover have "stops_left (r\<lparr>dr_batch := b, dr_phase := Refetching\<rparr>) = 1" for b by (simp add: stops_left_def)
  ultimately have "stops_left (delete_answered i outcome r) \<le> length (dr_names r) - (i + 1) + 1"
    by (simp add: delete_answered_def Let_def split: sum.split)
  with i lt DrAnswer show ?thesis by (simp add: is_answer_def stops_left_def)
qed (use assms(2) in \<open>simp_all add: is_answer_def stops_left_def split: delete_phase.split\<close>)

lemma run_stops_bounded:
  assumes "run_inv r" "run_by dr_enabled dr_step evs r = Some r'"
  shows "length (filter is_answer evs) + stops_left r' \<le> stops_left r"
  using assms
proof (induction evs arbitrary: r)
  case (Cons ev evs)
  then have en: "dr_enabled r ev" and run: "run_by dr_enabled dr_step evs (dr_step r ev) = Some r'"
    by (simp_all split: if_splits)
  from Cons.IH[OF run_inv_step[OF Cons.prems(1) en] run] stops_left_step[OF Cons.prems(1) en]
  show ?case by (auto split: if_splits)
qed simp

lemma stops_left_start: "start_run bucket roleId path items names = Some r \<Longrightarrow> stops_left r \<le> length names + 1"
  by (auto simp: start_run_def run0_def stops_left_def next_request_def Let_def split: if_splits)

subsection \<open>The run against the loop\<close>

text \<open>The answers of a list of events, and whether Cancel is clicked between the look before the k-th of
  them and the next.\<close>

fun answers_of :: "dr_event list \<Rightarrow> (js_error + unit) list" where
  "answers_of [] = []"
| "answers_of (DrAnswer outcome # evs) = outcome # answers_of evs"
| "answers_of (ev # evs) = answers_of evs"

fun clicks_in :: "dr_event list \<Rightarrow> nat \<Rightarrow> bool" where
  "clicks_in [] k \<longleftrightarrow> False"
| "clicks_in (DrCancel # evs) k \<longleftrightarrow> k = 1 \<or> clicks_in evs k"
| "clicks_in (DrAnswer outcome # evs) k \<longleftrightarrow> 1 < k \<and> clicks_in evs (k - 1)"
| "clicks_in (DrRefetched # evs) k \<longleftrightarrow> clicks_in evs k"

lemma answers_of_append: "answers_of (evs @ evs') = answers_of evs @ answers_of evs'"
  by (induction evs rule: answers_of.induct) simp_all

text \<open>What the loop does from the i-th request on.\<close>

definition loop_from ::
  "(nat \<Rightarrow> string \<Rightarrow> js_error + unit) \<Rightarrow> (nat \<Rightarrow> bool) \<Rightarrow> delete_run \<Rightarrow> nat \<Rightarrow> batch" where
  "loop_from del clicked r i =
     (let nm = dr_names r ! i; p = dr_target r nm;
          rest = delete_loop del clicked (dr_target r) (dr_showProgress r) (i + 1) (drop (i + 1) (dr_names r))
      in case del i p of
           Inr _ \<Rightarrow> rest (delete_ok p (dr_batch r))
         | Inl e \<Rightarrow> (let b = delete_failed nm p e (dr_batch r) in if bd_aborted b then b else rest b))"

lemma loop_from_next:
  assumes "i \<le> length (dr_names r)"
  shows "delete_loop del clicked (dr_target r) (dr_showProgress r) i (drop i (dr_names r)) (dr_batch r)
    = (let r' = next_request i (r\<lparr>dr_cancelRef := clicked i\<rparr>)
       in if dr_phase r' = Refetching then dr_batch r' else loop_from del clicked r' i)"
proof (cases "i < length (dr_names r)")
  case True
  then have "drop i (dr_names r) = dr_names r ! i # drop (i + 1) (dr_names r)" by (simp add: Cons_nth_drop_Suc)
  with True show ?thesis
    by (simp add: next_request_def loop_from_def Let_def split: sum.split)
next
  case False
  with assms show ?thesis by (simp add: next_request_def Let_def)
qed

lemma loop_from_cancelRef [simp]: "loop_from del clicked (r\<lparr>dr_cancelRef := c\<rparr>) i = loop_from del clicked r i"
  by (simp add: loop_from_def Let_def split: sum.split)

lemma next_request_cancelRef:
  "dr_batch (next_request i (r\<lparr>dr_cancelRef := c\<rparr>)) = dr_batch (next_request i r) \<and>
   dr_phase (next_request i (r\<lparr>dr_cancelRef := c\<rparr>)) = dr_phase (next_request i r)"
  if "c = dr_cancelRef r"
  using that by (simp add: next_request_def)

text \<open>One answer, in the loop and in the run.\<close>

lemma loop_from_answer:
  assumes "i < length (dr_names r)" "del i (dr_target r (dr_names r ! i)) = outcome" "clicked (i + 1) = dr_cancelRef r"
  shows "loop_from del clicked r i
    = (let r' = delete_answered i outcome r
       in if dr_phase r' = Refetching then dr_batch r' else loop_from del clicked r' (i + 1))"
proof -
  have next_eq: "delete_loop del clicked (dr_target r) (dr_showProgress r) (i + 1) (drop (i + 1) (dr_names r)) b
      = (let r' = next_request (i + 1) (r\<lparr>dr_batch := b\<rparr>)
         in if dr_phase r' = Refetching then dr_batch r' else loop_from del clicked r' (i + 1))" for b
    using loop_from_next[of "i + 1" "r\<lparr>dr_batch := b\<rparr>" del clicked] assms(1,3)
    by simp
  show ?thesis
  proof (cases outcome)
    case (Inr u)
    with assms(2) show ?thesis
      by (simp add: loop_from_def[of _ _ r] delete_answered_def Let_def next_eq[simplified Let_def, simplified])
  next
    case (Inl e)
    with assms(2) show ?thesis
      by (simp add: loop_from_def[of _ _ r] delete_answered_def Let_def next_eq[simplified Let_def, simplified])
  qed
qed

text \<open>From any stop on, a list of events that brings the run to its refetch leaves the batch the loop
  leaves when it is given the answers and clicks of the list.\<close>

lemma refetching_run:
  "run_by dr_enabled dr_step evs r = Some r' \<Longrightarrow> dr_phase r \<in> {Refetching, Finished} \<Longrightarrow> dr_batch r' = dr_batch r"
proof (induction evs arbitrary: r)
  case (Cons ev evs)
  then show ?case by (cases ev) (auto split: if_splits)
qed simp

lemma run_is_loop:
  assumes "run_by dr_enabled dr_step evs r = Some r'" "dr_phase r = Deleting i" "run_inv r"
    and "dr_phase r' \<in> {Refetching, Finished}"
    and "\<And>j p. j < length (answers_of evs) \<Longrightarrow> del (i + j) p = answers_of evs ! j"
    and "\<And>j. clicked (i + 1 + j) \<longleftrightarrow> (j = 0 \<and> dr_cancelRef r) \<or> clicks_in evs (j + 1)"
  shows "dr_batch r' = loop_from del clicked r i"
  using assms
proof (induction evs arbitrary: r i)
  case Nil
  then show ?case by auto
next
  case (Cons ev evs)
  from Cons.prems(1) have en: "dr_enabled r ev" and run: "run_by dr_enabled dr_step evs (dr_step r ev) = Some r'"
    by (simp_all split: if_splits)
  show ?case
  proof (cases ev)
    case DrCancel
    have "dr_batch r' = loop_from del clicked (dr_step r ev) i"
      using Cons.prems DrCancel run run_inv_step[OF Cons.prems(3) en]
      by (intro Cons.IH) auto
    with DrCancel show ?thesis by simp
  next
    case DrRefetched
    with en Cons.prems(2) show ?thesis by simp
  next
    case (DrAnswer outcome)
    let ?r = "delete_answered i outcome r"
    have step: "dr_step r ev = ?r" using DrAnswer Cons.prems(2) by simp
    have i: "i < length (dr_names r)" using Cons.prems(2,3) by (simp add: run_inv_def)
    have del: "del i p = outcome" for p using Cons.prems(5)[of 0 p] DrAnswer by simp
    have click: "clicked (i + 1) = dr_cancelRef r" using Cons.prems(6)[of 0] DrAnswer by simp
    note eq = loop_from_answer[of i r del outcome clicked, OF i del click]
    show ?thesis
    proof (cases "dr_phase ?r = Refetching")
      case True
      with eq refetching_run[OF run] step show ?thesis by simp
    next
      case False
      have "dr_phase ?r = Deleting (i + 1) \<and> \<not> dr_cancelRef r" using False next_request_phase
        by (auto simp: delete_answered_def Let_def look_at_flag_def next_request_def split: sum.splits if_splits)
      then have "dr_batch r' = loop_from del clicked ?r (i + 1)"
        using run step run_inv_step[OF Cons.prems(3) en] Cons.prems(4) DrAnswer
          Cons.prems(5)[of "Suc _"] Cons.prems(6)[of "Suc _"]
        by (intro Cons.IH) auto
      with eq False show ?thesis by simp
    qed
  qed
qed

lemma clicks_need_progress:
  "run_by dr_enabled dr_step evs r = Some r' \<Longrightarrow> \<not> dr_showProgress r \<Longrightarrow> \<not> clicks_in evs k"
proof (induction evs arbitrary: r k)
  case (Cons ev evs)
  then show ?case
    by (cases ev) (auto split: if_splits delete_phase.splits simp: delete_answered_def Let_def split: sum.splits)
qed simp

lemma clicks_in_0: "\<not> clicks_in evs 0"
proof (induction evs)
  case (Cons ev evs)
  then show ?case by (cases ev) simp_all
qed simp

text \<open>A finished run has the outcome of the loop that is given its answers and clicks at once.\<close>

lemma delete_run_refines_loop:
  assumes "start_run bucket roleId path items names = Some r"
    and "run_by dr_enabled dr_step evs r = Some r'" and "dr_phase r' = Finished"
  shows "confirmDelete (\<lambda>i p. answers_of evs ! i) (clicks_in evs) bucket roleId path items names = Some (dr_outcome r')"
proof -
  let ?del = "\<lambda>i p. answers_of evs ! i"
  let ?clicked = "if dr_showProgress r then clicks_in evs else (\<lambda>_. False)"
  let ?start = "run0 bucket roleId path items names"
  from assms(1) have ne: "names \<noteq> []" and r: "r = next_request 0 ?start" by (simp_all add: start_run_def split: if_splits)
  have "captured r' = captured ?start" using captured_run[OF assms(2)] r by (simp add: captured_def run0_def)
  then have fields: "dr_bucket r' = bucket" "dr_roleId r' = roleId" "dr_path r' = path" "dr_names r' = names"
    by (simp_all add: captured_def run0_def)
  have noclick: "?clicked = clicks_in evs" using clicks_need_progress[OF assms(2)] by auto
  have first: "dr_phase r = Deleting 0 \<and> \<not> dr_cancelRef r"
    using r ne by (auto simp: next_request_def look_at_flag_def batch0_def run0_def Let_def)
  have "?start\<lparr>dr_cancelRef := clicks_in evs 0\<rparr> = ?start" using clicks_in_0 by (simp add: run0_def)
  with loop_from_next[of 0 ?start ?del ?clicked] first r noclick
  have "delete_loop ?del ?clicked (delete_path path items) (1 < length names) 0 names (dr_batch ?start)
      = loop_from ?del ?clicked r 0"
    by (simp add: Let_def dr_target_def dr_showProgress_def run0_def)
  also have "\<dots> = dr_batch r'"
    using run_is_loop[of evs r r' 0 ?del ?clicked] assms first run_inv_start[OF assms(1)] noclick by simp
  finally show ?thesis
    using ne fields r noclick
    by (simp add: confirmDelete_def Let_def dr_outcome_def dr_toast_def dr_showProgress_def run0_def split: if_splits)
qed

text \<open>Conversely the answers and clicks given to the loop are a list of events of the run.\<close>

lemma drive_run:
  assumes "dr_phase r = Deleting i" "run_inv r" "\<not> dr_cancelRef r"
  shows "\<exists>evs r'. run_by dr_enabled dr_step evs r = Some r' \<and> dr_phase r' = Finished
    \<and> dr_batch r' = loop_from del (if dr_showProgress r then clicked else (\<lambda>_. False)) r i
    \<and> (\<forall>j<length (answers_of evs). answers_of evs ! j = del (i + j) (dr_target r (dr_names r ! (i + j))))"
  using assms
proof (induction "length (dr_names r) - i" arbitrary: r i rule: less_induct)
  case less
  let ?clicked = "if dr_showProgress r then clicked else (\<lambda>_. False)"
  let ?c = "?clicked (i + 1)" and ?out = "del i (dr_target r (dr_names r ! i))"
  let ?r1 = "r\<lparr>dr_cancelRef := ?c\<rparr>"
  let ?r2 = "delete_answered i ?out ?r1"
  let ?evs = "(if ?c then [DrCancel] else []) @ [DrAnswer ?out]"
  have i: "i < length (dr_names r)" using less.prems by (simp add: run_inv_def)
  have same: "r\<lparr>dr_cancelRef := False\<rparr> = r" using less.prems(3) by simp
  have answers: "answers_of (?evs @ es) = ?out # answers_of es" for es by (simp add: answers_of_append)
  have run: "run_by dr_enabled dr_step ?evs r = Some ?r2"
    using less.prems(1) by (cases ?c) (simp_all add: same split: if_splits)
  have more: "run_by dr_enabled dr_step (?evs @ es) r = run_by dr_enabled dr_step es ?r2" for es
    by (subst run_by_append) (simp only: run option.case)
  have inv: "run_inv ?r2" using less.prems by (intro run_inv_answer) (auto simp: run_inv_def)
  have eq: "loop_from del ?clicked r i
      = (if dr_phase ?r2 = Refetching then dr_batch ?r2 else loop_from del ?clicked ?r2 (i + 1))"
    using loop_from_answer[of i ?r1 del ?out ?clicked] i by (simp add: Let_def)
  show ?case
  proof (cases "dr_phase ?r2 = Refetching")
    case True
    then have ends: "run_by dr_enabled dr_step (?evs @ [DrRefetched]) r = Some (?r2\<lparr>dr_phase := Finished\<rparr>)"
      unfolding more by simp
    show ?thesis using True eq
      by (intro exI[of _ "?evs @ [DrRefetched]"] exI[of _ "?r2\<lparr>dr_phase := Finished\<rparr>"] conjI ends)
        (simp_all only: answers, simp_all)
  next
    case False
    then have "dr_phase ?r2 = Deleting (i + 1) \<and> \<not> ?c" using next_request_phase
      by (auto simp: delete_answered_def Let_def look_at_flag_def next_request_def split: sum.splits if_splits)
    moreover have "dr_showProgress ?r2 = dr_showProgress r" by (simp add: dr_showProgress_def)
    ultimately obtain evs r' where "run_by dr_enabled dr_step evs ?r2 = Some r'" "dr_phase r' = Finished"
      "dr_batch r' = loop_from del ?clicked ?r2 (i + 1)"
      "\<forall>j<length (answers_of evs). answers_of evs ! j = del (i + 1 + j) (dr_target ?r2 (dr_names ?r2 ! (i + 1 + j)))"
      using less.hyps[of ?r2 "i + 1"] inv diff_less_mono2[OF lessI i] by auto
    note rest = this
    from rest(1) have run: "run_by dr_enabled dr_step (?evs @ evs) r = Some r'" unfolding more .
    have "dr_target ?r2 = dr_target r" by (rule dr_target_cong) (simp add: captured_def)
    then have "\<forall>j<length (answers_of (?evs @ evs)). answers_of (?evs @ evs) ! j = del (i + j) (dr_target r (dr_names r ! (i + j)))"
      unfolding answers using rest(4) by (auto simp: less_Suc_eq_0_disj)
    then show ?thesis using eq False rest(3)
      by (intro exI[of _ "?evs @ evs"] exI[of _ r'] conjI run rest(2)) simp_all
  qed
qed

lemma loop_has_run:
  assumes "start_run bucket roleId path items names = Some r" "\<not> clicked 0"
  shows "\<exists>evs r'. run_by dr_enabled dr_step evs r = Some r' \<and> dr_phase r' = Finished
    \<and> confirmDelete del clicked bucket roleId path items names = Some (dr_outcome r')
    \<and> (\<forall>i<length (answers_of evs). answers_of evs ! i = del i (delete_path path items (names ! i)))"
proof -
  let ?start = "run0 bucket roleId path items names" and ?cl = "if 1 < length names then clicked else (\<lambda>_. False)"
  from assms(1) have ne: "names \<noteq> []" and r: "r = next_request 0 ?start" by (simp_all add: start_run_def split: if_splits)
  have first: "dr_phase r = Deleting 0 \<and> \<not> dr_cancelRef r"
    using r ne by (auto simp: next_request_def look_at_flag_def batch0_def run0_def Let_def)
  have kept: "dr_showProgress r = (1 < length names)" "dr_target r = delete_path path items" "dr_names r = names"
    using r by (simp_all add: dr_showProgress_def dr_target_def run0_def)
  from drive_run[of r 0 del clicked] first run_inv_start[OF assms(1)] kept obtain evs r' where
    run: "run_by dr_enabled dr_step evs r = Some r'" "dr_phase r' = Finished" "dr_batch r' = loop_from del ?cl r 0"
    and ans: "\<forall>i<length (answers_of evs). answers_of evs ! i = del i (delete_path path items (names ! i))" by auto
  have "?start\<lparr>dr_cancelRef := ?cl 0\<rparr> = ?start" using assms(2) by (simp add: run0_def)
  then have batch: "delete_loop del ?cl (delete_path path items) (1 < length names) 0 names (dr_batch ?start) = dr_batch r'"
    using loop_from_next[of 0 ?start del ?cl] first run(3) r
    by (simp add: Let_def dr_target_def dr_showProgress_def run0_def)
  have "captured r' = captured ?start" using captured_run[OF run(1)] r by (simp add: captured_def run0_def)
  then have "confirmDelete del clicked bucket roleId path items names = Some (dr_outcome r')"
    using batch ne by (auto simp: confirmDelete_def Let_def dr_outcome_def dr_toast_def captured_def run0_def)
  with run ans show ?thesis by blast
qed

text \<open>C7: a bulk delete that is answered request by request refines the loop that is given everything at
  once.  Every finished history has exactly the outcome of \<open>confirmDelete\<close> under the history's own
  answers and its own clicks on Cancel: the same requests with the same results in the same order, the
  same progress renders, counters, refreshed queries and summary.  And nothing is lost: for all
  answers and clicks there is a finished history whose answers are these and that has the outcome of
  \<open>confirmDelete\<close> under them.\<close>

theorem delete_runs_are_loops:
  assumes "start_run bucket roleId path items names = Some r"
  shows "(\<forall>evs r'. run_by dr_enabled dr_step evs r = Some r' \<and> dr_phase r' = Finished \<longrightarrow>
      confirmDelete (\<lambda>i p. answers_of evs ! i) (clicks_in evs) bucket roleId path items names = Some (dr_outcome r'))
    \<and> (\<forall>del clicked. \<not> clicked 0 \<longrightarrow>
      (\<exists>evs r'. run_by dr_enabled dr_step evs r = Some r' \<and> dr_phase r' = Finished
        \<and> confirmDelete del clicked bucket roleId path items names = Some (dr_outcome r')
        \<and> (\<forall>i<length (answers_of evs). answers_of evs ! i = del i (delete_path path items (names ! i)))))"
  using delete_run_refines_loop[OF assms] loop_has_run[OF assms] by blast

text \<open>C25: a bulk delete comes to its end: however the answers and clicks fall, at most one answer per name
  and one refetch are needed, a run that is not over always waits for an answer that can come, and when
  it is over no event is left.\<close>

theorem delete_run_ends:
  assumes "start_run bucket roleId path items names = Some r" "run_by dr_enabled dr_step evs r = Some r'"
  shows "length (filter is_answer evs) + stops_left r' \<le> length names + 1
    \<and> (dr_phase r' \<noteq> Finished \<longrightarrow> 0 < stops_left r' \<and> (\<exists>ev. is_answer ev \<and> dr_enabled r' ev))
    \<and> (dr_phase r' = Finished \<longrightarrow> (\<forall>ev. \<not> dr_enabled r' ev))"
proof (intro conjI impI allI)
  show "length (filter is_answer evs) + stops_left r' \<le> length names + 1"
    using run_stops_bounded[OF run_inv_start[OF assms(1)] assms(2)] stops_left_start[OF assms(1)] by linarith
  show "0 < stops_left r'" if "dr_phase r' \<noteq> Finished"
    using that by (simp add: stops_left_def split: delete_phase.split)
  show "\<exists>ev. is_answer ev \<and> dr_enabled r' ev" if "dr_phase r' \<noteq> Finished"
  proof (cases "dr_phase r'")
    case (Deleting i)
    then show ?thesis by (intro exI[of _ "DrAnswer (Inr ())"]) (simp add: is_answer_def)
  next
    case Refetching
    then show ?thesis by (intro exI[of _ DrRefetched]) (simp add: is_answer_def)
  qed (use that in simp)
  show "\<not> dr_enabled r' ev" if "dr_phase r' = Finished" for ev
    using that by (cases ev) simp_all
qed

definition sample_run :: delete_run where
  "sample_run = the (start_run ''b'' ''r'' ''p'' [] [''x'', ''y''])"

definition sample_events :: "dr_event list" where
  "sample_events = [DrAnswer (Inr ()), DrCancel, DrAnswer (Inl Thrown), DrRefetched]"

lemma sample_run_start: "start_run ''b'' ''r'' ''p'' [] [''x'', ''y''] = Some sample_run"
  by (simp add: sample_run_def start_run_def)

lemma sample_run_ends:
  "\<exists>r'. run_by dr_enabled dr_step sample_events sample_run = Some r' \<and> dr_phase r' = Finished"
  by (simp add: sample_events_def sample_run_def start_run_def run0_def next_request_def delete_answered_def Let_def
      look_at_flag_def renderProgress_def dr_showProgress_def batch0_def delete_ok_def delete_failed_def
      MAX_CONSECUTIVE_FAILURES_def)

text \<open>The first of two deletes succeeds, Cancel is clicked, the second fails: the loop under these answers
  and this click.\<close>

theorem delete_runs_are_loops_witness:
  "\<exists>r'. run_by dr_enabled dr_step sample_events sample_run = Some r' \<and> dr_phase r' = Finished
     \<and> confirmDelete (\<lambda>i p. [Inr (), Inl Thrown] ! i) (\<lambda>k. k = 2) ''b'' ''r'' ''p'' [] [''x'', ''y''] = Some (dr_outcome r')"
proof -
  obtain r' where r': "run_by dr_enabled dr_step sample_events sample_run = Some r'" "dr_phase r' = Finished"
    using sample_run_ends by blast
  have "answers_of sample_events = [Inr (), Inl Thrown]" "clicks_in sample_events = (\<lambda>k. k = 2)"
    by (auto simp: sample_events_def fun_eq_iff)
  with delete_runs_are_loops[OF sample_run_start] r' show ?thesis by metis
qed

theorem delete_run_ends_witness:
  "\<exists>r'. run_by dr_enabled dr_step sample_events sample_run = Some r' \<and> \<not> dr_enabled r' DrCancel
     \<and> length (filter is_answer sample_events) = 3"
proof -
  obtain r' where r': "run_by dr_enabled dr_step sample_events sample_run = Some r'" "dr_phase r' = Finished"
    using sample_run_ends by blast
  with delete_run_ends[OF sample_run_start r'(1)] show ?thesis by (simp add: sample_events_def is_answer_def)
qed

end
