(* ===== verification/Live_Page.thy ===== *)
theory Live_Page
  imports Browser_Page Delete_Run
begin

text \<open>
  The file browser while deletes run in the background: the component of
  \<open>components/FileBrowser/FileBrowser.tsx\<close> with its asynchronous \<open>confirmDelete\<close>.  The component
  stays mounted when the folder changes, so a batch that was confirmed in one folder goes on while the
  user works in another, and several batches can be under way at once.  A batch acts on the state of the
  component only through \<open>setBulkDeletedCount\<close>, the query cache, the toasts and \<open>clearSelection\<close>.
\<close>

subsection \<open>State and steps\<close>

record live =
  lv_page :: page
  lv_runs :: "delete_run list"
  lv_deletedCount :: nat
  lv_deletes :: "(string \<times> string \<times> string) list"
  lv_invalidated :: "query_key list"
  lv_toasts :: "toast list"

definition live0 :: "string \<Rightarrow> string \<Rightarrow> string \<Rightarrow> live" where
  "live0 roleId bucket path =
     \<lparr>lv_page = page0 roleId bucket path, lv_runs = [], lv_deletedCount = 0, lv_deletes = [],
      lv_invalidated = [], lv_toasts = []\<rparr>"

text \<open>The header counts the entries of the open folder, less the deletions reported so far.\<close>

definition live_object_count :: "live \<Rightarrow> nat" where
  "live_object_count st = objectCount (pg_listing (lv_page st)) (lv_deletedCount st)"

text \<open>The click on Delete in the dialog, up to the first \<open>await\<close>.\<close>

definition live_confirm :: "live \<Rightarrow> live" where
  "live_confirm st =
     (let p = lv_page st; b = pg_browser p
      in st\<lparr>lv_page := p\<lparr>pg_confirmOpen := False\<rparr>,
            lv_runs := lv_runs st
              @ (case start_run (br_bucket b) (br_roleId b) (br_path b) (all_items (pg_listing p)) (pg_pendingDelete p) of
                   None \<Rightarrow> [] | Some r \<Rightarrow> [r])\<rparr>)"

text \<open>What a step of a batch does outside of it: the request that was answered (the arguments of
  \<open>deleteFile\<close> are logged with their bucket and role), the counter after every
  fiftieth success, the refresh when the loop is left, and after the refetch the reset of the counter,
  the summary and the cleared selection.\<close>

definition answered_calls :: "delete_run \<Rightarrow> delete_run \<Rightarrow> (string \<times> string \<times> string) list" where
  "answered_calls r r' =
     map (\<lambda>(p, ok). (dr_bucket r, dr_roleId r, p)) (drop (length (bd_log (dr_batch r))) (bd_log (dr_batch r')))"

definition answered_requests :: "delete_run \<Rightarrow> delete_run \<Rightarrow> page_request list" where
  "answered_requests r r' =
     map (\<lambda>(p, ok). ReqDelete p ok) (drop (length (bd_log (dr_batch r))) (bd_log (dr_batch r')))"

definition clear_page_selection :: "page \<Rightarrow> page" where
  "clear_page_selection p =
     p\<lparr>pg_browser := (pg_browser p)\<lparr>br_selection := clear_selection (br_selection (pg_browser p))\<rparr>\<rparr>"

fun run_effects :: "delete_run \<Rightarrow> dr_event \<Rightarrow> live \<Rightarrow> live" where
  "run_effects r (DrAnswer outcome) st =
     (let r' = dr_step r (DrAnswer outcome)
      in st\<lparr>lv_page := (lv_page st)\<lparr>pg_requests := pg_requests (lv_page st) @ answered_requests r r'\<rparr>,
            lv_deletedCount := (case outcome of
                Inr _ \<Rightarrow> if bd_success (dr_batch r') mod 50 = 0 then bd_success (dr_batch r') else lv_deletedCount st
              | Inl _ \<Rightarrow> lv_deletedCount st),
            lv_deletes := lv_deletes st @ answered_calls r r',
            lv_invalidated := lv_invalidated st
              @ (if dr_phase r' = Refetching then folder_invalidation (dr_bucket r) (dr_roleId r) (dr_path r) else [])\<rparr>)"
| "run_effects r DrCancel st = st"
| "run_effects r DrRefetched st =
     st\<lparr>lv_deletedCount := 0, lv_toasts := lv_toasts st @ (case dr_toast r of None \<Rightarrow> [] | Some t \<Rightarrow> [t]),
        lv_page := clear_page_selection (lv_page st)\<rparr>"

datatype live_event = LvPage page_event | LvConfirm | LvRun nat dr_event

fun is_confirm :: "page_event \<Rightarrow> bool" where
  "is_confirm (PgConfirm del clicked) \<longleftrightarrow> True"
| "is_confirm _ \<longleftrightarrow> False"

fun live_enabled :: "page_env \<Rightarrow> live \<Rightarrow> live_event \<Rightarrow> bool" where
  "live_enabled env st (LvPage ev) \<longleftrightarrow> page_enabled env (lv_page st) ev \<and> \<not> is_confirm ev"
| "live_enabled env st LvConfirm \<longleftrightarrow> pg_confirmOpen (lv_page st)"
| "live_enabled env st (LvRun k ev) \<longleftrightarrow> k < length (lv_runs st) \<and> dr_enabled (lv_runs st ! k) ev"

fun live_step :: "page_env \<Rightarrow> live \<Rightarrow> live_event \<Rightarrow> live" where
  "live_step env st (LvPage ev) = st\<lparr>lv_page := page_step env (lv_page st) ev\<rparr>"
| "live_step env st LvConfirm = live_confirm st"
| "live_step env st (LvRun k ev) =
     run_effects (lv_runs st ! k) ev (st\<lparr>lv_runs := (lv_runs st)[k := dr_step (lv_runs st ! k) ev]\<rparr>)"

definition live_reach :: "page_env \<Rightarrow> string \<Rightarrow> string \<Rightarrow> string \<Rightarrow> live \<Rightarrow> bool" where
  "live_reach env roleId bucket path = reach_by (live0 roleId bucket path) (live_enabled env) (live_step env)"

subsection \<open>Batches and pages\<close>

lemma run_effects_runs [simp]: "lv_runs (run_effects r ev st) = lv_runs st"
  by (cases ev) (simp_all add: Let_def)

lemma log_grows: "\<exists>xs. bd_log (dr_batch (dr_step r ev)) = bd_log (dr_batch r) @ xs"
  by (cases ev) (auto simp: delete_answered_def Let_def delete_ok_def delete_failed_def
      split: delete_phase.split sum.split)

lemma answered_log: "bd_log (dr_batch r) @ drop (length (bd_log (dr_batch r))) (bd_log (dr_batch (dr_step r ev)))
    = bd_log (dr_batch (dr_step r ev))"
  using log_grows[of r ev] by auto

text \<open>The delete requests of a page.\<close>

definition delete_requests :: "page \<Rightarrow> (string \<times> bool) list" where
  "delete_requests p = concat (map (\<lambda>q. case q of ReqDelete path ok \<Rightarrow> [(path, ok)] | _ \<Rightarrow> []) (pg_requests p))"

lemma delete_requests_append:
  "delete_requests (p\<lparr>pg_requests := pg_requests p @ map (\<lambda>(p, ok). ReqDelete p ok) xs\<rparr>) = delete_requests p @ xs"
proof -
  have "concat (map (\<lambda>q. case q of ReqDelete path ok \<Rightarrow> [(path, ok)] | _ \<Rightarrow> []) (map (\<lambda>(p, ok). ReqDelete p ok) xs)) = xs"
    by (induction xs) auto
  then show ?thesis by (simp add: delete_requests_def)
qed

lemma delete_requests_same: "pg_requests p = pg_requests q \<Longrightarrow> delete_requests p = delete_requests q"
  by (simp add: delete_requests_def)

text \<open>Steps of the page itself send no delete request.\<close>

lemma page_step_deletes:
  assumes "page_enabled env p ev" "\<not> is_confirm ev"
  shows "delete_requests (page_step env p ev) = delete_requests p"
proof (cases ev)
  case (PgRow c)
  then show ?thesis by (cases c) (auto simp: delete_requests_def with_browser_def requestDelete_def split: option.splits)
qed (use assms in \<open>auto simp: delete_requests_def with_browser_def requestDelete_def\<close>)

text \<open>What a batch has sent, with its bucket and role, and what it has refreshed.\<close>

definition run_calls :: "delete_run \<Rightarrow> (string \<times> string \<times> string) list" where
  "run_calls r = map (\<lambda>(p, ok). (dr_bucket r, dr_roleId r, p)) (bd_log (dr_batch r))"

definition run_refreshed :: "delete_run \<Rightarrow> query_key list" where
  "run_refreshed r =
     (case dr_phase r of Deleting i \<Rightarrow> [] | _ \<Rightarrow> folder_invalidation (dr_bucket r) (dr_roleId r) (dr_path r))"

text \<open>The delete requests of the component are those of its batches, and every batch requests a prefix of
  its own names under its own folder; where deletion is disabled there is no batch.\<close>

definition live_inv :: "page_env \<Rightarrow> live \<Rightarrow> bool" where
  "live_inv env st \<longleftrightarrow>
     (\<forall>r\<in>set (lv_runs st). run_inv r)
     \<and> mset (delete_requests (lv_page st)) = sum_list (map (\<lambda>r. mset (bd_log (dr_batch r))) (lv_runs st))
     \<and> mset (lv_deletes st) = sum_list (map (\<lambda>r. mset (run_calls r)) (lv_runs st))
     \<and> mset (lv_invalidated st) = sum_list (map (\<lambda>r. mset (run_refreshed r)) (lv_runs st))
     \<and> page_inv env (lv_page st)
     \<and> (ev_disableDeletion env \<longrightarrow> lv_runs st = [])"

lemma start_run_log: "start_run bucket roleId path items names = Some r \<Longrightarrow> bd_log (dr_batch r) = []"
  by (auto simp: start_run_def run0_def batch0_def split: if_splits)

lemma start_run_fresh: "start_run bucket roleId path items names = Some r \<Longrightarrow> run_calls r = [] \<and> run_refreshed r = []"
  by (auto simp: start_run_log run_calls_def run_refreshed_def)
    (auto simp: start_run_def run0_def next_request_def look_at_flag_def batch0_def Let_def split: if_splits)

lemma live_inv_confirm: "live_inv env st \<Longrightarrow> pg_confirmOpen (lv_page st) \<Longrightarrow> live_inv env (live_confirm st)"
  by (auto simp: live_inv_def live_confirm_def Let_def delete_requests_def page_inv_def deletes_nothing_def
      start_run_log start_run_fresh dest: run_inv_start split: option.split)

lemma page_inv_answer:
  "page_inv env p \<Longrightarrow> \<not> ev_disableDeletion env \<Longrightarrow> page_inv env (p\<lparr>pg_requests := rs\<rparr>)"
  by (simp add: page_inv_def)

lemma page_inv_clear:
  assumes "page_inv env p"
  shows "page_inv env (clear_page_selection p)"
proof -
  have "clear_page_selection p = with_browser env (SelectOp Clear) p"
    by (simp add: clear_page_selection_def with_browser_def)
  with inv_with_browser[OF assms] show ?thesis by simp
qed

lemma sum_list_list_update:
  fixes xs :: "'a::comm_monoid_add list"
  shows "k < length xs \<Longrightarrow> xs ! k + d = x \<Longrightarrow> sum_list (xs[k := x]) = sum_list xs + d"
  by (induction xs arbitrary: k) (auto simp: nth_Cons ac_simps split: nat.splits)

lemma sum_over_runs:
  fixes f :: "'r \<Rightarrow> 'a multiset"
  assumes "k < length rs" "f (rs ! k) + d = f r'"
  shows "sum_list (map f (rs[k := r'])) = sum_list (map f rs) + d"
  using sum_list_list_update[of k "map f rs" d "f r'"] assms by (simp add: map_update)

lemma step_calls: "mset (run_calls r) + mset (answered_calls r (dr_step r ev)) = mset (run_calls (dr_step r ev))"
proof -
  have "run_calls r @ answered_calls r (dr_step r ev) = map (\<lambda>(p, ok). (dr_bucket r, dr_roleId r, p))
      (bd_log (dr_batch r) @ drop (length (bd_log (dr_batch r))) (bd_log (dr_batch (dr_step r ev))))"
    unfolding run_calls_def answered_calls_def map_append ..
  also have "\<dots> = run_calls (dr_step r ev)"
    using captured_step[of r ev] unfolding answered_log run_calls_def by (simp add: captured_def)
  finally show ?thesis by (metis mset_append)
qed

lemma step_refreshed:
  assumes "dr_enabled r ev"
  shows "mset (run_refreshed r) + mset (case ev of DrAnswer out \<Rightarrow>
      (if dr_phase (dr_step r ev) = Refetching then folder_invalidation (dr_bucket r) (dr_roleId r) (dr_path r) else []) | _ \<Rightarrow> [])
    = mset (run_refreshed (dr_step r ev))"
  using assms captured_step[of r ev]
  by (cases ev) (auto simp: run_refreshed_def captured_def delete_answered_def next_request_def Let_def
      split: delete_phase.splits sum.splits if_splits)

lemma live_inv_run:
  assumes "live_inv env st" "k < length (lv_runs st)" "dr_enabled (lv_runs st ! k) ev"
  shows "live_inv env (live_step env st (LvRun k ev))"
proof -
  let ?r = "lv_runs st ! k" and ?r' = "dr_step (lv_runs st ! k) ev" and ?st' = "live_step env st (LvRun k ev)"
  let ?new = "drop (length (bd_log (dr_batch ?r))) (bd_log (dr_batch ?r'))"
  have "?r \<in> set (lv_runs st)" using assms(2) by simp
  then have inv': "run_inv ?r'" using assms run_inv_step by (auto simp: live_inv_def)
  have enabled: "\<not> ev_disableDeletion env" using assms by (auto simp: live_inv_def)
  have runs: "lv_runs ?st' = (lv_runs st)[k := ?r']" by simp
  have "mset (bd_log (dr_batch ?r)) + mset ?new = mset (bd_log (dr_batch ?r'))"
    by (simp only: mset_append[symmetric] answered_log)
  note sums = sum_over_runs[OF assms(2), of "\<lambda>r. mset (bd_log (dr_batch r))", OF this]
    sum_over_runs[OF assms(2), of "\<lambda>r. mset (run_calls r)", OF step_calls]
    sum_over_runs[OF assms(2), of "\<lambda>r. mset (run_refreshed r)", OF step_refreshed[OF assms(3)]]
  have "mset (lv_deletes ?st') = mset (lv_deletes st) + mset (answered_calls ?r ?r')"
    by (cases ev) (simp_all add: Let_def answered_calls_def)
  moreover have "mset (lv_invalidated ?st') = mset (lv_invalidated st) + mset (case ev of DrAnswer out \<Rightarrow>
      (if dr_phase ?r' = Refetching then folder_invalidation (dr_bucket ?r) (dr_roleId ?r) (dr_path ?r) else []) | _ \<Rightarrow> [])"
    by (cases ev) (simp_all add: Let_def)
  moreover have "mset (delete_requests (lv_page ?st')) = mset (delete_requests (lv_page st)) + mset ?new"
  proof (cases ev)
    case (DrAnswer out)
    then show ?thesis by (simp add: Let_def answered_requests_def delete_requests_append)
  qed (simp_all add: clear_page_selection_def delete_requests_def)
  moreover have "page_inv env (lv_page ?st')"
    using assms(1) enabled page_inv_answer page_inv_clear by (cases ev) (auto simp: live_inv_def Let_def)
  ultimately show ?thesis
    using assms(1) inv' enabled unfolding live_inv_def runs sums
    by (auto dest!: subsetD[OF set_update_subset_insert])
qed

interpretation live_machine: invariant "live0 roleId bucket path" "live_enabled env" "live_step env" "live_inv env"
proof
  show "live_inv env (live0 roleId bucket path)"
    by (simp add: live_inv_def live0_def delete_requests_def page_machine.inv_init page0_def[symmetric])
      (simp add: page0_def)
next
  fix st ev
  assume inv: "live_inv env st" and en: "live_enabled env st ev"
  show "live_inv env (live_step env st ev)"
  proof (cases ev)
    case (LvPage e)
    with inv en page_inv_step page_step_deletes show ?thesis by (auto simp: live_inv_def)
  next
    case LvConfirm
    with inv en live_inv_confirm show ?thesis by simp
  next
    case (LvRun k e)
    with inv en live_inv_run show ?thesis by auto
  qed
qed

subsection \<open>The atomic step is the uninterrupted batch\<close>

definition page_after :: "delete_run \<Rightarrow> delete_run \<Rightarrow> bool \<Rightarrow> page \<Rightarrow> page" where
  "page_after r r' refetched p =
     (if refetched then clear_page_selection else id) (p\<lparr>pg_requests := pg_requests p @ answered_requests r r'\<rparr>)"

definition extends :: "delete_run \<Rightarrow> delete_run \<Rightarrow> bool" where
  "extends r r' \<longleftrightarrow> (\<exists>xs. bd_log (dr_batch r') = bd_log (dr_batch r) @ xs)"

lemma extends_run: "run_by dr_enabled dr_step evs r = Some r' \<Longrightarrow> extends r r'"
proof (induction evs arbitrary: r)
  case (Cons ev evs)
  then have "extends (dr_step r ev) r'" by (simp split: if_splits)
  with log_grows[of r ev] show ?case by (auto simp: extends_def)
qed (simp add: extends_def)

lemma page_after_trans:
  "extends r r1 \<Longrightarrow> extends r1 r' \<Longrightarrow> page_after r1 r' b' (page_after r r1 b p) = page_after r r' (b \<or> b') p"
  by (auto simp: extends_def page_after_def answered_requests_def clear_page_selection_def clear_selection_def)

lemma page_after_step:
  "dr_enabled r ev \<Longrightarrow> lv_page (run_effects r ev st) = page_after r (dr_step r ev) (ev = DrRefetched) (lv_page st)"
  by (cases ev) (simp_all add: page_after_def Let_def answered_requests_def clear_page_selection_def)

lemma uninterrupted_run:
  assumes "run_by (live_enabled env) (live_step env) (map (LvRun k) evs) st = Some st'" "k < length (lv_runs st)"
  shows "run_by dr_enabled dr_step evs (lv_runs st ! k) = Some (lv_runs st' ! k)
    \<and> lv_page st' = page_after (lv_runs st ! k) (lv_runs st' ! k) (DrRefetched \<in> set evs) (lv_page st)"
  using assms
proof (induction evs arbitrary: st)
  case Nil
  then show ?case by (simp add: page_after_def answered_requests_def)
next
  case (Cons ev evs)
  let ?r = "lv_runs st ! k" and ?st1 = "live_step env st (LvRun k ev)"
  from Cons.prems have en: "dr_enabled ?r ev"
    and run: "run_by (live_enabled env) (live_step env) (map (LvRun k) evs) ?st1 = Some st'"
    by (simp_all split: if_splits)
  have st1: "lv_runs ?st1 ! k = dr_step ?r ev" "k < length (lv_runs ?st1)" using Cons.prems(2) by simp_all
  have page1: "lv_page ?st1 = page_after ?r (dr_step ?r ev) (ev = DrRefetched) (lv_page st)"
    using page_after_step[OF en] by simp
  from Cons.IH[OF run st1(2)] st1(1) have IH: "run_by dr_enabled dr_step evs (dr_step ?r ev) = Some (lv_runs st' ! k)"
    "lv_page st' = page_after (dr_step ?r ev) (lv_runs st' ! k) (DrRefetched \<in> set evs) (lv_page ?st1)" by simp_all
  have "extends ?r (dr_step ?r ev)" using log_grows by (simp add: extends_def)
  from page_after_trans[OF this extends_run[OF IH(1)]] IH page1 en show ?case by (auto simp: eq_commute[of DrRefetched])
qed

lemma finished_refetched:
  "run_by dr_enabled dr_step evs r = Some r' \<Longrightarrow> dr_phase r' = Finished \<Longrightarrow> dr_phase r \<noteq> Finished
     \<Longrightarrow> DrRefetched \<in> set evs"
proof (induction evs arbitrary: r)
  case (Cons ev evs)
  then show ?case
    by (cases ev) (auto split: if_splits delete_phase.splits sum.splits simp: delete_answered_def next_request_def Let_def)
qed simp

text \<open>C6: a batch during which the user does nothing else but press Cancel is the atomic step of the page: the
  page is left with the requests, the browser and the selection that \<open>page_confirm\<close> computes from the
  answers and the clicks.\<close>

theorem uninterrupted_batch_is_atomic:
  assumes "pg_confirmOpen (lv_page st)" "pg_pendingDelete (lv_page st) \<noteq> []"
    and "run_by (live_enabled env) (live_step env) (LvConfirm # map (LvRun (length (lv_runs st))) evs) st = Some st'"
    and "dr_phase (lv_runs st' ! length (lv_runs st)) = Finished"
  shows "lv_page st' = page_confirm (\<lambda>i p. answers_of evs ! i) (clicks_in evs) (lv_page st)"
proof -
  let ?p = "lv_page st" and ?k = "length (lv_runs st)" and ?b = "pg_browser (lv_page st)"
  let ?r' = "lv_runs st' ! ?k"
  obtain r where r: "start_run (br_bucket ?b) (br_roleId ?b) (br_path ?b) (all_items (pg_listing ?p)) (pg_pendingDelete ?p) = Some r"
    using assms(2) by (simp add: start_run_def)
  let ?st1 = "live_confirm st"
  have st1: "lv_runs ?st1 ! ?k = r" "?k < length (lv_runs ?st1)" "lv_page ?st1 = ?p\<lparr>pg_confirmOpen := False\<rparr>"
    using r by (simp_all add: live_confirm_def Let_def)
  from assms(1,3) have "run_by (live_enabled env) (live_step env) (map (LvRun ?k) evs) ?st1 = Some st'" by simp
  from uninterrupted_run[OF this st1(2)] st1 have run: "run_by dr_enabled dr_step evs r = Some ?r'"
    and page: "lv_page st' = page_after r ?r' (DrRefetched \<in> set evs) (?p\<lparr>pg_confirmOpen := False\<rparr>)" by simp_all
  have "dr_phase r \<noteq> Finished" using r by (auto simp: start_run_def next_request_def Let_def split: if_splits)
  then have "DrRefetched \<in> set evs" using finished_refetched run assms(4) by blast
  with page r start_run_log[OF r] delete_run_refines_loop[OF r run assms(4)] show ?thesis
    by (simp add: page_after_def page_confirm_def Let_def answered_requests_def dr_outcome_def clear_page_selection_def)
qed

lemma sample_listing_find: "find (\<lambda>f. fe_name f = ''a'') (all_items one_file_listing) = Some (sample_file ''a'' 1)"
  by (simp add: all_items_def one_file_listing_def sample_file_def)

text \<open>The one file of a folder selected, and the confirmation open.\<close>

definition sample_live :: live where
  "sample_live = (live0 ''r'' ''b'' ''p'')\<lparr>lv_page := requestDelete [''a''] (sample_page False)\<rparr>"

lemma sample_live_reach: "live_reach (sample_env False) ''r'' ''b'' ''p'' sample_live"
proof -
  let ?l0 = "live0 ''r'' ''b'' ''p''" and ?env = "sample_env False"
  let ?evs = "[LvPage (PgListing one_file_listing), LvPage PgToggleAll, LvPage PgBarDelete]"
  have "page_selected (page_step ?env (page_step ?env (page0 ''r'' ''b'' ''p'') (PgListing one_file_listing)) PgToggleAll) = [''a'']"
    using sample_page_selected[of False] by (simp add: sample_page_def)
  moreover have "page_rows ?env (page_step ?env (page0 ''r'' ''b'' ''p'') (PgListing one_file_listing)) \<noteq> []"
    by (simp only: sample_rows) simp
  ultimately have "run_by (live_enabled ?env) (live_step ?env) ?evs ?l0 = Some sample_live"
    by (simp add: live0_def sample_live_def sample_page_def) (simp add: sample_env_def)
  then show ?thesis unfolding live_reach_def by (rule run_by_reach) (rule reach_by.start)
qed

lemma sample_live_runs: "lv_runs (live_confirm sample_live)
    = [next_request 0 (run0 ''b'' ''r'' ''p'' (all_items one_file_listing) [''a''])]"
  by (simp add: live_confirm_def sample_live_def live0_def requestDelete_def sample_page_def with_browser_def page0_def
      browser0_def start_run_def Let_def)

theorem uninterrupted_batch_is_atomic_witness:
  "\<exists>st'. run_by (live_enabled (sample_env False)) (live_step (sample_env False))
       (LvConfirm # map (LvRun 0) [DrAnswer (Inr ()), DrRefetched]) sample_live = Some st'
     \<and> lv_page st' = page_confirm (\<lambda>i p. [Inr ()] ! i) (clicks_in [DrAnswer (Inr ()), DrRefetched]) (lv_page sample_live)"
proof -
  let ?run = "run_by (live_enabled (sample_env False)) (live_step (sample_env False))
      (LvConfirm # map (LvRun 0) [DrAnswer (Inr ()), DrRefetched]) sample_live"
  have open_dialog: "pg_confirmOpen (lv_page sample_live)" "pg_pendingDelete (lv_page sample_live) \<noteq> []"
    "length (lv_runs sample_live) = 0"
    by (simp_all add: sample_live_def requestDelete_def live0_def)
  have "\<exists>st'. ?run = Some st' \<and> dr_phase (lv_runs st' ! 0) = Finished"
    using open_dialog(1) sample_live_runs
    by (simp add: next_request_def run0_def Let_def look_at_flag_def batch0_def delete_answered_def delete_ok_def
        renderProgress_def dr_showProgress_def)
  then obtain st' where st': "?run = Some st'" "dr_phase (lv_runs st' ! 0) = Finished" by blast
  from uninterrupted_batch_is_atomic[OF open_dialog(1,2), of "sample_env False" "[DrAnswer (Inr ()), DrRefetched]" st'] st'
    open_dialog(3) show ?thesis by auto
qed

subsection \<open>A batch and the folders the user visits\<close>

lemma live_step_captured:
  "k < length (lv_runs st) \<Longrightarrow> k < length (lv_runs (live_step env st ev))
     \<and> captured (lv_runs (live_step env st ev) ! k) = captured (lv_runs st ! k)"
proof (cases ev)
  case (LvRun j e)
  then show "k < length (lv_runs st) \<Longrightarrow> ?thesis" by (cases "j = k") simp_all
qed (simp_all add: live_confirm_def Let_def nth_append)

lemma live_run_captured:
  "run_by (live_enabled env) (live_step env) evs st = Some st' \<Longrightarrow> k < length (lv_runs st)
     \<Longrightarrow> k < length (lv_runs st') \<and> captured (lv_runs st' ! k) = captured (lv_runs st ! k)"
proof (induction evs arbitrary: st)
  case (Cons ev evs)
  then show ?case using live_step_captured[of k st env ev] by (auto split: if_splits)
qed simp

text \<open>C5: whatever the user does after confirming a bulk delete (opens other folders, buckets or roles,
  searches, selects, starts and cancels further deletes), the batch of that confirmation works in the
  bucket, the role and the folder that were open when it was confirmed, on the listing and the names of
  that moment: the requests it has had answered are those of a prefix of these names, in their order,
  each at its path in that folder.  The delete requests sent altogether are those of the batches, each
  with its own bucket and role, none else; and every batch that has left its loop has refreshed the
  queries of its own folder, and no other query is refreshed by deletes.\<close>

theorem deletes_stay_in_their_folder:
  assumes "live_reach env roleId bucket path st" "pg_pendingDelete (lv_page st) \<noteq> []"
    and "run_by (live_enabled env) (live_step env) (LvConfirm # evs) st = Some st'"
  shows "\<exists>p r n. p = lv_page st \<and> r = lv_runs st' ! length (lv_runs st) \<and> length (lv_runs st) < length (lv_runs st')
    \<and> dr_bucket r = br_bucket (pg_browser p) \<and> dr_roleId r = br_roleId (pg_browser p)
    \<and> dr_path r = br_path (pg_browser p) \<and> dr_names r = pg_pendingDelete p \<and> n \<le> length (pg_pendingDelete p)
    \<and> map fst (bd_log (dr_batch r))
        = map (delete_path (br_path (pg_browser p)) (all_items (pg_listing p))) (take n (pg_pendingDelete p))
    \<and> mset (lv_deletes st') = sum_list (map (\<lambda>r. mset (map (\<lambda>(path, ok). (dr_bucket r, dr_roleId r, path)) (bd_log (dr_batch r))))
        (lv_runs st'))
    \<and> mset (lv_invalidated st') = sum_list (map (\<lambda>r. mset (case dr_phase r of Deleting i \<Rightarrow> []
          | _ \<Rightarrow> folder_invalidation (dr_bucket r) (dr_roleId r) (dr_path r))) (lv_runs st'))"
proof -
  let ?p = "lv_page st" and ?k = "length (lv_runs st)" and ?b = "pg_browser (lv_page st)"
  obtain r0 where r0: "start_run (br_bucket ?b) (br_roleId ?b) (br_path ?b) (all_items (pg_listing ?p)) (pg_pendingDelete ?p) = Some r0"
    using assms(2) by (simp add: start_run_def)
  then have st1: "?k < length (lv_runs (live_confirm st))" "lv_runs (live_confirm st) ! ?k = r0"
    by (simp_all add: live_confirm_def Let_def)
  have inv: "live_inv env st'"
    using live_machine.inv_run[OF live_machine.inv_reach[OF assms(1)[unfolded live_reach_def]] assms(3)] .
  from assms(3) have run: "run_by (live_enabled env) (live_step env) evs (live_confirm st) = Some st'" by (simp split: if_splits)
  from live_run_captured[OF run st1(1)] have k: "?k < length (lv_runs st')"
    and cap: "captured (lv_runs st' ! ?k) = captured r0" by (simp_all add: st1(2))
  have own: "captured r0 = (br_bucket ?b, br_roleId ?b, br_path ?b, all_items (pg_listing ?p), pg_pendingDelete ?p)"
    using r0 by (auto simp: start_run_def captured_def run0_def split: if_splits)
  from inv k have "run_inv (lv_runs st' ! ?k)" by (simp add: live_inv_def)
  then obtain n where "n \<le> length (dr_names (lv_runs st' ! ?k))"
    "map fst (bd_log (dr_batch (lv_runs st' ! ?k))) = map (dr_target (lv_runs st' ! ?k)) (take n (dr_names (lv_runs st' ! ?k)))"
    by (auto simp: run_inv_def)
  with cap own k inv show ?thesis
    unfolding live_inv_def run_calls_def run_refreshed_def by (auto simp: captured_def dr_target_def)
qed

definition sample_wander :: "live_event list" where
  "sample_wander = [LvPage (PgBrowser (RouteChange ''r'' ''b'' ''q'')), LvRun 0 (DrAnswer (Inr ()))]"

lemma sample_wander_run:
  "\<exists>st'. run_by (live_enabled (sample_env False)) (live_step (sample_env False)) sample_wander (live_confirm sample_live) = Some st'
     \<and> bd_log (dr_batch (lv_runs st' ! 0)) \<noteq> [] \<and> dr_phase (lv_runs st' ! 0) = Refetching"
  using sample_live_runs
  by (simp add: sample_wander_def next_request_def run0_def Let_def look_at_flag_def batch0_def delete_answered_def
      delete_ok_def renderProgress_def dr_showProgress_def)

text \<open>The user opens folder q while the delete confirmed in folder p runs.\<close>

theorem deletes_stay_in_their_folder_witness:
  "\<exists>st' n. run_by (live_enabled (sample_env False)) (live_step (sample_env False)) (LvConfirm # sample_wander) sample_live = Some st'
     \<and> map fst (bd_log (dr_batch (lv_runs st' ! 0))) = map (delete_path ''p'' (all_items one_file_listing)) (take n [''a''])
     \<and> dr_bucket (lv_runs st' ! 0) = ''b'' \<and> dr_roleId (lv_runs st' ! 0) = ''r'' \<and> dr_path (lv_runs st' ! 0) = ''p''"
proof -
  have page: "lv_runs sample_live = []" "pg_pendingDelete (lv_page sample_live) = [''a'']"
    "pg_browser (lv_page sample_live) = pg_browser (sample_page False)"
    "pg_listing (lv_page sample_live) = pg_listing (sample_page False)"
    by (simp_all add: sample_live_def live0_def requestDelete_def)
  have fields: "br_bucket (pg_browser (sample_page False)) = ''b''" "br_roleId (pg_browser (sample_page False)) = ''r''"
    "br_path (pg_browser (sample_page False)) = ''p''" "pg_listing (sample_page False) = one_file_listing"
    by (simp_all add: sample_page_def with_browser_def page0_def browser0_def)
  have "live_enabled (sample_env False) sample_live LvConfirm" by (simp add: sample_live_def requestDelete_def)
  with sample_wander_run obtain st' where st': "run_by (live_enabled (sample_env False)) (live_step (sample_env False))
      (LvConfirm # sample_wander) sample_live = Some st'" by auto
  from deletes_stay_in_their_folder[OF sample_live_reach _ st'] st' page fields show ?thesis by auto
qed

text \<open>C36: two effects of a batch do not stay in its folder: when it ends, it clears the selection of
  whichever folder is open then; and while it runs, the header of whichever folder is open counts fewer
  objects than the folder has, by the deletions made elsewhere.\<close>

theorem finished_delete_reaches_open_folder:
  assumes "live_enabled env st (LvRun k ev)" "dr_path (lv_runs st ! k) \<noteq> br_path (pg_browser (lv_page st))"
  shows "(ev = DrRefetched \<longrightarrow>
        br_path (pg_browser (lv_page (live_step env st (LvRun k ev)))) = br_path (pg_browser (lv_page st))
        \<and> page_selected (lv_page (live_step env st (LvRun k ev))) = [])
    \<and> (ev = DrAnswer (Inr ()) \<and> bd_success (dr_batch (lv_runs st ! k)) = 49 \<longrightarrow>
        live_object_count (live_step env st (LvRun k ev)) = length (all_items (pg_listing (lv_page st))) - 50)"
proof (intro conjI impI)
  show "page_selected (lv_page (live_step env st (LvRun k ev))) = []" if "ev = DrRefetched"
    using that by (simp add: clear_page_selection_def page_selected_def clear_selection_def)
  show "br_path (pg_browser (lv_page (live_step env st (LvRun k ev)))) = br_path (pg_browser (lv_page st))"
    if "ev = DrRefetched"
    using that by (simp add: clear_page_selection_def)
  assume ev: "ev = DrAnswer (Inr ()) \<and> bd_success (dr_batch (lv_runs st ! k)) = 49"
  with assms(1) obtain i where "dr_phase (lv_runs st ! k) = Deleting i" by (auto split: delete_phase.splits)
  with ev have "bd_success (dr_batch (dr_step (lv_runs st ! k) ev)) = 50"
    by (simp add: delete_answered_def Let_def delete_ok_def next_request_def look_at_flag_def renderProgress_def)
  with ev show "live_object_count (live_step env st (LvRun k ev)) = length (all_items (pg_listing (lv_page st))) - 50"
    by (simp add: live_object_count_def objectCount_def Let_def)
qed

text \<open>A file of another folder is selected while the batch waits for its refetch.\<close>

definition sample_reselect :: "live_event list" where
  "sample_reselect = sample_wander @ [LvPage PgBarClear, LvPage PgToggleAll]"

lemma sample_listing_rows:
  assumes "pg_listing p = one_file_listing" "br_sortPreference (pg_browser p) = DEFAULT_SORT"
    "br_serverSearchTerm (pg_browser p) = None" "pg_debounced p = []"
  shows "page_rows (sample_env dis) p = [sample_file ''a'' 1]"
  using assms by (simp add: page_rows_def sample_env_def one_file_listing_def visible_rows_def filteredItems_def
      sortedItems_def effectiveSort_def isDefaultSort_def DEFAULT_SORT_def all_items_def)

lemma sample_page_open:
  "sample_page dis = (page0 ''r'' ''b'' ''p'')\<lparr>pg_listing := one_file_listing,
     pg_browser := (browser0 ''r'' ''b'' ''p'')\<lparr>br_selection := \<lparr>selected = [''a''], anchorRef = None\<rparr>\<rparr>\<rparr>"
  unfolding sample_page_def page_step.simps(5) orderedNames_def sample_rows
  by (simp add: with_browser_def page0_def browser0_def toggleAll_def empty_selection_def new_Set_def set_add_def
      sample_file_def)

lemma sample_live_page:
  "lv_page (live_confirm sample_live) = (sample_page False)\<lparr>pg_pendingDelete := [''a'']\<rparr>"
  by (simp add: live_confirm_def sample_live_def requestDelete_def Let_def sample_page_def with_browser_def page0_def)

theorem finished_delete_reaches_open_folder_witness:
  "\<exists>st'. run_by (live_enabled (sample_env False)) (live_step (sample_env False)) sample_reselect (live_confirm sample_live) = Some st'
     \<and> page_selected (lv_page st') = [''a''] \<and> br_path (pg_browser (lv_page st')) = ''q''
     \<and> page_selected (lv_page (live_step (sample_env False) st' (LvRun 0 DrRefetched))) = []"
proof -
  let ?env = "sample_env False"
  let ?run = "run_by (live_enabled ?env) (live_step ?env) sample_reselect (live_confirm sample_live)"
  have "\<exists>st'. ?run = Some st' \<and> page_selected (lv_page st') = [''a''] \<and> br_path (pg_browser (lv_page st')) = ''q''
      \<and> dr_path (lv_runs st' ! 0) = ''p'' \<and> 0 < length (lv_runs st')
      \<and> dr_phase (lv_runs st' ! 0) = Refetching"
    using sample_live_runs
    by (simp add: sample_reselect_def sample_wander_def sample_live_page sample_page_open page0_def browser0_def with_browser_def
        page_selected_def Let_def next_request_def run0_def look_at_flag_def batch0_def delete_answered_def delete_ok_def
        renderProgress_def dr_showProgress_def orderedNames_def sample_listing_rows clear_selection_def render_def
        current_key_def context_key_def toggleAll_def empty_selection_def new_Set_def set_add_def sample_file_def)
  then obtain st' where "?run = Some st'" "page_selected (lv_page st') = [''a'']"
    "br_path (pg_browser (lv_page st')) = ''q''" "dr_path (lv_runs st' ! 0) = ''p''" "0 < length (lv_runs st')"
    "dr_phase (lv_runs st' ! 0) = Refetching" by blast
  with finished_delete_reaches_open_folder[of ?env st' 0 DrRefetched] show ?thesis by auto
qed

end
