(* ===== verification/Upload_Run.thy ===== *)
theory Upload_Run
  imports Upload_Batch Machine
begin

text \<open>
  A batch of uploads with its requests: \<open>handleUpload\<close> of \<open>components/FileBrowser/FileBrowser.tsx\<close>
  calls \<open>uploadFile\<close> of \<open>features/files/api/filesApi.ts\<close> through \<open>useUpload\<close>, one file after the
  other, with the callbacks and the abort signal of the batch.  \<open>Upload_Batch\<close> takes what each call
  does as a parameter; here it is the run of the request of \<open>Upload_Request\<close> under the events the
  browser fires for it, and the clicks on Cancel are the abort events among them.
\<close>

subsection \<open>The request of a file\<close>

text \<open>The options of every call: both callbacks, and the signal, which the loop has just found not
  aborted.\<close>

definition batch_options :: upload_options where
  "batch_options = \<lparr>uo_onProgress = True, uo_onFinalizing = True, uo_signal = Some False\<rparr>"

record upload_ctx =
  ux_pct :: "nat \<Rightarrow> nat \<Rightarrow> nat"
  ux_session :: storage
  ux_bucket :: string
  ux_roleId :: string
  ux_path :: string
  ux_body :: "js_file \<Rightarrow> string"
  ux_max :: "nat option"

definition request_start :: "upload_ctx \<Rightarrow> file_with_path \<Rightarrow> upload_state" where
  "request_start cx f =
     uploadFile (ux_session cx) (ux_bucket cx) (ux_roleId cx) (upload_key (ux_path cx) f) (ux_body cx (fp_file f)) batch_options"

definition request_run :: "upload_ctx \<Rightarrow> file_with_path \<Rightarrow> xhr_event list \<Rightarrow> upload_state option" where
  "request_run cx f evs = run_by event_allowed (upload_event (ux_pct cx)) evs (request_start cx f)"

text \<open>The events of a file are those of one request, from its start to its end.\<close>

definition settled_by :: "upload_ctx \<Rightarrow> file_with_path \<Rightarrow> xhr_event list \<Rightarrow> bool" where
  "settled_by cx f evs \<longleftrightarrow> (case request_run cx f evs of None \<Rightarrow> False | Some st \<Rightarrow> us_ended st)"

definition driven_run :: "upload_ctx \<Rightarrow> file_with_path list \<Rightarrow> (nat \<Rightarrow> xhr_event list) \<Rightarrow> nat \<Rightarrow> upload_call list \<times> (js_error + unit)"
where
  "driven_run cx files evs i =
     (case request_run cx (files ! i) (evs i) of
        None \<Rightarrow> ([], Inl abort_error)
      | Some st \<Rightarrow> (us_calls st, case us_promise st of None \<Rightarrow> Inl abort_error | Some r \<Rightarrow> r))"

text \<open>Cancel is seen before the i-th file when it was clicked while the file before was sent; a file that
  is rejected for its size leaves no time for a click.\<close>

definition cancelled_in :: "upload_ctx \<Rightarrow> file_with_path list \<Rightarrow> (nat \<Rightarrow> xhr_event list) \<Rightarrow> nat \<Rightarrow> bool" where
  "cancelled_in cx files evs i \<longleftrightarrow> \<not> upload_oversize (ux_max cx) (files ! i) \<and> SignalAbort \<in> set (evs i)"

definition driven_clicks :: "upload_ctx \<Rightarrow> file_with_path list \<Rightarrow> (nat \<Rightarrow> xhr_event list) \<Rightarrow> nat \<Rightarrow> bool" where
  "driven_clicks cx files evs i \<longleftrightarrow> 0 < i \<and> cancelled_in cx files evs (i - 1)"

definition driven_upload :: "upload_ctx \<Rightarrow> file_with_path list \<Rightarrow> (nat \<Rightarrow> xhr_event list) \<Rightarrow> upload_outcome" where
  "driven_upload cx files evs =
     handleUpload (ux_max cx) (driven_run cx files evs) (driven_clicks cx files evs) (ux_bucket cx) (ux_roleId cx)
       (ux_path cx) files"

definition final_items :: "upload_ctx \<Rightarrow> file_with_path list \<Rightarrow> (nat \<Rightarrow> xhr_event list) \<Rightarrow> upload_item list" where
  "final_items cx files evs = ub_items (uo_batch (driven_upload cx files evs))"

subsection \<open>What a request does to its file\<close>

fun accepts :: "xhr_event \<Rightarrow> bool" where
  "accepts (XhrLoad status statusText parsed) \<longleftrightarrow> 200 \<le> status \<and> status < 300"
| "accepts _ \<longleftrightarrow> False"

lemma run_by_steps:
  "run_by event_allowed (upload_event pct) evs st = Some st' \<Longrightarrow> upload_steps pct st st'"
proof (induction evs arbitrary: st)
  case (Cons ev evs)
  then have "event_allowed st ev" "upload_steps pct (upload_event pct st ev) st'" by (simp_all split: if_splits)
  then show ?case by (auto intro: converse_rtranclp_into_rtranclp fire)
qed simp

lemma request_inv: "request_run cx f evs = Some st \<Longrightarrow> upload_inv st"
  unfolding request_run_def request_start_def using run_by_steps upload_inv_steps upload_inv_init by blast

lemma run_promise_stable:
  "run_by event_allowed (upload_event pct) evs st = Some st' \<Longrightarrow> us_promise st = Some r \<Longrightarrow> us_promise st' = Some r"
  by (induction evs arbitrary: st) (auto split: if_splits simp: promise_stable)

lemma ended_no_accept:
  "run_by event_allowed (upload_event pct) evs st = Some st' \<Longrightarrow> us_ended st \<Longrightarrow> ev \<in> set evs \<Longrightarrow> \<not> accepts ev"
proof (induction evs arbitrary: st)
  case (Cons e evs)
  then have "e = SignalAbort" by (cases e) (auto split: if_splits)
  with Cons show ?case by (auto simp: xhr_abort_def split: if_splits)
qed simp

text \<open>The promise is fulfilled exactly when a 2xx answer arrived.\<close>

lemma promise_accepted:
  assumes "run_by event_allowed (upload_event pct) evs st = Some st'" "upload_inv st" "\<not> us_ended st"
  shows "us_promise st' = Some (Inr ()) \<longleftrightarrow> list_ex accepts evs"
  using assms
proof (induction evs arbitrary: st)
  case Nil
  then show ?case by (simp add: upload_inv_def)
next
  case (Cons ev evs)
  let ?st = "upload_event pct st ev"
  from Cons.prems(1) have en: "event_allowed st ev" and run: "run_by event_allowed (upload_event pct) evs ?st = Some st'"
    by (simp_all split: if_splits)
  have inv: "upload_inv ?st" by (rule upload_inv_event[OF Cons.prems(2) en])
  show ?case
  proof (cases "us_ended ?st")
    case True
    then obtain r where r: "us_promise ?st = Some r" using inv by (auto simp: upload_inv_def)
    have "r = Inr () \<longleftrightarrow> accepts ev"
      using r True Cons.prems(2,3) by (cases ev) (auto simp: upload_inv_def upload_defs abort_error_def split: if_splits)
    with run_promise_stable[OF run r] ended_no_accept[OF run True] show ?thesis by (auto simp: list_ex_iff)
  next
    case False
    then have "\<not> accepts ev" by (cases ev) (auto simp: upload_defs)
    with Cons.IH[OF run inv False] show ?thesis by simp
  qed
qed

lemma request_started: "\<not> us_ended (request_start cx f)" "upload_inv (request_start cx f)"
  by (simp_all add: request_start_def uploadFile_def batch_options_def Let_def upload_inv_def)

lemma driven_status:
  assumes "settled_by cx (files ! i) (evs i)"
  shows "file_status (ux_max cx) (driven_run cx files evs) i (files ! i) = Done
    \<longleftrightarrow> \<not> upload_oversize (ux_max cx) (files ! i) \<and> list_ex accepts (evs i)"
proof -
  from assms obtain st where st: "request_run cx (files ! i) (evs i) = Some st" "us_ended st"
    by (auto simp: settled_by_def split: option.splits)
  from promise_accepted[OF st(1)[unfolded request_run_def] request_started(2,1)] request_inv[OF st(1)] st
  show ?thesis
    by (auto simp: file_status_def driven_run_def upload_inv_def split: sum.splits option.splits)
qed

subsection \<open>Where the batch stops\<close>

lemma upload_loop_stop:
  assumes "length (ub_items st) = i + length files" "\<not> ub_aborted st" "k \<le> length files"
    and "\<forall>m<k. \<not> clicked (i + m)" "k < length files \<longrightarrow> clicked (i + k)"
  shows "batch_post mx run path i files st (upload_loop mx run clicked path i files st) k"
  using assms
proof (induction files arbitrary: i st k)
  case Nil
  then show ?case by (simp add: batch_post_def)
next
  case (Cons f files)
  let ?l = "look_at_signal (clicked i) st"
  show ?case
  proof (cases k)
    case 0
    with Cons.prems have ab: "ub_aborted ?l" by (simp add: look_at_signal_def)
    with Cons.prems(1) have "batch_post mx run path i (f # files) ?l (cancel_rest i ?l) 0"
      by (intro batch_post_cancel) simp_all
    with 0 ab show ?thesis by (simp add: batch_post_def)
  next
    case (Suc k')
    let ?s = "loop_step mx run path i f ?l"
    have na: "\<not> ub_aborted ?l" using Cons.prems(2,4) Suc by (force simp: look_at_signal_def)
    have i: "i < length (ub_items ?l)" using Cons.prems(1) by simp
    have s: "length (ub_items ?s) = i + 1 + length files" "\<not> ub_aborted ?s"
      using loop_step_post[OF i, of mx run path f] Cons.prems(1) na by (simp_all add: item_frame_def)
    have "batch_post mx run path (i + 1) files ?s (upload_loop mx run clicked path (i + 1) files ?s) k'"
      using Cons.prems(3,4,5) Suc by (intro Cons.IH[OF s]) (auto dest: spec[of _ "Suc _"])
    from batch_post_Cons[OF Cons.prems(1) refl this] na Suc show ?thesis
      by (simp add: loop_step_def split del: if_split)
  qed
qed

text \<open>The number of files the batch gets to: all up to the first one that is cancelled.\<close>

definition reached :: "upload_ctx \<Rightarrow> file_with_path list \<Rightarrow> (nat \<Rightarrow> xhr_event list) \<Rightarrow> nat" where
  "reached cx files evs = min (length files) (Suc (length (takeWhile (\<lambda>i. \<not> cancelled_in cx files evs i) [0..<length files])))"

lemma takeWhile_upt_first:
  "i < length (takeWhile (\<lambda>i. \<not> P i) [0..<n]) \<Longrightarrow> \<not> P i"
  "length (takeWhile (\<lambda>i. \<not> P i) [0..<n]) < n \<Longrightarrow> P (length (takeWhile (\<lambda>i. \<not> P i) [0..<n]))"
proof -
  let ?t = "takeWhile (\<lambda>i. \<not> P i) [0..<n]"
  have le: "length ?t \<le> n" using length_takeWhile_le[of "\<lambda>i. \<not> P i" "[0..<n]"] by simp
  show "\<not> P i" if "i < length ?t"
    using that le nth_mem[OF that] takeWhile_nth[OF that] set_takeWhileD[of "?t ! i" "\<lambda>i. \<not> P i" "[0..<n]"] by simp
  show "P (length ?t)" if "length ?t < n"
    using that nth_length_takeWhile[of "\<lambda>i. \<not> P i" "[0..<n]"] by simp
qed

lemma driven_post:
  "batch_post (ux_max cx) (driven_run cx files evs) (ux_path cx) 0 files
      \<lparr>ub_items = initial_items files, ub_aborted = False, ub_requests = [], ub_shown = [initial_items files]\<rparr>
      (uo_batch (driven_upload cx files evs)) (reached cx files evs)"
proof -
  let ?t = "length (takeWhile (\<lambda>i. \<not> cancelled_in cx files evs i) [0..<length files])"
  have "\<not> driven_clicks cx files evs m" if "m < reached cx files evs" for m
  proof (cases m)
    case (Suc j)
    with that takeWhile_upt_first(1)[of j "cancelled_in cx files evs" "length files"] show ?thesis
      by (auto simp: driven_clicks_def reached_def)
  qed (simp add: driven_clicks_def)
  moreover have "driven_clicks cx files evs (reached cx files evs)" if "reached cx files evs < length files"
    using that takeWhile_upt_first(2)[of "cancelled_in cx files evs" "length files"]
    by (auto simp: driven_clicks_def reached_def min_def split: if_splits)
  moreover have "reached cx files evs \<le> length files" by (simp add: reached_def)
  ultimately show ?thesis
    unfolding driven_upload_def handleUpload_def Let_def
    by (simp, intro upload_loop_stop) (simp_all add: initial_items_def)
qed

subsection \<open>Properties\<close>

text \<open>C12: in a batch whose requests run to their ends a file is reported as uploaded exactly when the server
  accepted it with a 2xx answer, it was within the size limit and Cancel was not clicked while an earlier
  file was sent; from the first such click on no further request is sent and all later files are
  cancelled.\<close>

theorem batch_reports_the_server:
  assumes "\<And>i. i < length files \<Longrightarrow> settled_by cx (files ! i) (evs i)"
  shows "map (\<lambda>u. ui_status u = Done) (final_items cx files evs)
      = map (\<lambda>i. \<not> upload_oversize (ux_max cx) (files ! i) \<and> list_ex accepts (evs i) \<and> i < reached cx files evs)
          [0..<length files]
    \<and> ub_requests (uo_batch (driven_upload cx files evs))
      = map (\<lambda>f. (upload_key (ux_path cx) f, fp_file f))
          (filter (\<lambda>f. \<not> upload_oversize (ux_max cx) f) (take (reached cx files evs) files))
    \<and> (\<forall>i<length files. reached cx files evs \<le> i \<longrightarrow> ui_status (final_items cx files evs ! i) = Cancelled)"
proof -
  let ?k = "reached cx files evs" and ?items = "final_items cx files evs"
  note post = driven_post[of cx files evs, unfolded batch_post_def, simplified]
  have len: "length ?items = length files" using post by (simp add: final_items_def initial_items_def)
  have cancelled: "ui_status (?items ! i) = Cancelled" if "?k \<le> i" "i < length files" for i
    using post that by (auto simp: final_items_def)
  have "(ui_status (?items ! i) = Done) = (\<not> upload_oversize (ux_max cx) (files ! i) \<and> list_ex accepts (evs i) \<and> i < ?k)"
    if i: "i < length files" for i
  proof (cases "i < ?k")
    case True
    with post have "ui_status (?items ! i) = file_status (ux_max cx) (driven_run cx files evs) i (files ! i)"
      by (simp add: final_items_def)
    with driven_status[of cx files i evs, OF assms[OF i]] True show ?thesis by simp
  qed (use cancelled i in simp)
  then have "map (\<lambda>u. ui_status u = Done) ?items
      = map (\<lambda>i. \<not> upload_oversize (ux_max cx) (files ! i) \<and> list_ex accepts (evs i) \<and> i < ?k) [0..<length files]"
    using len by (intro nth_equalityI) simp_all
  with post cancelled show ?thesis by (simp add: initial_items_def)
qed

definition sample_ctx :: upload_ctx where
  "sample_ctx = \<lparr>ux_pct = (\<lambda>l t. 100 * l div t), ux_session = Map.empty, ux_bucket = ''b'', ux_roleId = ''r'',
     ux_path = ''p'', ux_body = jf_name, ux_max = Some 5\<rparr>"

definition sample_files :: "file_with_path list" where
  "sample_files = map (\<lambda>n. \<lparr>fp_file = text_file n, fp_relativePath = n\<rparr>) [''a'', ''b'', ''c'']"

text \<open>The first file arrives, Cancel is clicked while the second is sent.\<close>

definition sample_evs :: "nat \<Rightarrow> xhr_event list" where
  "sample_evs i = (if i = 1 then [UploadProgress True 1 4, SignalAbort]
     else [UploadProgress True 4 4, UploadLoad, XhrLoad 200 [] None])"

lemma sample_settled: "settled_by sample_ctx f (sample_evs i)"
  by (auto simp: settled_by_def request_run_def request_start_def uploadFile_def batch_options_def Let_def sample_evs_def
      upload_defs)

theorem batch_reports_the_server_witness:
  "map (\<lambda>u. ui_status u = Done) (final_items sample_ctx sample_files sample_evs) = [True, False, False]"
proof -
  have "map (\<lambda>i. \<not> upload_oversize (ux_max sample_ctx) (sample_files ! i) \<and> list_ex accepts (sample_evs i)
      \<and> i < reached sample_ctx sample_files sample_evs) [0..<length sample_files] = [True, False, False]"
    by (simp add: sample_files_def sample_evs_def reached_def cancelled_in_def upload_oversize_def sample_ctx_def
        text_file_def upt_rec)
  with batch_reports_the_server[of sample_files sample_ctx sample_evs] sample_settled show ?thesis by simp
qed

subsection \<open>The progress bar\<close>

text \<open>The browser never reports more bytes sent than there are.\<close>

definition progress_sane :: "xhr_event list \<Rightarrow> bool" where
  "progress_sane evs = list_all (\<lambda>ev. case ev of UploadProgress lc loaded totalBytes \<Rightarrow> loaded \<le> totalBytes | _ \<Rightarrow> True) evs"

definition calls_bounded :: "upload_call list \<Rightarrow> bool" where
  "calls_bounded cs = list_all (\<lambda>c. case c of OnProgress p \<Rightarrow> p \<le> 100 | OnFinalizing \<Rightarrow> True) cs"

lemma calls_bounded_append [simp]: "calls_bounded (xs @ ys) \<longleftrightarrow> calls_bounded xs \<and> calls_bounded ys"
  by (simp add: calls_bounded_def)

lemma calls_bounded_simps [simp]:
  "calls_bounded []" "calls_bounded (OnProgress p # cs) \<longleftrightarrow> p \<le> 100 \<and> calls_bounded cs"
  "calls_bounded (OnFinalizing # cs) \<longleftrightarrow> calls_bounded cs"
  by (simp_all add: calls_bounded_def)

lemma event_calls_bounded:
  assumes "\<And>l t. l \<le> t \<Longrightarrow> pct l t \<le> 100" "progress_sane [ev]" "calls_bounded (us_calls st)"
  shows "calls_bounded (us_calls (upload_event pct st ev))"
  using assms by (cases ev) (auto simp: progress_sane_def upload_defs split: option.splits)

lemma run_calls_bounded:
  assumes "\<And>l t. l \<le> t \<Longrightarrow> pct l t \<le> 100" "run_by event_allowed (upload_event pct) evs st = Some st'"
    "progress_sane evs" "calls_bounded (us_calls st)"
  shows "calls_bounded (us_calls st')"
  using assms(2-)
proof (induction evs arbitrary: st)
  case (Cons ev evs)
  then have "progress_sane [ev]" "progress_sane evs" by (simp_all add: progress_sane_def)
  with Cons event_calls_bounded[OF assms(1)] show ?case by (auto split: if_splits)
qed simp

definition item_bounded :: "upload_item \<Rightarrow> bool" where
  "item_bounded u \<longleftrightarrow> (case ui_progress u of None \<Rightarrow> True | Some p \<Rightarrow> p \<le> 100)"

definition items_bounded :: "upload_item list \<Rightarrow> bool" where
  "items_bounded us \<longleftrightarrow> list_all item_bounded us"

definition shown_bounded :: "upload_batch \<Rightarrow> bool" where
  "shown_bounded st \<longleftrightarrow> items_bounded (ub_items st) \<and> (\<forall>us\<in>set (ub_shown st). items_bounded us)"

lemma shown_set_item:
  assumes "shown_bounded st" "\<And>u. item_bounded u \<Longrightarrow> item_bounded (g u)"
  shows "shown_bounded (set_item i g st)"
proof (cases "i < length (ub_items st)")
  case True
  then have "item_bounded (g (ub_items st ! i))"
    using assms by (auto simp: shown_bounded_def items_bounded_def list_all_iff)
  with assms(1) show ?thesis
    by (auto simp: shown_bounded_def set_item_def items_bounded_def list_all_iff
        dest!: subsetD[OF set_update_subset_insert])
next
  case False
  with assms(1) show ?thesis by (simp add: shown_bounded_def set_item_def not_less list_update_beyond)
qed

lemma shown_simps [simp]:
  "shown_bounded (renderToast st) = shown_bounded st" "shown_bounded (look_at_signal c st) = shown_bounded st"
  "shown_bounded (st\<lparr>ub_requests := rs\<rparr>) = shown_bounded st"
  by (auto simp: shown_bounded_def renderToast_def look_at_signal_def)

lemma shown_callback: "shown_bounded st \<Longrightarrow> calls_bounded [c] \<Longrightarrow> shown_bounded (upload_callback i st c)"
  by (cases c) (auto intro!: shown_set_item simp: item_bounded_def)

lemma shown_callbacks: "shown_bounded st \<Longrightarrow> calls_bounded cs \<Longrightarrow> shown_bounded (foldl (upload_callback i) st cs)"
proof (induction cs arbitrary: st)
  case (Cons c cs)
  then have "calls_bounded [c]" "calls_bounded cs" by (cases c; simp)+
  with Cons shown_callback show ?case by simp
qed simp

lemma shown_one: "shown_bounded st \<Longrightarrow> calls_bounded (fst (run i)) \<Longrightarrow> shown_bounded (upload_one run path i f st)"
  unfolding upload_one_def upload_finish_def Let_def
  by (auto intro!: shown_set_item shown_callbacks simp: item_bounded_def split: sum.split)

lemma shown_loop:
  assumes "\<And>j. i \<le> j \<Longrightarrow> j < i + length files \<Longrightarrow> calls_bounded (fst (run j))" "shown_bounded st"
  shows "shown_bounded (upload_loop mx run clicked path i files st)"
  using assms
proof (induction files arbitrary: i st)
  case (Cons f files)
  let ?l = "look_at_signal (clicked i) st"
  have "shown_bounded (cancel_rest i ?l)" using Cons.prems(2)
    by (auto simp: cancel_rest_def shown_bounded_def items_bounded_def item_bounded_def list_all_iff look_at_signal_def
        dest: in_set_takeD in_set_dropD)
  moreover have "shown_bounded (if upload_oversize mx f then reject_oversize i (jf_size (fp_file f)) (the mx) ?l
      else upload_one run path i f ?l)"
    using Cons.prems shown_one[of ?l run i] by (auto simp: reject_oversize_def item_bounded_def intro!: shown_set_item)
  ultimately show ?case using Cons.IH[of "i + 1"] Cons.prems(1) by simp
qed simp

lemma callbacks_shown: "set (ub_shown st) \<subseteq> set (ub_shown (foldl (upload_callback i) st cs))"
proof (induction cs arbitrary: st)
  case (Cons c cs)
  have "set (ub_shown st) \<subseteq> set (ub_shown (upload_callback i st c))" by (cases c) auto
  with Cons.IH[of "upload_callback i st c"] show ?case by auto
qed simp

lemma one_shown: "set (ub_shown st) \<subseteq> set (ub_shown (upload_one run path i f st))"
proof -
  let ?a = "renderToast (set_item i (\<lambda>u. u\<lparr>ui_status := Uploading, ui_progress := Some 0\<rparr>) st)"
  let ?b = "?a\<lparr>ub_requests := ub_requests ?a @ [(upload_key path f, fp_file f)]\<rparr>"
  have "ub_shown (upload_one run path i f st)
      = ub_shown (upload_finish i (snd (run i)) (foldl (upload_callback i) ?b (fst (run i)))) @
        [ub_items (upload_finish i (snd (run i)) (foldl (upload_callback i) ?b (fst (run i))))]"
    by (simp add: upload_one_def Let_def)
  moreover have "ub_shown (upload_finish i out st) = ub_shown st" for out st
    by (simp add: upload_finish_def split: sum.split)
  ultimately show ?thesis using callbacks_shown[of ?b i "fst (run i)"] by auto
qed

lemma loop_shown: "set (ub_shown st) \<subseteq> set (ub_shown (upload_loop mx run clicked path i files st))"
proof (induction files arbitrary: i st)
  case (Cons f files)
  let ?l = "look_at_signal (clicked i) st"
  let ?s = "if upload_oversize mx f then reject_oversize i (jf_size (fp_file f)) (the mx) ?l else upload_one run path i f ?l"
  have "ub_shown ?l = ub_shown st" "ub_shown (cancel_rest i ?l) = ub_shown st"
    by (simp_all add: look_at_signal_def cancel_rest_def)
  moreover have "set (ub_shown ?l) \<subseteq> set (ub_shown ?s)" using one_shown[of ?l] by (auto simp: reject_oversize_def)
  ultimately show ?case using Cons.IH[where i = "i + 1" and st = ?s] by auto
qed simp

text \<open>The view of a list of items.\<close>

lemma bar_of_bounded:
  assumes "items_bounded us"
  shows "pv_bar_num (uploadProgress us) \<le> 100 * pv_bar_den (uploadProgress us)"
proof -
  let ?act = "find (\<lambda>u. ui_status u = Uploading \<or> ui_status u = Finalizing) us"
  let ?set = "has_status Done us + has_status Errored us + has_status Cancelled us"
  have le: "?set \<le> length us" by (induction us) (auto simp: has_status_def)
  have "100 * ?set + active_percent ?act \<le> 100 * length us"
  proof (cases ?act)
    case None
    with le show ?thesis by (simp add: active_percent_def)
  next
    case (Some a)
    then have "a \<in> set us" by (metis find_Some_iff nth_mem)
    with assms have "active_percent (Some a) \<le> 100"
      by (auto simp: active_percent_def items_bounded_def item_bounded_def list_all_iff split: option.splits)
    with Some find_active_not_counted[OF Some] show ?thesis by simp
  qed
  then show ?thesis by (auto simp: uploadProgress_def Let_def has_status_def)
qed

text \<open>C13: whatever the browser reports for the requests of a batch, as long as it never reports more bytes sent
  than a file has, no toast the batch shows has a bar outside 0 to 100 percent.\<close>

theorem batch_bars_bounded:
  assumes "\<And>l t. l \<le> t \<Longrightarrow> ux_pct cx l t \<le> 100" "\<And>i. i < length files \<Longrightarrow> progress_sane (evs i)"
    and "us \<in> set (ub_shown (uo_batch (driven_upload cx files evs)))"
  shows "pv_bar_num (uploadProgress us) \<le> 100 * pv_bar_den (uploadProgress us) \<and> 0 < pv_bar_den (uploadProgress us)"
proof -
  have "calls_bounded (fst (driven_run cx files evs j))" if "j < length files" for j
  proof (cases "request_run cx (files ! j) (evs j)")
    case (Some st)
    have "calls_bounded (us_calls (request_start cx (files ! j)))"
      by (simp add: request_start_def uploadFile_def batch_options_def Let_def)
    from run_calls_bounded[OF assms(1) Some[unfolded request_run_def] assms(2)[OF that] this] Some
    show ?thesis by (simp add: driven_run_def)
  qed (simp add: driven_run_def)
  then have "shown_bounded (uo_batch (driven_upload cx files evs))"
    unfolding driven_upload_def handleUpload_def Let_def
    by (simp, intro shown_loop) (auto simp: shown_bounded_def items_bounded_def item_bounded_def initial_items_def list_all_iff)
  with assms(3) have "items_bounded us" by (simp add: shown_bounded_def)
  from bar_of_bounded[OF this] show ?thesis by (simp add: uploadProgress_def Let_def)
qed

theorem batch_bars_bounded_witness:
  "\<exists>us. us \<in> set (ub_shown (uo_batch (driven_upload sample_ctx sample_files sample_evs))) \<and> us \<noteq> []
     \<and> pv_bar_num (uploadProgress us) \<le> 100 * pv_bar_den (uploadProgress us)"
proof -
  have shown: "initial_items sample_files \<in> set (ub_shown (uo_batch (driven_upload sample_ctx sample_files sample_evs)))"
    unfolding driven_upload_def handleUpload_def Let_def
    by (simp, rule subsetD[OF loop_shown]) simp
  have "100 * l div t \<le> 100" if "l \<le> t" for l t :: nat
    using that div_le_mono[of "100 * l" "100 * t" t] by (cases "t = 0") simp_all
  then show ?thesis
    using batch_bars_bounded[OF _ _ shown] shown
    by (intro exI[of _ "initial_items sample_files"])
      (auto simp: sample_ctx_def sample_evs_def progress_sane_def sample_files_def initial_items_def)
qed

end
