(* ===== verification/Ui.thy ===== *)
theory Ui
  imports Complex_Main
begin

text \<open>
  What a component renders: a tree of texts, controls and containers.  The layout and style properties
  of the markup are left out; the texts, the conditions under which something is rendered or disabled,
  and the calls a control makes are kept.  A call is a value of the type variable, so that a page can
  name its handlers.

  Two rules of the platform are part of the tree's meaning.  A button whose type is submit, pressed inside
  a form of the document, submits that form; the submit event then bubbles through the ancestors of the
  React tree, also through those a portal (a modal, a drawer) is rendered for, until a handler stops it.
  The Enter key in a text field presses the first submit button of the form, and does nothing when that
  button is disabled.  A button without a type has the library's default, which is a parameter.  A button
  that shows a pending request is disabled, as the component library documents it; a modal or drawer can
  be closed by its close button, by Escape or by a click outside of it, unless it forbids all of these.
\<close>

subsection \<open>Trees\<close>

datatype button_type = SubmitType | PlainType | DefaultType

datatype 'c ui =
    Txt string
  | Heading nat string
  | Alert string string "'c ui list"
  | Button button_type string bool "'c list"
  | Input string bool string "string \<Rightarrow> 'c list"
  | NumberField string bool rat "rat \<Rightarrow> 'c list"
  | Check string bool bool "bool \<Rightarrow> 'c list"
  | Choice string bool "(string \<times> string) list" "string option" "string option \<Rightarrow> 'c list"
  | Radio string bool "(string \<times> string) list" string "string \<Rightarrow> 'c list"
  | Link string string
  | Hint string "'c ui list"
  | Group "'c ui list"
  | Tags string bool "string list" "string list \<Rightarrow> 'c list"
  | Portal bool string "'c list option" "'c ui list"
  | Form "'c list" bool "'c ui list"

definition when_shown :: "bool \<Rightarrow> 'c ui list \<Rightarrow> 'c ui list" where
  "when_shown b us = (if b then us else [])"

text \<open>An input of a form shows its error below the field.\<close>

definition field_error :: "string option \<Rightarrow> 'c ui list" where
  "field_error e = (case e of None \<Rightarrow> [] | Some m \<Rightarrow> [Txt m])"

subsection \<open>What is on screen\<close>

fun ui_texts :: "'c ui \<Rightarrow> string list" where
  "ui_texts (Txt s) = [s]"
| "ui_texts (Heading n s) = [s]"
| "ui_texts (Alert color t us) = t # concat (map ui_texts us)"
| "ui_texts (Hint s us) = concat (map ui_texts us)"
| "ui_texts (Group us) = concat (map ui_texts us)"
| "ui_texts (Portal shown t cl us) = (if shown then t # concat (map ui_texts us) else [])"
| "ui_texts (Form cs stop us) = concat (map ui_texts us)"
| "ui_texts u = []"

text \<open>The labels of the buttons, with whether each can be pressed.\<close>

fun ui_buttons :: "'c ui \<Rightarrow> (string \<times> bool) list" where
  "ui_buttons (Button ty label dis cs) = [(label, \<not> dis)]"
| "ui_buttons (Alert color t us) = concat (map ui_buttons us)"
| "ui_buttons (Hint s us) = concat (map ui_buttons us)"
| "ui_buttons (Group us) = concat (map ui_buttons us)"
| "ui_buttons (Portal shown t cl us) = (if shown then concat (map ui_buttons us) else [])"
| "ui_buttons (Form cs stop us) = concat (map ui_buttons us)"
| "ui_buttons u = []"

text \<open>The targets of the links.\<close>

fun ui_links :: "'c ui \<Rightarrow> string list" where
  "ui_links (Link label target) = [target]"
| "ui_links (Alert color t us) = concat (map ui_links us)"
| "ui_links (Hint s us) = concat (map ui_links us)"
| "ui_links (Group us) = concat (map ui_links us)"
| "ui_links (Portal shown t cl us) = (if shown then concat (map ui_links us) else [])"
| "ui_links (Form cs stop us) = concat (map ui_links us)"
| "ui_links u = []"

subsection \<open>What a press does\<close>

definition submits :: "button_type \<Rightarrow> button_type \<Rightarrow> bool" where
  "submits dflt ty \<longleftrightarrow> ty = SubmitType \<or> (ty = DefaultType \<and> dflt = SubmitType)"

text \<open>The first submit button of a form, by whether it can be pressed; portals and inner forms do not belong
  to it.\<close>

fun first_some :: "'a option list \<Rightarrow> 'a option" where
  "first_some [] = None"
| "first_some (x # xs) = (case x of Some a \<Rightarrow> Some a | None \<Rightarrow> first_some xs)"

fun default_button :: "button_type \<Rightarrow> 'c ui \<Rightarrow> bool option" where
  "default_button dflt (Button ty label dis cs) = (if submits dflt ty then Some (\<not> dis) else None)"
| "default_button dflt (Alert color t us) = first_some (map (default_button dflt) us)"
| "default_button dflt (Hint s us) = first_some (map (default_button dflt) us)"
| "default_button dflt (Group us) = first_some (map (default_button dflt) us)"
| "default_button dflt u = None"

text \<open>The handlers a submit event reaches, from the innermost form outwards.\<close>

fun bubble :: "('c list \<times> bool) list \<Rightarrow> 'c list" where
  "bubble [] = []"
| "bubble ((cs, stop) # fs) = cs @ (if stop then [] else bubble fs)"

text \<open>All calls the controls of a tree can make.  \<open>enc\<close> are the forms around it in the React tree;
  \<open>idom\<close> says that the innermost of them encloses it in the document, with whether its default button
  can be pressed by the Enter key.\<close>

fun ui_effects :: "button_type \<Rightarrow> ('c list \<times> bool) list \<Rightarrow> bool option \<Rightarrow> 'c ui \<Rightarrow> 'c list set" where
  "ui_effects dflt enc idom (Button ty label dis cs) =
     (if dis then {} else {cs @ (if submits dflt ty \<and> idom \<noteq> None then bubble enc else [])})"
| "ui_effects dflt enc idom (Input label dis v f) =
     (if dis then {} else range f \<union> (if idom = Some True then {bubble enc} else {}))"
| "ui_effects dflt enc idom (NumberField label dis v f) =
     (if dis then {} else range f \<union> (if idom = Some True then {bubble enc} else {}))"
| "ui_effects dflt enc idom (Tags label dis v f) =
     (if dis then {} else range f \<union> (if idom = Some True then {bubble enc} else {}))"
| "ui_effects dflt enc idom (Check label dis v f) = (if dis then {} else range f)"
| "ui_effects dflt enc idom (Choice label dis opts v f) =
     (if dis then {} else {f w |w. w = None \<or> w \<in> (\<lambda>p. Some (fst p)) ` set opts})"
| "ui_effects dflt enc idom (Radio label dis opts v f) = (if dis then {} else f ` fst ` set opts)"
| "ui_effects dflt enc idom (Alert color t us) = \<Union> (set (map (ui_effects dflt enc idom) us))"
| "ui_effects dflt enc idom (Hint s us) = \<Union> (set (map (ui_effects dflt enc idom) us))"
| "ui_effects dflt enc idom (Group us) = \<Union> (set (map (ui_effects dflt enc idom) us))"
| "ui_effects dflt enc idom (Portal shown t cl us) =
     (if shown then \<Union> (set (map (ui_effects dflt enc None) us)) \<union> (case cl of None \<Rightarrow> {} | Some cs \<Rightarrow> {cs}) else {})"
| "ui_effects dflt enc idom (Form cs stop us) =
     \<Union> (set (map (ui_effects dflt ((cs, stop) # enc)
        (Some (first_some (map (default_button dflt) us) = Some True))) us))"
| "ui_effects dflt enc idom u = {}"

text \<open>The calls of a component that stands on its own.\<close>

definition ui_calls :: "button_type \<Rightarrow> 'c ui \<Rightarrow> 'c set" where
  "ui_calls dflt u = \<Union> (set ` ui_effects dflt [] None u)"

text \<open>A control of a part is a control of the whole.\<close>

lemma effects_within:
  "u \<in> set us \<Longrightarrow> cs \<in> ui_effects dflt enc idom u \<Longrightarrow> cs \<in> ui_effects dflt enc idom (Group us)"
  "u \<in> set us \<Longrightarrow> cs \<in> ui_effects dflt enc None u \<Longrightarrow> cs \<in> ui_effects dflt enc idom (Portal True t cl us)"
  "u \<in> set us \<Longrightarrow> (\<And>b. cs \<in> ui_effects dflt ((k, stop) # enc) (Some b) u) \<Longrightarrow> cs \<in> ui_effects dflt enc idom (Form k stop us)"
  by auto

lemma first_some_None: "first_some xs = None \<longleftrightarrow> list_all (\<lambda>x. x = None) xs"
  by (induction xs) (auto split: option.split)

lemma ui_calls_iff: "c \<in> ui_calls dflt u \<longleftrightarrow> (\<exists>cs\<in>ui_effects dflt [] None u. c \<in> set cs)"
  by (auto simp: ui_calls_def)

lemma when_shown_simps [simp]: "when_shown True us = us" "when_shown False us = []"
  by (simp_all add: when_shown_def)

subsection \<open>A tree inside a form\<close>

text \<open>A tree leaves the forms around it alone when each of its buttons either is typed as a plain button,
  or sits in a form of its own that stops the event, or is outside of every form of the document.\<close>

fun quiet :: "button_type \<Rightarrow> bool \<Rightarrow> bool \<Rightarrow> 'c ui \<Rightarrow> bool" where
  "quiet dflt idom stopped (Button ty label dis cs) \<longleftrightarrow> stopped \<or> \<not> idom \<or> \<not> submits dflt ty"
| "quiet dflt idom stopped (Input label dis v f) \<longleftrightarrow> stopped \<or> \<not> idom"
| "quiet dflt idom stopped (NumberField label dis v f) \<longleftrightarrow> stopped \<or> \<not> idom"
| "quiet dflt idom stopped (Tags label dis v f) \<longleftrightarrow> stopped \<or> \<not> idom"
| "quiet dflt idom stopped (Alert color t us) \<longleftrightarrow> list_all (quiet dflt idom stopped) us"
| "quiet dflt idom stopped (Hint s us) \<longleftrightarrow> list_all (quiet dflt idom stopped) us"
| "quiet dflt idom stopped (Group us) \<longleftrightarrow> list_all (quiet dflt idom stopped) us"
| "quiet dflt idom stopped (Portal shown t cl us) \<longleftrightarrow> \<not> shown \<or> list_all (quiet dflt False stopped) us"
| "quiet dflt idom stopped (Form cs stop us) \<longleftrightarrow> list_all (quiet dflt True (stopped \<or> stop)) us"
| "quiet dflt idom stopped u \<longleftrightarrow> True"

lemma bubble_stopped: "list_ex snd inner \<Longrightarrow> bubble (inner @ outer) = bubble inner"
  by (induction inner rule: bubble.induct) auto

lemma map_when_shown [simp]: "map f (when_shown b us) = when_shown b (map f us)"
  by (simp add: when_shown_def)

lemma quiet_effects:
  assumes "quiet dflt (idom \<noteq> None) (list_ex snd inner) u"
  shows "ui_effects dflt (inner @ outer) idom u = ui_effects dflt inner idom u"
  using assms
proof (induction u arbitrary: inner idom)
  case (Alert color t us)
  then show ?case by (auto simp: list_all_iff)
next
  case (Hint s us)
  then show ?case by (auto simp: list_all_iff)
next
  case (Group us)
  then show ?case by (auto simp: list_all_iff)
next
  case (Portal shown t cl us)
  then show ?case by (auto simp: list_all_iff)
next
  case (Form cs stop us)
  let ?d = "Some (first_some (map (default_button dflt) us) = Some True)"
  have "ui_effects dflt (((cs, stop) # inner) @ outer) ?d u = ui_effects dflt ((cs, stop) # inner) ?d u" if "u \<in> set us" for u
    using Form that by (intro Form.IH) (auto simp: list_all_iff disj_commute)
  then show ?case by (auto simp del: append_Cons simp: append_Cons[symmetric])
qed (auto simp: bubble_stopped)

text \<open>A quiet tree inside a form never submits it.\<close>

lemma quiet_inside:
  "quiet dflt True False u \<Longrightarrow> ui_effects dflt outer (Some b) u = ui_effects dflt [] (Some b) u"
  using quiet_effects[of dflt "Some b" "[]" u outer] by simp

subsection \<open>A tree as a part of another one\<close>

text \<open>A component embedded in another one reports its calls wrapped in a call of the outer one.\<close>

lemma map_bubble: "map g (bubble enc) = bubble (map (\<lambda>p. (map g (fst p), snd p)) enc)"
  by (induction enc rule: bubble.induct) auto

lemma default_button_map: "default_button dflt (map_ui g u) = default_button dflt u"
  by (induction u) (simp_all add: comp_def cong: map_cong)

lemma effects_map:
  "ui_effects dflt (map (\<lambda>p. (map g (fst p), snd p)) enc) idom (map_ui g u) = map g ` ui_effects dflt enc idom u"
proof (induction u arbitrary: enc idom)
  case (Form cs stop us)
  have "ui_effects dflt ((map g cs, stop) # map (\<lambda>p. (map g (fst p), snd p)) enc) d (map_ui g u)
      = map g ` ui_effects dflt ((cs, stop) # enc) d u" if "u \<in> set us" for u d
    using Form[OF that, of "(cs, stop) # enc" d] by simp
  then show ?case by (auto simp: default_button_map comp_def)
next
  case (Choice label dis opts v f)
  then show ?case by (auto simp: image_iff)
qed (auto simp: map_bubble image_Un image_image split: option.split)

lemma effects_map0: "ui_effects dflt [] idom (map_ui g u) = map g ` ui_effects dflt [] idom u"
  using effects_map[of dflt g "[]"] by simp

lemma quiet_map: "quiet dflt idom stopped (map_ui g u) = quiet dflt idom stopped u"
  by (induction u arbitrary: idom stopped) (auto simp: list_all_iff)

lemma quiet_default: "quiet dflt True False u \<Longrightarrow> default_button dflt u = None"
  by (induction u) (auto simp: list_all_iff first_some_None)

text \<open>A quiet component embedded in a form makes calls of its own only.\<close>

lemma embedded_calls:
  assumes "quiet dflt True False u" "cs \<in> ui_effects dflt outer (Some b) (map_ui g u)"
  shows "set cs \<subseteq> range g"
proof -
  have "quiet dflt True False (map_ui g u)" using assms(1) by (simp add: quiet_map)
  from quiet_inside[OF this] assms(2) show ?thesis by (auto simp: effects_map0)
qed

lemma embedded_offers:
  assumes "quiet dflt True False u" "cs \<in> ui_effects dflt [] (Some b) u"
  shows "map g cs \<in> ui_effects dflt outer (Some b) (map_ui g u)"
proof -
  have "quiet dflt True False (map_ui g u)" using assms(1) by (simp add: quiet_map)
  from quiet_inside[OF this] assms(2) show ?thesis by (simp add: effects_map0)
qed

subsection \<open>Parts without controls\<close>

fun inert :: "'c ui \<Rightarrow> bool" where
  "inert (Txt s) \<longleftrightarrow> True"
| "inert (Heading n s) \<longleftrightarrow> True"
| "inert (Link s h) \<longleftrightarrow> True"
| "inert (Alert color t us) \<longleftrightarrow> list_all inert us"
| "inert (Hint s us) \<longleftrightarrow> list_all inert us"
| "inert (Group us) \<longleftrightarrow> list_all inert us"
| "inert u \<longleftrightarrow> False"

lemma first_some_append [simp]:
  "first_some (xs @ ys) = (case first_some xs of Some a \<Rightarrow> Some a | None \<Rightarrow> first_some ys)"
  by (induction xs) (auto split: option.split)

lemma inert_effects: "inert u \<Longrightarrow> ui_effects dflt enc idom u = {}"
  by (induction u) (auto simp: list_all_iff)

lemma inert_default: "inert u \<Longrightarrow> default_button dflt u = None"
  by (induction u) (auto simp: list_all_iff first_some_None)

lemma inert_quiet: "inert u \<Longrightarrow> quiet dflt a b u"
  by (induction u) (auto simp: list_all_iff)

lemma inert_parts:
  assumes "list_all inert us"
  shows "(\<Union>u\<in>set us. ui_effects dflt enc idom u) = {}" "first_some (map (default_button dflt) us) = None"
    "list_all (quiet dflt a b) us"
  using assms by (simp_all add: list_all_iff first_some_None inert_effects inert_default inert_quiet)

lemma list_all_when_shown [simp]: "list_all P (when_shown b us) \<longleftrightarrow> b \<longrightarrow> list_all P us"
  by (simp add: when_shown_def)

lemma inert_field_error [simp]: "list_all inert (field_error e)"
  by (simp add: field_error_def split: option.split)

lemma inert_texts [simp]: "list_all inert (map Txt ss)"
  by (simp add: list_all_iff)

lemmas texts_parts [simp] = inert_parts[OF inert_texts] inert_parts[OF inert_field_error]

end
