(* ===== verification/Feedback.thy ===== *)
theory Feedback
  imports Ui Forms Toast Machine Query_Keys
begin

text \<open>
  The small shared screens: \<open>components/EmptyState/EmptyState.tsx\<close>, \<open>QueryErrorState.tsx\<close>, the confirmation
  \<open>components/Confirm/ConfirmDeleteModal.tsx\<close>, the loader that waits before it appears
  (\<open>components/DelayedLoader/DelayedLoader.tsx\<close>), the error boundary
  (\<open>components/ErrorBoundary/ErrorBoundary.tsx\<close> with \<open>ErrorFallback.tsx\<close>), the help chip of a field
  (\<open>FieldLabelWithHelp.tsx\<close>), the bar of a toast (\<open>components/Upload/AutoCloseProgress.tsx\<close>) and the role
  chip (\<open>RoleBadge.tsx\<close>).
\<close>

subsection \<open>Empty and failed\<close>

definition emptyState :: "string \<Rightarrow> string option \<Rightarrow> 'c ui list \<Rightarrow> 'c ui" where
  "emptyState title description cta =
     Group ([Heading 3 title] @ when_shown (truthy description) [Txt (the description)] @ cta)"

definition queryErrorState :: "js_error \<Rightarrow> string \<Rightarrow> 'c ui list \<Rightarrow> 'c ui" where
  "queryErrorState err title cta = emptyState title (Some (getErrorMessage err)) cta"

definition roleBadge :: "string \<Rightarrow> 'c ui" where
  "roleBadge roleId = Txt roleId"

subsection \<open>The error of a form field\<close>

definition err_below :: "string \<Rightarrow> 'v form \<Rightarrow> 'c ui list" where
  "err_below k f = field_error (map_of (fm_errors f) k)"

lemma inert_err_below [simp]: "list_all inert (err_below k f)"
  by (simp add: err_below_def)

lemmas err_parts [simp] = inert_parts[OF inert_err_below]

lemma err_effects [simp]: "u \<in> set (err_below k f) \<Longrightarrow> ui_effects dflt enc idom u = {}"
  using inert_err_below[of k f] inert_effects by (fastforce simp only: list_all_iff)

subsection \<open>The confirmation\<close>

definition three_dots :: string where
  "three_dots = [CHR 0xE2, CHR 0x80, CHR 0xA6]"

definition confirm_lines :: "string list \<Rightarrow> string list" where
  "confirm_lines items =
     (if length items = 1 then [''Delete '' @ hd items @ ''? This cannot be undone.'']
      else [''Delete the following '' @ nat_str (length items) @ '' items? This cannot be undone.'']
        @ take 10 items
        @ (if 10 < length items then [three_dots @ ''and '' @ nat_str (length items - 10) @ '' more''] else []))"

definition confirm_delete_view :: "bool \<Rightarrow> 'c list \<Rightarrow> 'c list \<Rightarrow> string list \<Rightarrow> bool \<Rightarrow> 'c ui" where
  "confirm_delete_view opened onClose onConfirm items loading =
     Portal opened ''Confirm deletion'' (Some onClose)
       (map Txt (confirm_lines items)
        @ [Button DefaultType ''Cancel'' loading onClose, Button DefaultType ''Delete'' loading onConfirm])"

text \<open>Every item is named or counted: the lines of a longer list are the question, the first ten names
  and the number of the others.\<close>

lemma confirm_lines_complete:
  "2 \<le> length items \<Longrightarrow>
     length (confirm_lines items) = 1 + min 10 (length items) + (if 10 < length items then 1 else 0)
     \<and> (length items \<le> 10 \<longrightarrow> set items \<subseteq> set (confirm_lines items))"
  by (auto simp: confirm_lines_def)

lemma confirm_closed: "ui_effects dflt enc idom (confirm_delete_view False onClose onConfirm items loading) = {}"
  by (simp add: confirm_delete_view_def)

lemma confirm_pending: "ui_effects dflt [] idom (confirm_delete_view opened onClose onConfirm items True) \<subseteq> {onClose}"
  by (auto simp: confirm_delete_view_def)

subsection \<open>DelayedLoader\<close>

record delayed_loader =
  dl_delayMs :: nat
  dl_show :: bool
  dl_timer :: bool
  dl_mounted :: bool

definition start_timer :: "delayed_loader \<Rightarrow> delayed_loader" where
  "start_timer st = st\<lparr>dl_timer := (dl_delayMs st \<noteq> 0)\<rparr>"

definition mount_loader :: "nat \<Rightarrow> delayed_loader" where
  "mount_loader delayMs =
     start_timer \<lparr>dl_delayMs = delayMs, dl_show = (delayMs = 0), dl_timer = False, dl_mounted = True\<rparr>"

datatype loader_event = DelayChanged nat | DelayPassed | LoaderUnmounted

fun loader_enabled :: "delayed_loader \<Rightarrow> loader_event \<Rightarrow> bool" where
  "loader_enabled st (DelayChanged d) \<longleftrightarrow> dl_mounted st \<and> d \<noteq> dl_delayMs st"
| "loader_enabled st DelayPassed \<longleftrightarrow> dl_timer st"
| "loader_enabled st LoaderUnmounted \<longleftrightarrow> dl_mounted st"

text \<open>A changed delay clears the timer and starts another one; an unmount clears it.\<close>

fun loader_step :: "delayed_loader \<Rightarrow> loader_event \<Rightarrow> delayed_loader" where
  "loader_step st (DelayChanged d) = start_timer (st\<lparr>dl_delayMs := d, dl_timer := False\<rparr>)"
| "loader_step st DelayPassed = st\<lparr>dl_show := True, dl_timer := False\<rparr>"
| "loader_step st LoaderUnmounted = st\<lparr>dl_timer := False, dl_mounted := False\<rparr>"

definition loader_view :: "string option \<Rightarrow> delayed_loader \<Rightarrow> 'c ui" where
  "loader_view label st = Group (when_shown (dl_show st) (when_shown (truthy label) [Txt (the label)]))"

text \<open>The state of an unmounted loader is never set, and a mounted one that does not show yet waits for
  its timer unless its delay was changed to zero.\<close>

definition loader_inv :: "delayed_loader \<Rightarrow> bool" where
  "loader_inv st \<longleftrightarrow> (dl_timer st \<longrightarrow> dl_mounted st \<and> dl_delayMs st \<noteq> 0)
     \<and> (dl_mounted st \<and> dl_delayMs st \<noteq> 0 \<longrightarrow> dl_show st \<or> dl_timer st)"

interpretation loader_machine: invariant "mount_loader d" loader_enabled loader_step loader_inv
proof
  show "loader_inv (mount_loader d)" by (simp add: loader_inv_def mount_loader_def start_timer_def)
  show "loader_inv (loader_step st ev)" if "loader_inv st" "loader_enabled st ev" for st ev
    using that by (cases ev) (auto simp: loader_inv_def start_timer_def)
qed

lemma unmounted_loader_quiet:
  "run_by loader_enabled loader_step evs (mount_loader d) = Some st \<Longrightarrow> \<not> dl_mounted st \<Longrightarrow> \<not> loader_enabled st ev"
  using loader_machine.inv_run[OF loader_machine.inv_init, of evs d st] by (cases ev) (auto simp: loader_inv_def)

subsection \<open>The error boundary\<close>

record boundary =
  eb_error :: "string option"
  eb_replayKey :: nat
  eb_reloads :: nat

datatype boundary_call = ReplayCrash | ReloadPage

definition getDerivedStateFromError :: "string \<Rightarrow> boundary \<Rightarrow> boundary" where
  "getDerivedStateFromError msg st = st\<lparr>eb_error := Some msg\<rparr>"

definition errorFallback :: "string \<Rightarrow> boundary_call ui" where
  "errorFallback msg =
     Group [Button DefaultType ''Replay crash animation'' False [ReplayCrash], Heading 2 ''Something went wrong'',
       Txt ''The app hit an unexpected error. Try reloading; if it persists, contact your administrator.'',
       Txt msg, Button DefaultType ''Reload'' False [ReloadPage]]"

fun boundary_step :: "boundary \<Rightarrow> boundary_call \<Rightarrow> boundary" where
  "boundary_step st ReplayCrash = st\<lparr>eb_replayKey := eb_replayKey st + 1\<rparr>"
| "boundary_step st ReloadPage = st\<lparr>eb_reloads := eb_reloads st + 1\<rparr>"

definition boundary_view :: "boundary_call ui list \<Rightarrow> boundary \<Rightarrow> boundary_call ui list" where
  "boundary_view children st = (case eb_error st of Some msg \<Rightarrow> [errorFallback msg] | None \<Rightarrow> children)"

text \<open>Once an error is caught, no control of the page leads back to the crashed children.\<close>

lemma caught_stays:
  "eb_error st = Some msg \<Longrightarrow> boundary_view children (boundary_step st c) = [errorFallback msg]"
  by (cases c) (simp_all add: boundary_view_def)

subsection \<open>The help of a field\<close>

datatype help_call = ToggleHelp | CloseHelp

fun help_step :: "bool \<Rightarrow> help_call \<Rightarrow> bool" where
  "help_step opened ToggleHelp = (\<not> opened)"
| "help_step opened CloseHelp = False"

definition fieldLabelWithHelp :: "(help_call \<Rightarrow> 'c) \<Rightarrow> string \<Rightarrow> string \<Rightarrow> bool \<Rightarrow> 'c ui" where
  "fieldLabelWithHelp w label help opened =
     Group [Txt label, Button DefaultType (''More about '' @ label) False [w ToggleHelp],
       Portal opened [] (Some [w CloseHelp]) [Txt help]]"

text \<open>The chip calls nothing but its own popover, so it changes no field, whichever field it labels.\<close>

lemma help_calls: "ui_calls dflt (fieldLabelWithHelp w label help opened) \<subseteq> {w ToggleHelp, w CloseHelp}"
  by (auto simp: ui_calls_def fieldLabelWithHelp_def split: if_splits)

subsection \<open>The bar of a toast\<close>

definition autoCloseProgress :: "nat \<Rightarrow> string" where
  "autoCloseProgress durationMs = ''autocloseProgressShrink '' @ nat_str durationMs @ ''ms linear forwards''"

definition messageWithTimer :: "string \<Rightarrow> nat option \<Rightarrow> string list" where
  "messageWithTimer body autoCloseMs =
     [body] @ (if shows_bar autoCloseMs then [autoCloseProgress (the autoCloseMs)] else [])"

end
