(* ===== verification/Token_Views.thy ===== *)
theory Token_Views
  imports Token_Dialog Feedback
begin

text \<open>
  What the token screens render, and which call each control makes: the two forms
  (\<open>components/Tokens/CreateTokenFormFields.tsx\<close>, \<open>TokenEditFormFields.tsx\<close>) in their drawers and
  modals, the table, the dialog of a new token, the pages \<open>pages/ApiTokensPage.tsx\<close> and
  \<open>pages/admin/AdminApiTokensPage.tsx\<close>, and the list \<open>components/Admin/UserTokensList.tsx\<close> that is
  rendered inside the form of the user drawer.  \<open>relative\<close> and \<open>absolute\<close> are the date formatters.
\<close>

subsection \<open>The forms\<close>

datatype token_form_call = SetName string | SetReadOnly bool | SetMaxRead rat | SetUser "string option" | SubmitForm | CloseForm

definition read_only_switch :: "(token_form_call \<Rightarrow> 'c) \<Rightarrow> bool \<Rightarrow> 'c ui list" where
  "read_only_switch w b =
     [Check ''Read-only'' False b (\<lambda>v. [w (SetReadOnly v)]),
      Txt ''Token can list and read but not upload or delete.'']"

definition slot_lines :: "bool \<Rightarrow> nat \<Rightarrow> nat option \<Rightarrow> 'c ui list" where
  "slot_lines adminMode used limit =
     (case slot_note adminMode used limit of
        None \<Rightarrow> []
      | Some note \<Rightarrow>
          if slotFull used limit then [Alert ''red'' note [Txt ''Revoke unused tokens before creating new ones.'']]
          else [Txt note])"

definition createTokenFormFields ::
  "(token_form_call \<Rightarrow> 'c) \<Rightarrow> create_values form \<Rightarrow> bool \<Rightarrow> nat \<Rightarrow> nat option \<Rightarrow> bool \<Rightarrow> (nat \<times> string) list \<Rightarrow> 'c ui"
where
  "createTokenFormFields w f loading used limit adminMode availableUsers =
     Form [w SubmitForm] True
       ([Txt (''MCP-only'' @ [CHR 0x20] @ em_dash @ '' for AI agents. Web API uses cookie auth.'')]
        @ when_shown adminMode
            ([Choice ''User'' False (user_options availableUsers) (kv_user_id (fm_values f)) (\<lambda>v. [w (SetUser v)])]
             @ err_below ''user_id'' f)
        @ [Input ''Name'' False (kv_name (fm_values f)) (\<lambda>v. [w (SetName v)])] @ err_below ''name'' f
        @ read_only_switch w (kv_is_read_only (fm_values f))
        @ [NumberField ''Max read bytes (MB)'' False (kv_max_read_mb (fm_values f)) (\<lambda>v. [w (SetMaxRead v)]),
           Txt ''Per-call cap on read_file size. Hard server ceiling: 10 MB.''] @ err_below ''max_read_mb'' f
        @ slot_lines adminMode used limit
        @ [Button DefaultType ''Cancel'' loading [w CloseForm],
           Button SubmitType ''Create'' (loading \<or> \<not> create_enabled adminMode used limit) []])"

lemma inert_slot_lines [simp]: "list_all inert (slot_lines adminMode used limit)"
  by (simp add: slot_lines_def split: option.split)

lemmas slot_parts [simp] = inert_parts[OF inert_slot_lines]

text \<open>The form for editing; its two variants differ in their layout only.  While the panel closes the
  last token is still shown.\<close>

definition active_token :: "'t option \<Rightarrow> 't option \<Rightarrow> 't option" where
  "active_token t lastTokenRef = (case t of Some x \<Rightarrow> Some x | None \<Rightarrow> lastTokenRef)"

definition tokenEditFormFields :: "(token_form_call \<Rightarrow> 'c) \<Rightarrow> edit_values form \<Rightarrow> bool \<Rightarrow> 'c ui" where
  "tokenEditFormFields w f loading =
     Form [w SubmitForm] True
       ([Input ''Name'' False (ev_name (fm_values f)) (\<lambda>v. [w (SetName v)])] @ err_below ''name'' f
        @ read_only_switch w (ev_is_read_only (fm_values f))
        @ [NumberField ''Max read (MB)'' False (ev_max_read_mb (fm_values f)) (\<lambda>v. [w (SetMaxRead v)]),
           Txt ''Per-call cap on read_file size. Hard server ceiling: 10 MB.''] @ err_below ''max_read_mb'' f
        @ [Button DefaultType ''Cancel'' loading [w CloseForm], Button SubmitType ''Save'' loading []])"

definition createTokenDrawer ::
  "(token_form_call \<Rightarrow> 'c) \<Rightarrow> bool \<Rightarrow> create_values form \<Rightarrow> bool \<Rightarrow> nat \<Rightarrow> nat option \<Rightarrow> bool \<Rightarrow> (nat \<times> string) list \<Rightarrow> 'c ui"
where
  "createTokenDrawer w opened f loading used limit adminMode availableUsers =
     Portal opened ''Create MCP token'' (Some [w CloseForm])
       [createTokenFormFields w f loading used limit adminMode availableUsers]"

definition createTokenModal ::
  "(token_form_call \<Rightarrow> 'c) \<Rightarrow> bool \<Rightarrow> create_values form \<Rightarrow> bool \<Rightarrow> nat \<Rightarrow> nat option \<Rightarrow> bool \<Rightarrow> (nat \<times> string) list \<Rightarrow> 'c ui"
where
  "createTokenModal w opened f loading used limit adminMode availableUsers =
     Portal opened ''Create MCP token'' (Some [w CloseForm])
       [createTokenFormFields w f loading used limit adminMode availableUsers]"

definition tokenEditDrawer :: "(token_form_call \<Rightarrow> 'c) \<Rightarrow> bool \<Rightarrow> edit_values form \<Rightarrow> bool \<Rightarrow> 'c ui" where
  "tokenEditDrawer w opened f loading =
     Portal opened ''Edit MCP token'' (Some [w CloseForm]) [tokenEditFormFields w f loading]"

definition tokenEditModal :: "(token_form_call \<Rightarrow> 'c) \<Rightarrow> bool \<Rightarrow> edit_values form \<Rightarrow> bool \<Rightarrow> 'c ui" where
  "tokenEditModal w opened f loading =
     Portal opened ''Edit MCP token'' (Some [w CloseForm]) [tokenEditFormFields w f loading]"

subsection \<open>The new token\<close>

datatype plaintext_call = CopyText string | ToggleSnippet | ClosePlaintext

definition tokenPlaintextModal ::
  "(plaintext_call \<Rightarrow> 'c) \<Rightarrow> string \<Rightarrow> bool \<Rightarrow> string \<Rightarrow> string option \<Rightarrow> plaintext_dialog \<Rightarrow> 'c ui" where
  "tokenPlaintextModal w origin opened plaintext noteForAdmin st =
     Portal opened (''Token created '' @ em_dash @ '' copy it now'') None
       ([Alert ''yellow'' ''This token will not be shown again'' (map Txt (plaintext_warning noteForAdmin)),
         Txt plaintext, Button DefaultType ''Copy token'' False [w (CopyText plaintext)],
         Button DefaultType ''Show MCP config snippet'' False [w ToggleSnippet]]
        @ when_shown (pd_snippet_open st)
            [Txt (mcpSnippet origin plaintext),
             Button DefaultType ''Copy snippet'' False [w (CopyText (mcpSnippet origin plaintext))]]
        @ [Button DefaultType (''I copied the token '' @ em_dash @ '' close'') False [w ClosePlaintext]])"

subsection \<open>The table\<close>

datatype tokens_call =
    OpenCreate | CreateCall token_form_call | EditCall token_form_call | PlaintextCall plaintext_call
  | EditRow token_target | RevokeRow token_target | ConfirmRevoke | CancelRevoke | PickFilter "string option"

definition target_of :: "'z api_token_scheme \<Rightarrow> token_target" where
  "target_of t = \<lparr>tt_id = tok_id t, tt_name = tok_name t\<rparr>"

definition dated :: "(string option \<Rightarrow> string) \<Rightarrow> (string option \<Rightarrow> string) \<Rightarrow> string option \<Rightarrow> 'c ui" where
  "dated relative absolute d =
     (if truthy d then Hint (absolute d) [Txt (relative d)] else Txt (relative d))"

definition table_row ::
  "(string option \<Rightarrow> string) \<Rightarrow> (string option \<Rightarrow> string) \<Rightarrow> bool \<Rightarrow> api_token_with_owner \<Rightarrow> tokens_call ui" where
  "table_row relative absolute showOwner t =
     (let r = token_row_of relative True (if showOwner then Some (tok_owner_username t) else None) t
      in Group
        ([Txt (tr_name r)] @ (case tr_owner r of None \<Rightarrow> [] | Some o_name \<Rightarrow> [Txt o_name])
         @ [Hint (absolute (Some (tok_created_at t))) [Txt (relative (Some (tok_created_at t)))],
            if tr_revoked r then Txt (tr_last_used r) else dated relative absolute (tok_last_used_at t),
            Txt (if tr_read_only r then ''read-only'' else em_dash), Txt (tr_max_read r),
            Txt (if tr_revoked r then ''Revoked'' else ''Active'')]
         @ when_shown (tr_can_edit r) [Button DefaultType (''Edit '' @ tr_name r) False [EditRow (target_of t)]]
         @ when_shown (tr_can_revoke r) [Button DefaultType (''Revoke '' @ tr_name r) False [RevokeRow (target_of t)]]))"

definition table_view ::
  "(string option \<Rightarrow> string) \<Rightarrow> (string option \<Rightarrow> string) \<Rightarrow> bool \<Rightarrow> api_token_with_owner list \<Rightarrow> tokens_call ui" where
  "table_view relative absolute showOwner tokens =
     (if tokens = [] then Txt ''No tokens.''
      else Group ([Group (map Txt ([''Name''] @ (if showOwner then [''Owner''] else [])
                     @ [''Created'', ''Last used'', ''Read-only'', ''Max read'', ''Status'']))]
                  @ map (table_row relative absolute showOwner) tokens))"

subsection \<open>The pages\<close>

text \<open>What a page holds besides its data: the page's state, the two forms, the open token dialog and which
  requests are pending.\<close>

record token_screen =
  ts_page :: tokens_page
  ts_create :: "create_values form"
  ts_edit :: "edit_values form"
  ts_dialog :: plaintext_dialog
  ts_creating :: bool
  ts_deleting :: bool
  ts_updating :: bool

definition revoke_items :: "token_target option \<Rightarrow> string list" where
  "revoke_items t = (case t of None \<Rightarrow> [] | Some x \<Rightarrow> [''token '' @ [CHR 0x22] @ tt_name x @ [CHR 0x22]])"

definition plaintext_part :: "string \<Rightarrow> string option \<Rightarrow> token_screen \<Rightarrow> tokens_call ui list" where
  "plaintext_part origin note sc =
     (case tp_plaintext (ts_page sc) of
        None \<Rightarrow> []
      | Some p \<Rightarrow> [tokenPlaintextModal PlaintextCall origin True p note (ts_dialog sc)])"

definition revoke_part :: "token_screen \<Rightarrow> tokens_call ui" where
  "revoke_part sc =
     confirm_delete_view (tp_revoke (ts_page sc) \<noteq> None) [CancelRevoke] [ConfirmRevoke]
       (revoke_items (tp_revoke (ts_page sc))) (ts_deleting sc)"

definition apiTokensPage ::
  "(string option \<Rightarrow> string) \<Rightarrow> (string option \<Rightarrow> string) \<Rightarrow> string \<Rightarrow> js_error option
     \<Rightarrow> (api_token_with_owner list \<times> nat \<times> nat) option \<Rightarrow> bool \<Rightarrow> token_screen \<Rightarrow> tokens_call ui" where
  "apiTokensPage relative absolute origin err tokensData isLoading sc =
     Group
       ((case err of
           Some e \<Rightarrow> [queryErrorState e ''Couldn't load tokens'' []]
         | None \<Rightarrow>
             [Heading 2 ''MCP tokens'', Button DefaultType ''Create token'' False [OpenCreate],
              Txt (''Use these tokens to authorize AI agents (Claude Desktop, Cursor, etc.) at the /mcp endpoint. ''
                @ ''They do not grant access to the web API '' @ em_dash @ '' that uses your session cookie.'')]
             @ (case tokensData of None \<Rightarrow> []
                | Some (ts, used, limit) \<Rightarrow> [Txt (''Used '' @ nat_str used @ '' of '' @ nat_str limit @ '' token slots'')])
             @ when_shown (\<not> isLoading)
                 [table_view relative absolute False (case tokensData of None \<Rightarrow> [] | Some (ts, u, l) \<Rightarrow> ts)])
        @ [createTokenDrawer CreateCall (tp_create_open (ts_page sc)) (ts_create sc) (ts_creating sc)
             (case tokensData of None \<Rightarrow> 0 | Some (ts, u, l) \<Rightarrow> u)
             (Some (case tokensData of None \<Rightarrow> 10 | Some (ts, u, l) \<Rightarrow> l)) False []]
        @ plaintext_part origin None sc
        @ [revoke_part sc, tokenEditDrawer EditCall (tp_edit (ts_page sc) \<noteq> None) (ts_edit sc) (ts_updating sc)])"

definition adminApiTokensPage ::
  "(string option \<Rightarrow> string) \<Rightarrow> (string option \<Rightarrow> string) \<Rightarrow> string \<Rightarrow> js_error option \<Rightarrow> js_error option
     \<Rightarrow> api_token_with_owner list option \<Rightarrow> admin_user list \<Rightarrow> bool \<Rightarrow> string option \<Rightarrow> string \<Rightarrow> token_screen
     \<Rightarrow> tokens_call ui" where
  "adminApiTokensPage relative absolute origin tokensError usersError tokensData users isLoading userFilter owner sc =
     Group
       ((case tokensError of
           Some e \<Rightarrow> [queryErrorState e ''Couldn't load tokens'' []]
         | None \<Rightarrow>
             [Heading 2 ''MCP tokens'', Button DefaultType ''Issue token on behalf of user'' False [OpenCreate]]
             @ (case usersError of None \<Rightarrow> []
                | Some e \<Rightarrow> [Alert ''yellow'' ''User filter unavailable'' [Txt (getErrorMessage e)]])
             @ [Choice ''User'' (usersError \<noteq> None) (map (\<lambda>u. (au_username u, au_username u)) users) userFilter
                  (\<lambda>v. [PickFilter v])]
             @ when_shown (\<not> isLoading)
                 [table_view relative absolute True
                    (tokens_of_user userFilter (case tokensData of None \<Rightarrow> [] | Some ts \<Rightarrow> ts))])
        @ [createTokenDrawer CreateCall (tp_create_open (ts_page sc)) (ts_create sc) (ts_creating sc) 0 None True
             (map (\<lambda>u. (au_id u, au_username u)) users)]
        @ plaintext_part origin (Some (token_note owner)) sc
        @ [revoke_part sc, tokenEditDrawer EditCall (tp_edit (ts_page sc) \<noteq> None) (ts_edit sc) (ts_updating sc)])"

subsection \<open>The list of one user\<close>

definition user_token_row ::
  "(string option \<Rightarrow> string) \<Rightarrow> (string option \<Rightarrow> string) \<Rightarrow> 'z api_token_scheme \<Rightarrow> tokens_call ui" where
  "user_token_row relative absolute t =
     Group [Txt (tok_name t), Txt (if tok_is_read_only t then ''Yes'' else ''No''),
       dated relative absolute (tok_last_used_at t),
       Button PlainType (''Edit '' @ tok_name t) False [EditRow (target_of t)],
       Button PlainType (''Revoke '' @ tok_name t) False [RevokeRow (target_of t)]]"

definition user_tokens_body ::
  "(string option \<Rightarrow> string) \<Rightarrow> (string option \<Rightarrow> string) \<Rightarrow> js_error option \<Rightarrow> bool \<Rightarrow> api_token_with_owner list
     \<Rightarrow> tokens_call ui list" where
  "user_tokens_body relative absolute err isLoading tokens =
     (case err of
        Some e \<Rightarrow> [Txt ''Couldn't load tokens'', Txt (getErrorMessage e)]
      | None \<Rightarrow>
          if isLoading then [Txt ''Loading...'']
          else if tokens = [] then [Txt ''No tokens issued yet.'']
          else [Group (map Txt [''Name'', ''Read-only'', ''Last used'', ''Actions''])]
               @ map (user_token_row relative absolute) tokens)"

definition userTokensList ::
  "(string option \<Rightarrow> string) \<Rightarrow> (string option \<Rightarrow> string) \<Rightarrow> string \<Rightarrow> string \<Rightarrow> nat \<Rightarrow> js_error option \<Rightarrow> bool
     \<Rightarrow> api_token_with_owner list \<Rightarrow> token_screen \<Rightarrow> tokens_call ui" where
  "userTokensList relative absolute origin username userId err isLoading allTokens sc =
     Group
       ([Heading 5 ''MCP tokens'', Button PlainType ''Issue token on behalf'' False [OpenCreate]]
        @ user_tokens_body relative absolute err isLoading (user_tokens username allTokens)
        @ [Txt ''User can also manage their own tokens at /api-tokens.'']
        @ when_shown (tp_create_open (ts_page sc))
            [createTokenModal CreateCall (tp_create_open (ts_page sc)) (ts_create sc) (ts_creating sc) 0 None True
               [(userId, username)]]
        @ plaintext_part origin (Some (token_note username)) sc
        @ [tokenEditModal EditCall (tp_edit (ts_page sc) \<noteq> None) (ts_edit sc) (ts_updating sc)])"

text \<open>What the handlers of the list do: a revocation is not asked for again.\<close>

fun user_list_step :: "nat \<Rightarrow> tokens_call \<Rightarrow> create_token_payload option \<times> nat option \<Rightarrow> update_token_payload option
    \<Rightarrow> tokens_page \<Rightarrow> tokens_page" where
  "user_list_step userId OpenCreate cp up st = st\<lparr>tp_create_open := True\<rparr>"
| "user_list_step userId (CreateCall SubmitForm) cp up st =
     (case fst cp of None \<Rightarrow> st | Some p \<Rightarrow> user_list_create userId p (snd cp) st)"
| "user_list_step userId (CreateCall CloseForm) cp up st = st\<lparr>tp_create_open := False\<rparr>"
| "user_list_step userId (EditCall SubmitForm) cp up st = (case up of None \<Rightarrow> st | Some p \<Rightarrow> submit_edit p st)"
| "user_list_step userId (EditCall CloseForm) cp up st = st\<lparr>tp_edit := None\<rparr>"
| "user_list_step userId (PlaintextCall ClosePlaintext) cp up st = st\<lparr>tp_plaintext := None\<rparr>"
| "user_list_step userId (EditRow t) cp up st = st\<lparr>tp_edit := Some t\<rparr>"
| "user_list_step userId (RevokeRow t) cp up st = st\<lparr>tp_sent := tp_sent st @ [RevokeToken (tt_id t) (tt_name t)]\<rparr>"
| "user_list_step userId c cp up st = st"

subsection \<open>The list inside the form of the user drawer\<close>

lemma quiet_create_form: "quiet dflt False False (createTokenFormFields w f loading used limit adminMode users)"
  by (simp add: createTokenFormFields_def read_only_switch_def)

lemma quiet_edit_form: "quiet dflt False False (tokenEditFormFields w f loading)"
  by (simp add: tokenEditFormFields_def read_only_switch_def)

lemma quiet_dated: "quiet dflt a b (dated relative absolute d)"
  by (simp add: dated_def)

lemma quiet_user_body:
  "list_all (quiet dflt True False) (user_tokens_body relative absolute err isLoading tokens)"
  by (auto simp: user_tokens_body_def user_token_row_def quiet_dated list_all_iff submits_def split: option.split)

lemma quiet_plaintext: "list_all (quiet dflt a b) (plaintext_part origin note sc)"
  by (auto simp: plaintext_part_def tokenPlaintextModal_def split: option.split)

text \<open>Whatever type a button without one has: all buttons of the list are plain, and its dialogs are outside
  of the form in the document and stop the events of their own forms.\<close>

lemma user_tokens_quiet:
  "quiet dflt True False (userTokensList relative absolute origin username userId err isLoading allTokens sc)"
  by (auto simp: userTokensList_def quiet_user_body quiet_plaintext submits_def createTokenModal_def tokenEditModal_def
      quiet_create_form quiet_edit_form)

subsection \<open>Pending requests\<close>

lemma first_default:
  "first_some (map (default_button dflt) (read_only_switch w b)) = None"
  "(\<Union>u\<in>set (read_only_switch w b). ui_effects dflt enc idom u) = range (\<lambda>v. [w (SetReadOnly v)])"
  by (simp_all add: read_only_switch_def)

lemma create_form_effects:
  assumes "cs \<in> ui_effects dflt enc None (createTokenFormFields w f loading used limit adminMode users)"
  shows "(\<exists>v. cs = [w (SetName v)]) \<or> (\<exists>v. cs = [w (SetReadOnly v)]) \<or> (\<exists>v. cs = [w (SetMaxRead v)])
    \<or> (\<exists>v. cs = [w (SetUser v)])
    \<or> (\<not> loading \<and> (w CloseForm \<in> set cs \<or> (cs = [w SubmitForm] \<and> (dflt \<noteq> SubmitType \<longrightarrow> create_enabled adminMode used limit))))"
  using assms
  by (auto simp: createTokenFormFields_def first_default submits_def when_shown_def split: if_splits)

lemma edit_form_effects:
  assumes "cs \<in> ui_effects dflt enc None (tokenEditFormFields w f loading)"
  shows "(\<exists>v. cs = [w (SetName v)]) \<or> (\<exists>v. cs = [w (SetReadOnly v)]) \<or> (\<exists>v. cs = [w (SetMaxRead v)])
    \<or> (\<not> loading \<and> (w CloseForm \<in> set cs \<or> cs = [w SubmitForm]))"
  using assms by (auto simp: tokenEditFormFields_def first_default submits_def split: if_splits)

text \<open>The dialog of a new token can be left by its own button only.\<close>

lemma plaintext_effects:
  "ui_effects dflt enc None (tokenPlaintextModal w origin True p note st)
     = {[w (CopyText p)], [w ToggleSnippet], [w ClosePlaintext]}
       \<union> (if pd_snippet_open st then {[w (CopyText (mcpSnippet origin p))]} else {})"
  by (auto simp: tokenPlaintextModal_def submits_def)

end
