(* ===== verification/User_Views.thy ===== *)
theory User_Views
  imports Token_Views
begin

text \<open>
  What the screens of the user administration render: \<open>pages/admin/UsersPage.tsx\<close> with
  \<open>components/Admin/UserDrawer.tsx\<close>, \<open>ResetPasswordModal.tsx\<close> and the delete confirmation,
  \<open>pages/admin/BansPage.tsx\<close>, \<open>pages/ChangePasswordPage.tsx\<close> and
  \<open>components/Auth/PasswordRequirementsList.tsx\<close>.  The calls of the controls are the events of the
  machines in \<open>Users_Page\<close>, so that the guards of those machines can be compared with the markup.
\<close>

subsection \<open>Passwords\<close>

definition passwordRequirementsList :: "char_classes \<Rightarrow> string \<Rightarrow> password_policy \<Rightarrow> 'c ui list" where
  "passwordRequirementsList cc password policy =
     (case requirement_rows cc password policy of
        None \<Rightarrow> []
      | Some rows \<Rightarrow> [Group (map (\<lambda>(label, met). Group [Hint (if met then ''met'' else ''unmet'') [], Txt label]) rows)])"

definition policy_failed_alert :: "bool \<Rightarrow> string \<Rightarrow> 'c ui list" where
  "policy_failed_alert policyFailed msg = when_shown policyFailed [Alert ''yellow'' [] [Txt msg]]"

definition requirements_part :: "char_classes \<Rightarrow> string \<Rightarrow> password_policy option \<Rightarrow> 'c ui list" where
  "requirements_part cc password policy =
     (case policy of None \<Rightarrow> [] | Some pol \<Rightarrow> passwordRequirementsList cc password pol)"

subsection \<open>ChangePasswordPage\<close>

datatype change_call = ChangeInput change_values | ChangeSubmit

definition changePasswordPage ::
  "char_classes \<Rightarrow> password_policy option \<Rightarrow> bool \<Rightarrow> bool \<Rightarrow> bool \<Rightarrow> change_values form \<Rightarrow> change_call ui" where
  "changePasswordPage cc policy policyFailed must_change pending f =
     (let v = fm_values f in
      Group
        (when_shown must_change [Alert ''yellow'' [] [Txt (''Your password was set or reset by an administrator. ''
            @ ''Please choose a new one before using the app.'')]]
         @ [Heading 2 ''Change password'',
            Form [ChangeSubmit] False
              ([Input ''Current password'' False (cv_current v) (\<lambda>s. [ChangeInput (v\<lparr>cv_current := s\<rparr>)])]
               @ err_below ''current'' f
               @ [Input ''New password'' False (cv_next v) (\<lambda>s. [ChangeInput (v\<lparr>cv_next := s\<rparr>)])]
               @ err_below ''next'' f
               @ requirements_part cc (cv_next v) policy
               @ policy_failed_alert policyFailed
                   (''Couldn't load password policy '' @ em_dash
                    @ '' the server will validate your new password on save.'')
               @ [Input ''Confirm new password'' False (cv_confirm v) (\<lambda>s. [ChangeInput (v\<lparr>cv_confirm := s\<rparr>)])]
               @ err_below ''confirm'' f
               @ [Button SubmitType ''Change password'' (pending \<or> \<not> policy_button_enabled policy policyFailed) []])]))"

subsection \<open>ResetPasswordModal\<close>

datatype users_call = UsersCall users_event | TokensCall tokens_call

definition resetPasswordModal ::
  "char_classes \<Rightarrow> password_policy option \<Rightarrow> bool \<Rightarrow> admin_user option \<Rightarrow> bool \<Rightarrow> reset_values form \<Rightarrow> users_call ui"
where
  "resetPasswordModal cc policy policyFailed target loading f =
     (let v = fm_values f in
      Portal (target \<noteq> None) (''Reset password for '' @ (case target of None \<Rightarrow> [] | Some u \<Rightarrow> au_username u))
        (Some [UsersCall ResetClose])
        [Form [UsersCall (ResetSubmit policy policyFailed)] False
          ([Alert ''yellow'' [] [Txt (''This will overwrite the user's password '' @ em_dash
               @ '' they will need the new value to sign in.'')],
            Input ''New password'' False (rs_password v) (\<lambda>s. [UsersCall (ResetInput (v\<lparr>rs_password := s\<rparr>))])]
           @ err_below ''password'' f
           @ requirements_part cc (rs_password v) policy
           @ policy_failed_alert policyFailed
               (''Couldn't load password policy '' @ em_dash @ '' the server will validate the new password on save.'')
           @ [Check ''Require password change on next sign-in'' False (rs_must_change_password v)
                (\<lambda>b. [UsersCall (ResetInput (v\<lparr>rs_must_change_password := b\<rparr>))]),
              Txt ''If unchecked, the user can keep this password.'',
              Button SubmitType ''Reset password'' (loading \<or> \<not> policy_button_enabled policy policyFailed) []])])"

subsection \<open>UserDrawer\<close>

text \<open>What the drawer is given besides the state of the page: the policy, the signed-in user, the roles on
  offer, whether a request is pending, and the token list of the edited user.\<close>

record users_env =
  ue_classes :: char_classes
  ue_policy :: "password_policy option"
  ue_policyFailed :: bool
  ue_currentUsername :: string
  ue_availableRoles :: "string list"
  ue_saving :: bool
  ue_resetting :: bool
  ue_deleting :: bool
  ue_tokens :: "admin_user \<Rightarrow> tokens_call ui"

definition edit_call :: "user_edit \<Rightarrow> users_call" where
  "edit_call e = UsersCall (UserInput e)"

definition new_password_part :: "users_env \<Rightarrow> user_values form \<Rightarrow> users_call ui" where
  "new_password_part env f =
     (let v = fm_values f in
      Group ([Input ''Password'' False (uf_password v) (\<lambda>s. [edit_call (EditPassword s)])] @ err_below ''password'' f
        @ requirements_part (ue_classes env) (uf_password v) (ue_policy env)
        @ policy_failed_alert (ue_policyFailed env)
            (''Couldn't load password policy '' @ em_dash @ '' the server will validate the new password on save.'')
        @ [Check ''Require password change on next sign-in'' False (uf_must_change_password v)
             (\<lambda>b. [edit_call (EditMustChange b)]),
           Txt (''If unchecked, the user can keep this password. ''
             @ ''Recommended for service accounts or pre-shared credentials.'')]))"

definition admin_switch :: "bool \<Rightarrow> bool \<Rightarrow> users_call ui" where
  "admin_switch self b =
     (let sw = Check ''Administrator'' self b (\<lambda>x. [edit_call (EditAdmin x)])
      in if self then Hint ''You can't remove your own admin rights.'' [sw] else sw)"

definition drawer_tokens :: "users_env \<Rightarrow> drawer_mode \<Rightarrow> admin_user option \<Rightarrow> users_call ui list" where
  "drawer_tokens env mode initialUser =
     (if mode = EditMode then (case initialUser of None \<Rightarrow> [] | Some u \<Rightarrow> [map_ui TokensCall (ue_tokens env u)])
      else [])"

definition user_save_disabled :: "users_env \<Rightarrow> drawer_mode \<Rightarrow> bool" where
  "user_save_disabled env mode \<longleftrightarrow>
     ue_saving env \<or> (mode = CreateMode \<and> ue_policy env = None \<and> \<not> ue_policyFailed env)"

definition userDrawer :: "users_env \<Rightarrow> bool \<Rightarrow> drawer_mode \<Rightarrow> admin_user option \<Rightarrow> user_values form \<Rightarrow> users_call ui" where
  "userDrawer env opened mode initialUser f =
     (let v = fm_values f; self = isSelf (ue_currentUsername env) mode initialUser in
      Portal opened
        (if mode = CreateMode then ''Create user''
         else ''Edit user '' @ (case initialUser of None \<Rightarrow> [] | Some u \<Rightarrow> au_username u))
        (Some [UsersCall CloseDrawer])
        [Form [UsersCall (UserSubmit (ue_policy env) (ue_policyFailed env))] False
          ([Input ''Username'' (mode = EditMode) (uf_username v) (\<lambda>s. [edit_call (EditUsername s)])]
           @ err_below ''username'' f
           @ when_shown (mode = CreateMode) [new_password_part env f]
           @ [admin_switch self (uf_is_admin v),
              Tags ''Allowed roles'' False (uf_allowed_roles v) (\<lambda>rs. [edit_call (EditRoles rs)]),
              Txt ''Roles this user can access. Empty = no roles.'']
           @ drawer_tokens env mode initialUser
           @ [Button SubmitType (if mode = CreateMode then ''Create user'' else ''Save changes'')
                (user_save_disabled env mode) []])])"

subsection \<open>UsersPage\<close>

definition user_row :: "string \<Rightarrow> admin_user \<Rightarrow> users_call ui" where
  "user_row currentUsername u =
     (let self = (au_username u = currentUsername) in
      Group ([Txt (au_username u)] @ when_shown (au_is_admin u) [Txt ''admin''] @ map Txt (au_allowed_roles u)
        @ [Hint ''Edit'' [Button DefaultType (''Edit '' @ au_username u) False [UsersCall (EditUser u)]],
           Hint (if self then ''Use 'Change password' in the user menu'' else ''Reset password'')
             [Button DefaultType (''Reset password for '' @ au_username u) self [UsersCall (ResetOpen u)]],
           Hint (if self then ''You can't delete yourself'' else ''Delete'')
             [Button DefaultType (''Delete '' @ au_username u) self [UsersCall (DeleteOpen u)]]]))"

definition usersPage :: "users_env \<Rightarrow> users_page \<Rightarrow> users_call ui" where
  "usersPage env st =
     Group
       ([Heading 2 ''Users'', Button DefaultType ''Add user'' False [UsersCall AddUser],
         Group (map Txt [''Username'', ''Admin'', ''Roles'', ''Actions''])]
        @ map (user_row (ue_currentUsername env)) (up_users st)
        @ [userDrawer env (up_drawer st \<noteq> None) (users_mode st) (up_edit st) (up_form st),
           resetPasswordModal (ue_classes env) (ue_policy env) (ue_policyFailed env) (up_reset st) (ue_resetting env)
             (up_reset_form st),
           confirm_delete_view (up_delete st \<noteq> None) [UsersCall DeleteClose] [UsersCall DeleteConfirm]
             (case up_delete st of None \<Rightarrow> [] | Some u \<Rightarrow> [au_username u]) (ue_deleting env)])"

subsection \<open>BansPage\<close>

datatype bans_call = UnbanOpen string | UnbanClose | UnbanConfirm

definition unban_dialog :: "string option \<Rightarrow> bool \<Rightarrow> bans_call ui" where
  "unban_dialog target pending =
     Portal (target \<noteq> None) ''Unban user'' (Some [UnbanClose])
       [Txt (''Unban user '' @ (case target of None \<Rightarrow> [] | Some t \<Rightarrow> t) @ ''?''),
        Button DefaultType ''Cancel'' pending [UnbanClose], Button DefaultType ''Unban'' pending [UnbanConfirm]]"

fun bans_screen :: "string option \<Rightarrow> bool \<Rightarrow> bans_view \<Rightarrow> bans_call ui list" where
  "bans_screen target pending BansBlank = []"
| "bans_screen target pending (BansError msg) = [emptyState ''Couldn't load bans'' (Some msg) []]"
| "bans_screen target pending NoBans =
     [emptyState ''No bans currently active''
        (Some ''After 3 failed sign-in attempts a user is banned for 1 hour. Admins are exempt.'') []]"
| "bans_screen target pending (BansTable rows) =
     [Heading 2 ''Bans'', Txt ''Users banned after repeated failed sign-in attempts.'',
      Group (map Txt [''Username'', ''Banned until'', ''Reason'', ''Actions''])]
     @ map (\<lambda>(u, d, reason). Group [Txt u, Txt d, Txt reason, Button DefaultType ''Unban'' False [UnbanOpen u]]) rows
     @ [unban_dialog target pending]"

definition users_screen :: "bool \<Rightarrow> js_error option \<Rightarrow> users_env \<Rightarrow> users_page \<Rightarrow> users_call ui list" where
  "users_screen isLoading err env st =
     (if isLoading then []
      else (case err of
              Some e \<Rightarrow> [emptyState ''Couldn't load users'' (Some (getErrorMessage e)) []]
            | None \<Rightarrow> [usersPage env st]))"

subsection \<open>The controls and the guards\<close>

lemma inert_requirements [simp]: "list_all inert (requirements_part cc pw policy)"
  by (auto simp: requirements_part_def passwordRequirementsList_def list_all_iff split: option.split)

lemma inert_policy_failed [simp]: "list_all inert (policy_failed_alert b m)"
  by (simp add: policy_failed_alert_def)

lemmas policy_parts [simp] = inert_parts[OF inert_requirements] inert_parts[OF inert_policy_failed]

text \<open>The rows, the drawer, the reset dialog and the confirmation offer only what the machine admits; in
  the drawer this needs that the token list, which is rendered inside the form, is quiet.\<close>

lemma effects_user_row:
  "cs \<in> ui_effects dflt enc None (user_row self u) \<Longrightarrow>
     cs = [UsersCall (EditUser u)]
     \<or> (au_username u \<noteq> self \<and> (cs = [UsersCall (ResetOpen u)] \<or> cs = [UsersCall (DeleteOpen u)]))"
  by (auto simp: user_row_def Let_def when_shown_def split: if_splits)

lemma effects_reset:
  "cs \<in> ui_effects dflt [] None (resetPasswordModal cc policy policyFailed target loading f) \<Longrightarrow>
     target \<noteq> None \<and>
     (cs = [UsersCall ResetClose] \<or> (\<exists>v. cs = [UsersCall (ResetInput v)])
      \<or> (cs = [UsersCall (ResetSubmit policy policyFailed)] \<and> \<not> loading \<and> policy_button_enabled policy policyFailed))"
  by (auto simp: resetPasswordModal_def Let_def submits_def split: if_splits)

lemma effects_new_password:
  "cs \<in> ui_effects dflt enc (Some b) (new_password_part env f) \<Longrightarrow>
     (\<exists>e. cs = [edit_call e] \<and> user_input_enabled self CreateMode e) \<or> (b \<and> cs = bubble enc)"
  by (auto simp: new_password_part_def Let_def split: if_splits)

lemma effects_admin_switch:
  "cs \<in> ui_effects dflt enc (Some b) (admin_switch self x) \<Longrightarrow> \<not> self \<and> (\<exists>y. cs = [edit_call (EditAdmin y)])"
  by (auto simp: admin_switch_def Let_def split: if_splits)

lemma effects_drawer_tokens:
  assumes "u \<in> set (drawer_tokens env mode target)" "cs \<in> ui_effects dflt enc (Some b) u"
    "\<And>u. quiet dflt True False (ue_tokens env u)"
  shows "set cs \<subseteq> range TokensCall"
proof -
  have "\<exists>v. u = map_ui TokensCall (ue_tokens env v)"
    using assms(1) by (cases target; cases mode) (simp_all add: drawer_tokens_def, blast)
  then obtain v where v: "u = map_ui TokensCall (ue_tokens env v)" by blast
  show ?thesis by (rule embedded_calls[OF assms(3)[of v] assms(2)[unfolded v]])
qed

lemma default_drawer_parts:
  "default_button dflt (new_password_part env f) = None" "default_button dflt (admin_switch self x) = None"
  by (simp_all add: new_password_part_def admin_switch_def Let_def)

lemma default_drawer_tokens:
  assumes "\<And>u. quiet dflt True False (ue_tokens env u)"
  shows "first_some (map (default_button dflt) (drawer_tokens env mode target)) = None"
  using assms by (auto simp: drawer_tokens_def default_button_map quiet_default split: option.split)

lemma effects_drawer:
  assumes "cs \<in> ui_effects dflt [] None (userDrawer env opened mode target f)"
    and quiet: "\<And>u. quiet dflt True False (ue_tokens env u)"
  shows "opened \<and>
    (cs = [UsersCall CloseDrawer]
     \<or> (\<exists>e. cs = [edit_call e] \<and> user_input_enabled (isSelf (ue_currentUsername env) mode target) mode e)
     \<or> (cs = [UsersCall (UserSubmit (ue_policy env) (ue_policyFailed env))] \<and> \<not> user_save_disabled env mode)
     \<or> set cs \<subseteq> range TokensCall)"
proof -
  let ?self = "isSelf (ue_currentUsername env) mode target"
  let ?enc = "[([UsersCall (UserSubmit (ue_policy env) (ue_policyFailed env))], False)]"
  let ?b = "Some (\<not> user_save_disabled env mode)"
  have dflt: "first_some (map (default_button dflt) (when_shown c [new_password_part env f])) = None" for c
    by (simp add: when_shown_def default_drawer_parts)
  consider "opened" "cs = [UsersCall CloseDrawer]"
    | "opened" "\<not> mode = EditMode" "cs \<in> ui_effects dflt ?enc ?b (Input ''Username'' False [] (\<lambda>s. [edit_call (EditUsername s)]))"
    | "opened" "mode = CreateMode" "cs \<in> ui_effects dflt ?enc ?b (new_password_part env f)"
    | "opened" "cs \<in> ui_effects dflt ?enc ?b (admin_switch ?self (uf_is_admin (fm_values f)))"
    | "opened" "cs \<in> ui_effects dflt ?enc ?b (Tags ''Allowed roles'' False [] (\<lambda>rs. [edit_call (EditRoles rs)]))"
    | u where "opened" "u \<in> set (drawer_tokens env mode target)" "cs \<in> ui_effects dflt ?enc ?b u"
    | "opened" "\<not> user_save_disabled env mode" "cs = [UsersCall (UserSubmit (ue_policy env) (ue_policyFailed env))]"
    using assms(1)
    by (auto simp: userDrawer_def Let_def submits_def dflt default_drawer_parts default_drawer_tokens[OF quiet]
        when_shown_def split: if_splits)
  then show ?thesis
  proof cases
    case 6
    with effects_drawer_tokens quiet show ?thesis by blast
  next
    case 3
    with effects_new_password[of cs dflt ?enc _ env f ?self] show ?thesis by auto
  next
    case 4
    with effects_admin_switch[of cs dflt ?enc _ ?self] show ?thesis by fastforce
  qed (auto split: if_splits)
qed

lemma effects_users_page:
  assumes "cs \<in> ui_effects dflt [] None (usersPage env st)"
  shows "cs = [UsersCall AddUser]
    \<or> (\<exists>u\<in>set (up_users st). cs \<in> ui_effects dflt [] None (user_row (ue_currentUsername env) u))
    \<or> cs \<in> ui_effects dflt [] None (userDrawer env (up_drawer st \<noteq> None) (users_mode st) (up_edit st) (up_form st))
    \<or> cs \<in> ui_effects dflt [] None (resetPasswordModal (ue_classes env) (ue_policy env) (ue_policyFailed env)
         (up_reset st) (ue_resetting env) (up_reset_form st))
    \<or> (up_delete st \<noteq> None \<and> (cs = [UsersCall DeleteClose] \<or> (cs = [UsersCall DeleteConfirm] \<and> \<not> ue_deleting env)))"
  using assms by (auto simp: usersPage_def confirm_delete_view_def split: if_splits)

text \<open>Every control of the page is one the machine of the page admits, and none that sends a request can be
  used while that request is pending.\<close>

lemma users_controls_enabled:
  assumes "UsersCall ev \<in> ui_calls dflt (usersPage env st)" "\<And>u. quiet dflt True False (ue_tokens env u)"
  shows "users_enabled (ue_currentUsername env) st ev
    \<and> (\<forall>p b. ev = UserSubmit p b \<longrightarrow> \<not> ue_saving env) \<and> (\<forall>p b. ev = ResetSubmit p b \<longrightarrow> \<not> ue_resetting env)
    \<and> (ev = DeleteConfirm \<longrightarrow> \<not> ue_deleting env)"
proof -
  from assms(1) obtain cs where cs: "cs \<in> ui_effects dflt [] None (usersPage env st)" "UsersCall ev \<in> set cs"
    by (auto simp: ui_calls_iff)
  from effects_users_page[OF cs(1)] show ?thesis
  proof (elim disjE bexE)
    fix u assume "u \<in> set (up_users st)" "cs \<in> ui_effects dflt [] None (user_row (ue_currentUsername env) u)"
    with effects_user_row[OF this(2)] cs(2) show ?thesis by auto
  next
    assume "cs \<in> ui_effects dflt [] None (userDrawer env (up_drawer st \<noteq> None) (users_mode st) (up_edit st) (up_form st))"
    from effects_drawer[OF this assms(2)] cs(2) show ?thesis by (auto simp: edit_call_def user_save_disabled_def)
  next
    assume "cs \<in> ui_effects dflt [] None (resetPasswordModal (ue_classes env) (ue_policy env) (ue_policyFailed env)
         (up_reset st) (ue_resetting env) (up_reset_form st))"
    from effects_reset[OF this] cs(2) show ?thesis by auto
  qed (use cs(2) in auto)
qed

text \<open>What can happen on the page: an answer of the server, or a use of a control that is rendered, with the
  token list of the edited user in whatever state it is.\<close>

definition with_token_lists :: "users_env \<Rightarrow> bool" where
  "with_token_lists env \<longleftrightarrow>
     (\<forall>u. \<exists>relative absolute origin err isLoading allTokens sc.
        ue_tokens env u = userTokensList relative absolute origin (au_username u) (au_id u) err isLoading allTokens sc)"

definition users_happens :: "button_type \<Rightarrow> string \<Rightarrow> users_page \<Rightarrow> users_event \<Rightarrow> bool" where
  "users_happens dflt self st ev \<longleftrightarrow>
     (case ev of
        UsersLoaded us \<Rightarrow> list_all (\<lambda>u. au_username u = self \<longrightarrow> au_is_admin u) us
      | RequestDone req outcome \<Rightarrow> req \<in> set (up_sent st)
      | _ \<Rightarrow> \<exists>env. ue_currentUsername env = self \<and> with_token_lists env \<and> UsersCall ev \<in> ui_calls dflt (usersPage env st))"

lemma users_happens_enabled: "users_happens dflt self st ev \<Longrightarrow> users_enabled self st ev"
proof -
  assume hap: "users_happens dflt self st ev"
  have "users_enabled self st ev" if "ue_currentUsername env = self" "with_token_lists env"
    "UsersCall ev \<in> ui_calls dflt (usersPage env st)" for env
  proof -
    have "quiet dflt True False (ue_tokens env u)" for u
      using that(2) user_tokens_quiet unfolding with_token_lists_def by metis
    with users_controls_enabled[OF that(3)] that(1) show ?thesis by simp
  qed
  with hap show ?thesis by (cases ev) (auto simp: users_happens_def)
qed

subsection \<open>Properties\<close>

text \<open>C21: whatever an administrator does with the controls that the user page really renders (in the rows, the
  drawer, its token list, the reset dialog, the confirmations), by mouse or by the Enter key, and however the
  answers fall, no request is ever sent that deletes the own account, resets its password or takes its
  administrator right away.\<close>

theorem rendered_controls_never_lock_out:
  assumes "reach_by users_page0 (users_happens dflt self) (users_step cc) st"
  shows "list_all (\<lambda>r. \<not> locks_out self r) (up_sent st)"
  using users_machine.inv_reach[OF reach_by_mono[OF assms users_happens_enabled]] by (simp add: users_inv_def)

text \<open>C22: the token list is rendered inside the form of the user drawer, yet no press of one of its buttons, in
  the list or in the dialogs it opens, and no Enter key in their fields, submits or closes the form of the
  user: every control makes calls of the token list only or of the user page only.\<close>

theorem token_controls_keep_user_form:
  assumes "with_token_lists env" "cs \<in> ui_effects dflt [] None (usersPage env st)" "TokensCall c \<in> set cs"
  shows "set cs \<subseteq> range TokensCall"
proof -
  have quiet: "quiet dflt True False (ue_tokens env u)" for u
    using assms(1) user_tokens_quiet unfolding with_token_lists_def by metis
  from effects_users_page[OF assms(2)] show ?thesis
  proof (elim disjE bexE)
    fix u assume "cs \<in> ui_effects dflt [] None (user_row (ue_currentUsername env) u)"
    from effects_user_row[OF this] assms(3) show ?thesis by auto
  next
    assume "cs \<in> ui_effects dflt [] None (userDrawer env (up_drawer st \<noteq> None) (users_mode st) (up_edit st) (up_form st))"
    from effects_drawer[OF this quiet] assms(3) show ?thesis by (auto simp: edit_call_def)
  next
    assume "cs \<in> ui_effects dflt [] None (resetPasswordModal (ue_classes env) (ue_policy env) (ue_policyFailed env)
         (up_reset st) (ue_resetting env) (up_reset_form st))"
    from effects_reset[OF this] assms(3) show ?thesis by auto
  qed (use assms(3) in auto)
qed

definition sample_screen :: token_screen where
  "sample_screen = \<lparr>ts_page = tokens_page0\<lparr>tp_create_open := True\<rparr>, ts_create = new_form create_initial,
     ts_edit = new_form \<lparr>ev_name = [], ev_is_read_only = False, ev_max_read_mb = 1\<rparr>, ts_dialog = plaintext_dialog0,
     ts_creating = False, ts_deleting = False, ts_updating = False\<rparr>"

definition sample_users_env :: users_env where
  "sample_users_env = \<lparr>ue_classes = no_classes, ue_policy = None, ue_policyFailed = True, ue_currentUsername = ''ann'',
     ue_availableRoles = [], ue_saving = False, ue_resetting = False, ue_deleting = False,
     ue_tokens = (\<lambda>u. userTokensList (\<lambda>d. []) (\<lambda>d. []) [] (au_username u) (au_id u) None False [] sample_screen)\<rparr>"

lemma sample_users_env: "with_token_lists sample_users_env" "ue_currentUsername sample_users_env = ''ann''"
  unfolding with_token_lists_def sample_users_env_def by (simp_all, blast)

definition drawer_open :: users_page where
  "drawer_open = set_drawer (Some EditMode) (Some (sample_user ''bob'')) users_loaded"

text \<open>The submit button of the token form is among the controls of the drawer.\<close>

lemma create_submit_offered:
  assumes "tp_create_open (ts_page sc)" "\<not> ts_creating sc"
  shows "[CreateCall SubmitForm] \<in> ui_effects PlainType [] idom
    (userTokensList relative absolute origin username userId err isLoading allTokens sc)"
proof -
  let ?modal = "createTokenModal CreateCall True (ts_create sc) False 0 None True [(userId, username)]"
  have "[CreateCall SubmitForm] \<in> ui_effects PlainType [([CreateCall SubmitForm], True)] (Some b)
      (Button SubmitType ''Create'' (False \<or> \<not> create_enabled True 0 None) [])" for b
    by (simp add: submits_def create_enabled_def)
  then have "[CreateCall SubmitForm] \<in> ui_effects PlainType [] idom ?modal"
    unfolding createTokenModal_def createTokenFormFields_def
    by (intro effects_within(2)[OF list.set_intros(1)] effects_within(3)[where u = "Button SubmitType ''Create'' _ _"])
      (auto simp: submits_def create_enabled_def)
  moreover have "?modal \<in> set (when_shown (tp_create_open (ts_page sc))
      [createTokenModal CreateCall (tp_create_open (ts_page sc)) (ts_create sc) (ts_creating sc) 0 None True [(userId, username)]])"
    using assms by simp
  ultimately show ?thesis
    unfolding userTokensList_def by (intro effects_within(1)[where u = ?modal]) (simp_all only: set_append UnCI Un_iff simp_thms)
qed

lemma sample_submit: "[TokensCall (CreateCall SubmitForm)] \<in> ui_effects PlainType [] None (usersPage sample_users_env drawer_open)"
proof -
  let ?t = "map_ui TokensCall (ue_tokens sample_users_env (sample_user ''bob''))"
  have quiet: "quiet PlainType True False (ue_tokens sample_users_env u)" for u
    using sample_users_env(1) user_tokens_quiet unfolding with_token_lists_def by metis
  have "[CreateCall SubmitForm] \<in> ui_effects PlainType [] (Some b) (ue_tokens sample_users_env u)" for b u
    unfolding sample_users_env_def users_env.simps
    by (rule create_submit_offered) (simp_all add: sample_screen_def)
  then have "[TokensCall (CreateCall SubmitForm)] \<in> ui_effects PlainType enc (Some b) ?t" for enc b
    using embedded_offers[OF quiet, of "[CreateCall SubmitForm]" b "sample_user ''bob''" TokensCall enc] by simp
  moreover have "?t \<in> set (drawer_tokens sample_users_env EditMode (Some (sample_user ''bob'')))"
    by (simp add: drawer_tokens_def)
  ultimately have "[TokensCall (CreateCall SubmitForm)] \<in>
      ui_effects PlainType [] None (userDrawer sample_users_env True EditMode (Some (sample_user ''bob'')) f)" for f
    unfolding userDrawer_def Let_def
    by (intro effects_within(2)[OF list.set_intros(1)] effects_within(3)[where u = ?t]) (simp_all only: set_append Un_iff simp_thms)
  moreover have "up_drawer drawer_open = Some EditMode" "users_mode drawer_open = EditMode"
    "up_edit drawer_open = Some (sample_user ''bob'')" by (simp_all add: drawer_open_def users_mode_def)
  ultimately show ?thesis by (simp add: usersPage_def)
qed

theorem token_controls_keep_user_form_witness:
  "set [TokensCall (CreateCall SubmitForm)] \<subseteq> range TokensCall"
  using token_controls_keep_user_form[OF sample_users_env(1) sample_submit] by simp

lemma sample_offers:
  "u \<in> set (up_users st) \<Longrightarrow> au_username u \<noteq> ''ann'' \<Longrightarrow> users_happens PlainType ''ann'' st (DeleteOpen u)"
  "up_delete st \<noteq> None \<Longrightarrow> users_happens PlainType ''ann'' st DeleteConfirm"
proof -
  have row: "[UsersCall (DeleteOpen u)] \<in> ui_effects PlainType [] None (user_row ''ann'' u)" if "au_username u \<noteq> ''ann''"
    using that by (simp add: user_row_def Let_def submits_def)
  assume "u \<in> set (up_users st)" "au_username u \<noteq> ''ann''"
  with row have "[UsersCall (DeleteOpen u)] \<in> ui_effects PlainType [] None (usersPage sample_users_env st)"
    by (auto simp: usersPage_def sample_users_env(2))
  then show "users_happens PlainType ''ann'' st (DeleteOpen u)"
    using sample_users_env by (auto simp: users_happens_def ui_calls_iff intro!: exI[of _ sample_users_env] bexI[of _ "[UsersCall (DeleteOpen u)]"])
next
  assume "up_delete st \<noteq> None"
  then have "[UsersCall DeleteConfirm] \<in> ui_effects PlainType [] None (usersPage sample_users_env st)"
    by (auto simp: usersPage_def confirm_delete_view_def submits_def sample_users_env_def)
  then show "users_happens PlainType ''ann'' st DeleteConfirm"
    using sample_users_env by (auto simp: users_happens_def ui_calls_iff intro!: exI[of _ sample_users_env] bexI[of _ "[UsersCall DeleteConfirm]"])
qed

theorem rendered_controls_never_lock_out_witness:
  "\<exists>st :: users_page. up_sent st = [DeleteUser ''bob''] \<and> list_all (\<lambda>r. \<not> locks_out ''ann'' r) (up_sent st)"
proof -
  let ?us = "[sample_user ''ann'', sample_user ''bob'']"
  define st where "st = confirm_user_delete (users_page0\<lparr>up_users := ?us, up_delete := Some (sample_user ''bob'')\<rparr>)"
  have name: "au_username (sample_user nm) = nm" for nm by (simp add: sample_user_def)
  have happens: "users_happens PlainType ''ann'' users_page0 (UsersLoaded ?us)"
    by (simp add: users_happens_def sample_user_def)
  have run: "run_by (users_happens PlainType ''ann'') (users_step no_classes)
      [UsersLoaded ?us, DeleteOpen (sample_user ''bob''), DeleteConfirm] users_page0 = Some st"
    by (simp add: st_def happens sample_offers name)
  have "up_sent st = [DeleteUser ''bob'']"
    by (simp add: st_def confirm_user_delete_def users_page0_def sample_user_def)
  with rendered_controls_never_lock_out[OF run_by_reach[OF run reach_by.start]] show ?thesis by blast
qed

end
