(* ===== verification/Role_Views.thy ===== *)
theory Role_Views
  imports Roles_Page Token_Views
begin

text \<open>
  What the role administration renders: \<open>components/Admin/RoleTypePicker.tsx\<close>,
  \<open>components/Admin/RoleFormFields.tsx\<close>, \<open>components/Admin/RoleDrawer.tsx\<close> and
  \<open>pages/admin/RolesPage.tsx\<close>, and the page as one machine: the URL decides which drawer is open, the
  drawer's submissions become configurations that are posted, and only the controls that are rendered
  can be used.
\<close>

subsection \<open>RoleTypePicker\<close>

fun rich_description :: "role_type \<Rightarrow> string" where
  "rich_description RT_default = ''Resolve credentials via the standard AWS chain. No keys stored in this app.''"
| "rich_description RT_profile =
     ''Reference a profile from ~/.aws/credentials or ~/.aws/config. The container needs that file mounted.''"
| "rich_description RT_assume_role = ''Assume a target IAM role via STS. Base creds need sts:AssumeRole.''"
| "rich_description RT_credentials = ''Store an AWS access key + secret directly. Simplest, least secure.''"
| "rich_description RT_s3_compatible = ''Cloudflare R2, MinIO, Backblaze B2, Wasabi, etc. Requires endpoint URL.''"

definition rich_details :: "role_type \<Rightarrow> 'c ui list option" where
  "rich_details t =
     (if t = RT_default
      then Some [Txt (''Sources tried in order: env vars (AWS_ACCESS_KEY_ID etc.), ~/.aws/config ''
               @ ''profile, EC2/ECS/EKS instance metadata, or credential_process hooks like ''),
             Link ''IAM Roles Anywhere'' ''https://docs.aws.amazon.com/rolesanywhere/latest/userguide/introduction.html'',
             Txt ''. '',
             Link ''Full chain reference'' ''https://docs.aws.amazon.com/sdkref/latest/guide/standardized-credentials.html'']
      else None)"

definition picked_type :: "string \<Rightarrow> role_type option" where
  "picked_type s = map_option rt_value (find (\<lambda>m. role_type_str (rt_value m) = s) ROLE_TYPE_META)"

definition role_option :: "role_type_meta \<Rightarrow> 'c ui" where
  "role_option m =
     Group ([Txt (rt_label m), Txt (role_type_str (rt_value m))]
       @ (case rich_details (rt_value m) of None \<Rightarrow> [] | Some us \<Rightarrow> [Hint (''More details about '' @ rt_label m) us])
       @ [Txt (rich_description (rt_value m))])"

definition roleTypePicker :: "(role_type \<Rightarrow> 'c list) \<Rightarrow> role_type \<Rightarrow> bool \<Rightarrow> 'c ui" where
  "roleTypePicker onChange current disabled =
     Group (Radio ''Type'' disabled (map (\<lambda>m. (role_type_str (rt_value m), rt_label m)) ROLE_TYPE_META)
              (role_type_str current) (\<lambda>s. case picked_type s of None \<Rightarrow> [] | Some t \<Rightarrow> onChange t)
            # map role_option ROLE_TYPE_META)"

lemma picked_type_str: "picked_type (role_type_str t) = Some t"
  by (cases t) (simp_all add: picked_type_def ROLE_TYPE_META_def)

text \<open>The picker offers every type once.\<close>

lemma effects_picker:
  "ui_effects dflt enc idom (roleTypePicker onChange current disabled) = (if disabled then {} else range onChange)"
proof -
  have "t \<in> rt_value ` set ROLE_TYPE_META" for t
    by (cases t) (simp_all add: ROLE_TYPE_META_def)
  then have types: "rt_value ` set ROLE_TYPE_META = UNIV" by auto
  have opts: "fst ` set (map (\<lambda>m. (role_type_str (rt_value m), rt_label m)) ROLE_TYPE_META) = range role_type_str"
    unfolding types[symmetric] by (simp add: image_image)
  have inert: "list_all inert (map role_option ROLE_TYPE_META)"
    by (simp add: list_all_iff role_option_def rich_details_def)
  show ?thesis
    unfolding roleTypePicker_def using inert_parts(1)[OF inert, of dflt enc idom]
    by (simp only: ui_effects.simps list.map list.set opts) (simp add: image_image picked_type_str)
qed

subsection \<open>RoleFormFields\<close>

definition AWS_REGIONS :: "string list" where
  "AWS_REGIONS =
     [''us-east-1'', ''us-east-2'', ''us-west-1'', ''us-west-2'', ''ca-central-1'', ''ca-west-1'', ''eu-west-1'',
      ''eu-west-2'', ''eu-west-3'', ''eu-central-1'', ''eu-central-2'', ''eu-north-1'', ''eu-south-1'',
      ''eu-south-2'', ''ap-northeast-1'', ''ap-northeast-2'', ''ap-northeast-3'', ''ap-southeast-1'',
      ''ap-southeast-2'', ''ap-southeast-3'', ''ap-southeast-4'', ''ap-south-1'', ''ap-south-2'', ''ap-east-1'',
      ''sa-east-1'', ''me-south-1'', ''me-central-1'', ''af-south-1'', ''il-central-1'', ''auto'']"

definition roleTypeSummary :: "role_type \<Rightarrow> 'c ui" where
  "roleTypeSummary t =
     (let m = roleTypeMeta t
      in Group [Txt (rt_label m), Txt (role_type_str (rt_value m)), Txt ''selected'', Txt (rich_description t)])"

definition shown_text :: "string option \<Rightarrow> string" where
  "shown_text v = (case v of None \<Rightarrow> [] | Some s \<Rightarrow> s)"

definition type_fields :: "(role_edit \<Rightarrow> 'c) \<Rightarrow> app_role form \<Rightarrow> bool \<Rightarrow> drawer_mode \<Rightarrow> 'c ui list" where
  "type_fields w f disabled mode =
     [Input ''Name'' (disabled \<or> mode = EditMode) (r_name (fm_values f)) (\<lambda>s. [w (role_edit.SetName s)])]
     @ when_shown (mode = EditMode) [Txt ''Cannot be changed after creation.''] @ err_below ''name'' f
     @ [Txt ''Optional human-friendly note shown in the admin UI.'',
        Input ''Description'' disabled (shown_text (r_description (fm_values f))) (\<lambda>s. [w (SetDescription s)])]
     @ err_below ''description'' f
     @ [roleTypePicker (\<lambda>t. [w (SetType t)]) (r_type (fm_values f)) (disabled \<or> mode = EditMode)]"

definition key_fields :: "(role_edit \<Rightarrow> 'c) \<Rightarrow> app_role form \<Rightarrow> bool \<Rightarrow> drawer_mode \<Rightarrow> 'c ui list" where
  "key_fields w f disabled mode =
     [Input ''Access key ID'' disabled (shown_text (r_access_key_id (fm_values f))) (\<lambda>s. [w (SetAccessKeyId s)])]
     @ err_below ''access_key_id'' f
     @ [Input ''Secret access key'' disabled (shown_text (r_secret_access_key (fm_values f)))
          (\<lambda>s. [w (SetSecretAccessKey s)])]
     @ when_shown (mode = EditMode \<and> \<not> truthy (r_secret_access_key (fm_values f)))
         [Txt ''Leave empty to keep existing secret'']
     @ err_below ''secret_access_key'' f
     @ [Txt (if r_type (fm_values f) = RT_s3_compatible
             then ''Free-form for non-AWS services. Common values: 'auto' (R2), 'us-east-1' (MinIO).''
             else ''Pick from the list or type a custom value.''),
        Input ''Region'' disabled (shown_text (r_region (fm_values f))) (\<lambda>s. [w (SetRegion s)])]
     @ err_below ''region'' f"

definition picked_style :: "(role_edit \<Rightarrow> 'c) \<Rightarrow> string option \<Rightarrow> 'c list" where
  "picked_style w v =
     (case v of
        None \<Rightarrow> [w ClearAddressingStyle]
      | Some s \<Rightarrow> (case find (\<lambda>a. style_str a = s) [AS_auto, AS_virtual, AS_path] of
                    None \<Rightarrow> [] | Some a \<Rightarrow> [w (SetAddressingStyle a)]))"

definition style_help :: string where
  "style_help = ''How the bucket name is placed in the request URL '' @ em_dash
     @ '' virtual puts it in the host (bucket.host), path puts it in the path (host/bucket). ''
     @ ''Most managed S3 services use virtual; self-hosted / on-prem services (MinIO, Ceph, SeaweedFS) usually need ''
     @ ''path. auto lets boto3 decide per-host.''"

definition endpoint_fields :: "(role_edit \<Rightarrow> 'c) \<Rightarrow> app_role form \<Rightarrow> bool \<Rightarrow> 'c ui list" where
  "endpoint_fields w f disabled =
     [Input ''Endpoint URL'' disabled (shown_text (r_endpoint_url (fm_values f))) (\<lambda>s. [w (SetEndpointUrl s)])]
     @ err_below ''endpoint_url'' f
     @ [Check ''Use SSL'' disabled (r_use_ssl (fm_values f) = Some True) (\<lambda>b. [w (SetUseSsl b)]),
        Check ''Verify SSL'' disabled (r_verify_ssl (fm_values f) = Some True) (\<lambda>b. [w (SetVerifySsl b)]),
        Hint ''More about addressing style'' [Txt style_help],
        Choice ''Addressing style'' disabled
          [(''auto'', ''auto (let boto3 decide)''),
           (''virtual'', ''virtual (bucket.host) '' @ em_dash @ '' most managed S3''),
           (''path'', ''path (host/bucket) '' @ em_dash @ '' MinIO, Ceph, on-prem'')]
          (map_option style_str (r_addressing_style (fm_values f))) (picked_style w)]"

definition credential_fields :: "(role_edit \<Rightarrow> 'c) \<Rightarrow> app_role form \<Rightarrow> bool \<Rightarrow> drawer_mode \<Rightarrow> form_step \<Rightarrow> 'c ui list" where
  "credential_fields w f disabled mode stp =
     (let t = r_type (fm_values f) in
      when_shown (stp = StepCredentials) [roleTypeSummary t]
      @ when_shown (t = RT_profile)
          ([Txt (''Name of a profile in ~/.aws/credentials or ~/.aws/config. SSO profiles work too ''
               @ em_dash @ '' boto3 resolves them through ~/.aws/config + cached SSO sessions. ''
               @ ''The container needs that file mounted.''),
            Input ''Profile name'' disabled (shown_text (r_profile_name (fm_values f))) (\<lambda>s. [w (SetProfileName s)])]
           @ err_below ''profile_name'' f)
      @ when_shown (t = RT_assume_role)
          ([Input ''Role ARN'' disabled (shown_text (r_role_arn (fm_values f))) (\<lambda>s. [w (SetRoleArn s)])]
           @ err_below ''role_arn'' f)
      @ when_shown (t = RT_credentials \<or> t = RT_s3_compatible) (key_fields w f disabled mode)
      @ when_shown (t = RT_s3_compatible) (endpoint_fields w f disabled)
      @ [Txt (''Required for R2 and other scoped tokens that cannot list all buckets. ''
            @ ''Leave empty only if your credentials have permission to list every bucket in the account.''),
         Tags ''Allowed buckets'' disabled (case r_allowed_buckets (fm_values f) of None \<Rightarrow> [] | Some bs \<Rightarrow> bs)
           (\<lambda>bs. [w (SetAllowedBuckets bs)])])"

definition roleFormFields :: "(role_edit \<Rightarrow> 'c) \<Rightarrow> app_role form \<Rightarrow> bool \<Rightarrow> drawer_mode \<Rightarrow> form_step \<Rightarrow> 'c ui list" where
  "roleFormFields w f disabled mode stp =
     when_shown (stp = StepType \<or> stp = StepAll) (type_fields w f disabled mode)
     @ when_shown (stp = StepCredentials \<or> stp = StepAll) (credential_fields w f disabled mode stp)"

text \<open>Every input of the form is one that the drawer's machine admits; in the edit form the Enter key in a
  field is the other thing that can happen.\<close>

definition role_inputs :: "(role_edit \<Rightarrow> 'c) \<Rightarrow> bool \<Rightarrow> drawer_mode \<Rightarrow> form_step \<Rightarrow> role_type \<Rightarrow> 'c list set" where
  "role_inputs w disabled mode stp t = {[w e] |e. input_enabled disabled mode stp t e}"

lemma role_inputsI: "input_enabled disabled mode stp t e \<Longrightarrow> [w e] \<in> role_inputs w disabled mode stp t"
  by (auto simp: role_inputs_def)

definition enter_key :: "('c list \<times> bool) list \<Rightarrow> bool option \<Rightarrow> bool \<Rightarrow> 'c list set" where
  "enter_key enc idom disabled = (if idom = Some True \<and> \<not> disabled then {bubble enc} else {})"

lemma effects_type_fields:
  assumes "u \<in> set (type_fields w f disabled mode)" "stp = StepType \<or> stp = StepAll"
  shows "ui_effects dflt enc idom u \<subseteq> role_inputs w disabled mode stp t \<union> enter_key enc idom disabled"
  using assms
  by (auto simp: type_fields_def effects_picker when_shown_def enter_key_def split: if_splits intro!: role_inputsI)

lemma effects_key_fields:
  assumes "u \<in> set (key_fields w f disabled mode)" "stp = StepCredentials \<or> stp = StepAll"
    "t = RT_credentials \<or> t = RT_s3_compatible"
  shows "ui_effects dflt enc idom u \<subseteq> role_inputs w disabled mode stp t \<union> enter_key enc idom disabled"
  using assms
  by (auto simp: key_fields_def when_shown_def enter_key_def split: if_splits intro!: role_inputsI)

lemma effects_endpoint_fields:
  assumes "u \<in> set (endpoint_fields w f disabled)" "stp = StepCredentials \<or> stp = StepAll"
  shows "ui_effects dflt enc idom u \<subseteq> role_inputs w disabled mode stp RT_s3_compatible \<union> enter_key enc idom disabled"
  using assms
  by (auto simp: endpoint_fields_def picked_style_def enter_key_def split: if_splits intro!: role_inputsI)

lemma effects_credential_fields:
  assumes "u \<in> set (credential_fields w f disabled mode stp)" "stp = StepCredentials \<or> stp = StepAll"
    "t = r_type (fm_values f)"
  shows "ui_effects dflt enc idom u \<subseteq> role_inputs w disabled mode stp t \<union> enter_key enc idom disabled"
proof -
  consider "u \<in> set (key_fields w f disabled mode)" "t = RT_credentials \<or> t = RT_s3_compatible"
    | "u \<in> set (endpoint_fields w f disabled)" "t = RT_s3_compatible"
    | "u = Input ''Profile name'' disabled (shown_text (r_profile_name (fm_values f))) (\<lambda>s. [w (SetProfileName s)])" "t = RT_profile"
    | "u = Input ''Role ARN'' disabled (shown_text (r_role_arn (fm_values f))) (\<lambda>s. [w (SetRoleArn s)])" "t = RT_assume_role"
    | "u = Tags ''Allowed buckets'' disabled (case r_allowed_buckets (fm_values f) of None \<Rightarrow> [] | Some bs \<Rightarrow> bs)
         (\<lambda>bs. [w (SetAllowedBuckets bs)])"
    | "inert u"
    using assms(1,3) inert_err_below[of _ f]
    by (auto simp: credential_fields_def Let_def when_shown_def roleTypeSummary_def list_all_iff split: if_splits)
  then show ?thesis
  proof cases
    case 1 show ?thesis by (rule effects_key_fields[OF 1(1) assms(2) 1(2)])
  next
    case 2 show ?thesis using effects_endpoint_fields[OF 2(1) assms(2)] 2(2) by simp
  next
    case 6 then show ?thesis by (simp add: inert_effects)
  qed (use assms(2) in \<open>auto simp: enter_key_def intro!: role_inputsI\<close>)
qed

lemma effects_form_fields:
  assumes "u \<in> set (roleFormFields w f disabled mode stp)"
  shows "ui_effects dflt enc idom u \<subseteq>
    role_inputs w disabled mode stp (r_type (fm_values f)) \<union> enter_key enc idom disabled"
proof -
  consider "u \<in> set (type_fields w f disabled mode)" "stp = StepType \<or> stp = StepAll"
    | "u \<in> set (credential_fields w f disabled mode stp)" "stp = StepCredentials \<or> stp = StepAll"
    using assms by (auto simp: roleFormFields_def when_shown_def split: if_splits)
  then show ?thesis
    by cases (rule effects_type_fields effects_credential_fields[OF _ _ refl]; assumption)+
qed

subsection \<open>RoleDrawer\<close>

datatype role_call =
    AddRole | EditRole string | CloseDrawerUrl | DrawerCall drawer_event
  | AskDelete app_role | CancelDelete | ConfirmDelete

definition previewJson :: "role_drawer \<Rightarrow> string" where
  "previewJson d = json_text 0 (role_json (previewRole d))"

definition wizard_steps :: "role_call ui list" where
  "wizard_steps =
     map (\<lambda>(n, label). Button PlainType label False [DrawerCall (DrawerStepClick n)])
       [(0, ''Choose type''), (1, ''Scope & details''), (2, ''Review & save'')]"

definition wizard_body :: "role_drawer \<Rightarrow> role_call ui list" where
  "wizard_body d =
     (let w = (\<lambda>e. DrawerCall (DrawerInput e)) in
      if rd_active d = 0 then roleFormFields w (rd_form d) False CreateMode StepType
      else if rd_active d = 1 then roleFormFields w (rd_form d) False CreateMode StepCredentials
      else [Heading 4 ''Review'', Txt ''Role JSON (secret_access_key masked)'', Txt (previewJson d)])"

definition roleDrawer :: "app_config option \<Rightarrow> bool \<Rightarrow> bool \<Rightarrow> role_drawer \<Rightarrow> role_call ui" where
  "roleDrawer config readOnly loading d =
     Portal (rd_opened d)
       (if rd_mode d = CreateMode then ''Create role''
        else ''Edit role: '' @ (case rd_initial d of None \<Rightarrow> [] | Some r \<Rightarrow> r_name r))
       (Some [CloseDrawerUrl])
       (if rd_mode d = CreateMode then
          [Group wizard_steps, Group (wizard_body d), Button DefaultType ''Cancel'' False [CloseDrawerUrl]]
          @ when_shown (0 < rd_active d) [Button DefaultType ''Previous'' False [DrawerCall DrawerPrev]]
          @ when_shown (rd_active d < 2) [Button DefaultType ''Next'' False [DrawerCall DrawerNext]]
          @ when_shown (rd_active d = 2) [Button DefaultType ''Save role'' loading [DrawerCall (DrawerSave config)]]
        else
          [Form [DrawerCall DrawerSubmit] False
             (roleFormFields (\<lambda>e. DrawerCall (DrawerInput e)) (rd_form d) readOnly EditMode StepAll
              @ [Button DefaultType ''Cancel'' False [CloseDrawerUrl],
                 Button SubmitType ''Save changes'' (readOnly \<or> loading) []])])"

lemma wizard_effects:
  assumes "rd_mode d = CreateMode" "cs \<in> ui_effects dflt [] None (roleDrawer config readOnly loading d)"
  shows "rd_opened d \<and> (cs = [CloseDrawerUrl] \<or> (\<exists>ev. cs = [DrawerCall ev] \<and> drawer_enabled readOnly d ev
    \<and> (\<forall>c. ev = DrawerSave c \<longrightarrow> c = config \<and> \<not> loading) \<and> ev \<noteq> DrawerSubmit
    \<and> (\<forall>m i. ev \<noteq> DrawerOpen m i) \<and> ev \<noteq> DrawerClose))"
proof -
  let ?w = "\<lambda>e. DrawerCall (DrawerInput e)"
  have inputs: "\<exists>e. cs = [?w e] \<and> edit_allowed readOnly d e"
    if "rd_opened d" "u \<in> set (roleFormFields ?w (rd_form d) False CreateMode stp)" "cs \<in> ui_effects dflt [] None u"
      "shown_step d = Some stp" for u stp
    using effects_form_fields[OF that(2), of dflt "[]" None] that assms(1)
    by (auto simp: role_inputs_def enter_key_def edit_allowed_def)
  consider "rd_opened d" "cs = [CloseDrawerUrl]"
    | s where "rd_opened d" "cs = [DrawerCall (DrawerStepClick s)]"
    | u where "rd_opened d" "u \<in> set (wizard_body d)" "cs \<in> ui_effects dflt [] None u"
    | "rd_opened d" "0 < rd_active d" "cs = [DrawerCall DrawerPrev]"
    | "rd_opened d" "rd_active d < 2" "cs = [DrawerCall DrawerNext]"
    | "rd_opened d" "rd_active d = 2" "\<not> loading" "cs = [DrawerCall (DrawerSave config)]"
    using assms by (auto simp: roleDrawer_def wizard_steps_def when_shown_def split: if_splits)
  then show ?thesis
  proof cases
    case 3
    with inputs show ?thesis using assms(1)
      by (fastforce simp: wizard_body_def Let_def shown_step_def split: if_splits)
  qed (use assms(1) in auto)
qed

lemma default_picker: "default_button dflt (roleTypePicker onChange t disabled) = None"
proof -
  have "list_all inert (map role_option ROLE_TYPE_META)"
    by (simp add: list_all_iff role_option_def rich_details_def)
  from inert_parts(2)[OF this] show ?thesis by (simp add: roleTypePicker_def)
qed

lemma default_form_fields: "first_some (map (default_button dflt) (roleFormFields w f disabled mode stp)) = None"
  by (simp add: roleFormFields_def type_fields_def credential_fields_def key_fields_def endpoint_fields_def Let_def
      when_shown_def default_picker roleTypeSummary_def)

text \<open>In the edit form the Enter key does what the button does, and nothing while that is disabled.\<close>

lemma edit_effects:
  assumes "rd_mode d = EditMode" "cs \<in> ui_effects dflt [] None (roleDrawer config readOnly loading d)" "dflt \<noteq> SubmitType"
  shows "rd_opened d \<and> (cs = [CloseDrawerUrl] \<or> (\<exists>e. cs = [DrawerCall (DrawerInput e)] \<and> edit_allowed readOnly d e)
    \<or> (cs = [DrawerCall DrawerSubmit] \<and> \<not> readOnly \<and> \<not> loading))"
proof -
  let ?w = "\<lambda>e. DrawerCall (DrawerInput e)"
  let ?b = "Some (\<not> (readOnly \<or> loading))"
  consider "rd_opened d" "cs = [CloseDrawerUrl]" | "rd_opened d" "cs = [DrawerCall DrawerSubmit]" "\<not> readOnly" "\<not> loading"
    | u where "rd_opened d" "u \<in> set (roleFormFields ?w (rd_form d) readOnly EditMode StepAll)"
        "cs \<in> ui_effects dflt [([DrawerCall DrawerSubmit], False)] ?b u"
    using assms by (auto simp: roleDrawer_def submits_def default_form_fields split: if_splits)
  then show ?thesis
  proof cases
    case 3
    from effects_form_fields[OF 3(2), of dflt "[([DrawerCall DrawerSubmit], False)]" ?b] 3(1,3) assms(1) show ?thesis
      by (auto simp: role_inputs_def enter_key_def edit_allowed_def shown_step_def split: if_splits)
  qed simp_all
qed

subsection \<open>RolesPage\<close>

definition read_only_hint :: string where
  "read_only_hint = ''Roles are read-only (managed via ConfigMap)''"

definition role_row :: "bool \<Rightarrow> app_role \<Rightarrow> role_call ui" where
  "role_row readOnly r =
     Group
       ([Txt (r_name r), Hint (rt_description (roleTypeMeta (r_type r))) [Txt (rt_badgeLabel (roleTypeMeta (r_type r)))],
         (case buckets_cell r of
            None \<Rightarrow> Hint (''No bucket restriction set '' @ em_dash @ '' this role lists every bucket its credentials can ''
                      @ ''access (requires the s3:ListAllMyBuckets permission). Add buckets to limit it to specific ones.'')
                      [Txt ''Any bucket'']
          | Some s \<Rightarrow> Txt s),
         Txt (shown_text (r_description r)),
         Hint (if readOnly then read_only_hint else ''Edit'')
           [Button DefaultType (''Edit '' @ r_name r) readOnly [EditRole (r_name r)]],
         Hint (if readOnly then read_only_hint else ''Delete'')
           [Button DefaultType (''Delete '' @ r_name r) readOnly [AskDelete r]]])"

definition rolesPage :: "app_config \<Rightarrow> app_role option \<Rightarrow> bool \<Rightarrow> role_drawer \<Rightarrow> role_call ui" where
  "rolesPage config deleteTarget pending d =
     (let readOnly = (c_is_read_only config = Some True) in
      Group
        ((if c_roles config = [] then
            [emptyState ''No roles defined'' (Some ''Click 'Add role' to create your first role.'')
               (when_shown (\<not> readOnly) [Button DefaultType ''Add role'' False [AddRole]])]
          else
            [Heading 2 ''Roles'', Button DefaultType ''Add role'' readOnly [AddRole],
             Group (map Txt [''Name'', ''Type'', ''Buckets'', ''Description'', ''Actions''])]
            @ map (role_row readOnly) (c_roles config))
         @ [confirm_delete_view (deleteTarget \<noteq> None) [CancelDelete] [ConfirmDelete]
              (case deleteTarget of None \<Rightarrow> [] | Some r \<Rightarrow> [r_name r]) pending,
            roleDrawer (Some config) readOnly pending d]))"

definition roles_screen :: "bool \<Rightarrow> js_error option \<Rightarrow> app_config option \<Rightarrow> app_role option \<Rightarrow> bool \<Rightarrow> role_drawer \<Rightarrow> role_call ui list" where
  "roles_screen isLoading err config deleteTarget pending d =
     (if isLoading then []
      else case err of
             Some e \<Rightarrow> [emptyState ''Couldn't load roles'' (Some (getErrorMessage e)) []]
           | None \<Rightarrow> (case config of None \<Rightarrow> [] | Some cfg \<Rightarrow> [rolesPage cfg deleteTarget pending d]))"

lemma effects_role_row:
  "cs \<in> ui_effects dflt [] None (role_row readOnly r) \<Longrightarrow> \<not> readOnly \<and> (cs = [EditRole (r_name r)] \<or> cs = [AskDelete r])"
  by (auto simp: role_row_def split: if_splits option.splits)

lemma effects_roles_page:
  assumes "cs \<in> ui_effects dflt [] None (rolesPage config deleteTarget pending d)"
  shows "(c_is_read_only config \<noteq> Some True \<and>
       (cs = [AddRole] \<or> (\<exists>r\<in>set (c_roles config). cs = [EditRole (r_name r)] \<or> cs = [AskDelete r])))
    \<or> (deleteTarget \<noteq> None \<and> (cs = [CancelDelete] \<or> (cs = [ConfirmDelete] \<and> \<not> pending)))
    \<or> cs \<in> ui_effects dflt [] None (roleDrawer (Some config) (c_is_read_only config = Some True) pending d)"
  using assms effects_role_row[of cs dflt "c_is_read_only config = Some True"]
  by (auto simp: rolesPage_def Let_def emptyState_def confirm_delete_view_def when_shown_def split: if_splits)

end
