(* ===== verification/Roles_Live.thy ===== *)
theory Roles_Live
  imports Role_Views
begin

text \<open>
  The roles page while it is used (\<open>pages/admin/RolesPage.tsx\<close>): the URL, the drawer, the deletion dialog,
  the configuration that is loaded and refreshed, and the save that is under way.  What can happen is an
  answer of the server, a navigation, or the use of a control that is rendered.
\<close>

subsection \<open>State\<close>

record roles_page =
  rp_config :: "app_config option"
  rp_error :: "js_error option"
  rp_loading :: bool
  rp_isNew :: bool
  rp_match :: "string option option"
  rp_last :: "drawer_mode option"
  rp_drawer :: role_drawer
  rp_target :: "app_role option"
  rp_pending :: "(save_request \<times> bool) option"
  rp_sent :: "(app_config \<times> save_request) list"
  rp_toasts :: "toast list"
  rp_notes :: "(toast_color \<times> string) list"
  rp_broken :: bool

definition roles_page0 :: roles_page where
  "roles_page0 = \<lparr>rp_config = None, rp_error = None, rp_loading = True, rp_isNew = False, rp_match = None, rp_last = None,
     rp_drawer = drawer0, rp_target = None, rp_pending = None, rp_sent = [], rp_toasts = [], rp_notes = [], rp_broken = False\<rparr>"

text \<open>The drawer is mounted while the page renders its table; it fills its form when one of its inputs
  changes, and starts from nothing when it is mounted again.\<close>

definition page_shown :: "roles_page \<Rightarrow> bool" where
  "page_shown st \<longleftrightarrow> \<not> rp_broken st \<and> \<not> rp_loading st \<and> rp_error st = None \<and> rp_config st \<noteq> None"

definition with_props :: "bool \<Rightarrow> drawer_mode \<Rightarrow> app_role option \<Rightarrow> role_drawer \<Rightarrow> role_drawer" where
  "with_props opened mode initialRole d =
     (if (opened, mode, initialRole) = (rd_opened d, rd_mode d, rd_initial d) then d
      else drawer_effect (d\<lparr>rd_opened := opened, rd_mode := mode, rd_initial := initialRole\<rparr>))"

definition settle_drawer :: "bool \<Rightarrow> string option \<Rightarrow> roles_page \<Rightarrow> roles_page" where
  "settle_drawer isNewRoute editRoleName st =
     (let mode = drawer_mode_of isNewRoute editRoleName;
          shown = render_mode mode (rp_last st)
      in st\<lparr>rp_last := (if mode = None then rp_last st else mode),
            rp_drawer := (if page_shown st
                          then with_props (mode \<noteq> None) shown (edit_role editRoleName (rp_config st)) (rp_drawer st)
                          else drawer0)\<rparr>)"

text \<open>After a change: the name in the URL is decoded once more, which can throw while rendering; a name that
  the configuration does not have leads back to the list.\<close>

definition rerender :: "roles_page \<Rightarrow> roles_page" where
  "rerender st =
     (case edit_role_name (rp_isNew st) (rp_match st) of
        Inl e \<Rightarrow> st\<lparr>rp_broken := True, rp_drawer := drawer0\<rparr>
      | Inr name \<Rightarrow>
          (case role_not_found name (rp_config st) of
             None \<Rightarrow> settle_drawer (rp_isNew st) name st
           | Some note \<Rightarrow>
               settle_drawer False None
                 (st\<lparr>rp_notes := rp_notes st @ [note], rp_isNew := False, rp_match := None, rp_last := Some EditMode\<rparr>)))"

definition go_to :: "bool \<Rightarrow> string option option \<Rightarrow> roles_page \<Rightarrow> roles_page" where
  "go_to isNewRoute editMatch st = rerender (st\<lparr>rp_isNew := isNewRoute, rp_match := editMatch\<rparr>)"

text \<open>The routes of the links: a role named new has the address of the wizard, and an empty name that of the
  list.\<close>

definition go_to_role :: "string \<Rightarrow> roles_page \<Rightarrow> roles_page" where
  "go_to_role name = (if name = [] then go_to False None else go_to (name = ''new'') (Some (Some name)))"

subsection \<open>Steps\<close>

definition send_save :: "save_request option \<Rightarrow> bool \<Rightarrow> roles_page \<Rightarrow> roles_page" where
  "send_save req isDelete st =
     (case (req, rp_config st) of
        (Some r, Some cfg) \<Rightarrow> st\<lparr>rp_pending := Some (r, isDelete), rp_sent := rp_sent st @ [(cfg, r)]\<rparr>
      | _ \<Rightarrow> st)"

fun submit_role :: "(string \<Rightarrow> string) \<Rightarrow> app_role \<times> drawer_mode \<times> string option \<Rightarrow> roles_page \<Rightarrow> roles_page" where
  "submit_role trim (role, mode, prev) st = send_save (onSubmitRole trim (rp_config st) role mode prev) False st"

text \<open>What a use of a drawer's control submits.\<close>

definition submitted_by :: "(string \<Rightarrow> string) \<Rightarrow> role_drawer \<Rightarrow> drawer_event \<Rightarrow> (app_role \<times> drawer_mode \<times> string option) list" where
  "submitted_by trim d ev = drop (length (rd_submitted d)) (rd_submitted (drawer_step trim d ev))"

definition drawer_call :: "(string \<Rightarrow> string) \<Rightarrow> drawer_event \<Rightarrow> roles_page \<Rightarrow> roles_page" where
  "drawer_call trim ev st =
     (let d = rp_drawer st; d' = drawer_step trim d ev
      in fold (submit_role trim) (submitted_by trim d ev)
           (st\<lparr>rp_drawer := d', rp_notes := rp_notes st @ drop (length (rd_notes d)) (rd_notes d')\<rparr>))"

fun role_call_step :: "(string \<Rightarrow> string) \<Rightarrow> role_call \<Rightarrow> roles_page \<Rightarrow> roles_page" where
  "role_call_step trim AddRole st = go_to True (Some (Some ''new'')) st"
| "role_call_step trim (EditRole name) st = go_to_role name st"
| "role_call_step trim CloseDrawerUrl st = go_to False None st"
| "role_call_step trim (DrawerCall ev) st = drawer_call trim ev st"
| "role_call_step trim (AskDelete r) st = st\<lparr>rp_target := Some r\<rparr>"
| "role_call_step trim CancelDelete st = st\<lparr>rp_target := None\<rparr>"
| "role_call_step trim ConfirmDelete st =
     (case rp_config st of None \<Rightarrow> st | Some cfg \<Rightarrow> send_save (onConfirmDelete cfg (rp_target st)) True st)"

definition save_success :: "bool \<Rightarrow> roles_page \<Rightarrow> roles_page" where
  "save_success isDelete st = (if isDelete then st\<lparr>rp_target := None\<rparr> else go_to False None st)"

definition save_done :: "js_error + unit \<Rightarrow> roles_page \<Rightarrow> roles_page" where
  "save_done outcome st =
     (case rp_pending st of
        None \<Rightarrow> st
      | Some (req, isDelete) \<Rightarrow>
          (case runWithToasts outcome (sr_message req) (save_success isDelete) (st\<lparr>rp_pending := None\<rparr>) of
             (t, st') \<Rightarrow> st'\<lparr>rp_toasts := rp_toasts st' @ [t]\<rparr>))"

datatype roles_event =
    ConfigArrived app_config | ConfigFailed js_error | Routed bool "string option option"
  | RoleCall role_call | SaveAnswered "js_error + unit"

fun roles_event_step :: "(string \<Rightarrow> string) \<Rightarrow> roles_page \<Rightarrow> roles_event \<Rightarrow> roles_page" where
  "roles_event_step trim st (ConfigArrived cfg) =
     rerender (st\<lparr>rp_config := Some cfg, rp_error := None, rp_loading := False\<rparr>)"
| "roles_event_step trim st (ConfigFailed e) = rerender (st\<lparr>rp_error := Some e, rp_loading := False\<rparr>)"
| "roles_event_step trim st (Routed isNewRoute editMatch) = go_to isNewRoute editMatch st"
| "roles_event_step trim st (RoleCall c) = role_call_step trim c st"
| "roles_event_step trim st (SaveAnswered outcome) = save_done outcome st"

definition roles_view :: "roles_page \<Rightarrow> role_call ui list" where
  "roles_view st =
     (if rp_broken st then []
      else roles_screen (rp_loading st) (rp_error st) (rp_config st) (rp_target st) (rp_pending st \<noteq> None) (rp_drawer st))"

text \<open>A call happens when a control on the screen makes it; a configuration from the server names each role
  once.  The library's buttons are plain unless they say otherwise.\<close>

fun roles_happens :: "roles_page \<Rightarrow> roles_event \<Rightarrow> bool" where
  "roles_happens st (ConfigArrived cfg) \<longleftrightarrow> distinct (map r_name (c_roles cfg))"
| "roles_happens st (RoleCall c) \<longleftrightarrow> (\<exists>u\<in>set (roles_view st). [c] \<in> ui_effects PlainType [] None u)"
| "roles_happens st (SaveAnswered outcome) \<longleftrightarrow> rp_pending st \<noteq> None"
| "roles_happens st _ \<longleftrightarrow> True"

subsection \<open>The controls and the guards\<close>

fun role_call_enabled :: "app_config \<Rightarrow> roles_page \<Rightarrow> role_call \<Rightarrow> bool" where
  "role_call_enabled cfg st AddRole \<longleftrightarrow> c_is_read_only cfg \<noteq> Some True"
| "role_call_enabled cfg st (EditRole n) \<longleftrightarrow> c_is_read_only cfg \<noteq> Some True"
| "role_call_enabled cfg st (AskDelete r) \<longleftrightarrow> c_is_read_only cfg \<noteq> Some True \<and> r \<in> set (c_roles cfg)"
| "role_call_enabled cfg st CloseDrawerUrl \<longleftrightarrow> rd_opened (rp_drawer st)"
| "role_call_enabled cfg st CancelDelete \<longleftrightarrow> rp_target st \<noteq> None"
| "role_call_enabled cfg st ConfirmDelete \<longleftrightarrow> rp_target st \<noteq> None \<and> rp_pending st = None"
| "role_call_enabled cfg st (DrawerCall ev) \<longleftrightarrow>
     drawer_enabled (c_is_read_only cfg = Some True) (rp_drawer st) ev
     \<and> (\<forall>c. ev = DrawerSave c \<longrightarrow> c = Some cfg \<and> rp_pending st = None) \<and> (ev = DrawerSubmit \<longrightarrow> rp_pending st = None)
     \<and> (\<forall>m i. ev \<noteq> DrawerOpen m i) \<and> ev \<noteq> DrawerClose"

lemma role_call_offered:
  assumes "roles_happens st (RoleCall c)"
  obtains cfg where "rp_config st = Some cfg" "role_call_enabled cfg st c"
proof -
  obtain u where u: "u \<in> set (roles_view st)" "[c] \<in> ui_effects PlainType [] None u" using assms by auto
  have "ui_effects PlainType [] None (emptyState t s ([] :: role_call ui list)) = {}" for t s
    by (simp add: emptyState_def when_shown_def)
  with u obtain cfg where cfg: "rp_config st = Some cfg"
    and c: "[c] \<in> ui_effects PlainType [] None (rolesPage cfg (rp_target st) (rp_pending st \<noteq> None) (rp_drawer st))"
    by (cases "rp_config st") (auto simp: roles_view_def roles_screen_def split: if_splits option.splits)
  let ?ro = "c_is_read_only cfg = Some True" and ?busy = "rp_pending st \<noteq> None" and ?d = "rp_drawer st"
  have drawer: "role_call_enabled cfg st c" if d: "[c] \<in> ui_effects PlainType [] None (roleDrawer (Some cfg) ?ro ?busy ?d)"
  proof (cases "rd_mode ?d")
    case CreateMode
    from wizard_effects[OF this d] show ?thesis by (cases "rp_pending st") auto
  next
    case EditMode
    from edit_effects[OF this d] EditMode show ?thesis by (cases "rp_pending st") auto
  qed
  have "role_call_enabled cfg st c"
    using effects_roles_page[OF c] drawer by (elim disjE conjE bexE; cases "rp_pending st") simp_all
  with cfg that show ?thesis by blast
qed

subsection \<open>What is posted\<close>

text \<open>A posted configuration is the loaded one, less its derived fields, with one role added, replaced in
  place or removed.\<close>

definition role_added :: "(string \<Rightarrow> string) \<Rightarrow> app_config \<Rightarrow> app_config \<Rightarrow> bool" where
  "role_added trim cfg new \<longleftrightarrow>
     (\<exists>role. c_roles new = c_roles cfg @ [role] \<and> r_name role \<notin> r_name ` set (c_roles cfg)
        \<and> well_formed_role trim CreateMode role)"

definition role_replaced :: "(string \<Rightarrow> string) \<Rightarrow> app_config \<Rightarrow> app_config \<Rightarrow> bool" where
  "role_replaced trim cfg new \<longleftrightarrow>
     (\<exists>role. c_roles new = map (\<lambda>r. if r_name r = r_name role then role else r) (c_roles cfg)
        \<and> r_name role \<in> r_name ` set (c_roles cfg) \<and> well_formed_role trim EditMode role)"

definition role_removed :: "app_config \<Rightarrow> app_config \<Rightarrow> bool" where
  "role_removed cfg new \<longleftrightarrow> (\<exists>n. c_roles new = filter (\<lambda>r. r_name r \<noteq> n) (c_roles cfg))"

definition one_role_change :: "(string \<Rightarrow> string) \<Rightarrow> app_config \<Rightarrow> app_config \<Rightarrow> bool" where
  "one_role_change trim cfg new \<longleftrightarrow>
     new\<lparr>c_roles := c_roles cfg\<rparr> = toWritableConfig cfg
     \<and> (role_added trim cfg new \<or> role_replaced trim cfg new \<or> role_removed cfg new)"

lemma one_role_distinct:
  assumes "one_role_change trim cfg new" "distinct (map r_name (c_roles cfg))"
  shows "distinct (map r_name (c_roles new))"
proof -
  have "r_name role = n \<Longrightarrow> map r_name (map (\<lambda>r. if r_name r = n then role else r) rs) = map r_name rs" for role :: app_role and n rs
    by simp
  then show ?thesis using assms
    by (auto simp: one_role_change_def role_added_def role_replaced_def role_removed_def distinct_map_filter simp del: map_map)
qed

lemma strip_roles: "(toWritableConfig cfg)\<lparr>c_roles := c_roles cfg\<rparr> = toWritableConfig cfg"
  by (simp add: toWritableConfig_def)

lemma posted_creation:
  assumes "onSubmitRole trim (Some cfg) role CreateMode prev = Some req" "well_formed_role trim CreateMode role"
    "r_name role \<notin> r_name ` set (c_roles cfg)"
  shows "one_role_change trim cfg (sr_config req)"
  using assms by (auto simp: onSubmitRole_def one_role_change_def role_added_def strip_roles)

lemma posted_edit:
  assumes "onSubmitRole trim (Some cfg) role EditMode prev = Some req" "well_formed_role trim EditMode role"
    "prev = None \<or> prev = Some (r_name role)"
  shows "one_role_change trim cfg (sr_config req)"
proof -
  obtain existing where ex: "find (\<lambda>r. Some (r_name r) = prev) (c_roles cfg) = Some existing"
    using assms(1) by (auto simp: onSubmitRole_def split: option.splits)
  then have "existing \<in> set (c_roles cfg)" "Some (r_name existing) = prev"
    by (auto simp: find_Some_iff)
  then have prev: "prev = Some (r_name role)" and "r_name role \<in> r_name ` set (c_roles cfg)"
    using assms(3) by (auto simp: rev_image_eqI)
  define saved where "saved = stripIrrelevantFields (merge_secret trim existing role)"
  have "well_formed_role trim EditMode (merge_secret trim existing role)"
    using assms(2) by (cases "r_type role") (simp_all add: well_formed_role_def merge_secret_def)
  then have "well_formed_role trim EditMode saved" by (simp add: saved_def well_formed_strip)
  moreover have "r_name saved = r_name role" by (simp add: saved_def)
  moreover have "c_roles (sr_config req) = map (\<lambda>r. if r_name r = r_name saved then saved else r) (c_roles cfg)"
    "(sr_config req)\<lparr>c_roles := c_roles cfg\<rparr> = toWritableConfig cfg"
    using assms(1) ex unfolding prev by (auto simp: onSubmitRole_def strip_roles Let_def saved_def)
  moreover have "r_name saved \<in> r_name ` set (c_roles cfg)"
    using \<open>r_name role \<in> _\<close> \<open>r_name saved = r_name role\<close> by (simp only:)
  ultimately have "role_replaced trim cfg (sr_config req)"
    unfolding role_replaced_def by (intro exI[of _ saved] conjI)
  then show ?thesis
    using \<open>(sr_config req)\<lparr>c_roles := c_roles cfg\<rparr> = toWritableConfig cfg\<close> by (simp add: one_role_change_def)
qed

lemma posted_deletion:
  "onConfirmDelete cfg target = Some req \<Longrightarrow> one_role_change trim cfg (sr_config req)"
  by (auto simp: onConfirmDelete_def one_role_change_def role_removed_def strip_roles split: option.splits)

subsection \<open>Every history of the page\<close>

text \<open>A closed drawer may keep the step it was left at; the form of an open one is as the machine of the drawer
  has it.\<close>

definition mounted_inv :: "(string \<Rightarrow> string) \<Rightarrow> role_drawer \<Rightarrow> bool" where
  "mounted_inv trim d \<longleftrightarrow> edit_inv d \<and> rd_active d \<le> 2 \<and> drawer_inv trim (if rd_opened d then d else d\<lparr>rd_active := 0\<rparr>)"

definition roles_inv :: "(string \<Rightarrow> string) \<Rightarrow> roles_page \<Rightarrow> bool" where
  "roles_inv trim st \<longleftrightarrow>
     mounted_inv trim (rp_drawer st)
     \<and> (\<forall>cfg. rp_config st = Some cfg \<longrightarrow> distinct (map r_name (c_roles cfg)))
     \<and> (\<forall>(cfg, req)\<in>set (rp_sent st). distinct (map r_name (c_roles cfg)) \<and> one_role_change trim cfg (sr_config req))"

lemma inv_parts [simp]:
  "roles_inv trim (st\<lparr>rp_isNew := b\<rparr>) = roles_inv trim st" "roles_inv trim (st\<lparr>rp_match := m\<rparr>) = roles_inv trim st"
  "roles_inv trim (st\<lparr>rp_last := l\<rparr>) = roles_inv trim st" "roles_inv trim (st\<lparr>rp_notes := ns\<rparr>) = roles_inv trim st"
  "roles_inv trim (st\<lparr>rp_toasts := ts\<rparr>) = roles_inv trim st" "roles_inv trim (st\<lparr>rp_broken := b\<rparr>) = roles_inv trim st"
  "roles_inv trim (st\<lparr>rp_target := t\<rparr>) = roles_inv trim st" "roles_inv trim (st\<lparr>rp_pending := p\<rparr>) = roles_inv trim st"
  "roles_inv trim (st\<lparr>rp_error := e\<rparr>) = roles_inv trim st" "roles_inv trim (st\<lparr>rp_loading := b2\<rparr>) = roles_inv trim st"
  by (simp_all add: roles_inv_def)

lemma inv_fresh: "mounted_inv trim drawer0"
  by (simp add: mounted_inv_def edit_inv_def drawer_inv_def drawer0_def)

lemma inv_with_drawer: "roles_inv trim st \<Longrightarrow> mounted_inv trim d \<Longrightarrow> roles_inv trim (st\<lparr>rp_drawer := d\<rparr>)"
  by (simp add: roles_inv_def)

lemma inv_props: "mounted_inv trim d \<Longrightarrow> mounted_inv trim (with_props opened mode i d)"
  by (cases opened; cases mode; cases i)
    (auto simp: mounted_inv_def with_props_def drawer_inv_def edit_inv_def drawer_effect_def fill_form_def merge_role_def
      populated_role_def new_form_def split: if_splits)

lemma inv_settle: "roles_inv trim st \<Longrightarrow> roles_inv trim (settle_drawer b n st)"
  using inv_props inv_fresh by (auto simp: settle_drawer_def Let_def roles_inv_def)

lemma inv_rerender: "roles_inv trim st \<Longrightarrow> roles_inv trim (rerender st)"
  using inv_fresh inv_with_drawer inv_settle by (auto simp: rerender_def split: sum.split option.split)

lemma inv_go: "roles_inv trim st \<Longrightarrow> roles_inv trim (go_to b m st)" "roles_inv trim st \<Longrightarrow> roles_inv trim (go_to_role n st)"
  by (simp_all add: go_to_def go_to_role_def inv_rerender)

lemma inv_send:
  assumes "roles_inv trim st"
    "\<And>cfg r. rp_config st = Some cfg \<Longrightarrow> req = Some r \<Longrightarrow> one_role_change trim cfg (sr_config r)"
  shows "roles_inv trim (send_save req b st)"
  using assms by (auto simp: send_save_def roles_inv_def split: option.split)

lemma mounted_step:
  assumes "mounted_inv trim d" "drawer_enabled readOnly d ev" "\<forall>m i. ev \<noteq> DrawerOpen m i" "ev \<noteq> DrawerClose"
  shows "mounted_inv trim (drawer_step trim d ev)"
proof -
  have opened: "rd_opened d" using assms(2-4) by (cases ev) (auto simp: edit_allowed_def)
  have "rd_opened (drawer_step trim d ev)" using opened assms(3,4)
    by (cases ev) (auto simp: input_def Let_def goNext_def goPrev_def stepClick_def onCreate_def onEditFormSubmit_def
        prod.case_eq_if split: option.splits)
  with assms(1,2) opened inv_step[of trim d readOnly ev] edit_inv_step[of d readOnly ev trim] show ?thesis
    by (simp add: mounted_inv_def drawer_inv_def)
qed

lemma drawer_submits:
  assumes "drawer_enabled readOnly d ev" "\<forall>m i. ev \<noteq> DrawerOpen m i" "ev \<noteq> DrawerClose"
    "mounted_inv trim d" "\<forall>c. ev = DrawerSave c \<longrightarrow> c = Some cfg"
  shows "submitted_by trim d ev = []
    \<or> (\<exists>role. submitted_by trim d ev = [(role, CreateMode, None)]
         \<and> well_formed_role trim CreateMode role \<and> r_name role \<notin> r_name ` set (c_roles cfg))
    \<or> (\<exists>role prev. submitted_by trim d ev = [(role, EditMode, prev)]
         \<and> well_formed_role trim EditMode role \<and> (prev = None \<or> prev = Some (r_name role)))"
proof (cases ev)
  case (DrawerSave c)
  then have "well_formed_role trim CreateMode (fm_values (rd_form d))" "c = Some cfg"
    using assms by (auto simp: mounted_inv_def drawer_inv_def)
  then show ?thesis
    by (auto simp: submitted_by_def DrawerSave onCreate_def Let_def well_formed_strip list_ex_iff)
next
  case DrawerSubmit
  then have "rd_opened d" "rd_mode d = EditMode" using assms(1) by auto
  with assms(4) have name: "rd_initial d = None \<or> map_option r_name (rd_initial d) = Some (r_name (fm_values (rd_form d)))"
    by (auto simp: mounted_inv_def edit_inv_def)
  show ?thesis using name \<open>rd_mode d = EditMode\<close>
    by (auto simp: submitted_by_def DrawerSubmit onEditFormSubmit_def onSubmit_def role_valid_iff well_formed_strip
        split: option.split)
qed (use assms(2,3) in \<open>auto simp: submitted_by_def input_def Let_def goNext_def goPrev_def stepClick_def prod.case_eq_if\<close>)

lemma inv_drawer_call:
  assumes "roles_inv trim st" "rp_config st = Some cfg" "drawer_enabled readOnly (rp_drawer st) ev"
    "\<forall>m i. ev \<noteq> DrawerOpen m i" "ev \<noteq> DrawerClose" "\<forall>c. ev = DrawerSave c \<longrightarrow> c = Some cfg"
  shows "roles_inv trim (drawer_call trim ev st)"
proof -
  have m: "mounted_inv trim (rp_drawer st)" using assms(1) by (simp add: roles_inv_def)
  define st1 where "st1 = st\<lparr>rp_drawer := drawer_step trim (rp_drawer st) ev,
    rp_notes := rp_notes st @ drop (length (rd_notes (rp_drawer st))) (rd_notes (drawer_step trim (rp_drawer st) ev))\<rparr>"
  have st1: "roles_inv trim st1" "rp_config st1 = Some cfg"
    using inv_with_drawer[OF assms(1) mounted_step[OF m assms(3-5)]] assms(2) by (simp_all add: st1_def)
  have call: "drawer_call trim ev st = fold (submit_role trim) (submitted_by trim (rp_drawer st) ev) st1"
    by (simp add: drawer_call_def Let_def st1_def)
  from drawer_submits[OF assms(3-5) m assms(6)] show ?thesis
    by (elim disjE exE conjE) (auto simp: call st1 intro!: inv_send dest: posted_creation posted_edit)
qed

interpretation roles_machine: invariant roles_page0 roles_happens "roles_event_step trim" "roles_inv trim"
proof
  show "roles_inv trim roles_page0" by (simp add: roles_inv_def roles_page0_def inv_fresh)
next
  fix st ev assume inv: "roles_inv trim st" and happens: "roles_happens st ev"
  show "roles_inv trim (roles_event_step trim st ev)"
  proof (cases ev)
    case (ConfigArrived cfg)
    with happens inv have "roles_inv trim (st\<lparr>rp_config := Some cfg, rp_error := None, rp_loading := False\<rparr>)"
      by (simp add: roles_inv_def)
    then show ?thesis by (simp add: ConfigArrived inv_rerender)
  next
    case (RoleCall c)
    with happens have "roles_happens st (RoleCall c)" by simp
    then obtain cfg where cfg: "rp_config st = Some cfg" "role_call_enabled cfg st c" by (rule role_call_offered)
    show ?thesis
    proof (cases c)
      case (DrawerCall e)
      with cfg(2) show ?thesis
        using inv_drawer_call[OF inv cfg(1), of "c_is_read_only cfg = Some True" e] by (simp add: RoleCall)
    qed (auto simp: RoleCall inv inv_go cfg(1) intro!: inv_send dest: posted_deletion)
  next
    case (SaveAnswered outcome)
    show ?thesis using inv
      by (auto simp: SaveAnswered save_done_def save_success_def runWithToasts_def inv_go split: option.split sum.split)
  qed (simp_all add: inv inv_rerender inv_go)
qed

subsection \<open>Properties\<close>

text \<open>C18: whatever is done with the controls that the role page renders, by mouse or with the Enter key, through
  its addresses, and however the answers fall: every configuration that is posted differs from the one on
  screen in exactly one role (one is added that the wizard's rules accept and whose name is free, one is
  replaced in place under its old name, or one is removed), up to the default role and the derived
  fields, which every post leaves out, and it still names each role once.\<close>

theorem posted_configs_change_one_role:
  assumes "reach_by roles_page0 roles_happens (roles_event_step trim) st" "(cfg, req) \<in> set (rp_sent st)"
  shows "one_role_change trim cfg (sr_config req) \<and> distinct (map r_name (c_roles (sr_config req)))"
  using roles_machine.inv_reach[OF assms(1)] assms(2) one_role_distinct by (fastforce simp: roles_inv_def)

subsection \<open>What the page offers\<close>

definition showing :: "app_config \<Rightarrow> roles_page \<Rightarrow> bool" where
  "showing cfg st \<longleftrightarrow> rp_config st = Some cfg \<and> \<not> rp_broken st \<and> \<not> rp_loading st \<and> rp_error st = None"

lemma offered_in_page:
  assumes "showing cfg st" "[c] \<in> ui_effects PlainType [] None (rolesPage cfg (rp_target st) (rp_pending st \<noteq> None) (rp_drawer st))"
  shows "roles_happens st (RoleCall c)"
  using assms by (simp add: showing_def roles_view_def roles_screen_def)

lemma offered_in_drawer:
  assumes "showing cfg st"
    "[c] \<in> ui_effects PlainType [] None
       (roleDrawer (Some cfg) (c_is_read_only cfg = Some True) (rp_pending st \<noteq> None) (rp_drawer st))"
  shows "roles_happens st (RoleCall c)"
proof (rule offered_in_page[OF assms(1)])
  show "[c] \<in> ui_effects PlainType [] None (rolesPage cfg (rp_target st) (rp_pending st \<noteq> None) (rp_drawer st))"
    unfolding rolesPage_def Let_def by (rule effects_within(1)[OF _ assms(2)]) simp
qed

lemma wizard_offers:
  assumes "showing cfg st" "rd_opened (rp_drawer st)" "rd_mode (rp_drawer st) = CreateMode"
  shows "rd_active (rp_drawer st) = 0 \<Longrightarrow> roles_happens st (RoleCall (DrawerCall (DrawerInput (role_edit.SetName s))))"
    "rd_active (rp_drawer st) < 2 \<Longrightarrow> roles_happens st (RoleCall (DrawerCall DrawerNext))"
    "rd_active (rp_drawer st) = 2 \<Longrightarrow> rp_pending st = None \<Longrightarrow> roles_happens st (RoleCall (DrawerCall (DrawerSave (Some cfg))))"
  by (rule offered_in_drawer[OF assms(1)];
      simp add: roleDrawer_def assms(2,3) when_shown_def submits_def wizard_body_def Let_def roleFormFields_def type_fields_def)+

lemma edit_offers:
  assumes "showing cfg st" "rd_opened (rp_drawer st)" "rd_mode (rp_drawer st) = EditMode" "c_is_read_only cfg \<noteq> Some True"
  shows "roles_happens st (RoleCall CloseDrawerUrl)"
    "rp_pending st = None \<Longrightarrow> roles_happens st (RoleCall (DrawerCall DrawerSubmit))"
    "roles_happens st (RoleCall (DrawerCall (DrawerInput (SetDescription s))))"
  by (rule offered_in_drawer[OF assms(1)];
      simp add: roleDrawer_def assms(2-4) when_shown_def submits_def roleFormFields_def type_fields_def)+

lemma row_offers:
  assumes "showing cfg st" "r \<in> set (c_roles cfg)" "c_is_read_only cfg \<noteq> Some True"
  shows "roles_happens st (RoleCall (EditRole (r_name r)))"
proof (rule offered_in_page[OF assms(1)])
  have "[EditRole (r_name r)] \<in> ui_effects PlainType [] None (role_row False r)"
    by (simp add: role_row_def submits_def)
  then show "[EditRole (r_name r)] \<in> ui_effects PlainType [] None
      (rolesPage cfg (rp_target st) (rp_pending st \<noteq> None) (rp_drawer st))"
    unfolding rolesPage_def Let_def using assms(2,3) by (intro effects_within(1)[where u = "role_row False r"]) auto
qed

lemma quiet_call:
  assumes "submitted_by trim (rp_drawer st) ev = []"
  shows "rp_drawer (drawer_call trim ev st) = drawer_step trim (rp_drawer st) ev"
    "rp_sent (drawer_call trim ev st) = rp_sent st" "rp_pending (drawer_call trim ev st) = rp_pending st"
    "showing cfg (drawer_call trim ev st) = showing cfg st"
  using assms by (simp_all add: drawer_call_def Let_def showing_def)

lemma nothing_submitted [simp]:
  "submitted_by trim d (DrawerInput e) = []" "submitted_by trim d DrawerNext = []"
  by (simp_all add: submitted_by_def input_def Let_def goNext_def prod.case_eq_if)

text \<open>A named role of the default type passes the wizard.\<close>

definition named_drawer :: "string \<Rightarrow> role_drawer \<Rightarrow> bool" where
  "named_drawer n d \<longleftrightarrow> rd_opened d \<and> rd_mode d = CreateMode \<and> rd_submitted d = []
     \<and> fm_values (rd_form d) = EMPTY_ROLE\<lparr>r_name := n\<rparr>"

lemma named_next:
  assumes "named_drawer n d" "\<not> blank trim (Some n)" "rd_active d < 2"
  shows "named_drawer n (drawer_step trim d DrawerNext)" "rd_active (drawer_step trim d DrawerNext) = Suc (rd_active d)"
proof -
  have valid: "form_valid (role_rules trim CreateMode) (EMPTY_ROLE\<lparr>r_name := n\<rparr>)"
    using assms(2) by (simp add: role_valid_iff well_formed_role_def EMPTY_ROLE_def bare_role_def)
  have name: "\<not> snd (validateField (role_rules trim CreateMode) ''name'' (rd_form d))"
    using assms(1,2) by (simp add: name_rule_of_validateField named_drawer_def name_rule_def)
  have "rd_active d = 0 \<or> rd_active d = 1" using assms(3) by auto
  then show "named_drawer n (drawer_step trim d DrawerNext)" "rd_active (drawer_step trim d DrawerNext) = Suc (rd_active d)"
    using assms(1) valid name by (auto simp: named_drawer_def goNext_def prod.case_eq_if)
qed

text \<open>The wizard, opened by its address, adds a role of the default type.\<close>

definition wizard_by_address :: "app_config \<Rightarrow> string \<Rightarrow> roles_event list" where
  "wizard_by_address cfg n =
     [ConfigArrived cfg, Routed True (Some (Some ''new'')), RoleCall (DrawerCall (DrawerInput (role_edit.SetName n))),
      RoleCall (DrawerCall DrawerNext), RoleCall (DrawerCall DrawerNext), RoleCall (DrawerCall (DrawerSave (Some cfg)))]"

lemma wizard_by_address:
  assumes "distinct (map r_name (c_roles cfg))" "\<not> blank trim (Some n)" "n \<notin> r_name ` set (c_roles cfg)"
  shows "\<exists>st req. run_by roles_happens (roles_event_step trim) (wizard_by_address cfg n) roles_page0 = Some st
    \<and> rp_sent st = [(cfg, req)] \<and> map r_name (c_roles (sr_config req)) = map r_name (c_roles cfg) @ [n]"
proof -
  let ?call = "\<lambda>ev st. roles_event_step trim st (RoleCall (DrawerCall ev))"
  note defs = rerender_def edit_role_name_def settle_drawer_def Let_def role_not_found_def drawer_mode_of_def page_shown_def
    with_props_def render_mode_def edit_role_def go_to_def truthy_def
  define st1 where "st1 = roles_event_step trim roles_page0 (ConfigArrived cfg)"
  define st2 where "st2 = roles_event_step trim st1 (Routed True (Some (Some ''new'')))"
  define st3 where "st3 = ?call (DrawerInput (role_edit.SetName n)) st2"
  define st4 where "st4 = ?call DrawerNext st3"
  define st5 where "st5 = ?call DrawerNext st4"
  define st6 where "st6 = ?call (DrawerSave (Some cfg)) st5"
  have st1: "showing cfg st1" "rp_drawer st1 = drawer0" "rp_pending st1 = None" "rp_sent st1 = []"
    by (simp_all add: st1_def showing_def roles_page0_def defs drawer0_def)
  then have st2: "showing cfg st2" "rp_pending st2 = None" "rp_sent st2 = []"
    "rp_drawer st2 = drawer_effect (drawer0\<lparr>rd_opened := True\<rparr>)"
    by (simp_all add: st2_def showing_def defs drawer0_def)
  then have d2: "rd_opened (rp_drawer st2)" "rd_mode (rp_drawer st2) = CreateMode" "rd_active (rp_drawer st2) = 0"
    by (simp_all add: drawer_effect_def drawer0_def)
  have st3: "showing cfg st3" "rp_pending st3 = None" "rp_sent st3 = []" "named_drawer n (rp_drawer st3)" "rd_active (rp_drawer st3) = 0"
    using st2 by (simp_all add: st3_def quiet_call named_drawer_def input_def Let_def drawer_effect_def drawer0_def fill_form_def
        merge_role_def new_form_def EMPTY_ROLE_def bare_role_def or_else_def)
  have st4: "showing cfg st4" "rp_pending st4 = None" "rp_sent st4 = []" "named_drawer n (rp_drawer st4)" "rd_active (rp_drawer st4) = 1"
    using st3 named_next[OF st3(4) assms(2)] by (simp_all add: st4_def quiet_call)
  have st5: "showing cfg st5" "rp_pending st5 = None" "rp_sent st5 = []" "named_drawer n (rp_drawer st5)" "rd_active (rp_drawer st5) = 2"
    using st4 named_next[OF st4(4) assms(2)] by (simp_all add: st5_def quiet_call)
  have sent: "\<exists>req. rp_sent st6 = [(cfg, req)] \<and> map r_name (c_roles (sr_config req)) = map r_name (c_roles cfg) @ [n]"
    using st5 assms(3) by (auto simp: st6_def drawer_call_def Let_def submitted_by_def onCreate_def named_drawer_def
        onSubmitRole_def send_save_def showing_def list_ex_iff)
  have happens: "roles_happens roles_page0 (ConfigArrived cfg)" "roles_happens st1 (Routed True (Some (Some ''new'')))"
    "roles_happens st2 (RoleCall (DrawerCall (DrawerInput (role_edit.SetName n))))"
    "roles_happens st3 (RoleCall (DrawerCall DrawerNext))" "roles_happens st4 (RoleCall (DrawerCall DrawerNext))"
    "roles_happens st5 (RoleCall (DrawerCall (DrawerSave (Some cfg))))"
    using assms(1) st2(1) d2 st3 st4 st5 unfolding named_drawer_def
    by (simp_all add: wizard_offers del: roles_happens.simps(2))
  have "run_by roles_happens (roles_event_step trim) (wizard_by_address cfg n) roles_page0 = Some st6"
    by (simp only: wizard_by_address_def run_by.simps happens if_True st1_def[symmetric] st2_def[symmetric] st3_def[symmetric]
        st4_def[symmetric] st5_def[symmetric] st6_def[symmetric])
  with sent show ?thesis by blast
qed

text \<open>C38: (a flaw) a configuration that is read-only disables every button and field of the page, but not the
  address of the wizard: opened by its address, the wizard is usable, and its last step posts the
  configuration with the new role.\<close>

theorem read_only_wizard_saves:
  assumes "c_is_read_only cfg = Some True" "distinct (map r_name (c_roles cfg))"
    "\<not> blank trim (Some n)" "n \<notin> r_name ` set (c_roles cfg)"
  shows "(\<forall>r\<in>set (c_roles cfg). ui_effects PlainType [] None (role_row True r) = {})
    \<and> (\<exists>st req. run_by roles_happens (roles_event_step trim) (wizard_by_address cfg n) roles_page0 = Some st
      \<and> rp_sent st = [(cfg, req)] \<and> map r_name (c_roles (sr_config req)) = map r_name (c_roles cfg) @ [n])"
  using wizard_by_address[OF assms(2-4)] effects_role_row[of _ PlainType True] by blast

definition locked_config :: app_config where
  "locked_config = sample_config\<lparr>c_is_read_only := Some True\<rparr>"

lemma locked_config:
  "map r_name (c_roles locked_config) = [''old'']" "''extra'' \<notin> r_name ` set (c_roles locked_config)"
  "c_is_read_only locked_config = Some True" "distinct (map r_name (c_roles locked_config))"
  by (simp_all add: locked_config_def sample_config_def bare_role_def)

theorem read_only_wizard_saves_witness:
  "\<exists>st req. reach_by roles_page0 roles_happens (roles_event_step (\<lambda>s. s)) st
    \<and> rp_sent st = [(locked_config, req)] \<and> map r_name (c_roles (sr_config req)) = [''old'', ''extra'']"
proof -
  have "\<not> blank (\<lambda>s. s) (Some ''extra'')" by (simp add: blank_def)
  from read_only_wizard_saves[OF locked_config(3,4) this locked_config(2)] obtain st req where
    run: "run_by roles_happens (roles_event_step (\<lambda>s. s)) (wizard_by_address locked_config ''extra'') roles_page0 = Some st"
    and sent: "rp_sent st = [(locked_config, req)]" "map r_name (c_roles (sr_config req)) = map r_name (c_roles locked_config) @ [''extra'']"
    by blast
  from run_by_reach[OF run reach_by.start] sent locked_config(1) show ?thesis by auto
qed

theorem posted_configs_change_one_role_witness:
  "\<exists>req :: save_request. one_role_change (\<lambda>s. s) locked_config (sr_config req) \<and> map r_name (c_roles (sr_config req)) = [''old'', ''extra'']"
proof -
  have "\<not> blank (\<lambda>s. s) (Some ''extra'')" by (simp add: blank_def)
  from wizard_by_address[OF locked_config(4) this locked_config(2)] obtain st req where
    run: "run_by roles_happens (roles_event_step (\<lambda>s. s)) (wizard_by_address locked_config ''extra'') roles_page0 = Some st"
    and sent: "(locked_config, req) \<in> set (rp_sent st)" "map r_name (c_roles (sr_config req)) = map r_name (c_roles locked_config) @ [''extra'']"
    by auto
  have "one_role_change (\<lambda>s. s) locked_config (sr_config req)"
    using posted_configs_change_one_role[OF run_by_reach[OF run reach_by.start] sent(1)] by blast
  then show ?thesis
    by (intro exI[of _ req] conjI) (simp_all only: sent(2) locked_config(1) append.simps)
qed

subsection \<open>A late answer\<close>

lemma find_by_name: "r \<in> set rs \<Longrightarrow> distinct (map r_name rs) \<Longrightarrow> find (\<lambda>q. r_name q = r_name r) rs = Some r"
  by (induction rs) (auto simp: rev_image_eqI)

lemma open_role:
  assumes "showing cfg st" "r \<in> set (c_roles cfg)" "distinct (map r_name (c_roles cfg))" "\<not> rd_opened (rp_drawer st)"
    "r_name r \<noteq> []" "r_name r \<noteq> ''new''" "decodeURIComponent (r_name r) = Inr (r_name r)"
  shows "showing cfg (go_to_role (r_name r) st)" "rp_pending (go_to_role (r_name r) st) = rp_pending st"
    "rp_sent (go_to_role (r_name r) st) = rp_sent st"
    "rp_drawer (go_to_role (r_name r) st)
       = drawer_effect ((rp_drawer st)\<lparr>rd_opened := True, rd_mode := EditMode, rd_initial := Some r\<rparr>)"
    "rp_last (go_to_role (r_name r) st) = Some EditMode"
proof -
  have "find (\<lambda>q. r_name q = r_name r) (c_roles cfg) = Some r"
    by (rule find_by_name[OF assms(2,3)])
  then show "showing cfg (go_to_role (r_name r) st)" "rp_pending (go_to_role (r_name r) st) = rp_pending st"
    "rp_sent (go_to_role (r_name r) st) = rp_sent st"
    "rp_drawer (go_to_role (r_name r) st)
       = drawer_effect ((rp_drawer st)\<lparr>rd_opened := True, rd_mode := EditMode, rd_initial := Some r\<rparr>)"
    "rp_last (go_to_role (r_name r) st) = Some EditMode"
    using assms(1,4-7) by (simp_all add: go_to_role_def go_to_def rerender_def edit_role_name_def role_not_found_def edit_role_def
        settle_drawer_def Let_def drawer_mode_of_def page_shown_def with_props_def render_mode_def truthy_def showing_def)
qed

lemma close_role:
  assumes "showing cfg st" "rp_last st = Some m"
  shows "showing cfg (go_to False None st)" "rp_pending (go_to False None st) = rp_pending st"
    "rp_sent (go_to False None st) = rp_sent st" "\<not> rd_opened (rp_drawer (go_to False None st))"
    "rd_submitted (rp_drawer (go_to False None st)) = rd_submitted (rp_drawer st)"
  using assms by (simp_all add: go_to_def rerender_def edit_role_name_def role_not_found_def edit_role_def settle_drawer_def
      Let_def drawer_mode_of_def page_shown_def with_props_def render_mode_def truthy_def showing_def drawer_effect_def)

text \<open>A role opened for editing and saved.\<close>

lemma save_opened:
  assumes "showing cfg st" "rp_pending st = None" "r \<in> set (c_roles cfg)" "distinct (map r_name (c_roles cfg))"
    "rp_drawer st = drawer_effect (d\<lparr>rd_opened := True, rd_mode := EditMode, rd_initial := Some r\<rparr>)"
    "well_formed_role trim EditMode (populated_role r)"
  shows "\<exists>req. rp_pending (drawer_call trim DrawerSubmit st) = Some (req, False)
      \<and> rp_sent (drawer_call trim DrawerSubmit st) = rp_sent st @ [(cfg, req)]"
    "showing cfg (drawer_call trim DrawerSubmit st)" "rd_opened (rp_drawer (drawer_call trim DrawerSubmit st))"
    "rp_last (drawer_call trim DrawerSubmit st) = rp_last st" "rd_mode (rp_drawer (drawer_call trim DrawerSubmit st)) = EditMode"
proof -
  have vals: "fm_values (rd_form (rp_drawer st)) = merge_role (fm_values (rd_form d)) (populated_role r)"
    by (simp add: assms(5) drawer_effect_def fill_form_def)
  have "well_formed_role trim EditMode (fm_values (rd_form (rp_drawer st)))"
    using assms(6) unfolding vals by (cases "r_type r") (simp_all add: merge_role_def well_formed_role_def populated_role_def)
  then have sub: "submitted_by trim (rp_drawer st) DrawerSubmit
      = [(stripIrrelevantFields (fm_values (rd_form (rp_drawer st))), EditMode, Some (r_name r))]"
    by (simp add: submitted_by_def onEditFormSubmit_def onSubmit_def role_valid_iff assms(5) drawer_effect_def)
  have opened: "rd_opened (drawer_step trim (rp_drawer st) DrawerSubmit)" "rd_mode (drawer_step trim (rp_drawer st) DrawerSubmit) = EditMode"
    by (simp_all add: onEditFormSubmit_def assms(5) drawer_effect_def split: option.split prod.split)
  have find: "find (\<lambda>q. r_name q = r_name r) (c_roles cfg) = Some r" by (rule find_by_name[OF assms(3,4)])
  show "\<exists>req. rp_pending (drawer_call trim DrawerSubmit st) = Some (req, False)
      \<and> rp_sent (drawer_call trim DrawerSubmit st) = rp_sent st @ [(cfg, req)]"
    "showing cfg (drawer_call trim DrawerSubmit st)" "rd_opened (rp_drawer (drawer_call trim DrawerSubmit st))"
    "rp_last (drawer_call trim DrawerSubmit st) = rp_last st" "rd_mode (rp_drawer (drawer_call trim DrawerSubmit st)) = EditMode"
    using assms(1,2) opened find sub
    by (simp_all add: drawer_call_def Let_def showing_def onSubmitRole_def send_save_def)
qed

text \<open>Opened, saved and closed before the answer.\<close>

definition reachable_name :: "app_role \<Rightarrow> bool" where
  "reachable_name r \<longleftrightarrow> r_name r \<noteq> [] \<and> r_name r \<noteq> ''new'' \<and> decodeURIComponent (r_name r) = Inr (r_name r)"

definition save_and_close :: "app_config \<Rightarrow> app_role \<Rightarrow> roles_event list" where
  "save_and_close cfg r =
     [ConfigArrived cfg, RoleCall (EditRole (r_name r)), RoleCall (DrawerCall DrawerSubmit), RoleCall CloseDrawerUrl]"

lemma save_and_close:
  assumes "r \<in> set (c_roles cfg)" "distinct (map r_name (c_roles cfg))" "c_is_read_only cfg \<noteq> Some True" "reachable_name r"
    "well_formed_role trim EditMode (populated_role r)"
  shows "\<exists>st req. run_by roles_happens (roles_event_step trim) (save_and_close cfg r) roles_page0 = Some st
    \<and> showing cfg st \<and> \<not> rd_opened (rp_drawer st) \<and> rp_pending st = Some (req, False) \<and> rp_sent st = [(cfg, req)]"
proof -
  define st1 where "st1 = roles_event_step trim roles_page0 (ConfigArrived cfg)"
  define st2 where "st2 = roles_event_step trim st1 (RoleCall (EditRole (r_name r)))"
  define st3 where "st3 = roles_event_step trim st2 (RoleCall (DrawerCall DrawerSubmit))"
  define st4 where "st4 = roles_event_step trim st3 (RoleCall CloseDrawerUrl)"
  note defs = rerender_def edit_role_name_def settle_drawer_def Let_def role_not_found_def drawer_mode_of_def page_shown_def
    with_props_def render_mode_def edit_role_def truthy_def
  have st1: "showing cfg st1" "\<not> rd_opened (rp_drawer st1)" "rp_pending st1 = None" "rp_sent st1 = []"
    by (simp_all add: st1_def showing_def roles_page0_def defs drawer0_def)
  note o2 = open_role[OF st1(1) assms(1,2) st1(2)]
  have st2: "showing cfg st2" "rp_pending st2 = None" "rp_sent st2 = []" "rp_last st2 = Some EditMode"
    "rp_drawer st2 = drawer_effect ((rp_drawer st1)\<lparr>rd_opened := True, rd_mode := EditMode, rd_initial := Some r\<rparr>)"
    using o2 st1 assms(4) by (simp_all add: st2_def reachable_name_def)
  have d2: "rd_opened (rp_drawer st2)" "rd_mode (rp_drawer st2) = EditMode" by (simp_all add: st2(5) drawer_effect_def)
  note o3 = save_opened[OF st2(1,2) assms(1,2) st2(5) assms(5)]
  obtain req where st3: "showing cfg st3" "rp_pending st3 = Some (req, False)" "rp_sent st3 = [(cfg, req)]" "rp_last st3 = Some EditMode"
    "rd_opened (rp_drawer st3)" "rd_mode (rp_drawer st3) = EditMode" using o3 st2(3,4) by (auto simp: st3_def)
  have st4: "showing cfg st4" "\<not> rd_opened (rp_drawer st4)" "rp_pending st4 = Some (req, False)" "rp_sent st4 = [(cfg, req)]"
    using close_role[OF st3(1,4)] st3(2,3) by (simp_all add: st4_def)
  have happens: "roles_happens roles_page0 (ConfigArrived cfg)" "roles_happens st1 (RoleCall (EditRole (r_name r)))"
    "roles_happens st2 (RoleCall (DrawerCall DrawerSubmit))" "roles_happens st3 (RoleCall CloseDrawerUrl)"
    using assms(1-3) st1(1) st2(1,2) d2 st3 by (simp_all add: row_offers edit_offers del: roles_happens.simps(2))
  have "run_by roles_happens (roles_event_step trim) (save_and_close cfg r) roles_page0 = Some st4"
    by (simp only: save_and_close_def run_by.simps happens if_True st1_def[symmetric] st2_def[symmetric] st3_def[symmetric]
        st4_def[symmetric])
  with st4 show ?thesis by blast
qed

text \<open>C39: (a flaw) a save that is still under way closes whatever drawer is open when it is answered: close
  the saved role's drawer, open another role and type, and the late success closes that drawer and the
  typed text is gone, although nothing was sent for the second role.\<close>

theorem late_save_discards_edit:
  assumes "ra \<in> set (c_roles cfg)" "rb \<in> set (c_roles cfg)" "distinct (map r_name (c_roles cfg))"
    "c_is_read_only cfg \<noteq> Some True" "reachable_name ra" "reachable_name rb"
    "well_formed_role trim EditMode (populated_role ra)"
  shows "\<exists>st. run_by roles_happens (roles_event_step trim)
      (save_and_close cfg ra @ [RoleCall (EditRole (r_name rb)), RoleCall (DrawerCall (DrawerInput (SetDescription s)))])
      roles_page0 = Some st
    \<and> rd_opened (rp_drawer st) \<and> rd_initial (rp_drawer st) = Some rb
    \<and> r_description (fm_values (rd_form (rp_drawer st))) = Some s
    \<and> roles_happens st (SaveAnswered (Inr ()))
    \<and> \<not> rd_opened (rp_drawer (roles_event_step trim st (SaveAnswered (Inr ()))))
    \<and> length (rp_sent (roles_event_step trim st (SaveAnswered (Inr ())))) = 1"
proof -
  obtain st4 req where run4: "run_by roles_happens (roles_event_step trim) (save_and_close cfg ra) roles_page0 = Some st4"
    and st4: "showing cfg st4" "\<not> rd_opened (rp_drawer st4)" "rp_pending st4 = Some (req, False)" "rp_sent st4 = [(cfg, req)]"
    using save_and_close[OF assms(1,3,4,5,7)] by blast
  define st5 where "st5 = roles_event_step trim st4 (RoleCall (EditRole (r_name rb)))"
  define st6 where "st6 = roles_event_step trim st5 (RoleCall (DrawerCall (DrawerInput (SetDescription s))))"
  note o5 = open_role[OF st4(1) assms(2,3) st4(2)]
  have st5: "showing cfg st5" "rp_pending st5 = Some (req, False)" "rp_sent st5 = [(cfg, req)]" "rp_last st5 = Some EditMode"
    "rd_opened (rp_drawer st5)" "rd_mode (rp_drawer st5) = EditMode" "rd_initial (rp_drawer st5) = Some rb"
    using o5 st4 assms(6) by (simp_all add: st5_def drawer_effect_def reachable_name_def)
  have st6: "showing cfg st6" "rp_pending st6 = Some (req, False)" "rp_sent st6 = [(cfg, req)]" "rp_last st6 = Some EditMode"
    "rd_opened (rp_drawer st6)" "rd_initial (rp_drawer st6) = Some rb" "r_description (fm_values (rd_form (rp_drawer st6))) = Some s"
    using st5 by (simp_all add: st6_def quiet_call input_def Let_def) (simp add: drawer_call_def Let_def)
  have happens: "roles_happens st4 (RoleCall (EditRole (r_name rb)))"
    "roles_happens st5 (RoleCall (DrawerCall (DrawerInput (SetDescription s))))"
    using assms(2,4) st4(1) st5(1,5,6) by (simp_all add: row_offers edit_offers del: roles_happens.simps(2))
  have run: "run_by roles_happens (roles_event_step trim)
      (save_and_close cfg ra @ [RoleCall (EditRole (r_name rb)), RoleCall (DrawerCall (DrawerInput (SetDescription s)))])
      roles_page0 = Some st6"
    by (simp only: run_by_append run4 option.case run_by.simps happens if_True st5_def[symmetric] st6_def[symmetric])
  have "showing cfg (st6\<lparr>rp_pending := None\<rparr>)" using st6(1) by (simp add: showing_def)
  note closed = close_role[OF this, of EditMode]
  show ?thesis
    using run st6 closed by (intro exI[of _ st6]) (simp add: save_done_def runWithToasts_def save_success_def)
qed

definition two_roles :: app_config where
  "two_roles = sample_config\<lparr>c_roles := [bare_role ''a'' RT_default, bare_role ''b'' RT_default]\<rparr>"

theorem late_save_discards_edit_witness:
  "\<exists>st. reach_by roles_page0 roles_happens (roles_event_step (\<lambda>s. s)) st \<and> rd_opened (rp_drawer st)
    \<and> rd_initial (rp_drawer st) = Some (bare_role ''b'' RT_default) \<and> roles_happens st (SaveAnswered (Inr ()))
    \<and> \<not> rd_opened (rp_drawer (roles_event_step (\<lambda>s. s) st (SaveAnswered (Inr ()))))"
proof -
  have cfg: "bare_role ''a'' RT_default \<in> set (c_roles two_roles)" "bare_role ''b'' RT_default \<in> set (c_roles two_roles)"
    "distinct (map r_name (c_roles two_roles))" "c_is_read_only two_roles \<noteq> Some True"
    by (simp_all add: two_roles_def bare_role_def sample_config_def)
  have "decodeURIComponent ''a'' = Inr ''a''" "decodeURIComponent ''b'' = Inr ''b''" by code_simp+
  then have names: "reachable_name (bare_role ''a'' RT_default)" "reachable_name (bare_role ''b'' RT_default)"
    by (simp_all add: reachable_name_def bare_role_def)
  have wf: "well_formed_role (\<lambda>s. s) EditMode (populated_role (bare_role ''a'' RT_default))"
    by (simp add: well_formed_role_def populated_role_def bare_role_def blank_def)
  from late_save_discards_edit[OF cfg names wf, of "''typed''"] obtain st where
    run: "run_by roles_happens (roles_event_step (\<lambda>s. s)) (save_and_close two_roles (bare_role ''a'' RT_default)
      @ [RoleCall (EditRole (r_name (bare_role ''b'' RT_default))), RoleCall (DrawerCall (DrawerInput (SetDescription ''typed'')))])
      roles_page0 = Some st"
    and st: "rd_opened (rp_drawer st)" "rd_initial (rp_drawer st) = Some (bare_role ''b'' RT_default)"
      "roles_happens st (SaveAnswered (Inr ()))"
      "\<not> rd_opened (rp_drawer (roles_event_step (\<lambda>s. s) st (SaveAnswered (Inr ()))))" by blast
  show ?thesis by (intro exI[of _ st] conjI run_by_reach[OF run reach_by.start] st)
qed

end
