(* ===== verification/Settings_View.thy ===== *)
theory Settings_View
  imports Settings_Tabs Feedback
begin

text \<open>
  What the settings page renders (\<open>pages/admin/SettingsPage.tsx\<close>): the title with the download button, the
  note of a read-only configuration, the three tabs, which stay mounted inside one form, and the bar with
  the two buttons.  How a number input shows a number (\<open>num\<close>) and what it makes of what is typed
  (\<open>typed k s\<close>, the values of the form after the raw input \<open>s\<close> in the number field \<open>k\<close>) is the component
  library's part.
\<close>

datatype settings_call = SettingsCall settings_event | DownloadConfig

text \<open>The value that a control shows and what it becomes, field by field.\<close>

definition setting_number :: "settings_values \<Rightarrow> string \<Rightarrow> rat option" where
  "setting_number v =
     map_of [(''max_client_load'', of_nat (sv_max_client_load v)), (''max_file_size_mb'', sv_max_file_size_mb v),
       (''password_min_length'', of_nat (sv_password_min_length v)),
       (''password_min_uppercase'', of_nat (sv_password_min_uppercase v)),
       (''password_min_lowercase'', of_nat (sv_password_min_lowercase v)),
       (''password_min_digits'', of_nat (sv_password_min_digits v)),
       (''password_min_special'', of_nat (sv_password_min_special v)),
       (''mcp_global_max_read_bytes_mb'', sv_mcp_global_max_read_bytes_mb v),
       (''mcp_summary_max_keys'', of_nat (sv_mcp_summary_max_keys v)),
       (''mcp_summary_prefix_scan_pages'', of_nat (sv_mcp_summary_prefix_scan_pages v)),
       (''mcp_list_page_size'', of_nat (sv_mcp_list_page_size v)),
       (''mcp_list_max_page_size'', of_nat (sv_mcp_list_max_page_size v))]"

definition setting_switch :: "settings_values \<Rightarrow> string \<Rightarrow> bool" where
  "setting_switch v k \<longleftrightarrow>
     map_of [(''disable_deletion'', sv_disable_deletion v), (''enable_lazy_loading'', sv_enable_lazy_loading v),
       (''mcp_enabled'', sv_mcp_enabled v), (''mcp_disable_writes'', sv_mcp_disable_writes v)] k = Some True"

definition set_switch :: "string \<Rightarrow> bool \<Rightarrow> settings_values \<Rightarrow> settings_values" where
  "set_switch k b v =
     (if k = ''disable_deletion'' then v\<lparr>sv_disable_deletion := b\<rparr>
      else if k = ''enable_lazy_loading'' then v\<lparr>sv_enable_lazy_loading := b\<rparr>
      else if k = ''mcp_enabled'' then v\<lparr>sv_mcp_enabled := b\<rparr>
      else if k = ''mcp_disable_writes'' then v\<lparr>sv_mcp_disable_writes := b\<rparr>
      else v)"

definition setting_tags :: "settings_values \<Rightarrow> string \<Rightarrow> string list" where
  "setting_tags v k =
     (if k = ''preview_text_extensions'' then sv_preview_text_extensions v
      else if k = ''upload_inline_extensions'' then sv_upload_inline_extensions v
      else if k = ''mcp_text_extensions'' then sv_mcp_text_extensions v
      else [])"

definition set_tags :: "string \<Rightarrow> string list \<Rightarrow> settings_values \<Rightarrow> settings_values" where
  "set_tags k ts v =
     (if k = ''preview_text_extensions'' then v\<lparr>sv_preview_text_extensions := ts\<rparr>
      else if k = ''upload_inline_extensions'' then v\<lparr>sv_upload_inline_extensions := ts\<rparr>
      else if k = ''mcp_text_extensions'' then v\<lparr>sv_mcp_text_extensions := ts\<rparr>
      else v)"

definition ttl_select :: "settings_values form \<Rightarrow> setting_control \<Rightarrow> settings_call ui" where
  "ttl_select f c =
     (let v = fm_values f; isMax = (sc_key c = ''presigned_url_max_ttl'') in
      Radio (sc_label c) (sc_disabled c)
        (map (\<lambda>p. (opt_value p, opt_label p)) (if isMax then max_ttl_data v else default_ttl_data v))
        (nat_str (if isMax then sv_presigned_url_max_ttl v else sv_presigned_url_default_ttl v))
        (\<lambda>s. case js_Number s of
                None \<Rightarrow> []
              | Some n \<Rightarrow> [SettingsCall (SettingsInput (sc_key c)
                  (if isMax then v\<lparr>sv_presigned_url_max_ttl := n\<rparr> else v\<lparr>sv_presigned_url_default_ttl := n\<rparr>))]))"

definition control_view ::
  "(rat \<Rightarrow> string) \<Rightarrow> (string \<Rightarrow> string \<Rightarrow> settings_values) \<Rightarrow> settings_values form \<Rightarrow> setting_control \<Rightarrow> settings_call ui" where
  "control_view num typed f c =
     (let v = fm_values f; k = sc_key c; change = (\<lambda>v'. [SettingsCall (SettingsInput k v')]) in
      Group
        ((case sc_kind c of
            NumberControl lo hi stp decimals \<Rightarrow>
              Input (sc_label c) (sc_disabled c) (case setting_number v k of None \<Rightarrow> [] | Some n \<Rightarrow> num n)
                (\<lambda>s. change (typed k s))
          | SwitchControl \<Rightarrow> Check (sc_label c) (sc_disabled c) (setting_switch v k) (\<lambda>b. change (set_switch k b v))
          | TagsControl \<Rightarrow> Tags (sc_label c) (sc_disabled c) (setting_tags v k) (\<lambda>ts. change (set_tags k ts v))
          | SelectControl \<Rightarrow> ttl_select f c)
         # err_below k f))"

definition tab_panel :: "(rat \<Rightarrow> string) \<Rightarrow> (string \<Rightarrow> string \<Rightarrow> settings_values) \<Rightarrow> settings_values form \<Rightarrow> setting_control list \<Rightarrow> settings_call ui" where
  "tab_panel num typed f cs = Group (map (control_view num typed f) cs)"

definition save_bar :: "settings_page \<Rightarrow> settings_call ui" where
  "save_bar st =
     (let dirty = isDirty (sp_form st) in
      Group (when_shown dirty [Txt ''You have unsaved changes'']
        @ [Button DefaultType ''Discard'' (\<not> dirty \<or> sp_saving st) [SettingsCall SettingsReset],
           Button SubmitType ''Save settings'' (\<not> dirty \<or> sp_saving st \<or> fm_errors (sp_form st) \<noteq> []) []]))"

definition settingsPage ::
  "(rat \<Rightarrow> string) \<Rightarrow> (string \<Rightarrow> string \<Rightarrow> settings_values) \<Rightarrow> bool \<Rightarrow> settings_page \<Rightarrow> settings_call ui" where
  "settingsPage num typed readOnly st =
     Group
       ([Heading 2 ''Settings'', Button PlainType ''Download config (JSON)'' False [DownloadConfig]]
        @ when_shown readOnly
            [Alert ''yellow'' [] [Txt (''These settings are mounted read-only (e.g. Kubernetes ConfigMap). ''
               @ ''Edits are disabled '' @ em_dash @ '' modify the source ConfigMap to change them.'')]]
        @ [Form [SettingsCall SettingsSubmit] False
             ([Group (map (\<lambda>label. Button PlainType label False []) [''General'', ''Security'', ''MCP'']),
               tab_panel num typed (sp_form st) (settingsGeneralTab readOnly),
               tab_panel num typed (sp_form st) (settingsSecurityTab readOnly),
               tab_panel num typed (sp_form st) (settingsMcpTab readOnly)]
              @ when_shown (\<not> readOnly) [save_bar st])])"

definition settings_screen ::
  "(rat \<Rightarrow> string) \<Rightarrow> (string \<Rightarrow> string \<Rightarrow> settings_values) \<Rightarrow> bool \<Rightarrow> js_error option \<Rightarrow> settings_page \<Rightarrow> settings_call ui list" where
  "settings_screen num typed isLoading err st =
     (if isLoading then []
      else case err of
             Some e \<Rightarrow> [emptyState ''Couldn't load settings'' (Some (getErrorMessage e)) []]
           | None \<Rightarrow> (case sp_config st of None \<Rightarrow> [] | Some config \<Rightarrow> [settingsPage num typed (settings_readOnly config) st]))"

text \<open>Every control has a field of its own: a number field shows one, and a switch or a list that was
  changed shows the new value.\<close>

lemma controls_have_fields:
  assumes "c \<in> set (settingsGeneralTab ro) \<union> set (settingsSecurityTab ro) \<union> set (settingsMcpTab ro)"
  shows "sc_kind c = NumberControl lo hi stp dec \<Longrightarrow> setting_number v (sc_key c) \<noteq> None"
    "sc_kind c = SwitchControl \<Longrightarrow> setting_switch (set_switch (sc_key c) b v) (sc_key c) = b"
    "sc_kind c = TagsControl \<Longrightarrow> setting_tags (set_tags (sc_key c) ts v) (sc_key c) = ts"
  using assms
  by (auto simp: settingsGeneralTab_def settingsSecurityTab_def settingsMcpTab_def control_def setting_number_def
      setting_switch_def set_switch_def setting_tags_def set_tags_def)

subsection \<open>The controls and the guards\<close>

lemma effects_control:
  assumes "cs \<in> ui_effects dflt enc idom (control_view num typed f c)"
  shows "\<not> sc_disabled c \<and> ((\<exists>v. cs = [SettingsCall (SettingsInput (sc_key c) v)]) \<or> cs = []
    \<or> (idom = Some True \<and> cs = bubble enc))"
  using assms
  by (auto simp: control_view_def ttl_select_def Let_def split: control_kind.splits if_splits option.splits)

lemma default_control: "default_button dflt (control_view num typed f c) = None"
  by (simp add: control_view_def ttl_select_def Let_def split: control_kind.split)

lemma default_panel: "default_button dflt (tab_panel num typed f cs) = None"
  by (simp add: tab_panel_def first_some_None list_all_iff default_control)

lemma disabled_tabs:
  "c \<in> set (settingsGeneralTab b) \<union> set (settingsSecurityTab b) \<union> set (settingsMcpTab b) \<Longrightarrow> sc_disabled c = b"
  by (auto simp: settingsGeneralTab_def settingsSecurityTab_def settingsMcpTab_def control_def)

lemma effects_panel:
  assumes "cs \<in> ui_effects dflt enc idom (tab_panel num typed f controls)" "\<forall>c\<in>set controls. sc_disabled c = readOnly"
  shows "\<not> readOnly \<and> ((\<exists>k v. cs = [SettingsCall (SettingsInput k v)]) \<or> cs = [] \<or> (idom = Some True \<and> cs = bubble enc))"
proof -
  obtain c where "c \<in> set controls" "cs \<in> ui_effects dflt enc idom (control_view num typed f c)"
    using assms(1) by (auto simp: tab_panel_def)
  with effects_control[of cs dflt enc idom num typed f c] assms(2) show ?thesis by auto
qed

text \<open>Every use of a control, by mouse or with the Enter key, is an event that the machine of the page admits,
  and a read-only configuration leaves nothing but the download and the tabs.\<close>

lemma settings_controls_enabled:
  assumes "u \<in> set (settings_screen num typed isLoading err st)" "cs \<in> ui_effects PlainType [] None u" "cs \<noteq> []"
  shows "cs = [DownloadConfig]
    \<or> (\<exists>ev. cs = [SettingsCall ev] \<and> settings_enabled st ev \<and> (\<forall>config. sp_config st = Some config \<longrightarrow> \<not> settings_readOnly config))"
proof -
  obtain config where config: "sp_config st = Some config"
    and cs: "cs \<in> ui_effects PlainType [] None (settingsPage num typed (settings_readOnly config) st)"
    using assms by (cases "sp_config st") (auto simp: settings_screen_def emptyState_def when_shown_def split: if_splits option.splits)
  let ?ro = "settings_readOnly config" and ?enc = "[([SettingsCall SettingsSubmit], False)]"
  define b where "b = (\<not> ?ro \<and> isDirty (sp_form st) \<and> \<not> sp_saving st \<and> fm_errors (sp_form st) = [])"
  have enter: "first_some (map (default_button PlainType) (when_shown (\<not> ?ro) [save_bar st])) = Some True \<longleftrightarrow> b"
    by (auto simp: save_bar_def Let_def when_shown_def submits_def b_def)
  have tabs: "\<forall>c\<in>set (settingsGeneralTab ?ro). sc_disabled c = ?ro" "\<forall>c\<in>set (settingsSecurityTab ?ro). sc_disabled c = ?ro"
    "\<forall>c\<in>set (settingsMcpTab ?ro). sc_disabled c = ?ro" using disabled_tabs by blast+
  consider "cs = [DownloadConfig]"
    | controls where "cs \<in> ui_effects PlainType ?enc (Some b) (tab_panel num typed (sp_form st) controls)"
        "\<forall>c\<in>set controls. sc_disabled c = ?ro"
    | "\<not> ?ro" "cs \<in> ui_effects PlainType ?enc (Some b) (save_bar st)"
    using cs tabs enter assms(3)
    by (auto simp: settingsPage_def when_shown_def default_panel submits_def simp del: map_when_shown split: if_splits)
  then show ?thesis
  proof cases
    case 2
    from effects_panel[OF this] show ?thesis using config assms(3) by (auto simp: b_def save_enabled_def split: if_splits)
  next
    case 3
    then show ?thesis using config
      by (auto simp: save_bar_def Let_def when_shown_def submits_def b_def save_enabled_def split: if_splits)
  qed simp
qed

end
