(* ===== verification/Shell_Views.thy ===== *)
theory Shell_Views
  imports Shell Login Feedback
begin

text \<open>
  What the frame of the application renders: the header with its menu (\<open>components/AppShell\<close>), the two
  sidebars (\<open>components/Sidebar\<close>, \<open>AdminSidebar.tsx\<close>), the screens of the guards and of the fixed pages
  (\<open>pages/ForbiddenPage.tsx\<close>, \<open>NotFoundPage.tsx\<close>, \<open>ErrorPage.tsx\<close>, \<open>HomePage.tsx\<close>, \<open>RolePage.tsx\<close>) and the
  unrouted login page.  \<open>initial\<close> stands for \<open>charAt(0).toUpperCase()\<close>; \<open>small\<close> says that the window is
  below the breakpoint where the library hides what is marked so.
\<close>

subsection \<open>Controls of the frame\<close>

datatype shell_call =
    NavTo string | BurgerToggle | CollapseToggle | ThemeToggled | DefaultRoleChosen string | OpenUserMenu
  | CloseUserMenu | SignOutClicked | ChevronToggled string | ScrollToTop

definition GITHUB_URL :: string where
  "GITHUB_URL = ''https://github.com/kruchenburger/another-s3-manager''"

text \<open>The colour scheme; the switch is wrapped in a view transition where the browser has them and the user
  does not ask for reduced motion.\<close>

datatype color_scheme = LightScheme | DarkScheme

record theme_state =
  th_scheme :: color_scheme
  th_transitions :: nat

definition toggleColorScheme :: "theme_state \<Rightarrow> theme_state" where
  "toggleColorScheme st = st\<lparr>th_scheme := (if th_scheme st = DarkScheme then LightScheme else DarkScheme)\<rparr>"

definition handleToggle_theme :: "bool \<Rightarrow> bool \<Rightarrow> theme_state \<Rightarrow> theme_state" where
  "handleToggle_theme prefersReducedMotion hasViewTransition st =
     (if \<not> prefersReducedMotion \<and> hasViewTransition
      then (toggleColorScheme st)\<lparr>th_transitions := th_transitions st + 1\<rparr>
      else toggleColorScheme st)"

definition themeToggle :: "theme_state \<Rightarrow> shell_call ui" where
  "themeToggle st =
     Button DefaultType (if th_scheme st = DarkScheme then ''Switch to light mode'' else ''Switch to dark mode'')
       False [ThemeToggled]"

lemma scheme_toggle_twice:
  "th_scheme (handleToggle_theme a b (handleToggle_theme c d st)) = th_scheme st"
  by (cases "th_scheme st") (simp_all add: handleToggle_theme_def toggleColorScheme_def)

definition userMenu :: "(string \<Rightarrow> string) \<Rightarrow> bool \<Rightarrow> bool \<Rightarrow> me_response option \<Rightarrow> shell_call ui list" where
  "userMenu initial small menuOpen me =
     (case me of
        None \<Rightarrow> []
      | Some m \<Rightarrow>
          [Button DefaultType ''User menu'' False [OpenUserMenu], Txt (initial (me_username m))]
          @ when_shown (\<not> small) [Txt (me_username m)]
          @ [Portal menuOpen (''Signed in as '' @ me_username m) (Some [CloseUserMenu])
               (when_shown (me_is_admin m) [Button DefaultType ''Admin Console'' False [NavTo ''/admin/roles'']]
                @ [Button DefaultType ''Sign out'' False [SignOutClicked]])])"

definition defaultRolePicker :: "me_response option \<Rightarrow> shell_call ui list" where
  "defaultRolePicker me =
     (case picker_options me of
        None \<Rightarrow> []
      | Some roles \<Rightarrow>
          [Hint ''Default role on sign-in''
            [Radio ''Default role'' False (map (\<lambda>r. (r, r)) roles)
               (case me of None \<Rightarrow> [] | Some m \<Rightarrow> (case me_default_role m of None \<Rightarrow> [] | Some r \<Rightarrow> r))
               (\<lambda>r. [DefaultRoleChosen r])]])"

definition appHeader ::
  "(string \<Rightarrow> string) \<Rightarrow> bool \<Rightarrow> bool \<Rightarrow> theme_state \<Rightarrow> app_info option \<Rightarrow> me_response option \<Rightarrow> shell_call ui" where
  "appHeader initial small menuOpen theme_st appInfo me =
     Group
       (when_shown small [Button DefaultType [] False [BurgerToggle]]
        @ [Link ''Go to home'' ''/'', Heading 4 (if small then ''as3m'' else header_name appInfo me)]
        @ when_shown (\<not> small) (case version_label appInfo of None \<Rightarrow> [] | Some v \<Rightarrow> [Txt v])
        @ when_shown (\<not> small \<and> shows_admin_button me)
            [Hint ''Admin Console'' [Button DefaultType ''Open admin console'' False [NavTo ''/admin/roles'']]]
        @ when_shown (\<not> small) [Hint ''View source on GitHub'' [Link ''View source on GitHub'' GITHUB_URL]]
        @ when_shown (\<not> small) (defaultRolePicker me)
        @ [themeToggle theme_st] @ userMenu initial small menuOpen me)"

subsection \<open>The sidebars\<close>

definition sidebarBucketItem :: "string \<Rightarrow> string \<Rightarrow> bool \<Rightarrow> shell_call ui" where
  "sidebarBucketItem roleId bucket isCollapsed =
     (let b = Button DefaultType (if isCollapsed then [] else bucket) False [NavTo (role_base_url roleId bucket)]
      in if isCollapsed then Hint bucket [b] else b)"

text \<open>The rows below an open role, each of \<open>item_rows\<close> as it is shown.\<close>

fun branch_view :: "string \<Rightarrow> branch_row \<Rightarrow> shell_call ui" where
  "branch_view role LoadingRow = Button DefaultType (''Loading'' @ three_dots) True []"
| "branch_view role DeniedRow =
     Hint (''Cannot list buckets '' @ em_dash @ '' open this role to fix'')
       [Button DefaultType ''Cannot list buckets'' False [NavTo (role_url role)]]"
| "branch_view role (ErrorRow msg) =
     Hint msg [Button DefaultType ''Couldn't load buckets'' False [NavTo (role_url role)], Txt msg]"
| "branch_view role (BucketRow b url) = sidebarBucketItem role b False"
| "branch_view role NoBucketsRow = Button DefaultType ''No buckets'' True []"

text \<open>What an item of the tree reads: its own state and the cached buckets of its role.\<close>

record branch =
  bn_item :: role_item
  bn_loading :: bool
  bn_error :: "js_error option"
  bn_buckets :: "string list option"

text \<open>The chevron sits inside the row and stops its click, so it does not open the role.\<close>

definition sidebarRoleItem :: "bool \<Rightarrow> branch \<Rightarrow> shell_call ui list" where
  "sidebarRoleItem isCollapsed bn =
     (let role = ri_role (bn_item bn); opened = ri_open (bn_item bn) in
      if isCollapsed then [Hint role [Button DefaultType role False [NavTo (role_url role)]]]
      else [Button DefaultType role False [NavTo (role_url role)],
            Button DefaultType ((if opened then ''Collapse '' else ''Expand '') @ role) False [ChevronToggled role]]
        @ map (branch_view role) (item_rows (bn_item bn) (bn_loading bn) (bn_error bn) (bn_buckets bn)))"

definition sidebar :: "bool \<Rightarrow> me_response option \<Rightarrow> (string \<Rightarrow> branch) \<Rightarrow> shell_call ui" where
  "sidebar isCollapsed me branch_of =
     (let roles = sidebar_roles me in
      Group
        (when_shown (\<not> isCollapsed) [Txt ''Roles'']
         @ when_shown (roles = [] \<and> \<not> isCollapsed) [Txt ''No roles assigned. Ask your admin.'']
         @ concat (map (\<lambda>r. sidebarRoleItem isCollapsed (branch_of r)) roles)
         @ [Button DefaultType (if isCollapsed then ''Expand sidebar'' else ''Collapse sidebar'') False [CollapseToggle]]))"

definition adminSidebar :: "string \<Rightarrow> shell_call ui" where
  "adminSidebar pathname =
     Group ([Txt ''Infrastructure'']
       @ map (\<lambda>(label, target). Button DefaultType label False [NavTo target]) infrastructureItems
       @ [Button DefaultType ''Back to files'' False [NavTo ''/'']])"

text \<open>On a small window the navigation is an overlay that the burger opens.\<close>

definition appShellLayout :: "bool \<Rightarrow> app_shell \<Rightarrow> shell_call ui \<Rightarrow> shell_call ui \<Rightarrow> shell_call ui list \<Rightarrow> shell_call ui" where
  "appShellLayout small st header navbar main =
     Group ([header] @ when_shown (\<not> small \<or> sh_navOpened st) [navbar] @ main)"

subsection \<open>The fixed screens\<close>

definition signInRequired :: "'c ui list" where
  "signInRequired =
     [Heading 1 ''Sign-in required'', Txt ''Open this app through the gateway so authentik can authenticate you.'']"

definition forbiddenPage :: "'c ui" where
  "forbiddenPage =
     Group [Heading 2 ''Forbidden'',
       Txt (''You don't have permission to view this page. If you think this is a ''
         @ ''mistake, contact your administrator.''),
       Link ''Back to home'' ''/'']"

definition notFoundPage :: "'c ui" where
  "notFoundPage =
     Group [Heading 2 ''Page not found'', Txt ''The page you were looking for doesn't exist (or moved).'',
       Link ''Back to home'' ''/'']"

text \<open>What a guard shows in place of its child; a thrown error goes to the error boundary.\<close>

fun guard_screen :: "delayed_loader \<Rightarrow> guard_view \<Rightarrow> 'c ui list" where
  "guard_screen ld GuardLoading = [loader_view None ld]"
| "guard_screen ld SignInRequired = signInRequired"
| "guard_screen ld Forbidden = [forbiddenPage]"
| "guard_screen ld _ = []"

datatype route_error = RouteResponse nat string | ThrownError string | OtherThrown

fun route_error_message :: "route_error \<Rightarrow> string" where
  "route_error_message (RouteResponse status statusText) = nat_str status @ '' '' @ statusText"
| "route_error_message (ThrownError msg) = msg"
| "route_error_message OtherThrown = ''Unknown routing error''"

definition errorPage :: "route_error \<Rightarrow> boundary_call ui" where
  "errorPage err = errorFallback (route_error_message err)"

definition home_screen :: "home_view \<Rightarrow> 'c ui list" where
  "home_screen v =
     (case v of
        HomeBlank \<Rightarrow> []
      | HomePicker \<Rightarrow> [emptyState ''Pick a role to get started''
          (Some ''Your accessible roles and buckets are listed in the sidebar.'') []])"

definition fix_button :: "bool \<Rightarrow> 'c ui list" where
  "fix_button isAdmin = when_shown isAdmin [Link ''Open admin to fix'' ''/admin'']"

fun role_screen :: "string \<Rightarrow> role_view \<Rightarrow> shell_call ui list" where
  "role_screen roleId RoleBlank = []"
| "role_screen roleId (RoleNotAvailable msg isAdmin) = [emptyState ''Role not available'' (Some msg) (fix_button isAdmin)]"
| "role_screen roleId (CannotListBuckets msg isAdmin) =
     [emptyState ''Cannot list buckets for this role'' (Some msg) (fix_button isAdmin)]"
| "role_screen roleId (BucketsError msg) = [emptyState ''Couldn't load buckets'' (Some msg) []]"
| "role_screen roleId (NoBuckets r) =
     [emptyState ''No buckets accessible''
        (Some (''Role '' @ [CHR 0x22] @ r @ [CHR 0x22] @ '' has no buckets configured. Contact your admin.'')) []]"
| "role_screen roleId (BucketList rows) =
     [Heading 2 roleId, Txt ''Pick a bucket to browse files.'', Txt ''Bucket'']
     @ map (\<lambda>(b, url). Group [Button PlainType (''Open bucket '' @ b) False [NavTo url], Txt b]) rows"

subsection \<open>The login page\<close>

datatype login_control = LoginInput login_values | LoginSubmit

definition loginPage :: "app_info option \<Rightarrow> login_page \<Rightarrow> login_control ui" where
  "loginPage appInfo st =
     (let v = fm_values (lp_form st) in
      Group
        ([Heading 2 (case appInfo of Some i \<Rightarrow> ai_app_name i | None \<Rightarrow> ''Another S3 Manager''),
          Form [LoginSubmit] False
            ((case login_alert st of None \<Rightarrow> [] | Some msg \<Rightarrow> [Alert ''red'' [] [Txt msg]])
             @ [Input ''Username'' False (lg_username v) (\<lambda>s. [LoginInput (v\<lparr>lg_username := s\<rparr>)])]
             @ err_below ''username'' (lp_form st)
             @ [Input ''Password'' False (lg_password v) (\<lambda>s. [LoginInput (v\<lparr>lg_password := s\<rparr>)])]
             @ err_below ''password'' (lp_form st)
             @ [Button SubmitType ''Sign in'' (lp_pending st) []])]
         @ (case appInfo of
              Some i \<Rightarrow> when_shown (ai_app_version i \<noteq> [])
                [Txt (''v'' @ ai_app_version i), Txt [CHR 0xC2, CHR 0xB7]]
            | None \<Rightarrow> [])
         @ [Link ''Source on GitHub'' GITHUB_URL]))"

text \<open>While an attempt is on its way there is no second one: the button is off and so is the Enter key.\<close>

lemma pending_login_quiet:
  "lp_pending st \<Longrightarrow> LoginSubmit \<notin> ui_calls dflt (loginPage appInfo st)"
  by (auto simp: ui_calls_def loginPage_def Let_def when_shown_def submits_def err_below_def field_error_def
      split: option.splits if_splits)

subsection \<open>Where the controls lead\<close>

text \<open>The router package: a pattern matches a path segment by segment, and a dynamic segment matches any
  segment that is not empty.\<close>

fun fits :: "string list \<Rightarrow> string list \<Rightarrow> bool" where
  "fits [] us = (us = [])"
| "fits (p # ps) (u # us) = ((u = p \<or> (starts_with p '':'' \<and> u \<noteq> [])) \<and> fits ps us)"
| "fits (p # ps) [] = False"

definition leads_to :: "string \<Rightarrow> string \<Rightarrow> bool" where
  "leads_to pattern url \<longleftrightarrow> fits (split_on slash pattern) (split_on slash url)"

text \<open>The targets of a tree: what its controls navigate to, and its links into the application.\<close>

definition targets :: "button_type \<Rightarrow> shell_call ui \<Rightarrow> string set" where
  "targets dflt u = {url. NavTo url \<in> ui_calls dflt u} \<union> (set (ui_links u) - {GITHUB_URL})"

lemma targets_simps [simp]:
  "targets dflt (Txt t) = {}" "targets dflt (Heading n t) = {}"
  "targets dflt (Link l t) = {t} - {GITHUB_URL}"
  "targets dflt (Button ty l dis cs) = (if dis then {} else {url. NavTo url \<in> set cs})"
  "targets dflt (Radio l dis opts v f) = {url. \<not> dis \<and> (\<exists>p\<in>set opts. NavTo url \<in> set (f (fst p)))}"
  "targets dflt (Hint t us) = (\<Union>u\<in>set us. targets dflt u)"
  "targets dflt (Group us) = (\<Union>u\<in>set us. targets dflt u)"
  by (auto simp: targets_def ui_calls_def)

lemma targets_Portal [simp]:
  "targets dflt (Portal shown t cl us) =
     (if shown then (\<Union>u\<in>set us. targets dflt u) \<union> {url. \<exists>cs. cl = Some cs \<and> NavTo url \<in> set cs} else {})"
  by (cases cl) (auto simp: targets_def ui_calls_def)

lemma targets_when_shown: "(\<Union>u\<in>set (when_shown b us). targets dflt u) = (if b then \<Union>u\<in>set us. targets dflt u else {})"
  by (simp add: when_shown_def)

lemma targets_userMenu:
  "(\<Union>u\<in>set (userMenu initial small menuOpen me). targets dflt u)
     \<subseteq> (if shows_admin_button me then {''/admin/roles''} else {})"
  by (cases me) (auto simp: userMenu_def shows_admin_button_def when_shown_def)

lemma targets_picker: "(\<Union>u\<in>set (defaultRolePicker me). targets dflt u) = {}"
  by (auto simp: defaultRolePicker_def split: option.split)

lemma targets_header:
  "targets dflt (appHeader initial small menuOpen theme_st appInfo me)
     \<subseteq> {''/''} \<union> (if shows_admin_button me then {''/admin/roles''} else {})"
proof -
  have version: "(\<Union>u\<in>set (case v of None \<Rightarrow> [] | Some t \<Rightarrow> [Txt t]). targets dflt u) = {}" for v :: "string option"
    by (cases v) simp_all
  have menu: "url = ''/admin/roles'' \<and> shows_admin_button me"
    if "u \<in> set (userMenu initial sm menuOpen me)" "url \<in> targets dflt u" for u url sm
    using that targets_userMenu[of dflt initial sm menuOpen me] by (fastforce split: if_splits)
  show ?thesis
    unfolding appHeader_def targets_simps(7) set_append UN_Un targets_when_shown targets_picker version
    by (auto simp: themeToggle_def dest: menu)
qed

text \<open>What the guards and the server promise: roles and buckets have names, and a branch of the tree is the
  branch of its role.\<close>

definition named_branches :: "me_response \<Rightarrow> (string \<Rightarrow> branch) \<Rightarrow> bool" where
  "named_branches me branch_of \<longleftrightarrow>
     [] \<notin> set (me_allowed_roles me)
     \<and> list_all (\<lambda>r. ri_role (bn_item (branch_of r)) = r
          \<and> (case bn_buckets (branch_of r) of None \<Rightarrow> True | Some bs \<Rightarrow> [] \<notin> set bs)) (me_allowed_roles me)"

lemma targets_bucket: "targets dflt (sidebarBucketItem role b c) = {role_base_url role b}"
  by (simp add: sidebarBucketItem_def Let_def)

lemma targets_row:
  "url \<in> targets dflt (branch_view role row) \<Longrightarrow> url = role_url role \<or> (\<exists>b u. row = BucketRow b u \<and> url = role_base_url role b)"
  by (cases row) (auto simp: targets_bucket)

lemma bucket_rows:
  "BucketRow b u \<in> set (item_rows it loading err buckets) \<Longrightarrow> \<exists>bs. buckets = Some bs \<and> b \<in> set bs"
  by (auto simp: item_rows_def split: if_splits option.splits)

lemma targets_role_item:
  assumes "u \<in> set (sidebarRoleItem c bn)" "url \<in> targets dflt u"
  shows "url = role_url (ri_role (bn_item bn))
    \<or> (\<exists>bs b. bn_buckets bn = Some bs \<and> b \<in> set bs \<and> url = role_base_url (ri_role (bn_item bn)) b)"
proof (cases c)
  case False
  let ?role = "ri_role (bn_item bn)"
  from False assms consider "url = role_url ?role"
    | row where "row \<in> set (item_rows (bn_item bn) (bn_loading bn) (bn_error bn) (bn_buckets bn))"
        "url \<in> targets dflt (branch_view ?role row)"
    by (auto simp: sidebarRoleItem_def Let_def)
  then show ?thesis using targets_row bucket_rows by cases blast+
qed (use assms in \<open>auto simp: sidebarRoleItem_def Let_def\<close>)

lemma targets_sidebar:
  assumes "url \<in> targets dflt (sidebar c (Some me) branch_of)" "named_branches me branch_of"
  shows "\<exists>r\<in>set (me_allowed_roles me). r \<noteq> [] \<and> (url = role_url r \<or> (\<exists>b. b \<noteq> [] \<and> url = role_base_url r b))"
proof -
  from assms(1) obtain r u where r: "r \<in> set (me_allowed_roles me)" "u \<in> set (sidebarRoleItem c (branch_of r))"
    "url \<in> targets dflt u"
    unfolding sidebar_def Let_def targets_simps(7) set_append UN_Un targets_when_shown
    by (auto simp: sidebar_roles_def split: if_splits)
  from assms(2) r(1) have named: "r \<noteq> []" "ri_role (bn_item (branch_of r)) = r"
    "\<forall>bs. bn_buckets (branch_of r) = Some bs \<longrightarrow> [] \<notin> set bs"
    by (auto simp: named_branches_def list_all_iff split: option.splits)
  from targets_role_item[OF r(2,3)] named r(1) show ?thesis by metis
qed

lemma targets_admin_sidebar: "targets dflt (adminSidebar pathname) = {''/admin/roles'', ''/admin/settings'', ''/''}"
  by (auto simp: adminSidebar_def infrastructureItems_def GITHUB_URL_def)

lemma targets_role_screen:
  assumes "u \<in> set (role_screen roleId (rolePage roleId loading err buckets me))" "url \<in> targets dflt u"
  shows "(url = ''/admin'' \<and> shows_admin_button me) \<or> (\<exists>bs b. buckets = Some bs \<and> b \<in> set bs \<and> url = role_base_url roleId b)"
proof -
  have empty_state: "targets dflt (emptyState t d (fix_button a)) = (if a then {''/admin''} else {})"
    "targets dflt (emptyState t d []) = {}" for t d a
    by (auto simp: emptyState_def fix_button_def when_shown_def GITHUB_URL_def)
  show ?thesis using assms empty_state
    by (auto simp: rolePage_def denied_view_def Let_def shows_admin_button_def submits_def split: if_splits option.splits)
qed

subsection \<open>The frames\<close>

text \<open>The two shells of the route table with what they show: the file browser's, here around the page of a
  role, and the administration's.\<close>

record frame_env =
  fr_initial :: "string \<Rightarrow> string"
  fr_small :: bool
  fr_menuOpen :: bool
  fr_theme :: theme_state
  fr_appInfo :: "app_info option"
  fr_shell :: app_shell

definition frame_header :: "frame_env \<Rightarrow> me_response option \<Rightarrow> shell_call ui" where
  "frame_header fr me = appHeader (fr_initial fr) (fr_small fr) (fr_menuOpen fr) (fr_theme fr) (fr_appInfo fr) me"

definition app_frame :: "frame_env \<Rightarrow> me_response option \<Rightarrow> (string \<Rightarrow> branch) \<Rightarrow> shell_call ui list \<Rightarrow> shell_call ui" where
  "app_frame fr me branch_of main =
     appShellLayout (fr_small fr) (fr_shell fr) (frame_header fr me) (sidebar (collapsed (fr_shell fr)) me branch_of) main"

definition adminLayout :: "frame_env \<Rightarrow> me_response option \<Rightarrow> string \<Rightarrow> shell_call ui" where
  "adminLayout fr me pathname =
     appShellLayout (fr_small fr) (fr_shell fr) (frame_header fr me) (adminSidebar pathname) []"

subsection \<open>Property\<close>

definition shown_at :: "me_response entry \<Rightarrow> string \<Rightarrow> bool" where
  "shown_at q url \<longleftrightarrow>
     (\<exists>pattern els e. (pattern, els) \<in> set app_routes \<and> pattern \<noteq> ''*'' \<and> leads_to pattern url \<and> render_chain url q els = Page e)"

lemma fits_refl: "fits ps ps"
  by (induction ps) auto

lemma shown_shell:
  assumes "authGuard q = Outlet"
  shows "shown_at q ''/''" "r \<noteq> [] \<Longrightarrow> shown_at q (role_url r)" "r \<noteq> [] \<Longrightarrow> b \<noteq> [] \<Longrightarrow> shown_at q (role_base_url r b)"
proof -
  have page: "render_chain url q (shell_chain e) = Page e" for url e using assms by (simp add: render_shell)
  have "(''/'', shell_chain El_HomePage) \<in> set app_routes" "leads_to ''/'' ''/''"
    by (simp_all add: app_routes_eq leads_to_def)
  with page show "shown_at q ''/''" unfolding shown_at_def by blast
  have pats: "split_on slash ''/r/:roleId'' = [[], ''r'', '':roleId'']"
    "split_on slash ''/r/:roleId/b/:bucket'' = [[], ''r'', '':roleId'', ''b'', '':bucket'']"
    by (rule split_path; simp)+
  show "shown_at q (role_url r)" if "r \<noteq> []"
  proof -
    have "split_on slash (role_url r) = [[], ''r'', encodeURIComponent r]"
      by (rule split_path) (simp_all add: role_url_def encode_no_slash)
    with that have "leads_to ''/r/:roleId'' (role_url r)"
      unfolding leads_to_def pats by (simp add: starts_with_def)
    moreover have "(''/r/:roleId'', shell_chain El_RolePage) \<in> set app_routes" by (simp add: app_routes_eq)
    ultimately show ?thesis using page unfolding shown_at_def by blast
  qed
  show "shown_at q (role_base_url r b)" if "r \<noteq> []" "b \<noteq> []"
  proof -
    have "split_on slash (role_base_url r b) = [[], ''r'', encodeURIComponent r, ''b'', encodeURIComponent b]"
      by (rule split_path) (simp_all add: role_base_url_def encode_no_slash)
    with that have "leads_to ''/r/:roleId/b/:bucket'' (role_base_url r b)"
      unfolding leads_to_def pats by (simp add: starts_with_def)
    moreover have "(''/r/:roleId/b/:bucket'', shell_chain El_BucketPage) \<in> set app_routes" by (simp add: app_routes_eq)
    ultimately show ?thesis using page unfolding shown_at_def by blast
  qed
qed

lemma shown_admin:
  assumes "authGuard q = Outlet" "adminGuard q = Outlet"
  shows "shown_at q ''/admin''" "shown_at q ''/admin/roles''" "shown_at q ''/admin/settings''"
proof -
  have page: "render_chain url q (admin_chain e) = Page e" for url e using assms by (simp add: render_admin)
  have at: "shown_at q p" if "(p, admin_chain e) \<in> set app_routes" "p \<noteq> ''*''" for p e
    using that page fits_refl unfolding shown_at_def leads_to_def by blast
  show "shown_at q ''/admin''" "shown_at q ''/admin/roles''" "shown_at q ''/admin/settings''"
    by (rule at; simp add: app_routes_eq)+
qed

text \<open>C27: no control of the frame leads nowhere: for a signed-in user every button and link of the header, its
  menu, the tree of roles and buckets, the page of a role and the administration's navigation leads to an
  address of the route table whose guards let this user in, so to a page and never to Forbidden or Not
  Found.\<close>

theorem frame_controls_lead_to_pages:
  assumes "authGuard q = Outlet" "en_data q = Some me" "named_branches me branch_of" "roleId \<noteq> []"
    and "case buckets of None \<Rightarrow> True | Some bs \<Rightarrow> [] \<notin> set bs"
    and "url \<in> targets dflt (app_frame fr (en_data q) branch_of
           (role_screen roleId (rolePage roleId loading err buckets (en_data q))))
       \<or> (adminGuard q = Outlet \<and> url \<in> targets dflt (adminLayout fr (en_data q) pathname))"
  shows "\<exists>pattern els e. (pattern, els) \<in> set app_routes \<and> pattern \<noteq> ''*'' \<and> leads_to pattern url
    \<and> render_chain url q els = Page e"
proof -
  have admin: "shows_admin_button (en_data q) \<Longrightarrow> adminGuard q = Outlet" using admin_button_iff[OF assms(1)] by blast
  have main: "(\<Union>u\<in>set (when_shown b [v]). targets dflt u) = (if b then targets dflt v else {})" for b v
    by (simp add: when_shown_def)
  consider "url \<in> targets dflt (frame_header fr (en_data q))"
    | "url \<in> targets dflt (sidebar (collapsed (fr_shell fr)) (Some me) branch_of)"
    | u where "u \<in> set (role_screen roleId (rolePage roleId loading err buckets (en_data q)))" "url \<in> targets dflt u"
    | "adminGuard q = Outlet" "url \<in> targets dflt (adminSidebar pathname)"
    using assms(6) unfolding app_frame_def adminLayout_def appShellLayout_def targets_simps(7) set_append UN_Un main
    by (auto simp: assms(2) split: if_splits)
  then have "shown_at q url"
  proof cases
    case 1
    with targets_header have "url = ''/'' \<or> (url = ''/admin/roles'' \<and> shows_admin_button (en_data q))"
      unfolding frame_header_def by (fastforce split: if_splits)
    then show ?thesis using shown_shell(1)[OF assms(1)] shown_admin(2)[OF assms(1)] admin by blast
  next
    case 2
    from targets_sidebar[OF this assms(3)] show ?thesis using shown_shell[OF assms(1)] by blast
  next
    case 3
    from assms(5) have "b \<noteq> []" if "buckets = Some bs" "b \<in> set bs" for b bs using that by auto
    with targets_role_screen[OF 3] show ?thesis
      using shown_shell(3)[OF assms(1) assms(4)] shown_admin(1)[OF assms(1)] admin by metis
  next
    case 4
    with shown_shell(1)[OF assms(1)] shown_admin[OF assms(1)] show ?thesis unfolding targets_admin_sidebar by blast
  qed
  then show ?thesis by (simp add: shown_at_def)
qed

definition sample_frame :: frame_env where
  "sample_frame = \<lparr>fr_initial = take 1, fr_small = False, fr_menuOpen = True,
     fr_theme = \<lparr>th_scheme = DarkScheme, th_transitions = 0\<rparr>, fr_appInfo = None, fr_shell = mount_shell False Map.empty\<rparr>"

definition sample_branch :: "string \<Rightarrow> branch" where
  "sample_branch r = \<lparr>bn_item = mount_item r True, bn_loading = False, bn_error = None, bn_buckets = Some [''data'']\<rparr>"

theorem frame_controls_lead_to_pages_witness:
  "\<exists>pattern els e. (pattern, els) \<in> set app_routes \<and> pattern \<noteq> ''*'' \<and> leads_to pattern ''/admin/roles''
     \<and> render_chain ''/admin/roles'' (tb_me signed_in_tab) els = Page e"
proof -
  let ?q = "tb_me signed_in_tab"
  have q: "authGuard ?q = Outlet" by (simp add: authGuard_Outlet signed_in_fields)
  have named: "named_branches (sample_me ''tok'' True) sample_branch"
    by (simp add: named_branches_def sample_me_def sample_branch_def mount_item_def)
  have "''/admin/roles'' \<in> targets PlainType (adminLayout sample_frame (en_data ?q) ''/admin/roles'')"
    by (simp add: adminLayout_def appShellLayout_def sample_frame_def when_shown_def targets_admin_sidebar)
  moreover have "adminGuard ?q = Outlet" by (simp add: adminGuard_Outlet signed_in_fields sample_me_def)
  ultimately show ?thesis
    using frame_controls_lead_to_pages[OF q signed_in_fields(3) named, of "''dev''" "Some [''data'']"
        "''/admin/roles''" PlainType sample_frame False None "''/admin/roles''"] by simp
qed

end
