(* ===== verification/List_Views.thy ===== *)
theory List_Views
  imports Live_Page Action_Bar Upload_Entry Feedback
begin

text \<open>
  What the list of a folder renders (\<open>components/FileBrowser\<close>): the popover of link validities, the buttons
  of an entry, the rows of the table and the cards of the grid.  The records of \<open>File_List\<close> are laid out
  as trees whose controls make the calls of the page.  \<open>small\<close> says that the window is below the library's
  small breakpoint, which hides what is marked for the other size.
\<close>

subsection \<open>Calls of the browser\<close>

datatype browse_call =
    PageEv page_event
  | ConfirmDeleteClicked
  | ShareEv string share_event
  | BarEv bar_event
  | BulkCopyUrls
  | UploadEv entry_event
  | UploadMenuToggled
  | LoadEv load_call
  | LoadMenuToggled
  | ModeChosen display_mode
  | SearchOpened
  | SearchClosed
  | RowMenuToggled string
  | ScrolledToTop

definition row_call :: "browser_call \<Rightarrow> browse_call" where
  "row_call c = PageEv (PgRow c)"

subsection \<open>TtlPopover\<close>

definition ttlPopover ::
  "browse_call ui list \<Rightarrow> nat \<Rightarrow> nat \<Rightarrow> popover \<Rightarrow> browse_call list \<Rightarrow> (string \<Rightarrow> browse_call list) \<Rightarrow> browse_call list
     \<Rightarrow> browse_call ui list" where
  "ttlPopover target defaultTtl maxTtl p onClose onPick onConfirm =
     target
     @ [Portal (pp_open p) [] (Some onClose)
         [Txt ''Share link validity'',
          Radio ''Valid for'' False (map (\<lambda>x. (opt_value x, opt_label x)) (popover_data defaultTtl maxTtl)) (pp_selected p)
            onPick,
          Button DefaultType ''Copy'' False onConfirm]]"

subsection \<open>FileActions and FileRowActionsMenu\<close>

definition DISABLED_DELETE_LABEL :: string where
  "DISABLED_DELETE_LABEL = ''Deletion is disabled in the server config.''"

text \<open>The two entries with the label Copy URL are the left and the right click on the same icon.\<close>

definition shareIcon :: "string \<Rightarrow> string \<Rightarrow> bool \<Rightarrow> browse_call ui list" where
  "shareIcon nm tip canOverrideTtl =
     [Hint tip
       ([Button DefaultType ''Copy URL'' False [ShareEv nm ShareClick, row_call (CallCopyUrl nm)]]
        @ when_shown canOverrideTtl [Button PlainType ''Copy URL'' False [ShareEv nm ShareContextMenu]])]"

record list_env =
  le_page :: page_env
  le_small :: bool
  le_defaultTtl :: nat
  le_maxTtl :: nat
  le_shares :: "string \<Rightarrow> share_button"
  le_menus :: "string \<Rightarrow> bool"
  le_fmt_date :: "string \<Rightarrow> string"
  le_media :: "string \<Rightarrow> presigned_response option \<times> bool"
  le_width :: rat
  le_totalSize :: int
  le_rows :: "virtual_row list"
  le_gridRows :: "nat list"

definition action_view :: "list_env \<Rightarrow> string \<Rightarrow> action_button \<Rightarrow> browse_call ui list" where
  "action_view le nm b =
     (let click = [row_call (action_call nm (ab_action b))] in
      case ab_action b of
        ActDownload \<Rightarrow> [Hint ''Download'' [Button DefaultType (ab_label b) (ab_disabled b) click]]
      | ActCopyUrl \<Rightarrow>
          ttlPopover
            (shareIcon nm (''Copy link '' @ [CHR 0xC2, CHR 0xB7] @ '' right-click to set validity'') True)
            (le_defaultTtl le) (le_maxTtl le) (sb_popover (le_shares le nm)) [ShareEv nm ShareDismiss]
            (\<lambda>v. [ShareEv nm (SharePick (Some v))]) [ShareEv nm ShareConfirm, row_call (CallCopyUrl nm)]
      | ActPreview \<Rightarrow> [Hint ''Preview'' [Button DefaultType (ab_label b) (ab_disabled b) click]]
      | ActDelete \<Rightarrow> [Hint (if ab_disabled b then DISABLED_DELETE_LABEL else ''Delete'')
          [Button DefaultType (ab_label b) (ab_disabled b) click]])"

definition fileActions_view :: "list_env \<Rightarrow> string \<Rightarrow> action_button list \<Rightarrow> browse_call ui" where
  "fileActions_view le nm buttons = Group (concat (map (action_view le nm) buttons))"

definition rowMenu_view :: "list_env \<Rightarrow> string \<Rightarrow> action_button list \<Rightarrow> browse_call ui" where
  "rowMenu_view le nm buttons =
     Group
       [Button DefaultType (''Actions for '' @ nm) False [RowMenuToggled nm],
        Portal (le_menus le nm) [] (Some [RowMenuToggled nm])
          (map (\<lambda>b. Button DefaultType (ab_label b) (ab_disabled b) [row_call (action_call nm (ab_action b))]) buttons)]"

subsection \<open>Rows and cards\<close>

text \<open>The handler of a checkbox reads the shift key, so the argument of its call is that key.\<close>

definition select_box :: "file_entry \<Rightarrow> bool \<Rightarrow> browse_call ui" where
  "select_box f chosen =
     Check (''Select '' @ fe_name f) False chosen (\<lambda>shiftKey. map row_call (checkbox_change f (Some shiftKey)))"

text \<open>A folder opens by a click on its name, and by a double click anywhere on its row.\<close>

definition name_view :: "file_entry \<Rightarrow> browse_call ui" where
  "name_view f =
     (if fe_is_directory f then Button PlainType (fe_name f) False (map row_call (name_click f)) else Txt (fe_name f))"

definition optional_text :: "string option \<Rightarrow> 'c ui list" where
  "optional_text t = (case t of None \<Rightarrow> [] | Some s \<Rightarrow> [Txt s])"

definition fileRow_view :: "list_env \<Rightarrow> file_entry \<Rightarrow> file_row \<Rightarrow> browse_call ui" where
  "fileRow_view le f r =
     Group
       ([select_box f (fr_checked r), name_view f]
        @ when_shown (\<not> le_small le) (optional_text (fr_size r) @ optional_text (fr_modified r))
        @ [if le_small le then rowMenu_view le (fr_name r) (fr_menu r)
           else fileActions_view le (fr_name r) (fr_actions r)])"

definition sortHeader_view :: "bool \<Rightarrow> sort_state \<Rightarrow> sort_header \<Rightarrow> browse_call ui" where
  "sortHeader_view truncated sortState h =
     Button DefaultType (sh_label h) (sh_disabled h)
       [PageEv (PgBrowser (RequestSort truncated (nextSortForColumn sortState (sh_column h))))]"

definition tableHead_view ::
  "bool \<Rightarrow> bool \<Rightarrow> sort_state \<Rightarrow> bool \<Rightarrow> sort_header list \<Rightarrow> browse_call ui list" where
  "tableHead_view small truncated sortState all_chosen headers =
     [Check ''Select all'' False all_chosen (\<lambda>_. [PageEv PgToggleAll])]
     @ map (sortHeader_view truncated sortState) (if small then take 1 headers else headers)
     @ when_shown (\<not> small) [Txt ''Actions'']"

definition fileTable_view ::
  "list_env \<Rightarrow> bool \<Rightarrow> file_entry list \<Rightarrow> string list \<Rightarrow> sort_state \<Rightarrow> bool \<Rightarrow> js_error + browse_call ui" where
  "fileTable_view le truncated files chosen sortState sortDisabled =
     and_then (fileTable (ev_lower (le_page le)) (le_fmt_date le) (ev_config (le_page le)) (ev_disableDeletion (le_page le))
         files chosen sortState sortDisabled (le_totalSize le) (le_rows le))
       (\<lambda>t. Inr (Group
          (tableHead_view (le_small le) truncated sortState (ft_all t) (ft_headers t)
           @ map (\<lambda>(v, r). fileRow_view le (files ! vr_index v) r) (zip (le_rows le) (ft_rows t)))))"

definition media_view_of :: "card_media \<Rightarrow> browse_call ui list" where
  "media_view_of m = (case m of CardIcon ic \<Rightarrow> [] | CardImage url \<Rightarrow> [Link ''image'' url] | CardVideo url \<Rightarrow> [Link ''video'' url])"

text \<open>A folder opens by a click on its card outside of the checkbox and the buttons.\<close>

definition fileCard_view :: "list_env \<Rightarrow> file_entry \<Rightarrow> file_card \<Rightarrow> browse_call ui" where
  "fileCard_view le f c =
     Group
       ([select_box f (fc_checked c), fileActions_view le (fc_name c) (fc_actions c)]
        @ media_view_of (fc_media c) @ [name_view f] @ optional_text (fc_size c))"

definition fileGrid_view :: "list_env \<Rightarrow> file_entry list \<Rightarrow> string list \<Rightarrow> js_error + browse_call ui" where
  "fileGrid_view le files chosen =
     and_then (fileGrid (ev_lower (le_page le)) (ev_config (le_page le)) (ev_disableDeletion (le_page le)) (le_media le) files
         chosen (le_width le) (le_gridRows le))
       (\<lambda>rows. Inr (Group
          (map (\<lambda>(row, cards).
               Group (map (\<lambda>((i, f), c). fileCard_view le f c) (zip (grid_row (grid_columns (le_width le)) files row) cards)))
             (zip (le_gridRows le) rows))))"

subsection \<open>What an entry can ask for\<close>

definition entry_calls :: "page_env \<Rightarrow> file_entry \<Rightarrow> browse_call set" where
  "entry_calls env f =
     row_call ` set (row_calls env f) \<union> range (ShareEv (fe_name f)) \<union> {RowMenuToggled (fe_name f)}"

lemma calls_simps [simp]:
  "ui_calls dflt (Txt t) = {}" "ui_calls dflt (Heading n t) = {}" "ui_calls dflt (Link l t) = {}"
  "ui_calls dflt (Button ty l dis cs) = (if dis then {} else set cs)"
  "ui_calls dflt (Check l dis bv f) = (if dis then {} else set (f True) \<union> set (f False))"
  "ui_calls dflt (Radio l dis opts sv g) = (if dis then {} else \<Union>p\<in>set opts. set (g (fst p)))"
  "ui_calls dflt (Input l dis sv h) = (if dis then {} else \<Union>s. set (h s))"
  "ui_calls dflt (Hint t us) = (\<Union>u\<in>set us. ui_calls dflt u)"
  "ui_calls dflt (Alert co t us) = (\<Union>u\<in>set us. ui_calls dflt u)"
  "ui_calls dflt (Group us) = (\<Union>u\<in>set us. ui_calls dflt u)"
  by (auto simp: ui_calls_def UNIV_bool)

lemma calls_Portal [simp]:
  "ui_calls dflt (Portal shown t cl us) =
     (if shown then (\<Union>u\<in>set us. ui_calls dflt u) \<union> (case cl of None \<Rightarrow> {} | Some cs \<Rightarrow> set cs) else {})"
  by (cases cl) (auto simp: ui_calls_def)

lemma calls_when_shown [simp]:
  "(\<Union>u\<in>set (when_shown b us). ui_calls dflt u) = (if b then \<Union>u\<in>set us. ui_calls dflt u else {})"
  by (simp add: when_shown_def)

lemma calls_optional_text [simp]: "(\<Union>u\<in>set (optional_text t). ui_calls dflt u) = {}"
  by (cases t) (simp_all add: optional_text_def)

text \<open>The buttons of an entry, wherever they are laid out, make the calls that the buttons make.\<close>

definition shown_buttons :: "page_env \<Rightarrow> file_entry \<Rightarrow> action_button list \<Rightarrow> bool" where
  "shown_buttons env f bs \<longleftrightarrow>
     list_all (\<lambda>b. (\<not> ab_disabled b \<longrightarrow> action_call (fe_name f) (ab_action b) \<in> set (row_calls env f))
       \<and> (ab_action b = ActCopyUrl \<longrightarrow> \<not> ab_disabled b)) bs"

lemma shown_button:
  assumes "b \<in> set bs" "shown_buttons env f bs"
  shows "\<not> ab_disabled b \<Longrightarrow> action_call (fe_name f) (ab_action b) \<in> set (row_calls env f)"
    "ab_action b = ActCopyUrl \<Longrightarrow> CallCopyUrl (fe_name f) \<in> set (row_calls env f)"
  using assms by (force simp: shown_buttons_def list_all_iff)+

lemma calls_action:
  assumes "b \<in> set bs" "shown_buttons env f bs"
  shows "(\<Union>u\<in>set (action_view le (fe_name f) b). ui_calls dflt u) \<subseteq> entry_calls env f"
  using shown_button[OF assms]
  by (cases "ab_action b")
    (auto simp: action_view_def ttlPopover_def shareIcon_def entry_calls_def when_shown_def split: if_splits)

lemma calls_actions:
  "shown_buttons env f bs \<Longrightarrow> ui_calls dflt (fileActions_view le (fe_name f) bs) \<subseteq> entry_calls env f"
  using calls_action[of _ bs env f dflt le] by (simp add: fileActions_view_def) blast

lemma calls_menu:
  "shown_buttons env f bs \<Longrightarrow> ui_calls dflt (rowMenu_view le (fe_name f) bs) \<subseteq> entry_calls env f"
  using shown_button(1)[of _ bs env f] by (auto simp: rowMenu_view_def entry_calls_def split: if_splits)

lemma calls_select: "ui_calls dflt (select_box f b) \<subseteq> entry_calls env f"
  by (auto simp: select_box_def checkbox_change_def entry_calls_def row_calls_def)

lemma calls_name: "ui_calls dflt (name_view f) \<subseteq> entry_calls env f"
  by (auto simp: name_view_def name_click_def entry_calls_def row_calls_def)

lemma row_button_calls:
  assumes "b \<in> set (entry_actions (canPreview (ev_lower env) (ev_config env) f) (ev_disableDeletion env) f
      @ fileRowActionsMenu (fe_is_directory f) (canPreview (ev_lower env) (ev_config env) f) (ev_disableDeletion env))"
    and "\<not> ab_disabled b"
  shows "action_call (fe_name f) (ab_action b) \<in> set (row_calls env f)"
proof -
  have "action_call (fe_name f) (ab_action b) \<in> set (click_button (fe_name f) b)"
    using assms(2) by (simp add: click_button_def)
  with assms(1) show ?thesis unfolding row_calls_def set_append set_concat set_map by blast
qed

lemma copy_enabled:
  "list_all (\<lambda>b. ab_action b = ActCopyUrl \<longrightarrow> \<not> ab_disabled b) (entry_actions p d f)"
  "list_all (\<lambda>b. ab_action b = ActCopyUrl \<longrightarrow> \<not> ab_disabled b) (fileRowActionsMenu dir p d)"
  by (simp_all add: entry_actions_def fileActions_def fileRowActionsMenu_def button_def)

lemma entry_buttons:
  "shown_buttons env f (entry_actions (canPreview (ev_lower env) (ev_config env) f) (ev_disableDeletion env) f)"
  "shown_buttons env f (fileRowActionsMenu (fe_is_directory f) (canPreview (ev_lower env) (ev_config env) f) (ev_disableDeletion env))"
  using row_button_calls[of _ env f] copy_enabled unfolding shown_buttons_def list_all_iff set_append by blast+

subsection \<open>What the list can ask for\<close>

lemma map_sum_list_zip:
  "map_sum_list f xs = Inr ys \<Longrightarrow> (x, y) \<in> set (zip xs ys) \<Longrightarrow> x \<in> set xs \<and> f x = Inr y"
  using map_sum_list_Inr_nth[of f xs ys] map_sum_list_Inr_length[of f xs ys] by (auto simp: set_zip)

lemma calls_row:
  assumes "fileRow lower fmt_date (ev_config (le_page le)) (ev_disableDeletion (le_page le)) f i c = Inr r"
    and "lower = ev_lower (le_page le)"
  shows "ui_calls dflt (fileRow_view le f r) \<subseteq> entry_calls (le_page le) f"
proof -
  from assms have r: "fr_name r = fe_name f"
    "fr_actions r = entry_actions (canPreview (ev_lower (le_page le)) (ev_config (le_page le)) f) (ev_disableDeletion (le_page le)) f"
    "fr_menu r = fileRowActionsMenu (fe_is_directory f) (canPreview (ev_lower (le_page le)) (ev_config (le_page le)) f)
       (ev_disableDeletion (le_page le))"
    by (auto simp: fileRow_def and_then_Inr_iff)
  have "ui_calls dflt (fileActions_view le (fe_name f) (fr_actions r)) \<subseteq> entry_calls (le_page le) f"
    "ui_calls dflt (rowMenu_view le (fe_name f) (fr_menu r)) \<subseteq> entry_calls (le_page le) f"
    using calls_actions calls_menu entry_buttons by (simp_all add: r)
  with calls_select[of dflt f] calls_name[of dflt f] r(1) show ?thesis
    by (cases "fr_size r"; cases "fr_modified r") (auto simp: fileRow_view_def when_shown_def optional_text_def)
qed

lemma calls_card:
  assumes "fileCard lower (ev_config (le_page le)) (ev_disableDeletion (le_page le)) media f i c = Inr d"
    and "lower = ev_lower (le_page le)"
  shows "ui_calls dflt (fileCard_view le f d) \<subseteq> entry_calls (le_page le) f"
proof -
  from assms have d: "fc_name d = fe_name f"
    "fc_actions d = entry_actions (canPreview (ev_lower (le_page le)) (ev_config (le_page le)) f) (ev_disableDeletion (le_page le)) f"
    by (auto simp: fileCard_def and_then_Inr_iff)
  have "ui_calls dflt (fileActions_view le (fe_name f) (fc_actions d)) \<subseteq> entry_calls (le_page le) f"
    using calls_actions entry_buttons by (simp add: d)
  moreover have "(\<Union>u\<in>set (media_view_of (fc_media d)). ui_calls dflt u) = {}"
    by (cases "fc_media d") (simp_all add: media_view_of_def)
  ultimately show ?thesis
    using calls_select[of dflt f] calls_name[of dflt f] d(1) by (simp add: fileCard_view_def)
qed

text \<open>The indices the virtualizer asks for are those of the list it was given the length of.\<close>

definition table_calls :: "page_env \<Rightarrow> bool \<Rightarrow> sort_state \<Rightarrow> bool \<Rightarrow> file_entry list \<Rightarrow> browse_call set" where
  "table_calls env truncated sortState sortDisabled files =
     {PageEv PgToggleAll}
     \<union> (if sortDisabled then {} else {PageEv (PgBrowser (RequestSort truncated (nextSortForColumn sortState c))) |c. True})
     \<union> (\<Union>f\<in>set files. entry_calls env f)"

lemma calls_head:
  assumes "headers = table_headers sortState sortDisabled"
  shows "(\<Union>u\<in>set (tableHead_view small truncated sortState all_chosen headers). ui_calls dflt u)
    \<subseteq> table_calls env truncated sortState sortDisabled files"
proof -
  have "ui_calls dflt (sortHeader_view truncated sortState h) \<subseteq> table_calls env truncated sortState sortDisabled files"
    if "h \<in> set headers" for h
    using that by (auto simp: assms table_headers_def sortHeaderButton_def sortHeader_view_def table_calls_def)
  moreover have "PageEv PgToggleAll \<in> table_calls env truncated sortState sortDisabled files" by (simp add: table_calls_def)
  ultimately show ?thesis by (cases small) (auto simp: tableHead_view_def dest: in_set_takeD)
qed

lemma table_tree:
  assumes "fileTable_view le truncated files chosen sortState sortDisabled = Inr u"
  obtains rs where
    "map_sum_list (\<lambda>v. fileRow (ev_lower (le_page le)) (le_fmt_date le) (ev_config (le_page le))
       (ev_disableDeletion (le_page le)) (files ! vr_index v) (vr_index v) (fe_name (files ! vr_index v) \<in> set chosen))
       (le_rows le) = Inr rs"
    "u = Group (tableHead_view (le_small le) truncated sortState (allSelected files chosen)
        (table_headers sortState sortDisabled)
      @ map (\<lambda>(v, r). fileRow_view le (files ! vr_index v) r) (zip (le_rows le) rs))"
  using assms unfolding fileTable_view_def fileTable_def by (auto simp: and_then_Inr_iff)

lemma calls_table:
  assumes "fileTable_view le truncated files chosen sortState sortDisabled = Inr u"
    and "list_all (\<lambda>v. vr_index v < length files) (le_rows le)"
  shows "ui_calls dflt u \<subseteq> table_calls (le_page le) truncated sortState sortDisabled files"
proof -
  let ?env = "le_page le"
  let ?row = "\<lambda>v. fileRow (ev_lower ?env) (le_fmt_date le) (ev_config ?env) (ev_disableDeletion ?env) (files ! vr_index v)
    (vr_index v) (fe_name (files ! vr_index v) \<in> set chosen)"
  from assms(1) obtain rs where rs: "map_sum_list ?row (le_rows le) = Inr rs"
    and u: "u = Group (tableHead_view (le_small le) truncated sortState (allSelected files chosen)
        (table_headers sortState sortDisabled)
      @ map (\<lambda>(v, r). fileRow_view le (files ! vr_index v) r) (zip (le_rows le) rs))"
    by (rule table_tree)
  have rows: "ui_calls dflt (fileRow_view le (files ! vr_index v) r) \<subseteq> table_calls ?env truncated sortState sortDisabled files"
    if "(v, r) \<in> set (zip (le_rows le) rs)" for v r
  proof -
    from map_sum_list_zip[OF rs that] have v: "v \<in> set (le_rows le)" "?row v = Inr r" by simp_all
    with assms(2) have "files ! vr_index v \<in> set files" by (auto simp: list_all_iff)
    with calls_row[OF v(2)] show ?thesis by (fastforce simp: table_calls_def)
  qed
  show ?thesis unfolding u calls_simps(10) set_append UN_Un
    by (intro Un_least calls_head refl) (use rows in \<open>auto split: prod.splits\<close>)
qed

lemma calls_grid:
  assumes "fileGrid_view le files chosen = Inr u"
  shows "ui_calls dflt u \<subseteq> (\<Union>f\<in>set files. entry_calls (le_page le) f)"
proof -
  let ?env = "le_page le"
  let ?card = "\<lambda>(index, f). fileCard (ev_lower ?env) (ev_config ?env) (ev_disableDeletion ?env) (le_media le) f index
    (fe_name f \<in> set chosen)"
  let ?items = "grid_row (grid_columns (le_width le)) files"
  from assms obtain rows where rows: "map_sum_list (\<lambda>row. map_sum_list ?card (?items row)) (le_gridRows le) = Inr rows"
    and u: "u = Group (map (\<lambda>(row, cards). Group (map (\<lambda>((i, f), c). fileCard_view le f c) (zip (?items row) cards)))
      (zip (le_gridRows le) rows))"
    unfolding fileGrid_view_def fileGrid_def by (auto simp: and_then_Inr_iff)
  have "ui_calls dflt (fileCard_view le f c) \<subseteq> (\<Union>f\<in>set files. entry_calls ?env f)"
    if "(row, cards) \<in> set (zip (le_gridRows le) rows)" "((i, f), c) \<in> set (zip (?items row) cards)" for row cards i f c
  proof -
    from map_sum_list_zip[OF rows that(1)] have "map_sum_list ?card (?items row) = Inr cards" by simp
    from map_sum_list_zip[OF this that(2)] have "(i, f) \<in> set (?items row)" "?card (i, f) = Inr c" by simp_all
    moreover then have "f \<in> set files"
      by (auto simp: grid_row_def Let_def in_set_enumerate_eq dest!: nth_mem in_set_takeD in_set_dropD)
    ultimately show ?thesis using calls_card by fastforce
  qed
  then show ?thesis by (fastforce simp: u)
qed

subsection \<open>Everything the page accepts of an entry is on its row\<close>

lemma offers_action:
  "\<not> ab_disabled b \<Longrightarrow> row_call (action_call nm (ab_action b)) \<in> (\<Union>u\<in>set (action_view le nm b). ui_calls dflt u)"
  by (cases "ab_action b") (auto simp: action_view_def ttlPopover_def shareIcon_def)

text \<open>The icons and the menu of an entry are the same actions under the same conditions.\<close>

lemma same_buttons:
  "(\<lambda>b. (ab_action b, ab_disabled b)) ` set (entry_actions p d f)
   = (\<lambda>b. (ab_action b, ab_disabled b)) ` set (fileRowActionsMenu (fe_is_directory f) p d)"
  by (cases "fe_is_directory f"; cases p) (simp_all add: entry_actions_def fileActions_def fileRowActionsMenu_def button_def)

lemma row_calls_cases:
  assumes "c \<in> set (row_calls env f)"
    and "bs = entry_actions (canPreview (ev_lower env) (ev_config env) f) (ev_disableDeletion env) f
      \<or> bs = fileRowActionsMenu (fe_is_directory f) (canPreview (ev_lower env) (ev_config env) f) (ev_disableDeletion env)"
  shows "c \<in> set (checkbox_change f (Some False) @ checkbox_change f (Some True) @ name_click f)
    \<or> (\<exists>b\<in>set bs. \<not> ab_disabled b \<and> c = action_call (fe_name f) (ab_action b))"
proof (rule disjCI)
  let ?p = "canPreview (ev_lower env) (ev_config env) f" and ?key = "\<lambda>b. (ab_action b, ab_disabled b)"
  assume not_here: "\<not> (\<exists>b\<in>set bs. \<not> ab_disabled b \<and> c = action_call (fe_name f) (ab_action b))"
  show "c \<in> set (checkbox_change f (Some False) @ checkbox_change f (Some True) @ name_click f)"
  proof (rule ccontr)
    assume "c \<notin> set (checkbox_change f (Some False) @ checkbox_change f (Some True) @ name_click f)"
    with assms(1) obtain b where b: "b \<in> set (entry_actions ?p (ev_disableDeletion env) f)
        \<union> set (fileRowActionsMenu (fe_is_directory f) ?p (ev_disableDeletion env))"
      "\<not> ab_disabled b" "c = action_call (fe_name f) (ab_action b)"
      unfolding row_calls_def click_button_def by (auto split: if_splits)
    then have "?key b \<in> ?key ` set bs" using assms(2) same_buttons[of ?p "ev_disableDeletion env" f] by auto
    with b not_here show False by auto
  qed
qed

lemma offers_row:
  assumes "fileRow (ev_lower (le_page le)) fmt_date (ev_config (le_page le)) (ev_disableDeletion (le_page le)) f i c = Inr r"
    and "le_small le \<Longrightarrow> le_menus le (fe_name f)"
  shows "row_call ` set (row_calls (le_page le) f) \<subseteq> ui_calls dflt (fileRow_view le f r)"
proof -
  let ?bs = "if le_small le then fr_menu r else fr_actions r"
  from assms(1) have r: "fr_name r = fe_name f"
    "fr_actions r = entry_actions (canPreview (ev_lower (le_page le)) (ev_config (le_page le)) f) (ev_disableDeletion (le_page le)) f"
    "fr_menu r = fileRowActionsMenu (fe_is_directory f) (canPreview (ev_lower (le_page le)) (ev_config (le_page le)) f)
       (ev_disableDeletion (le_page le))"
    by (auto simp: fileRow_def and_then_Inr_iff)
  have button: "row_call (action_call (fe_name f) (ab_action b)) \<in> ui_calls dflt (fileRow_view le f r)"
    if "b \<in> set ?bs" "\<not> ab_disabled b" for b
  proof (cases "le_small le")
    case True
    with that assms(2) r(1) show ?thesis by (auto simp: fileRow_view_def rowMenu_view_def)
  next
    case False
    with that r(1) offers_action[of b "fe_name f" dflt le] show ?thesis
      by (auto simp: fileRow_view_def fileActions_view_def)
  qed
  have rest: "row_call d \<in> ui_calls dflt (fileRow_view le f r)"
    if "d \<in> set (checkbox_change f (Some False) @ checkbox_change f (Some True) @ name_click f)" for d
    using that by (auto simp: fileRow_view_def select_box_def name_view_def name_click_def)
  show ?thesis
  proof (rule image_subsetI)
    fix d
    assume d: "d \<in> set (row_calls (le_page le) f)"
    have bs: "?bs = entry_actions (canPreview (ev_lower (le_page le)) (ev_config (le_page le)) f) (ev_disableDeletion (le_page le)) f
      \<or> ?bs = fileRowActionsMenu (fe_is_directory f) (canPreview (ev_lower (le_page le)) (ev_config (le_page le)) f)
          (ev_disableDeletion (le_page le))"
      by (simp add: r)
    from row_calls_cases[OF d bs] button rest show "row_call d \<in> ui_calls dflt (fileRow_view le f r)" by blast
  qed
qed

end
