(* ===== verification/Browser_Screen.thy ===== *)
theory Browser_Screen
  imports List_Views
begin

text \<open>
  The screen of the file browser: the header (\<open>BucketPageHeader.tsx\<close>, \<open>FileBrowserHeader.tsx\<close> with its
  split buttons), the list or what stands in for it, the drop zone, the dialogs and the bulk bar, laid out
  as \<open>components/FileBrowser/FileBrowser.tsx\<close> does.  The data come from the page with its running deletes;
  what the queries and the library's own widgets hold is a record of the screen.  The two hidden file inputs
  are the pickers of \<open>Upload_Entry\<close>.  A menu of the library also closes when one of its items is chosen.
\<close>

subsection \<open>Header\<close>

definition fileBreadcrumbs_view :: "string \<Rightarrow> string \<Rightarrow> string \<Rightarrow> string list option \<Rightarrow> 'c ui" where
  "fileBreadcrumbs_view bucket roleId path allowedPrefixes =
     Group (map (\<lambda>l. case link_to l of Some t \<Rightarrow> Link (link_label l) t | None \<Rightarrow> Txt (link_label l))
       (fileBreadcrumbs bucket roleId path allowedPrefixes))"

definition bucketPageHeader :: "string \<Rightarrow> string \<Rightarrow> nat \<Rightarrow> nat \<Rightarrow> bool \<Rightarrow> 'c ui" where
  "bucketPageHeader bucket roleId object_count animatedCount truncated =
     Group [Heading 2 bucket, roleBadge roleId, Txt [CHR 0xC2, CHR 0xB7],
       Txt (countLabel truncated animatedCount object_count)]"

definition browser_ev :: "browser_event \<Rightarrow> browse_call" where
  "browser_ev ev = PageEv (PgBrowser ev)"

definition searchInput_view :: "string \<Rightarrow> bool \<Rightarrow> browse_call ui" where
  "searchInput_view searchQuery isMobileInstance =
     Group ([Input (''Filter files'' @ three_dots) False searchQuery (\<lambda>q. [browser_ev (SearchInput q)])]
       @ when_shown isMobileInstance [Button PlainType ''Close search'' False [browser_ev (SearchInput []), SearchClosed]])"

definition search_view :: "bool \<Rightarrow> bool \<Rightarrow> string \<Rightarrow> browse_call ui" where
  "search_view small mobileSearchOpen searchQuery =
     (case (if small then mobile_search mobileSearchOpen searchQuery else desktop_search) of
        SearchInputBox width mobile \<Rightarrow> searchInput_view searchQuery mobile
      | SearchIcon lit \<Rightarrow> Button DefaultType ''Search files'' False [SearchOpened])"

definition column_value :: "sort_column \<Rightarrow> string" where
  "column_value c = (case c of SortName \<Rightarrow> ''name'' | SortSize \<Rightarrow> ''size'' | SortModified \<Rightarrow> ''modified'')"

definition sort_tip :: "sort_state \<Rightarrow> string" where
  "sort_tip sortState =
     (let dash = '' '' @ [CHR 0xE2, CHR 0x80, CHR 0x94] @ '' click for ''
      in if sort_dir sortState = Asc then ''Ascending'' @ dash @ ''descending'' else ''Descending'' @ dash @ ''ascending'')"

text \<open>The select reports every submitted option, also the current one.\<close>

definition sortControls_view :: "bool \<Rightarrow> sort_state \<Rightarrow> bool \<Rightarrow> browse_call ui" where
  "sortControls_view truncated sortState sortDisabled =
     Group
       [Radio ''Sort by'' sortDisabled SORT_OPTIONS (column_value (sort_col sortState))
          (\<lambda>v. case onOptionSubmit sortState (Some v) of
             None \<Rightarrow> []
           | Some s \<Rightarrow> [browser_ev (RequestSort truncated s)]),
        Hint (sort_tip sortState)
          [Button DefaultType (sort_toggle_label sortState) sortDisabled
            [browser_ev (RequestSort truncated (sort_toggle sortState))]]]"

definition loadSplitButton_view :: "bool \<Rightarrow> split_button \<Rightarrow> browse_call ui list" where
  "loadSplitButton_view menuOpen b =
     (case b of
        StopButton \<Rightarrow> [Button DefaultType ''Stop loading'' False [LoadEv CallStopLoadAll]]
      | LoadMoreButton disabled \<Rightarrow>
          [Button DefaultType ''Load more'' disabled [LoadEv CallLoadMore],
           Button DefaultType ''More load options'' disabled [LoadMenuToggled],
           Portal menuOpen [] (Some [LoadMenuToggled])
             [Button DefaultType ''Load all'' disabled [LoadEv CallLoadAll]]])"

definition uploadSplitButton_view :: "bool \<Rightarrow> browse_call ui list" where
  "uploadSplitButton_view menuOpen =
     [Button DefaultType ''Upload'' False [UploadEv (SplitClick PrimaryUpload)],
      Button DefaultType ''More upload options'' False [UploadMenuToggled],
      Portal menuOpen [] (Some [UploadMenuToggled])
        [Button DefaultType ''Upload files'' False [UploadEv (SplitClick MenuUploadFiles)],
         Button DefaultType ''Upload folder'' False [UploadEv (SplitClick MenuUploadFolder)]]]"

record screen =
  sc_list :: list_env
  sc_mode :: display_mode
  sc_isFetching :: bool
  sc_isFetchingNextPage :: bool
  sc_error :: "js_error option"
  sc_isFetchNextPageError :: bool
  sc_loadingAll :: bool
  sc_lazyLoading :: bool
  sc_allowedPrefixes :: "string list option"
  sc_animatedCount :: nat
  sc_mobileSearchOpen :: bool
  sc_loadMenuOpen :: bool
  sc_uploadMenuOpen :: bool
  sc_upload :: upload_entry
  sc_drag :: drop_zone
  sc_barTtl :: popover
  sc_bulkCopying :: bool
  sc_scrollTop :: int
  sc_loader :: delayed_loader
  sc_text :: "string preview_box"
  sc_pdf :: "unit preview_box"
  sc_media :: media_box

definition sc_truncated :: "live \<Rightarrow> bool" where
  "sc_truncated st = ls_truncated (pg_listing (lv_page st))"

definition sc_sort :: "live \<Rightarrow> sort_state" where
  "sc_sort st = effectiveSort (sc_truncated st) (br_sortPreference (pg_browser (lv_page st)))"

definition sc_busy :: "screen \<Rightarrow> bool" where
  "sc_busy scr = sortBusy (sc_loadingAll scr) (sc_isFetchingNextPage scr)"

definition fileBrowserHeader_view :: "screen \<Rightarrow> live \<Rightarrow> browse_call ui" where
  "fileBrowserHeader_view scr st =
     (let b = pg_browser (lv_page st); small = le_small (sc_list scr) in
      Group
        ([fileBreadcrumbs_view (br_bucket b) (br_roleId b) (br_path b) (sc_allowedPrefixes scr),
          search_view small (sc_mobileSearchOpen scr) (br_searchQuery b),
          Hint ''Table view'' [Button DefaultType ''Table view'' False [ModeChosen TableMode]],
          Hint ''Grid view'' [Button DefaultType ''Grid view'' False [ModeChosen GridMode]]]
         @ when_shown (sort_controls_visible (sc_mode scr) small)
             [sortControls_view (sc_truncated st) (sc_sort st) (sc_busy scr)]
         @ (case loadSplitButton (sc_truncated st) (sc_loadingAll scr) (sc_isFetchingNextPage scr) of
              None \<Rightarrow> []
            | Some c \<Rightarrow> loadSplitButton_view (sc_loadMenuOpen scr) c)
         @ uploadSplitButton_view (sc_uploadMenuOpen scr)))"

subsection \<open>Server search\<close>

definition quoted :: "string \<Rightarrow> string" where
  "quoted s = [CHR 0x22] @ s @ [CHR 0x22]"

definition serverSearch_view :: "page_env \<Rightarrow> live \<Rightarrow> browse_call ui list" where
  "serverSearch_view env st =
     (let p = lv_page st; q = pg_debounced p; search = br_serverSearchTerm (pg_browser p) in
      when_shown (showSearchOnServer (search \<noteq> None) q (sc_truncated st))
        [Group [Txt (''Filtering '' @ nat_str (length (all_items (pg_listing p))) @ '' loaded items.''),
           Button PlainType (''Search '' @ quoted (ev_trim env q) @ '' on server (starts-with)'') False
             [browser_ev (EnterSearch q)]]]
      @ (case search of
           None \<Rightarrow> []
         | Some t \<Rightarrow> [Group [Txt ''Server search (starts-with, case-sensitive):'', Txt t,
             Button PlainType ''Exit server search'' False [browser_ev ExitSearch]]]))"

subsection \<open>The scroll area\<close>

definition fileBrowserEmptyState :: "string option \<Rightarrow> 'c ui" where
  "fileBrowserEmptyState message =
     emptyState ''This folder is empty''
       (Some (case message of Some m \<Rightarrow> m | None \<Rightarrow> ''Drop files here or click Upload to get started.'')) []"

definition fileBrowserLoadMoreFooter :: "bool \<Rightarrow> browse_call ui" where
  "fileBrowserLoadMoreFooter loading = Button DefaultType ''Load more'' loading [LoadEv CallLoadMore]"

definition scrollArea_view :: "screen \<Rightarrow> live \<Rightarrow> js_error + browse_call ui list" where
  "scrollArea_view scr st =
     (let p = lv_page st; rows = page_rows (le_page (sc_list scr)) p;
          footer = (\<lambda>shown. when_shown shown [fileBrowserLoadMoreFooter (sc_isFetchingNextPage scr)])
      in case browserView (sc_isFetching scr) (pg_listing p) (sc_error scr) (sc_isFetchNextPageError scr) rows
            (br_serverSearchTerm (pg_browser p)) (sc_mode scr)
            (showLoadMoreFooter (sc_lazyLoading scr) (sc_truncated st)) of
          ViewLoader \<Rightarrow> Inr [loader_view (Some (''Loading files'' @ three_dots)) (sc_loader scr)]
        | ViewError e \<Rightarrow> Inr [queryErrorState e ''Couldn't load files'' []]
        | ViewEmpty m \<Rightarrow> Inr [fileBrowserEmptyState m]
        | ViewTable footed \<Rightarrow>
            and_then (fileTable_view (sc_list scr) (sc_truncated st) rows (page_selected p) (sc_sort st) (sc_busy scr))
              (\<lambda>t. Inr (t # footer footed))
        | ViewGrid footed \<Rightarrow>
            and_then (fileGrid_view (sc_list scr) rows (page_selected p)) (\<lambda>t. Inr (t # footer footed)))"

definition scrollToTopButton_view :: "int \<Rightarrow> browse_call ui list" where
  "scrollToTopButton_view scrollTop =
     when_shown (scrollToTopShown scrollTop) [Button DefaultType ''Scroll to top'' False [ScrolledToTop]]"

definition uploadDropZone_view :: "string \<Rightarrow> drop_zone \<Rightarrow> 'c ui list" where
  "uploadDropZone_view currentPath dz =
     when_shown (dz_isDragging dz)
       [Txt ''Drop here to upload'', Txt (''to /'' @ (if currentPath \<noteq> [] then currentPath else ''(root)'') @ ''/'')]"

subsection \<open>Dialogs\<close>

definition hint_words :: "upload_mode \<Rightarrow> string list" where
  "hint_words mode =
     [if mode = ModeFolder then ''Two ways to upload a folder, both preserve its structure:''
      else ''You can also drag and drop '' @ [CHR 0xE2, CHR 0x80, CHR 0x94] @ '' often faster:'',
      ''Drag and drop (recommended)'',
      if mode = ModeFolder
      then ''Drag a folder from your file manager onto this page. Works with multiple folders at once and skips ''
        @ ''the native picker dialog.''
      else ''Drag files from your file manager onto this page. Works with multiple files or whole folders at once.'',
      if mode = ModeFolder then ''Browser folder picker'' else ''Browser file picker'',
      if mode = ModeFolder then ''Click below to open your browser's folder selection dialog.''
      else ''Click below to open your browser's file selection dialog.'']"

definition folderUploadHintModal :: "upload_entry \<Rightarrow> browse_call ui" where
  "folderUploadHintModal up =
     Portal (up_open up) (hint_title (up_mode up)) (Some [UploadEv CloseHint])
       (map Txt (hint_words (up_mode up))
        @ [Check ''Don't show this again'' False (up_dontShow up) (\<lambda>b. [UploadEv (TickBox b)]),
           Button DefaultType ''Cancel'' False [UploadEv CloseHint],
           Button DefaultType (hint_proceedLabel (up_mode up)) False [UploadEv Proceed]])"

definition misleading_copy :: "sort_column \<Rightarrow> string" where
  "misleading_copy c = (case c of
       SortSize \<Rightarrow> ''Sorting by size across just that part would mislead you: the biggest file you can see might not ''
         @ ''be the biggest one in the folder.''
     | SortModified \<Rightarrow> ''Sorting by date across just that part would mislead you: the newest file you can see might ''
         @ ''not be the newest one in the folder.''
     | SortName \<Rightarrow> ''Sorting this way across just that part would mislead you: the order would only reflect what ''
         @ ''happens to be loaded.'')"

definition sortLoadAllModal :: "sort_state option \<Rightarrow> nat \<Rightarrow> browse_call ui" where
  "sortLoadAllModal pending loadedCount =
     (let column = map_option sort_col pending
      in Portal (pending \<noteq> None) (sort_modal_title column) (Some [browser_ev CancelSort])
        [Txt (''Only part of this folder is loaded '' @ [CHR 0xE2, CHR 0x80, CHR 0x94] @ '' '' @ nat_str loadedCount
           @ ''+ objects so far. '' @ misleading_copy (case column of None \<Rightarrow> SortName | Some c \<Rightarrow> c)),
         Txt (''Loading everything can take a while on very large folders. You can stop it at any time ''
           @ [CHR 0xE2, CHR 0x80, CHR 0x94] @ '' the current order stays.''),
         Button DefaultType ''Cancel'' False [browser_ev CancelSort],
         Button DefaultType ''Load all and sort'' False [browser_ev ConfirmSort]])"

text \<open>A viewer that failed offers the file itself.\<close>

definition viewer_tree :: "viewer \<Rightarrow> 'c ui list" where
  "viewer_tree v = (case v of
       ViewerLoader \<Rightarrow> []
     | ViewerAlert m url \<Rightarrow> [Alert ''red'' [] [Txt m], Link ''Download'' url]
     | ViewerText content \<Rightarrow> [Txt content]
     | ViewerFrame url \<Rightarrow> [Link ''PDF preview'' url])"

definition media_tree :: "string \<Rightarrow> media_view \<Rightarrow> 'c ui list" where
  "media_tree alt m = (case m of
       MediaElement url \<Rightarrow> [Link alt url]
     | MediaAlert t url \<Rightarrow> [Alert ''red'' [] [Txt t], Link ''Download'' url])"

definition previewModal_view :: "screen \<Rightarrow> preview_state \<Rightarrow> browse_call ui" where
  "previewModal_view scr p =
     (let env = le_page (sc_list scr)
      in Portal True (pw_filename p) (Some [PageEv PgClosePreview])
        (case previewModal (ev_lower env) (ev_config env) p of
           BodyImage url nm \<Rightarrow> media_tree nm (image_view (media_props url (sc_media scr)))
         | BodyVideo url \<Rightarrow> media_tree [] (video_view (media_props url (sc_media scr)))
         | BodyPdf url \<Rightarrow> viewer_tree (pdf_view (sc_pdf scr))
         | BodyText url sz \<Rightarrow> viewer_tree (text_view (sc_text scr))
         | BodyNone \<Rightarrow> [Txt ''This file type cannot be previewed. Download to view.'']))"

subsection \<open>The bulk bar\<close>

definition bulkActionBar_view :: "nat \<Rightarrow> bool \<Rightarrow> bool \<Rightarrow> nat \<Rightarrow> nat \<Rightarrow> popover \<Rightarrow> browse_call ui list" where
  "bulkActionBar_view num busy disableDeletion defaultTtl maxTtl ttl =
     when_shown (0 < num)
       ([Button PlainType ''Clear selection'' False [BarEv ClearButton, PageEv PgBarClear],
         Txt (nat_str num @ '' selected''),
         Hint ''Copy shareable links (expire after the configured default; no sign-in needed)''
           [Button DefaultType ''Copy URLs'' busy [BarEv CopyButton, BulkCopyUrls]]]
        @ ttlPopover [Button DefaultType ''Choose link validity'' busy [BarEv ChevronButton]] defaultTtl maxTtl ttl
            [BarEv ClickOutside] (\<lambda>v. [BarEv (PickValidity (Some v))]) [BarEv ConfirmValidity, BulkCopyUrls]
        @ [Hint (if disableDeletion then ''Deletion is disabled in the server config.'' else [])
             [Button DefaultType ''Delete'' disableDeletion [BarEv DeleteButton, PageEv PgBarDelete]]])"

subsection \<open>FileBrowser\<close>

definition fileBrowser_view :: "screen \<Rightarrow> live \<Rightarrow> js_error + browse_call ui" where
  "fileBrowser_view scr st =
     (let p = lv_page st; b = pg_browser p; le = sc_list scr; env = le_page le in
      and_then (scrollArea_view scr st)
        (\<lambda>area. Inr (Group
          ([bucketPageHeader (br_bucket b) (br_roleId b) (live_object_count st) (sc_animatedCount scr) (sc_truncated st),
            fileBrowserHeader_view scr st]
           @ serverSearch_view env st
           @ area
           @ scrollToTopButton_view (sc_scrollTop scr)
           @ uploadDropZone_view (br_path b) (sc_drag scr)
           @ [folderUploadHintModal (sc_upload scr),
              confirm_delete_view (pg_confirmOpen p) [PageEv PgCancel] [ConfirmDeleteClicked] (pg_pendingDelete p) False,
              sortLoadAllModal (br_pendingSort b) (length (all_items (pg_listing p)))]
           @ (case pg_preview p of None \<Rightarrow> [] | Some pv \<Rightarrow> [previewModal_view scr pv])
           @ bulkActionBar_view (length (page_selected p)) (sc_bulkCopying scr) (ev_disableDeletion env)
               (le_defaultTtl le) (le_maxTtl le) (sc_barTtl scr)))))"

subsection \<open>Every control is an event of the page\<close>

definition page_accepts :: "page_env \<Rightarrow> page \<Rightarrow> browse_call \<Rightarrow> bool" where
  "page_accepts env p c = (case c of
       PageEv ev \<Rightarrow> page_enabled env p ev \<and> \<not> is_confirm ev
     | ConfirmDeleteClicked \<Rightarrow> pg_confirmOpen p
     | _ \<Rightarrow> True)"

definition accepted :: "page_env \<Rightarrow> page \<Rightarrow> browse_call set" where
  "accepted env p = {c. page_accepts env p c}"

lemma accepted_simps [simp]:
  "PageEv ev \<in> accepted env p \<longleftrightarrow> page_enabled env p ev \<and> \<not> is_confirm ev"
  "ConfirmDeleteClicked \<in> accepted env p \<longleftrightarrow> pg_confirmOpen p"
  "browser_ev ev' \<in> accepted env p \<longleftrightarrow> own_event ev'"
  "ShareEv nm se \<in> accepted env p" "BarEv be \<in> accepted env p" "BulkCopyUrls \<in> accepted env p"
  "UploadEv ue \<in> accepted env p" "UploadMenuToggled \<in> accepted env p" "LoadEv lc \<in> accepted env p"
  "LoadMenuToggled \<in> accepted env p" "ModeChosen m \<in> accepted env p" "SearchOpened \<in> accepted env p"
  "SearchClosed \<in> accepted env p" "RowMenuToggled nm \<in> accepted env p" "ScrolledToTop \<in> accepted env p"
  by (simp_all add: accepted_def page_accepts_def browser_ev_def)

lemma entry_accepted: "f \<in> set (page_rows env p) \<Longrightarrow> entry_calls env f \<subseteq> accepted env p"
  by (auto simp: entry_calls_def row_call_def list_ex_iff)

lemma table_accepted: "page_rows env p \<noteq> [] \<Longrightarrow> table_calls env t srt dis (page_rows env p) \<subseteq> accepted env p"
  using entry_accepted[of _ env p] by (auto simp: table_calls_def)

lemma calls_loader [simp]: "ui_calls dflt (loader_view label dl) = {}"
  by (simp add: loader_view_def when_shown_def)

lemma calls_empty_state [simp]: "ui_calls dflt (emptyState title d []) = {}"
  by (simp add: emptyState_def when_shown_def)

text \<open>The parts of the screen.\<close>

lemma accepted_header_parts:
  "ui_calls dflt (fileBreadcrumbs_view bucket roleId path allowed) \<subseteq> accepted env p"
  "ui_calls dflt (search_view small opened q) \<subseteq> accepted env p"
  "ui_calls dflt (sortControls_view t srt dis) \<subseteq> accepted env p"
  "(\<Union>u\<in>set (loadSplitButton_view m b). ui_calls dflt u) \<subseteq> accepted env p"
  "(\<Union>u\<in>set (uploadSplitButton_view m). ui_calls dflt u) \<subseteq> accepted env p"
      apply (auto simp: fileBreadcrumbs_view_def split: option.splits)[1]
     apply (auto simp: search_view_def searchInput_view_def when_shown_def split: search_box.splits if_splits)[1]
    apply (auto simp: sortControls_view_def split: option.splits if_splits)[1]
   apply (cases b; simp add: loadSplitButton_view_def)
  apply (simp add: uploadSplitButton_view_def)
  done

lemma accepted_mode: "ui_calls dflt (Hint t [Button ty l dis [ModeChosen m]]) \<subseteq> accepted env p"
  by simp

lemma accepted_header: "ui_calls dflt (fileBrowserHeader_view scr st) \<subseteq> accepted env p"
proof -
  have load: "(\<Union>u\<in>set (case ls of None \<Rightarrow> [] | Some c \<Rightarrow> loadSplitButton_view m c). ui_calls dflt u) \<subseteq> accepted env p"
    for ls m using accepted_header_parts(4) by (cases ls) auto
  have srt: "(\<Union>u\<in>set (when_shown b [sortControls_view t s d]). ui_calls dflt u) \<subseteq> accepted env p" for b t s d
    using accepted_header_parts(3) by (cases b) simp_all
  show ?thesis
    unfolding fileBrowserHeader_view_def Let_def calls_simps(10) set_append UN_Un list.set UN_insert UN_empty
    by (intro Un_least accepted_header_parts accepted_mode load srt empty_subsetI)
qed

lemma accepted_server_search: "(\<Union>u\<in>set (serverSearch_view env st). ui_calls dflt u) \<subseteq> accepted env' p"
  by (auto simp: serverSearch_view_def Let_def when_shown_def split: option.splits if_splits)

lemma accepted_scroll_area:
  assumes "scrollArea_view scr st = Inr us"
    and "list_all (\<lambda>v. vr_index v < length (page_rows (le_page (sc_list scr)) (lv_page st))) (le_rows (sc_list scr))"
  shows "(\<Union>u\<in>set us. ui_calls dflt u) \<subseteq> accepted (le_page (sc_list scr)) (lv_page st)"
proof -
  let ?env = "le_page (sc_list scr)" and ?rows = "page_rows (le_page (sc_list scr)) (lv_page st)"
  let ?view = "browserView (sc_isFetching scr) (pg_listing (lv_page st)) (sc_error scr) (sc_isFetchNextPageError scr) ?rows
    (br_serverSearchTerm (pg_browser (lv_page st))) (sc_mode scr) (showLoadMoreFooter (sc_lazyLoading scr) (sc_truncated st))"
  let ?footer = "\<lambda>shown. when_shown shown [fileBrowserLoadMoreFooter (sc_isFetchingNextPage scr)]"
  have footer: "(\<Union>u\<in>set (?footer b). ui_calls dflt u) \<subseteq> accepted ?env (lv_page st)" for b
    by (simp add: fileBrowserLoadMoreFooter_def when_shown_def)
  have shown: "?rows \<noteq> []" if "?view = ViewTable b \<or> ?view = ViewGrid b" for b
    using that by (auto simp: browserView_def split: if_splits option.splits)
  show ?thesis
  proof (cases ?view)
    case (ViewTable b)
    with assms(1) obtain t where t: "us = t # ?footer b"
      "fileTable_view (sc_list scr) (sc_truncated st) ?rows (page_selected (lv_page st)) (sc_sort st) (sc_busy scr) = Inr t"
      by (auto simp: scrollArea_view_def Let_def and_then_Inr_iff)
    from calls_table[OF t(2) assms(2)] table_accepted[of ?env "lv_page st"] shown[of b] ViewTable footer[of b]
    show ?thesis unfolding t(1) list.set UN_insert by blast
  next
    case (ViewGrid b)
    with assms(1) obtain t where t: "us = t # ?footer b"
      "fileGrid_view (sc_list scr) ?rows (page_selected (lv_page st)) = Inr t"
      by (auto simp: scrollArea_view_def Let_def and_then_Inr_iff)
    from calls_grid[OF t(2)] entry_accepted[of _ ?env "lv_page st"] footer[of b]
    show ?thesis unfolding t(1) list.set UN_insert by blast
  qed (use assms(1) in \<open>auto simp: scrollArea_view_def Let_def queryErrorState_def fileBrowserEmptyState_def\<close>)
qed

lemma calls_confirm:
  "ui_calls dflt (confirm_delete_view opened onClose onConfirm items False) = (if opened then set onClose \<union> set onConfirm else {})"
  by (auto simp: confirm_delete_view_def)

lemma accepted_dialogs:
  "ui_calls dflt (folderUploadHintModal up) \<subseteq> accepted env p"
  "ui_calls dflt (confirm_delete_view (pg_confirmOpen p) [PageEv PgCancel] [ConfirmDeleteClicked] names False) \<subseteq> accepted env p"
  "ui_calls dflt (sortLoadAllModal pending n) \<subseteq> accepted env p"
  "pg_preview p \<noteq> None \<Longrightarrow> ui_calls dflt (previewModal_view scr pv) \<subseteq> accepted env p"
  by (auto simp: folderUploadHintModal_def calls_confirm sortLoadAllModal_def Let_def previewModal_view_def
      media_tree_def viewer_tree_def split: modal_body.splits media_view.splits viewer.splits if_splits)

lemma accepted_bar:
  "(\<Union>u\<in>set (bulkActionBar_view (length (page_selected p)) busy (ev_disableDeletion env) d m ttl). ui_calls dflt u)
   \<subseteq> accepted env p"
  by (auto simp: bulkActionBar_view_def ttlPopover_def when_shown_def split: if_splits)

lemma rendered_accepted:
  assumes "fileBrowser_view scr st = Inr u"
    and "list_all (\<lambda>v. vr_index v < length (page_rows (le_page (sc_list scr)) (lv_page st))) (le_rows (sc_list scr))"
  shows "ui_calls dflt u \<subseteq> accepted (le_page (sc_list scr)) (lv_page st)"
proof -
  let ?p = "lv_page st" and ?env = "le_page (sc_list scr)"
  from assms(1) obtain area where area: "scrollArea_view scr st = Inr area"
    by (auto simp: fileBrowser_view_def Let_def and_then_Inr_iff)
  have header: "ui_calls dflt (bucketPageHeader b r n a t) \<subseteq> accepted ?env ?p" for b r n a t
    by (simp add: bucketPageHeader_def roleBadge_def)
  have top: "(\<Union>u\<in>set (scrollToTopButton_view k). ui_calls dflt u) \<subseteq> accepted ?env ?p" for k
    by (simp add: scrollToTopButton_view_def when_shown_def)
  have drop: "(\<Union>u\<in>set (uploadDropZone_view path dz). ui_calls dflt u) \<subseteq> accepted ?env ?p" for path dz
    by (auto simp: uploadDropZone_view_def when_shown_def split: if_splits)
  have preview: "(\<Union>u\<in>set (case pg_preview ?p of None \<Rightarrow> [] | Some pv \<Rightarrow> [previewModal_view scr pv]). ui_calls dflt u)
      \<subseteq> accepted ?env ?p"
    using accepted_dialogs(4) by (cases "pg_preview ?p") auto
  note parts = header top drop preview accepted_header accepted_server_search accepted_scroll_area[OF area assms(2)]
    accepted_dialogs(1-3) accepted_bar
  from assms(1) area have "ui_calls dflt u = ui_calls dflt (Group
      ([bucketPageHeader (br_bucket (pg_browser ?p)) (br_roleId (pg_browser ?p)) (live_object_count st)
          (sc_animatedCount scr) (sc_truncated st), fileBrowserHeader_view scr st]
       @ serverSearch_view ?env st @ area @ scrollToTopButton_view (sc_scrollTop scr)
       @ uploadDropZone_view (br_path (pg_browser ?p)) (sc_drag scr)
       @ [folderUploadHintModal (sc_upload scr),
          confirm_delete_view (pg_confirmOpen ?p) [PageEv PgCancel] [ConfirmDeleteClicked] (pg_pendingDelete ?p) False,
          sortLoadAllModal (br_pendingSort (pg_browser ?p)) (length (all_items (pg_listing ?p)))]
       @ (case pg_preview ?p of None \<Rightarrow> [] | Some pv \<Rightarrow> [previewModal_view scr pv])
       @ bulkActionBar_view (length (page_selected ?p)) (sc_bulkCopying scr) (ev_disableDeletion ?env)
           (le_defaultTtl (sc_list scr)) (le_maxTtl (sc_list scr)) (sc_barTtl scr)))"
    by (auto simp: fileBrowser_view_def Let_def)
  also have "\<dots> \<subseteq> accepted ?env ?p"
    unfolding calls_simps(10) set_append UN_Un list.set UN_insert UN_empty by (intro Un_least parts empty_subsetI)
  finally show ?thesis .
qed

subsection \<open>The browser driven by its screen\<close>

text \<open>What happens without a control: an answer of the listing query, the debounce timer, a route change and
  its effects.\<close>

fun background :: "page_event \<Rightarrow> bool" where
  "background (PgListing l) \<longleftrightarrow> True"
| "background PgDebounce \<longleftrightarrow> True"
| "background (PgBrowser (RouteChange r b path)) \<longleftrightarrow> True"
| "background (PgBrowser (AdoptPath pages)) \<longleftrightarrow> True"
| "background (PgBrowser (DrainResolved i completed)) \<longleftrightarrow> True"
| "background _ \<longleftrightarrow> False"

text \<open>A control is offered when some screen that shows the state has it: the mode, the width, the scroll
  position, the menus and the states of the queries are all arbitrary, the virtualizer asks for rows of the
  list only.\<close>

definition offered_by :: "button_type \<Rightarrow> screen \<Rightarrow> live \<Rightarrow> browse_call \<Rightarrow> bool" where
  "offered_by dflt scr st c \<longleftrightarrow>
     list_all (\<lambda>v. vr_index v < length (page_rows (le_page (sc_list scr)) (lv_page st))) (le_rows (sc_list scr))
     \<and> (case fileBrowser_view scr st of Inl e \<Rightarrow> False | Inr u \<Rightarrow> c \<in> ui_calls dflt u)"

definition screen_enabled :: "button_type \<Rightarrow> page_env \<Rightarrow> live \<Rightarrow> live_event \<Rightarrow> bool" where
  "screen_enabled dflt env st ev =
     (case ev of
        LvPage e \<Rightarrow> background e \<or> (\<exists>scr. le_page (sc_list scr) = env \<and> offered_by dflt scr st (PageEv e))
      | LvConfirm \<Rightarrow> (\<exists>scr. le_page (sc_list scr) = env \<and> offered_by dflt scr st ConfirmDeleteClicked)
      | LvRun k e \<Rightarrow> k < length (lv_runs st) \<and> dr_enabled (lv_runs st ! k) e)"

definition screen_reach :: "button_type \<Rightarrow> page_env \<Rightarrow> string \<Rightarrow> string \<Rightarrow> string \<Rightarrow> live \<Rightarrow> bool" where
  "screen_reach dflt env roleId bucket path =
     reach_by (live0 roleId bucket path) (screen_enabled dflt env) (live_step env)"

lemma offered_accepted:
  "offered_by dflt scr st c \<Longrightarrow> c \<in> accepted (le_page (sc_list scr)) (lv_page st)"
  unfolding offered_by_def using rendered_accepted[of scr st _ dflt] by (auto split: sum.splits)

lemma background_enabled: "background e \<Longrightarrow> page_enabled env p e \<and> \<not> is_confirm e"
  by (induction e rule: background.induct) auto

lemma screen_live: "screen_enabled dflt env st ev \<Longrightarrow> live_enabled env st ev"
  using background_enabled[of _ env "lv_page st"]
  by (auto simp: screen_enabled_def dest!: offered_accepted split: live_event.splits)

text \<open>Conversely the rows of the table offer all that the page accepts of their entries.\<close>

lemma rows_offered:
  assumes "fileTable_view le t files chosen srt dis = Inr u" "v \<in> set (le_rows le)"
    and "le_small le \<Longrightarrow> le_menus le (fe_name (files ! vr_index v))"
  shows "row_call ` set (row_calls (le_page le) (files ! vr_index v)) \<subseteq> ui_calls dflt u"
proof -
  let ?env = "le_page le"
  let ?row = "\<lambda>v. fileRow (ev_lower ?env) (le_fmt_date le) (ev_config ?env) (ev_disableDeletion ?env) (files ! vr_index v)
    (vr_index v) (fe_name (files ! vr_index v) \<in> set chosen)"
  from assms(1) obtain rs where rs: "map_sum_list ?row (le_rows le) = Inr rs"
    and u: "u = Group (tableHead_view (le_small le) t srt (allSelected files chosen) (table_headers srt dis)
      @ map (\<lambda>(v, r). fileRow_view le (files ! vr_index v) r) (zip (le_rows le) rs))"
    by (rule table_tree)
  from assms(2) obtain i where i: "i < length (le_rows le)" "le_rows le ! i = v" by (auto simp: in_set_conv_nth)
  with map_sum_list_Inr_length[OF rs] have mem: "(v, rs ! i) \<in> set (zip (le_rows le) rs)"
    by (auto simp: set_zip)
  have "?row v = Inr (rs ! i)" using map_sum_list_Inr_nth[OF rs i(1)] i(2) by simp
  from offers_row[OF this assms(3)]
  have "row_call ` set (row_calls ?env (files ! vr_index v)) \<subseteq> ui_calls dflt (fileRow_view le (files ! vr_index v) (rs ! i))" .
  also have "\<dots> \<subseteq> ui_calls dflt u"
    unfolding u calls_simps(10) set_append set_map by (rule UN_upper) (use mem in force)
  finally show ?thesis .
qed

text \<open>C9: in every state that clicks on the rendered screen and the background can lead to, each control of
  each screen that shows the state asks for something the page does; when the server configuration disables
  deletion, the confirmation is never open, no batch of deletes ever starts and no delete request is sent; and
  a preview that is open has a viewer for its file.\<close>

theorem screen_never_deletes_when_disabled:
  assumes "screen_reach dflt env roleId bucket path st"
  shows "(\<forall>scr c. le_page (sc_list scr) = env \<and> offered_by dflt scr st c \<longrightarrow> page_accepts env (lv_page st) c)
    \<and> (ev_disableDeletion env \<longrightarrow> \<not> pg_confirmOpen (lv_page st) \<and> lv_runs st = []
        \<and> (\<forall>p ok. ReqDelete p ok \<notin> set (pg_requests (lv_page st))))
    \<and> (\<forall>p. pg_preview (lv_page st) = Some p \<longrightarrow> previewModal (ev_lower env) (ev_config env) p \<noteq> BodyNone)"
proof -
  have "reach_by (live0 roleId bucket path) (live_enabled env) (live_step env) st"
    using reach_by_mono[OF assms[unfolded screen_reach_def]] screen_live by blast
  then have "live_inv env st" by (rule live_machine.inv_reach)
  then show ?thesis using offered_accepted
    by (auto simp: live_inv_def page_inv_def deletes_nothing_def accepted_def)
qed

definition plain_screen :: "page_env \<Rightarrow> screen" where
  "plain_screen env =
     \<lparr>sc_list = \<lparr>le_page = env, le_small = False, le_defaultTtl = 3600, le_maxTtl = 604800,
        le_shares = (\<lambda>_. share0 3600), le_menus = (\<lambda>_. False), le_fmt_date = id, le_media = (\<lambda>_. (None, False)),
        le_width = 1200, le_totalSize = 0, le_rows = [], le_gridRows = []\<rparr>,
      sc_mode = TableMode, sc_isFetching = False, sc_isFetchingNextPage = False, sc_error = None,
      sc_isFetchNextPageError = False, sc_loadingAll = False, sc_lazyLoading = True, sc_allowedPrefixes = None,
      sc_animatedCount = 0, sc_mobileSearchOpen = False, sc_loadMenuOpen = False, sc_uploadMenuOpen = False,
      sc_upload = upload_entry0 None, sc_drag = \<lparr>dz_isDragging = False, dz_counter = 0\<rparr>, sc_barTtl = popover0 3600,
      sc_bulkCopying = False, sc_scrollTop = 0, sc_loader = mount_loader 500, sc_text = blank_box [] 0,
      sc_pdf = blank_box [] 0, sc_media = \<lparr>mb_url = [], mb_failed = False\<rparr>\<rparr>"

lemma toggle_all_offered:
  assumes "page_rows env (lv_page st) \<noteq> []"
  shows "offered_by dflt (plain_screen env) st (PageEv PgToggleAll)"
proof -
  have "scrollArea_view (plain_screen env) st = Inr [Group (tableHead_view False (sc_truncated st) (sc_sort st)
      (allSelected (page_rows env (lv_page st)) (page_selected (lv_page st)))
      (table_headers (sc_sort st) (sc_busy (plain_screen env))))]"
    using assms by (simp add: scrollArea_view_def plain_screen_def browserView_def fileTable_view_def fileTable_def
        showLoadMoreFooter_def Let_def)
  then show ?thesis
    by (simp add: offered_by_def fileBrowser_view_def Let_def tableHead_view_def)
      (simp add: plain_screen_def)
qed

definition sample_shown :: "bool \<Rightarrow> live" where
  "sample_shown dis = live_step (sample_env dis) (live_step (sample_env dis) (live0 ''r'' ''b'' ''p'')
     (LvPage (PgListing one_file_listing))) (LvPage PgToggleAll)"

lemma sample_shown_page: "lv_page (sample_shown dis) = sample_page dis"
  by (simp add: sample_shown_def sample_page_def live0_def)

lemma sample_shown_reach: "screen_reach dflt (sample_env dis) ''r'' ''b'' ''p'' (sample_shown dis)"
proof -
  let ?env = "sample_env dis" and ?st = "live_step (sample_env dis) (live0 ''r'' ''b'' ''p'') (LvPage (PgListing one_file_listing))"
  have "page_rows ?env (lv_page ?st) = [sample_file ''a'' 1]"
    using sample_rows[of dis] by (simp add: live0_def)
  then have "offered_by dflt (plain_screen ?env) ?st (PageEv PgToggleAll)"
    by (intro toggle_all_offered) simp
  moreover have "le_page (sc_list (plain_screen ?env)) = ?env" by (simp add: plain_screen_def)
  ultimately have "screen_enabled dflt ?env ?st (LvPage PgToggleAll)"
    by (auto simp: screen_enabled_def)
  moreover have "screen_enabled dflt ?env (live0 ''r'' ''b'' ''p'') (LvPage (PgListing one_file_listing))"
    by (simp add: screen_enabled_def)
  ultimately show ?thesis unfolding screen_reach_def sample_shown_def
    by (intro reach_by.event reach_by.start)
qed

theorem screen_never_deletes_when_disabled_witness:
  "screen_reach DefaultType (sample_env True) ''r'' ''b'' ''p'' (sample_shown True)
   \<and> page_selected (lv_page (sample_shown True)) = [''a''] \<and> lv_runs (sample_shown True) = []
   \<and> \<not> pg_confirmOpen (lv_page (sample_shown True))"
  using screen_never_deletes_when_disabled[OF sample_shown_reach[of DefaultType True]] sample_shown_reach[of DefaultType True]
    sample_page_selected[of True] by (simp add: sample_shown_page sample_env_def)

end
