(* ===== verification/Drain_Run.thy ===== *)
theory Drain_Run
  imports Browser_Page
begin

text \<open>
  Loading a whole level while the user moves around: \<open>loadAll\<close> of \<open>clientLoadInfinite.ts\<close>, one chunk at a
  time, under the effects of \<open>components/FileBrowser/FileBrowser.tsx\<close> that stop it.  The loop is that of
  \<open>Client_Load\<close>; here it waits at every \<open>await\<close>, and its next request goes to whatever level the query
  observer is bound to by then.  The component uses the hook twice, for the folder and for the server
  search; both instances keep running when the other one is on screen.  A render and its effects are one
  step; a dialog of the component library keeps the page behind it from being used while it is open.
\<close>

subsection \<open>State\<close>

datatype source = FolderList | ServerSearch

text \<open>A level is what the component identifies it by: its context key, and the term of a search.\<close>

type_synonym level = "string \<times> string option"

record load_run =
  rn_level :: level
  rn_sort :: "(string \<times> sort_state) option"

text \<open>One instance of the hook: its ref, its state and the calls of \<open>loadAll\<close> that wait for a chunk.\<close>

record load_hook =
  hk_cancel :: bool
  hk_loadingAll :: bool
  hk_runs :: "load_run list"

text \<open>A request is logged with the level its drain was started on and the level it is sent to.\<close>

record drain_page =
  dp_browser :: browser
  dp_mounted :: bool
  dp_hook :: "source \<Rightarrow> load_hook"
  dp_requests :: "(level \<times> level option) list"
  dp_toasts :: "toast list"

definition drain_page0 :: "string \<Rightarrow> string \<Rightarrow> string \<Rightarrow> drain_page" where
  "drain_page0 roleId bucket path =
     \<lparr>dp_browser = browser0 roleId bucket path, dp_mounted = True,
      dp_hook = (\<lambda>_. \<lparr>hk_cancel = False, hk_loadingAll = False, hk_runs = []\<rparr>), dp_requests = [], dp_toasts = []\<rparr>"

definition active_source :: "browser \<Rightarrow> source" where
  "active_source b = (if br_serverSearchTerm b = None then FolderList else ServerSearch)"

fun level_of :: "browser \<Rightarrow> source \<Rightarrow> level" where
  "level_of b FolderList = (current_key b, None)"
| "level_of b ServerSearch = (current_key b, Some (case br_serverSearchTerm b of None \<Rightarrow> [] | Some t \<Rightarrow> t))"

definition dp_target :: "drain_page \<Rightarrow> source \<Rightarrow> level option" where
  "dp_target st w = (if dp_mounted st then Some (level_of (dp_browser st) w) else None)"

definition dp_active :: "drain_page \<Rightarrow> load_hook" where
  "dp_active st = dp_hook st (active_source (dp_browser st))"

subsection \<open>Steps\<close>

definition stopLoadAll :: "load_hook \<Rightarrow> load_hook" where
  "stopLoadAll h = h\<lparr>hk_cancel := True\<rparr>"

text \<open>The dependencies of the effect whose cleanup stops both drains.\<close>

definition left_level :: "browser \<Rightarrow> browser \<Rightarrow> bool" where
  "left_level b b' \<longleftrightarrow> current_key b \<noteq> current_key b'
     \<or> (br_serverSearchTerm b = None) \<noteq> (br_serverSearchTerm b' = None)"

definition rerender_browser :: "(string \<Rightarrow> string) \<Rightarrow> browser_event \<Rightarrow> drain_page \<Rightarrow> drain_page" where
  "rerender_browser trim ev st =
     (let b' = browser_step trim (dp_browser st) ev
      in st\<lparr>dp_browser := b',
            dp_hook := (if left_level (dp_browser st) b' then stopLoadAll \<circ> dp_hook st else dp_hook st)\<rparr>)"

text \<open>The continuation of a drain that a confirmed sort waits for.\<close>

definition resolve_sort ::
  "(string \<Rightarrow> string) \<Rightarrow> (string \<times> sort_state) option \<Rightarrow> bool \<Rightarrow> drain_page \<Rightarrow> drain_page" where
  "resolve_sort trim waiting completed st =
     (case waiting of
        None \<Rightarrow> st
      | Some d \<Rightarrow>
          (case index_of (br_drains (dp_browser st)) d of
             None \<Rightarrow> st
           | Some i \<Rightarrow> st\<lparr>dp_browser := browser_step trim (dp_browser st) (DrainResolved i completed)\<rparr>))"

text \<open>\<open>loadAll\<close> up to its first \<open>await\<close>.\<close>

definition begin_loadAll ::
  "(string \<Rightarrow> string) \<Rightarrow> source \<Rightarrow> (string \<times> sort_state) option \<Rightarrow> bool \<Rightarrow> bool \<Rightarrow> drain_page \<Rightarrow> drain_page" where
  "begin_loadAll trim w waiting hasNextPage isFetchingNextPage st =
     (if \<not> hasNextPage then resolve_sort trim waiting True st
      else if isFetchingNextPage then resolve_sort trim waiting False st
      else (let l = level_of (dp_browser st) w; h = dp_hook st w
            in st\<lparr>dp_hook := (dp_hook st)(w := \<lparr>hk_cancel = False, hk_loadingAll = True,
                    hk_runs = hk_runs h @ [\<lparr>rn_level = l, rn_sort = waiting\<rparr>]\<rparr>),
                  dp_requests := dp_requests st @ [(l, dp_target st w)]\<rparr>))"

text \<open>A chunk arrives for the drain that waits, as an error or with whether there are more: the loop goes on
  or ends, and \<open>finally\<close> clears \<open>loadingAll\<close>.\<close>

definition load_all_toast :: "js_error \<Rightarrow> toast" where
  "load_all_toast e = toast_of Red (Some ''Couldn't load all files'') (getErrorMessage e) duration_error"

definition chunk_arrives ::
  "(string \<Rightarrow> string) \<Rightarrow> source \<Rightarrow> js_error + bool \<Rightarrow> drain_page \<Rightarrow> drain_page" where
  "chunk_arrives trim w outcome st =
     (let h = dp_hook st w in
      case hk_runs h of
        [] \<Rightarrow> st
      | r # rs \<Rightarrow>
          (let ended = st\<lparr>dp_hook := (dp_hook st)(w := h\<lparr>hk_loadingAll := False, hk_runs := rs\<rparr>)\<rparr>
           in case outcome of
                Inl e \<Rightarrow> (resolve_sort trim (rn_sort r) False ended)\<lparr>dp_toasts := dp_toasts st @ [load_all_toast e]\<rparr>
              | Inr hasNext \<Rightarrow>
                  if hasNext \<and> \<not> hk_cancel h then st\<lparr>dp_requests := dp_requests st @ [(rn_level r, dp_target st w)]\<rparr>
                  else resolve_sort trim (rn_sort r) (\<not> hasNext) ended))"

datatype drain_event =
    DpBrowser browser_event
  | DpLoadAll bool bool bool
  | DpConfirm bool bool
  | DpStop
  | DpChunk source "js_error + bool"
  | DpUnmount

text \<open>What the screen offers: the sort controls unless a drain runs, the search on the server unless one is
  shown, nothing but the two answers while the sort dialog is open; the address can change at any time.\<close>

fun browser_offered :: "drain_page \<Rightarrow> browser_event \<Rightarrow> bool" where
  "browser_offered st (RouteChange r b path) \<longleftrightarrow> True"
| "browser_offered st (AdoptPath pages) \<longleftrightarrow> True"
| "browser_offered st (OpenFolder name) \<longleftrightarrow> br_pendingSort (dp_browser st) = None"
| "browser_offered st (SearchInput q) \<longleftrightarrow> br_pendingSort (dp_browser st) = None"
| "browser_offered st ExitSearch \<longleftrightarrow> br_pendingSort (dp_browser st) = None"
| "browser_offered st (SelectOp opn) \<longleftrightarrow> br_pendingSort (dp_browser st) = None"
| "browser_offered st (EnterSearch q) \<longleftrightarrow>
     br_pendingSort (dp_browser st) = None \<and> br_serverSearchTerm (dp_browser st) = None"
| "browser_offered st (RequestSort truncated s) \<longleftrightarrow>
     br_pendingSort (dp_browser st) = None \<and> \<not> hk_loadingAll (dp_active st)"
| "browser_offered st CancelSort \<longleftrightarrow> br_pendingSort (dp_browser st) \<noteq> None"
| "browser_offered st _ \<longleftrightarrow> False"

fun drain_enabled :: "drain_page \<Rightarrow> drain_event \<Rightarrow> bool" where
  "drain_enabled st (DpBrowser ev) \<longleftrightarrow> dp_mounted st \<and> browser_offered st ev"
| "drain_enabled st (DpLoadAll truncated hasNextPage isFetchingNextPage) \<longleftrightarrow>
     dp_mounted st \<and> br_pendingSort (dp_browser st) = None
     \<and> (case loadSplitButton truncated (hk_loadingAll (dp_active st)) isFetchingNextPage of
          None \<Rightarrow> False
        | Some b \<Rightarrow> CallLoadAll \<in> set (load_calls b))"
| "drain_enabled st (DpConfirm hasNextPage isFetchingNextPage) \<longleftrightarrow>
     dp_mounted st \<and> br_pendingSort (dp_browser st) \<noteq> None"
| "drain_enabled st DpStop \<longleftrightarrow> dp_mounted st \<and> hk_loadingAll (dp_active st)"
| "drain_enabled st (DpChunk w outcome) \<longleftrightarrow> hk_runs (dp_hook st w) \<noteq> []"
| "drain_enabled st DpUnmount \<longleftrightarrow> dp_mounted st"

fun drain_step :: "(string \<Rightarrow> string) \<Rightarrow> drain_page \<Rightarrow> drain_event \<Rightarrow> drain_page" where
  "drain_step trim st (DpBrowser ev) = rerender_browser trim ev st"
| "drain_step trim st (DpLoadAll truncated hasNextPage isFetchingNextPage) =
     begin_loadAll trim (active_source (dp_browser st)) None hasNextPage isFetchingNextPage st"
| "drain_step trim st (DpConfirm hasNextPage isFetchingNextPage) =
     begin_loadAll trim (active_source (dp_browser st))
       (map_option (\<lambda>s. (current_key (dp_browser st), s)) (br_pendingSort (dp_browser st)))
       hasNextPage isFetchingNextPage (rerender_browser trim ConfirmSort st)"
| "drain_step trim st DpStop =
     (let w = active_source (dp_browser st) in st\<lparr>dp_hook := (dp_hook st)(w := stopLoadAll (dp_hook st w))\<rparr>)"
| "drain_step trim st (DpChunk w outcome) = chunk_arrives trim w outcome st"
| "drain_step trim st DpUnmount = st\<lparr>dp_mounted := False, dp_hook := stopLoadAll \<circ> dp_hook st\<rparr>"

definition drain_reach :: "(string \<Rightarrow> string) \<Rightarrow> string \<Rightarrow> string \<Rightarrow> string \<Rightarrow> drain_page \<Rightarrow> bool" where
  "drain_reach trim roleId bucket path = reach_by (drain_page0 roleId bucket path) drain_enabled (drain_step trim)"

subsection \<open>One drain at a time, and none for a level that was left\<close>

definition hook_ok :: "level option \<Rightarrow> load_hook \<Rightarrow> bool" where
  "hook_ok target h \<longleftrightarrow> length (hk_runs h) \<le> 1 \<and> (hk_loadingAll h \<longleftrightarrow> hk_runs h \<noteq> [])
     \<and> (\<forall>r\<in>set (hk_runs h). target \<noteq> Some (rn_level r) \<longrightarrow> hk_cancel h)"

definition drain_inv :: "(string \<Rightarrow> string) \<Rightarrow> drain_page \<Rightarrow> bool" where
  "drain_inv trim st \<longleftrightarrow>
     browser_reachable trim (dp_browser st)
     \<and> (\<forall>w. hook_ok (dp_target st w) (dp_hook st w))
     \<and> (dp_mounted st \<and> br_pendingSort (dp_browser st) \<noteq> None \<longrightarrow> \<not> hk_loadingAll (dp_active st))
     \<and> (\<forall>q\<in>set (dp_requests st). snd q = Some (fst q))"

lemma hook_ok_stop: "hook_ok target h \<Longrightarrow> hook_ok target' (stopLoadAll h)"
  by (simp add: hook_ok_def stopLoadAll_def)

lemma drain_inv_hook: "drain_inv trim st \<Longrightarrow> hook_ok (dp_target st w) (dp_hook st w)"
  by (simp add: drain_inv_def)

text \<open>A step of the browser that is offered keeps the levels unless its effect stops the drains.\<close>

lemma level_cong:
  "current_key b' = current_key b \<Longrightarrow> br_serverSearchTerm b' = br_serverSearchTerm b \<Longrightarrow> level_of b' w = level_of b w"
  by (cases w) simp_all

lemma offered_term:
  assumes "browser_offered st ev \<or> ev = ConfirmSort" "\<not> left_level (dp_browser st) (browser_step trim (dp_browser st) ev)"
  shows "br_serverSearchTerm (browser_step trim (dp_browser st) ev) = br_serverSearchTerm (dp_browser st)"
proof (cases ev)
  case (RouteChange r b path)
  with assms(2) show ?thesis by (simp add: left_level_def render_def Let_def split: if_splits)
next
  case (SearchInput q)
  let ?b = "dp_browser st"
  show ?thesis
  proof (cases "br_serverSearchTerm ?b \<noteq> None \<and> trim q = []")
    case True
    with assms(2) SearchInput show ?thesis by (auto simp: left_level_def onSearchChange_def exitServerSearch_def)
  next
    case False
    with SearchInput show ?thesis by (auto simp: onSearchChange_def Let_def)
  qed
next
  case (EnterSearch q)
  with assms show ?thesis by (simp add: left_level_def enterServerSearch_def split: if_splits)
next
  case (AdoptPath pages)
  then show ?thesis by (simp add: adopt_server_path_def split: list.split option.split)
next
  case (OpenFolder nm)
  with assms(2) show ?thesis by (simp add: left_level_def navigateToFolder_def)
next
  case ExitSearch
  with assms(2) show ?thesis by (simp add: left_level_def exitServerSearch_def)
qed (use assms in \<open>simp_all add: requestSort_def cancelPendingSort_def confirmPendingSort_def split: option.split\<close>)

lemma offered_level:
  assumes "browser_offered st ev \<or> ev = ConfirmSort" "\<not> left_level (dp_browser st) (browser_step trim (dp_browser st) ev)"
  shows "level_of (browser_step trim (dp_browser st) ev) w = level_of (dp_browser st) w"
  using offered_term[OF assms] assms(2) by (intro level_cong) (simp_all add: left_level_def)

lemma offered_pending:
  assumes "browser_offered st ev" "br_pendingSort (browser_step trim (dp_browser st) ev) \<noteq> None"
  shows "(br_pendingSort (dp_browser st) \<noteq> None \<or> \<not> hk_loadingAll (dp_active st))
    \<and> active_source (browser_step trim (dp_browser st) ev) = active_source (dp_browser st)"
proof (cases ev)
  case (RouteChange r b path)
  with assms(2) show ?thesis by (simp add: active_source_def render_def Let_def split: if_splits)
next
  case (AdoptPath pages)
  with assms(2) show ?thesis by (simp add: active_source_def adopt_server_path_def split: list.splits option.splits if_splits)
next
  case (RequestSort t s)
  with assms show ?thesis by (simp add: active_source_def requestSort_def)
next
  case (SearchInput q)
  with assms show ?thesis by (simp add: onSearchChange_def exitServerSearch_def Let_def split: if_splits)
qed (use assms in \<open>simp_all add: navigateToFolder_def enterServerSearch_def exitServerSearch_def cancelPendingSort_def
    split: if_splits\<close>)

lemma resolve_sort_browser:
  "current_key (dp_browser (resolve_sort trim d c st)) = current_key (dp_browser st)"
  "br_serverSearchTerm (dp_browser (resolve_sort trim d c st)) = br_serverSearchTerm (dp_browser st)"
  "br_pendingSort (dp_browser (resolve_sort trim d c st)) = br_pendingSort (dp_browser st)"
  by (simp_all add: resolve_sort_def drain_resolved_def current_key_def split: option.split)

lemma resolve_sort_fields [simp]:
  "dp_mounted (resolve_sort trim d c st) = dp_mounted st" "dp_hook (resolve_sort trim d c st) = dp_hook st"
  "dp_requests (resolve_sort trim d c st) = dp_requests st"
  by (simp_all add: resolve_sort_def split: option.split)

lemma resolve_sort_target [simp]:
  "dp_target (resolve_sort trim d c st) w = dp_target st w" "dp_active (resolve_sort trim d c st) = dp_active st"
  using level_cong[OF resolve_sort_browser(1,2)]
  by (simp_all add: dp_target_def dp_active_def active_source_def resolve_sort_browser)

lemma resolve_sort_reachable:
  "browser_reachable trim (dp_browser st) \<Longrightarrow> browser_reachable trim (dp_browser (resolve_sort trim d c st))"
  by (auto simp: resolve_sort_def simp del: browser_step.simps intro: browser_reachable.event split: option.split)

lemma inv_resolve_sort: "drain_inv trim st \<Longrightarrow> drain_inv trim (resolve_sort trim d c st)"
  by (simp add: drain_inv_def resolve_sort_reachable resolve_sort_browser)

lemma inv_rerender_browser:
  assumes "drain_inv trim st" "browser_offered st ev \<or> ev = ConfirmSort" "dp_mounted st"
  shows "drain_inv trim (rerender_browser trim ev st)"
proof -
  let ?b = "dp_browser st" and ?b' = "browser_step trim (dp_browser st) ev" and ?st' = "rerender_browser trim ev st"
  have hooks: "hook_ok (dp_target ?st' w) (dp_hook ?st' w)" for w
  proof (cases "left_level ?b ?b'")
    case True
    from hook_ok_stop[OF drain_inv_hook[OF assms(1)]] True show ?thesis by (simp add: rerender_browser_def Let_def)
  next
    case False
    with offered_level[OF assms(2) False] have "dp_target ?st' w = dp_target st w" "dp_hook ?st' = dp_hook st"
      by (simp_all add: rerender_browser_def dp_target_def Let_def)
    with drain_inv_hook[OF assms(1)] show ?thesis by simp
  qed
  have "\<not> hk_loadingAll (dp_active ?st')" if pending: "br_pendingSort ?b' \<noteq> None"
  proof -
    from pending assms(2) have "browser_offered st ev" by (auto simp: confirmPendingSort_def split: option.splits)
    from offered_pending[OF this pending] assms(1,3)
    have "\<not> hk_loadingAll (dp_active st)" "active_source ?b' = active_source ?b" by (auto simp: drain_inv_def)
    then show ?thesis by (simp add: dp_active_def rerender_browser_def Let_def stopLoadAll_def)
  qed
  moreover have "browser_reachable trim ?b'" using assms(1) browser_reachable.event by (auto simp: drain_inv_def)
  ultimately show ?thesis using assms(1) hooks by (simp add: drain_inv_def) (simp add: rerender_browser_def Let_def)
qed

lemma inv_begin:
  assumes "drain_inv trim st" "dp_mounted st" "\<not> hk_loadingAll (dp_active st)" "br_pendingSort (dp_browser st) = None"
  shows "drain_inv trim (begin_loadAll trim (active_source (dp_browser st)) d h f st)"
proof (cases "h \<and> \<not> f")
  case False
  with inv_resolve_sort[OF assms(1)] show ?thesis by (auto simp: begin_loadAll_def)
next
  case True
  let ?w = "active_source (dp_browser st)"
  have "hk_runs (dp_hook st ?w) = []"
    using assms(1,3) by (auto simp: drain_inv_def hook_ok_def dp_active_def)
  with True assms show ?thesis
    by (auto simp: begin_loadAll_def Let_def drain_inv_def hook_ok_def dp_target_def)
qed

lemma inv_chunk:
  assumes "drain_inv trim st" "hk_runs (dp_hook st w) \<noteq> []"
  shows "drain_inv trim (chunk_arrives trim w outcome st)"
proof -
  let ?h = "dp_hook st w"
  from assms(1) have "length (hk_runs ?h) \<le> 1" by (simp add: drain_inv_def hook_ok_def)
  with assms(2) obtain r where r: "hk_runs ?h = [r]" by (cases "hk_runs ?h") simp_all
  let ?ended = "st\<lparr>dp_hook := (dp_hook st)(w := ?h\<lparr>hk_loadingAll := False, hk_runs := []\<rparr>)\<rparr>"
  have ended: "drain_inv trim ?ended"
    using assms(1) by (auto simp: drain_inv_def hook_ok_def dp_target_def dp_active_def)
  have more: "drain_inv trim (st\<lparr>dp_requests := dp_requests st @ [(rn_level r, dp_target st w)]\<rparr>)" if "\<not> hk_cancel ?h"
  proof -
    have "dp_target st w = Some (rn_level r)"
      using drain_inv_hook[OF assms(1), of w] r that by (auto simp: hook_ok_def)
    with assms(1) show ?thesis by (auto simp: drain_inv_def dp_target_def dp_active_def)
  qed
  have toast: "drain_inv trim (s\<lparr>dp_toasts := ts\<rparr>) \<longleftrightarrow> drain_inv trim s" for s ts
    by (simp add: drain_inv_def dp_target_def dp_active_def)
  show ?thesis
    using inv_resolve_sort[OF ended] more
    by (cases outcome) (simp_all add: chunk_arrives_def r Let_def toast del: fun_upd_apply)
qed

interpretation drain_machine: invariant "drain_page0 roleId bucket path" drain_enabled "drain_step trim" "drain_inv trim"
proof
  show "drain_inv trim (drain_page0 roleId bucket path)"
    by (simp add: drain_inv_def drain_page0_def hook_ok_def browser_reachable.start browser0_def[symmetric])
      (simp add: browser0_def)
next
  fix st ev
  assume inv: "drain_inv trim st" and en: "drain_enabled st ev"
  show "drain_inv trim (drain_step trim st ev)"
  proof (cases ev)
    case (DpBrowser e)
    with inv en inv_rerender_browser show ?thesis by simp
  next
    case (DpLoadAll t h f)
    with en have "\<not> hk_loadingAll (dp_active st)" by (auto simp: loadSplitButton_def split: option.splits if_splits)
    with DpLoadAll inv en inv_begin show ?thesis by simp
  next
    case (DpConfirm h f)
    have inv': "drain_inv trim (rerender_browser trim ConfirmSort st)" using inv en DpConfirm inv_rerender_browser by simp
    have same: "active_source (dp_browser (rerender_browser trim ConfirmSort st)) = active_source (dp_browser st)"
      "br_pendingSort (dp_browser (rerender_browser trim ConfirmSort st)) = None"
      "dp_mounted (rerender_browser trim ConfirmSort st) = dp_mounted st"
      by (simp_all add: rerender_browser_def Let_def active_source_def confirmPendingSort_def split: option.split)
    have "\<not> hk_loadingAll (dp_active (rerender_browser trim ConfirmSort st))"
      using inv en DpConfirm same(1)
      by (simp add: dp_active_def drain_inv_def) (simp add: rerender_browser_def Let_def stopLoadAll_def)
    from inv_begin[OF inv' _ this same(2)] same en DpConfirm show ?thesis by simp
  next
    case DpStop
    with inv show ?thesis
      by (auto simp: drain_inv_def hook_ok_def dp_target_def dp_active_def stopLoadAll_def Let_def)
  next
    case (DpChunk w out)
    with inv en inv_chunk show ?thesis by simp
  next
    case DpUnmount
    with inv show ?thesis by (auto simp: drain_inv_def hook_ok_def dp_target_def stopLoadAll_def)
  qed
qed

lemma drain_reach_inv: "drain_reach trim roleId bucket path st \<Longrightarrow> drain_inv trim st"
  unfolding drain_reach_def by (rule drain_machine.inv_reach)

text \<open>A drain that was stopped ends with the chunk it waits for.\<close>

lemma stopped_drain_ends:
  assumes "hk_runs (dp_hook st w) = [r]" "hk_cancel (dp_hook st w)"
  shows "hk_runs (dp_hook (chunk_arrives trim w outcome st) w) = []
    \<and> dp_requests (chunk_arrives trim w outcome st) = dp_requests st"
  using assms by (simp add: chunk_arrives_def Let_def split: sum.split)

text \<open>Left alone, the machine is the loop of \<open>Client_Load\<close>: fed with the chunks a server has left, it makes one
  request for each of them, ends with the last one, and reports to the waiting sort what the loop returns.\<close>

lemma chunks_run:
  assumes "serves queryFn n tok chunks" "hk_runs (dp_hook st w) = [r]" "\<not> hk_cancel (dp_hook st w)"
  shows "\<exists>st'. run_by drain_enabled (drain_step trim) (map (\<lambda>c. DpChunk w (Inr (pg_next_token c \<noteq> None))) chunks) st = Some st'
    \<and> hk_runs (dp_hook st' w) = [] \<and> length (dp_requests st') + 1 = length (dp_requests st) + length chunks
    \<and> dp_browser st' = dp_browser (resolve_sort trim (rn_sort r) True st)"
  using assms
proof (induction queryFn n tok chunks arbitrary: st rule: serves.induct)
  case (2 queryFn n tok c)
  then show ?case by (simp add: chunk_arrives_def Let_def) (simp add: resolve_sort_def split: option.split)
next
  case (3 queryFn n tok c d rest)
  from 3 have c: "pg_next_token c \<noteq> None" "serves queryFn (Suc n) (pg_next_token c) (d # rest)"
    and run: "hk_runs (dp_hook st w) = [r]" "\<not> hk_cancel (dp_hook st w)" by simp_all
  let ?st = "st\<lparr>dp_requests := dp_requests st @ [(rn_level r, dp_target st w)]\<rparr>"
  have step: "drain_step trim st (DpChunk w (Inr (pg_next_token c \<noteq> None))) = ?st"
    using c(1) run by (simp add: chunk_arrives_def)
  have sorted: "dp_browser (resolve_sort trim (rn_sort r) True ?st) = dp_browser (resolve_sort trim (rn_sort r) True st)"
    by (simp add: resolve_sort_def split: option.split)
  from 3(1)[OF c(2), of ?st] run obtain st' where
    "run_by drain_enabled (drain_step trim) (map (\<lambda>c. DpChunk w (Inr (pg_next_token c \<noteq> None))) (d # rest)) ?st = Some st'"
    "hk_runs (dp_hook st' w) = []" "length (dp_requests st') + 1 = length (dp_requests ?st) + length (d # rest)"
    "dp_browser st' = dp_browser (resolve_sort trim (rn_sort r) True ?st)" by auto
  then show ?case using step run(1) sorted
    by (intro exI[of _ st']) (simp only: list.map run_by.simps drain_enabled.simps, simp)
qed simp

lemma uninterrupted_drain:
  assumes "serves queryFn (qs_requests q) (next_param (qs_pages q)) chunks"
    and "hk_runs (dp_hook st w) = [r]" "\<not> hk_cancel (dp_hook st w)"
  shows "\<exists>st' q' completed. drain (q_fetchNext queryFn) q_hasNext (\<lambda>_. False) 0 q = Some (Inr completed, q')
    \<and> qs_pages q' = qs_pages q @ chunks
    \<and> run_by drain_enabled (drain_step trim) (map (\<lambda>c. DpChunk w (Inr (pg_next_token c \<noteq> None))) chunks) st = Some st'
    \<and> hk_runs (dp_hook st' w) = [] \<and> dp_browser st' = dp_browser (resolve_sort trim (rn_sort r) completed st)"
  using chunks_run[OF assms] drain_serves[OF assms(1), of "\<lambda>_. False" 0] by fastforce

text \<open>C4: whatever the user does while a level is being loaded, every request of a drain asks for a chunk of
  the level the drain was started on: never of the folder or of the search the user has moved to, and none
  after the page is left.  Each instance of the hook runs at most one drain, and shows Stop exactly while it
  does; a drain whose level was left ends with the chunk it waits for.\<close>

theorem drains_stay_on_their_level:
  assumes "drain_reach trim roleId bucket path st"
  shows "(\<forall>q\<in>set (dp_requests st). snd q = Some (fst q))
    \<and> (\<forall>w. length (hk_runs (dp_hook st w)) \<le> 1 \<and> (hk_loadingAll (dp_hook st w) \<longleftrightarrow> hk_runs (dp_hook st w) \<noteq> []))
    \<and> (\<forall>w r outcome. r \<in> set (hk_runs (dp_hook st w)) \<and> dp_target st w \<noteq> Some (rn_level r) \<longrightarrow>
         hk_runs (dp_hook (drain_step trim st (DpChunk w outcome)) w) = []
         \<and> dp_requests (drain_step trim st (DpChunk w outcome)) = dp_requests st)"
proof (intro conjI allI impI)
  note inv = drain_reach_inv[OF assms]
  show "\<forall>q\<in>set (dp_requests st). snd q = Some (fst q)" using inv by (simp add: drain_inv_def)
  show "length (hk_runs (dp_hook st w)) \<le> 1" "hk_loadingAll (dp_hook st w) \<longleftrightarrow> hk_runs (dp_hook st w) \<noteq> []" for w
    using drain_inv_hook[OF inv, of w] by (simp_all add: hook_ok_def)
  fix w r outcome
  assume left: "r \<in> set (hk_runs (dp_hook st w)) \<and> dp_target st w \<noteq> Some (rn_level r)"
  with drain_inv_hook[OF inv, of w] have "hk_runs (dp_hook st w) = [r]" "hk_cancel (dp_hook st w)"
    by (cases "hk_runs (dp_hook st w)"; auto simp: hook_ok_def)+
  from stopped_drain_ends[OF this, of trim outcome]
  show "hk_runs (dp_hook (drain_step trim st (DpChunk w outcome)) w) = []"
    "dp_requests (drain_step trim st (DpChunk w outcome)) = dp_requests st" by simp_all
qed

text \<open>Load all in a folder, and a click on a breadcrumb while its chunk is on the way.\<close>

definition left_drain :: drain_page where
  "left_drain = drain_step id (drain_step id (drain_page0 ''r'' ''b'' ''p'') (DpLoadAll True True False))
     (DpBrowser (RouteChange ''r'' ''b'' ''q''))"

lemma left_drain_reach: "drain_reach id ''r'' ''b'' ''p'' left_drain"
  unfolding drain_reach_def left_drain_def
  by (intro reach_by.event reach_by.start)
    (simp_all add: drain_page0_def browser0_def dp_active_def loadSplitButton_def begin_loadAll_def Let_def)

lemma left_drain_run:
  "hk_runs (dp_hook left_drain FolderList) = [\<lparr>rn_level = (''r/b/p'', None), rn_sort = None\<rparr>]"
  "dp_target left_drain FolderList = Some (''r/b/q'', None)"
  by (simp_all add: left_drain_def drain_page0_def browser0_def begin_loadAll_def rerender_browser_def active_source_def
      stopLoadAll_def dp_target_def render_def current_key_def context_key_def Let_def)

theorem drains_stay_on_their_level_witness:
  "hk_runs (dp_hook left_drain FolderList) \<noteq> []
   \<and> hk_runs (dp_hook (drain_step id left_drain (DpChunk FolderList (Inr True))) FolderList) = []
   \<and> dp_requests (drain_step id left_drain (DpChunk FolderList (Inr True))) = dp_requests left_drain"
proof -
  let ?r = "\<lparr>rn_level = (''r/b/p'', None), rn_sort = None\<rparr>"
  have "?r \<in> set (hk_runs (dp_hook left_drain FolderList)) \<and> dp_target left_drain FolderList \<noteq> Some (rn_level ?r)"
    by (simp add: left_drain_run)
  with drains_stay_on_their_level[OF left_drain_reach] show ?thesis by (metis empty_iff empty_set)
qed

end
