(* ===== verification/Spec2Isabelle.thy ===== *)
theory Spec2Isabelle
  imports Path_Utils Api_Types Api_Client Sort_Entries Format Ttl_Presets Shift_Select Files_Api
    Upload_Request Query_Keys Client_Load Toast Bulk_Delete Folder_Upload Upload_Batch Transfers
    Browser_View Browser_State Forms Mutations Role_Shape Role_Drawer Roles_Page Settings
    Machine Json_Api Session Router Shell Passwords Users_Page Tokens
    File_Kinds Preview File_List Action_Bar Upload_Entry Browser_Page Settings_Tabs Login Token_Dialog
    Delete_Run Live_Page Upload_Run Ui Feedback Token_Views User_Views Role_Views Roles_Live Settings_View
    Shell_Views List_Views Browser_Screen Drain_Run
begin

text \<open>
  Another S3 Manager, the single-page frontend (\<open>frontend/src\<close>, TypeScript and React).

  The program.  A user who comes through an authenticating gateway picks a role and a bucket and works
  on the objects of the bucket: lists, filters and sorts them, uploads, downloads, previews, shares and
  deletes them.  An administrator edits roles, settings, users and access tokens.  The frontend keeps a
  session (the CSRF token of \<open>/api/me\<close>), cached queries, and the state of the page on screen; everything
  else is behind HTTP endpoints.  The development models the parts of the frontend that decide
  something: which requests are sent, in which order and with which content, what is shown, and which
  state is kept.

  Foundations.  \<open>Base\<close> (sums, lists, deduplication), \<open>Js_Text\<close> (strings: split, join, trim of a
  character, numerals), \<open>Uri_Codec\<close> (encodeURIComponent and its inverse on UTF-8), \<open>Js_Sort\<close> (stable
  sort with a comparator; locale \<open>comparison\<close>), \<open>Machine\<close> (event-driven state machines: executable
  runs, reachability, the locales \<open>invariant\<close> and \<open>simulation\<close>, the second with a specification that reads
  the same events), \<open>Forms\<close> (values, baseline and errors of
  a form; locale \<open>baseline_form\<close>).  A JavaScript string is a list of bytes, its UTF-8 encoding; a thrown
  error or a rejected promise is the left part of a sum; a loop that need not end is a partial function
  into an option; mutable state is a record passed along, and the effects of a handler (requests,
  toasts, navigations, invalidated query keys) are lists in that record, in order.

  The data and the server.  \<open>Api_Types\<close> is \<open>types/api.ts\<close>; \<open>Api_Client\<close> is \<open>hooks/useApiClient.ts\<close> with
  \<open>utils/apiError.ts\<close>, \<open>utils/csrf.ts\<close> and the retry rule; \<open>Files_Api\<close> and \<open>Upload_Request\<close> are
  \<open>features/files/api/filesApi.ts\<close> (URLs and requests; one XMLHttpRequest as a step relation over its
  events); \<open>Json_Api\<close> holds the administration, token and account endpoints; \<open>Query_Keys\<close> and
  \<open>Mutations\<close> the cache keys and what each mutation invalidates.  Proved: the query string of a listing
  decodes to its parameters, the CSRF header is sent exactly on mutating requests with a token, an upload
  settles once and never after its end, every path survives encoding and decoding.

  The file browser (\<open>components/FileBrowser\<close>).  \<open>Path_Utils\<close> (paths, crumbs and the confinement to a
  prefix), \<open>Client_Load\<close> (chunked listing and the drain that loads everything; \<open>drain\<close> is
  \<open>partial_function (option)\<close> because a server may never stop, and the theorems say when it returns),
  \<open>Sort_Entries\<close> (the order of a listing), \<open>Shift_Select\<close> (selection), \<open>Bulk_Delete\<close> and \<open>Upload_Batch\<close>
  (the two batch loops with their counters, cancel flags and summaries), \<open>Folder_Upload\<close> (walking
  dropped folders, specified against the tree on the disk and the contract of a directory reader; the
  recursion follows the tree, so no fuel is needed), \<open>Upload_Entry\<close> (hint, pickers),
  \<open>Transfers\<close> (download, links, preview requests), \<open>Ttl_Presets\<close> and \<open>Action_Bar\<close> (validity of links, the
  bar of bulk actions), \<open>File_Kinds\<close> and \<open>Preview\<close> (icons, preview kinds, viewers that fetch), \<open>File_List\<close>
  (rows, cards, the grid), \<open>Browser_View\<close> (everything computed on a render), \<open>Browser_State\<close> (route,
  search, sort gate, drains) and \<open>Browser_Page\<close> (which control calls which handler).  Three of the loops
  are also machines that stop at every \<open>await\<close>: \<open>Delete_Run\<close> (one bulk delete, event by event) with
  \<open>Live_Page\<close> (the page while any number of them run, across changes of folder), \<open>Upload_Run\<close> (the
  batch over the requests of \<open>Upload_Request\<close> that the browser drives), and \<open>Drain_Run\<close> (loading all chunks of
  a level while the user moves to another one).  Proved: a running delete is the
  loop of \<open>Bulk_Delete\<close> under its own answers and clicks, ends after as many answers as there are names, keeps
  to the bucket, the role and the folder it was confirmed in, and is the single step of \<open>Browser_Page\<close> when nothing else happens; a
  file is reported uploaded exactly when the server accepted it; a batch of deletes counts every request as
  its server answered and its summary says so; a drain asks only
  for chunks of the level it was started on, and once stopped ends at the next chunk; a sort by size or date is applied
  only to a completely loaded folder, with the composition in this theory; which
  part of a sorted listing depends on the order of loading, with a collator that identifies names; the grid
  shows every entry once; a viewer shows only the current file; disabled deletion disables every way to delete.

  Sign-in and pages.  \<open>Session\<close> (cached identity, token, guards, sign-out; locale \<open>query_entry\<close>; the
  requests for the identity that run, those among them that an invalidation has replaced, and two
  functions of the events alone that say what is shown and which token is stored), \<open>Login\<close> (the form of the unrouted login page), \<open>Router\<close> (route
  table and landing), \<open>Shell\<close> (sidebar, header), \<open>Passwords\<close> (policy and forms), \<open>Toast\<close>, \<open>Format\<close>.

  Administration.  \<open>Role_Shape\<close>, \<open>Role_Drawer\<close>, \<open>Roles_Page\<close> (the wizard, editing, saving),
  \<open>Settings\<close> and \<open>Settings_Tabs\<close> (the form over the configuration and its controls), \<open>Users_Page\<close>,
  \<open>Tokens\<close> and \<open>Token_Dialog\<close>.  Proved: created roles are well formed, what a
  saved edit posts field by field, role names stay distinct, a loaded form saves what it shows, no configuration outside its limits is sent, an administrator cannot lock
  himself out.

  Rendered trees.  \<open>Ui\<close> is a datatype of what a component renders: texts, buttons, fields, forms, portals,
  with the calls their handlers make; \<open>ui_effects\<close> says what one use of a control calls, by mouse or with
  the Enter key, through the forms that enclose it.  \<open>Feedback\<close> (empty and failed states, confirmation,
  delayed loader, error boundary), \<open>Token_Views\<close>, \<open>User_Views\<close>, \<open>Role_Views\<close> and \<open>Settings_View\<close> give the
  screens of the administration as such trees, and show that every control makes only calls that the
  machine of its page admits, so the invariants of the machines hold of the rendered program.
  \<open>Shell_Views\<close> is the frame (header, menus, sidebars) with the fixed pages: every button and link leads to an
  address whose guards let the user in.  \<open>List_Views\<close> (the rows, cards and menus of a folder) and
  \<open>Browser_Screen\<close> (everything \<open>FileBrowser.tsx\<close> renders) put the screen on top of \<open>Live_Page\<close>: each control
  is an event of the page, a row offers all the page accepts of its entry, and with deletion disabled no use of
  the rendered controls deletes anything.
  \<open>Roles_Live\<close> is the role page as a machine over its addresses, its controls and the answers.  Proved:
  the token list inside the form of a user never submits that form; every posted configuration differs
  from the one on screen by one role.

  Flaws.  Where the code does not do what it means to, a theorem states what it does: a selection that
  survives a change of folder lets Delete remove namesakes elsewhere; a file called like a folder is
  deleted as the folder; a file with the extension "constructor" makes its folder fail to render; editing
  a role drops its prefix restriction; an edit typed while a save runs is lost; a dismissed reset dialog
  carries its password to the next user; of several dropped folders one is uploaded; the route parameters
  are decoded twice; a bulk delete that ends after the user has left its folder clears the selection made
  elsewhere; a read-only configuration does not lock the role wizard when it is opened by its address; a
  late answer to a save closes the drawer of another role; the token of a request for the identity that was
  replaced is stored when it is answered last; a second save of the settings before the refetch of the
  first reverts the upload limit.

  Parameters.  The browser and the packages are not in the repository.  The collator, \<open>Date.parse\<close> and the
  calendar, \<open>toLowerCase\<close>, \<open>trim\<close> and the Unicode classes of the password policy, \<open>fetch\<close>, the clipboard
  and the server are arguments of the definitions; what a theorem needs of them are its named hypotheses
  (\<open>comparison\<close>, \<open>case_folding\<close>, \<open>serves\<close>), and each has an instance.  Sizes in megabytes and grid widths
  are rationals: the divisions involved are by powers of two or are compared only after rounding.
  A button with only a spinner while its request runs (the confirmation dialogs, the forms of users and
  tokens) counts as disabled, which is what the component library documents; comments of the repository
  (\<open>SettingsPage.tsx\<close>, \<open>LoadSplitButton.tsx\<close>) say that a spinner alone does not block clicks, and the two
  controls they belong to are disabled by the code itself.  Invalidating a query cancels its running
  request when it has data, and the query function of the identity, which takes no abort signal, runs on.

  Not modelled.  The logo (\<open>components/CubeLogo\<close>: timelines of the GSAP package), colours and styling
  (\<open>app/theme.ts\<close>, the CSS modules), the nesting of providers, the long help texts of the settings, the
  virtualizer and the router's matching (packages), the test setup, and the Python server
  (\<open>src/another_s3_manager\<close>).  They hold no state that the modelled parts read.  Values that only the
  component library produces are left out: a number input may also hand over a string, the empty one when it
  is cleared and ones like a lone minus sign or dot while it is typed in, which pass the comparisons of
  \<open>SettingsPage.tsx\<close> (the number fields of the settings are numbers here); and a select that is cleared
  is not told from one that was never set.
\<close>

section \<open>Properties that span components\<close>

subsection \<open>A confirmed sort and the drain it starts\<close>

lemma serves_nonempty: "serves queryFn n tok chunks \<Longrightarrow> chunks \<noteq> []"
  by (cases chunks) auto

lemma sorted_whole_listing:
  assumes "comparison coll" "\<not> isDefaultSort srt" "\<not> ls_truncated l"
    and "sort_col srt = SortModified \<longrightarrow> dates_parse parse (ls_files l)"
  shows "\<exists>ds fs. visible_rows coll parse lower l srt False [] = ds @ fs
    \<and> mset ds = mset (ls_directories l) \<and> mset fs = mset (ls_files l) \<and> sorted_wrt (in_order coll parse srt) fs"
proof -
  have "visible_rows coll parse lower l srt False [] = sortEntries coll parse (ls_directories l) (ls_files l) srt"
    using assms(2,3) by (simp add: visible_rows_def filteredItems_def sortedItems_def effectiveSort_def)
  also have "\<dots> = js_sort (dir_compare coll srt) (ls_directories l) @ js_sort (total_compare coll parse srt) (ls_files l)"
    unfolding sortEntries_def sort_files_total[OF assms(4)] ..
  finally have rows: "visible_rows coll parse lower l srt False []
    = js_sort (dir_compare coll srt) (ls_directories l) @ js_sort (total_compare coll parse srt) (ls_files l)" .
  have "sorted_wrt (in_order coll parse srt) (js_sort (total_compare coll parse srt) (ls_files l))"
    by (rule sorted_wrt_mono_rel[OF _ comparison.sorted_js_sort[OF total_comparison[OF assms(1)]]])
      (rule total_compare_in_order)
  with rows show ?thesis
    by (intro exI[of _ "js_sort (dir_compare coll srt) (ls_directories l)"]
        exI[of _ "js_sort (total_compare coll parse srt) (ls_files l)"]) simp
qed

text \<open>C2: a size or date sort that the user confirms on a partly loaded folder shows the whole folder in
  that order: whatever happened before, when the drain the confirmation starts is not stopped and the
  user stays in the folder, it loads every remaining chunk, the sort becomes the preference, and the rows
  are all folders followed by all files of all chunks in the chosen order, so the first file is the
  biggest, or the newest, of the folder and not of its first chunk.\<close>

theorem confirmed_sort_shows_whole_folder:
  assumes "browser_reachable trim st" "br_pendingSort st = Some srt"
    and "qs_pages q \<noteq> []" "next_param (qs_pages q) \<noteq> None"
    and "serves queryFn (qs_requests q) (next_param (qs_pages q)) chunks" "\<not> pg_truncated (last chunks)"
    and "\<And>i. i + 1 < length chunks \<Longrightarrow> \<not> cancelled i"
    and "comparison coll"
    and "sort_col srt = SortModified \<longrightarrow> dates_parse parse (concat (map pg_files (qs_pages q @ chunks)))"
  shows "\<exists>q' st' ds fs.
      loadAll (q_fetchNext queryFn) q_hasNext cancelled (q_hasNext q) False q = Some (Inr True, q')
    \<and> st' = browser_step trim (browser_step trim st ConfirmSort) (DrainResolved (length (br_drains st)) True)
    \<and> br_sortPreference st' = srt
    \<and> visible_rows coll parse lower (useClientLoadDerived (qs_pages q')) (br_sortPreference st') False [] = ds @ fs
    \<and> mset ds = mset (ls_directories (useClientLoadDerived (qs_pages q')))
    \<and> mset fs = mset (concat (map pg_files (qs_pages q @ chunks)))
    \<and> sorted_wrt (in_order coll parse srt) fs"
proof -
  from drain_serves[OF assms(5), of cancelled 0] assms(7)
  obtain q' where q': "drain (q_fetchNext queryFn) q_hasNext cancelled 0 q = Some (Inr True, q')"
    "qs_pages q' = qs_pages q @ chunks" by auto
  have load: "loadAll (q_fetchNext queryFn) q_hasNext cancelled (q_hasNext q) False q = Some (Inr True, q')"
    using q'(1) assms(3,4) by (simp add: loadAll_def q_hasNext_def)
  have inv: "br_contextKeyRef st = current_key st" "\<not> isDefaultSort srt"
    using browser_reachable_inv[OF assms(1)] assms(2) by (auto simp: browser_inv_def)
  have pref: "br_sortPreference (browser_step trim (browser_step trim st ConfirmSort)
      (DrainResolved (length (br_drains st)) True)) = srt"
    using assms(2) inv(1) by (simp add: confirmPendingSort_def drain_resolved_def)
  let ?l = "useClientLoadDerived (qs_pages q')"
  have files: "ls_files ?l = concat (map pg_files (qs_pages q @ chunks))"
    by (simp add: useClientLoadDerived_def q'(2))
  have "\<not> ls_truncated ?l"
    using assms(6) serves_nonempty[OF assms(5)] by (simp add: useClientLoadDerived_def q'(2))
  from sorted_whole_listing[OF assms(8) inv(2) this, of parse lower] assms(9) files
  obtain ds fs where "visible_rows coll parse lower ?l srt False [] = ds @ fs"
    "mset ds = mset (ls_directories ?l)" "mset fs = mset (ls_files ?l)" "sorted_wrt (in_order coll parse srt) fs"
    by auto
  with load pref files show ?thesis by auto
qed

theorem confirmed_sort_shows_whole_folder_witness:
  "\<exists>fs. mset fs = {#sample_file ''a'' 1, sample_file ''b'' 1, sample_file ''c'' 1#}
     \<and> sorted_wrt (in_order ordinal (\<lambda>_. None) by_size) fs
     \<and> br_sortPreference (browser_step id (browser_step id (browser_step id sample_browser (RequestSort True by_size)) ConfirmSort)
         (DrainResolved 0 True)) = by_size"
proof -
  let ?st = "browser_step id sample_browser (RequestSort True by_size)"
  have reach: "browser_reachable id ?st" unfolding sample_browser_def by (intro browser_reachable.intros)
  have pend: "br_pendingSort ?st = Some by_size" and drains: "length (br_drains ?st) = 0"
    by (simp_all add: sample_browser_def browser0_def by_size_def requestSort_def isDefaultSort_def)
  have pages: "qs_pages first_chunk \<noteq> []" "next_param (qs_pages first_chunk) \<noteq> None"
    by (simp_all add: first_chunk_def next_param_def chunk_def)
  have serve: "serves two_chunks (qs_requests first_chunk) (next_param (qs_pages first_chunk))
      [chunk [''b''] (Some ''t2''), chunk [''c''] None]" "\<not> pg_truncated (last [chunk [''b''] (Some ''t2''), chunk [''c''] None])"
    by (simp_all add: first_chunk_def next_param_def two_chunks_def chunk_def)
  have col: "sort_col by_size = SortModified \<longrightarrow> dates_parse (\<lambda>_. None)
      (concat (map pg_files (qs_pages first_chunk @ [chunk [''b''] (Some ''t2''), chunk [''c''] None])))"
    by (simp add: by_size_def)
  have names: "concat (map pg_files (qs_pages first_chunk @ [chunk [''b''] (Some ''t2''), chunk [''c''] None]))
      = [sample_file ''a'' 1, sample_file ''b'' 1, sample_file ''c'' 1]"
    by (simp add: first_chunk_def chunk_def sample_file_def)
  from confirmed_sort_shows_whole_folder[OF reach pend pages serve _ by_ordinal.comparison_axioms col, of "\<lambda>_. False" id]
  obtain fs where fs: "br_sortPreference (browser_step id (browser_step id ?st ConfirmSort) (DrainResolved (length (br_drains ?st)) True)) = by_size"
    "mset fs = mset (concat (map pg_files (qs_pages first_chunk @ [chunk [''b''] (Some ''t2''), chunk [''c''] None])))"
    "sorted_wrt (in_order ordinal (\<lambda>_. None) by_size) fs" by auto
  have "mset fs = {#sample_file ''a'' 1, sample_file ''b'' 1, sample_file ''c'' 1#}"
    unfolding fs(2) names by (simp only: mset.simps add_mset_commute)
  then show ?thesis using fs(3) fs(1)[unfolded drains] by (intro exI[of _ fs] conjI)
qed

end
